(* ===== verification/Prelude.thy ===== *)
theory Prelude
  imports Main "HOL-Library.Word" "HOL-Library.AList"
begin

text \<open>
  Shared vocabulary of the development: bytes, Go's error values, the result type of a
  function that returns \<open>(T, error)\<close>, the width of Go's \<open>int\<close>, and the lemmas on lists,
  maps and results that the component theories use.

  Go's \<open>fmt.Errorf\<close> with the \<open>%w\<close> verb wraps another error; \<open>Wrap\<close> keeps that
  structure, and \<open>Errorf\<close> is an error built without a wrapped one. Only the constant part of
  a message is kept. Sentinel errors that the code compares against are constructors, and
  \<open>Panic\<close> is a run-time panic of the goroutine.

  A \<open>time.Time\<close> in UTC is the number of nanoseconds since January 1 of year 1, midnight, which
  is Go's zero time; a \<open>time.Duration\<close> is a number of nanoseconds.
\<close>

type_synonym time = int
type_synonym duration = int

type_synonym byte = "8 word"
type_synonym bytes = "8 word list"

datatype error =
    Errorf string
  | Wrap string error
  | ErrNotExist
  | ErrIO
  | ErrEOF
  | ErrUnexpectedEOF
  | ErrInsufficientBuddies
  | Panic string

type_synonym 'a result = "error + 'a"

named_theorems go_simps \<open>unfolding rules of the Go library operations\<close>
named_theorems path_simps \<open>facts about cleaned paths and their components\<close>
named_theorems len_simps \<open>lengths of encoded byte strings\<close>

subsection \<open>Results\<close>

definition rbind :: "'a result \<Rightarrow> ('a \<Rightarrow> 'b result) \<Rightarrow> 'b result" where
  "rbind r f = (case r of Inl e \<Rightarrow> Inl e | Inr x \<Rightarrow> f x)"

text \<open>\<open>if err != nil { return fmt.Errorf("...: %w", err) }\<close>\<close>

definition wrap :: "string \<Rightarrow> 'a result \<Rightarrow> 'a result" where
  "wrap msg r = (case r of Inl e \<Rightarrow> Inl (Wrap msg e) | Inr x \<Rightarrow> Inr x)"

definition is_ok :: "'a result \<Rightarrow> bool" where
  "is_ok r = (case r of Inl _ \<Rightarrow> False | Inr _ \<Rightarrow> True)"

lemma rbind_Inl [simp]: "rbind (Inl e) f = Inl e"
  by (simp add: rbind_def)

lemma rbind_Inr [simp]: "rbind (Inr x) f = f x"
  by (simp add: rbind_def)

lemma rbind_eq_Inr: "rbind r f = Inr y \<longleftrightarrow> (\<exists>x. r = Inr x \<and> f x = Inr y)"
  by (cases r) simp_all

lemma wrap_Inl [simp]: "wrap msg (Inl e) = Inl (Wrap msg e)"
  by (simp add: wrap_def)

lemma wrap_Inr [simp]: "wrap msg (Inr x) = Inr x"
  by (simp add: wrap_def)

lemma wrap_eq_Inr [simp]: "wrap msg r = Inr y \<longleftrightarrow> r = Inr y"
  by (cases r) simp_all

lemma is_ok_simps [simp]: "\<not> is_ok (Inl e)" "is_ok (Inr x)"
  by (simp_all add: is_ok_def)

lemma is_ok_iff: "is_ok r \<longleftrightarrow> (\<exists>x. r = Inr x)"
  by (cases r) simp_all

text \<open>
  A loop that stops at the first error and collects the results of its iterations, as
  \<open>for ... { v, err := f(x); if err != nil { return nil, err }; out = append(out, v) }\<close>.
\<close>

fun map_result :: "('a \<Rightarrow> 'b result) \<Rightarrow> 'a list \<Rightarrow> 'b list result" where
  "map_result f [] = Inr []"
| "map_result f (x # xs) =
     (case f x of Inl e \<Rightarrow> Inl e
      | Inr y \<Rightarrow> (case map_result f xs of Inl e \<Rightarrow> Inl e | Inr ys \<Rightarrow> Inr (y # ys)))"

lemma map_result_ok:
  "(\<And>x. x \<in> set xs \<Longrightarrow> f x = Inr (g x)) \<Longrightarrow> map_result f xs = Inr (map g xs)"
  by (induction xs) auto

lemma map_result_Inr_nth:
  "map_result f xs = Inr ys \<Longrightarrow> length ys = length xs \<and> (\<forall>i < length xs. f (xs ! i) = Inr (ys ! i))"
proof (induction xs arbitrary: ys)
  case Nil
  then show ?case by simp
next
  case (Cons x xs)
  then obtain y zs where "f x = Inr y" "map_result f xs = Inr zs" "ys = y # zs"
    by (auto split: sum.splits)
  with Cons.IH [of zs] show ?case
    by (auto simp: nth_Cons split: nat.splits)
qed

subsection \<open>Machine integers\<close>

text \<open>Go's \<open>int\<close> and \<open>int64\<close> on a 64-bit platform: the value modulo \<open>2 ^ 64\<close>, read as signed.\<close>

definition wrap64 :: "int \<Rightarrow> int" where
  "wrap64 x = (x + 2 ^ 63) mod 2 ^ 64 - 2 ^ 63"

definition in_int64 :: "int \<Rightarrow> bool" where
  "in_int64 x \<longleftrightarrow> - (2 ^ 63) \<le> x \<and> x < 2 ^ 63"

lemma wrap64_id: "in_int64 x \<Longrightarrow> wrap64 x = x"
  by (simp add: wrap64_def in_int64_def)

lemma wrap64_in_int64: "in_int64 (wrap64 x)"
  by (simp add: wrap64_def in_int64_def)

subsection \<open>Lists\<close>

lemma concat_replicate_Nil [simp]: "concat (replicate n []) = []"
  by (induction n) simp_all

lemma take_append_exact: "length xs = n \<Longrightarrow> take n (xs @ ys) = xs"
  by simp

lemma drop_append_exact: "length xs = n \<Longrightarrow> drop n (xs @ ys) = ys"
  by simp

lemma filter_empty_if: "(\<And>x. x \<in> set xs \<Longrightarrow> \<not> P x) \<Longrightarrow> filter P xs = []"
  by (simp add: filter_empty_conv)

lemma concat_slices:
  "length xs = n * k \<Longrightarrow> concat (map (\<lambda>i. take k (drop (i * k) xs)) [0..<n]) = xs"
proof (induction n arbitrary: xs)
  case 0
  then show ?case by simp
next
  case (Suc n)
  have front: "take (n * k) xs = concat (map (\<lambda>i. take k (drop (i * k) (take (n * k) xs))) [0..<n])"
    using Suc.prems by (intro Suc.IH [symmetric]) simp
  have same: "take k (drop (i * k) (take (n * k) xs)) = take k (drop (i * k) xs)" if "i < n" for i
  proof -
    have "k + i * k \<le> n * k"
      using that by (metis Suc_leI mult_Suc mult_le_mono1)
    then show ?thesis
      by (simp add: drop_take take_take min_def)
  qed
  have slices: "map (\<lambda>i. take k (drop (i * k) xs)) [0..<n]
      = map (\<lambda>i. take k (drop (i * k) (take (n * k) xs))) [0..<n]"
    using same by simp
  have "concat (map (\<lambda>i. take k (drop (i * k) xs)) [0..<Suc n])
      = concat (map (\<lambda>i. take k (drop (i * k) (take (n * k) xs))) [0..<n]) @ take k (drop (n * k) xs)"
    by (simp add: slices)
  also have "\<dots> = take (n * k) xs @ take k (drop (n * k) xs)"
    by (simp only: front [symmetric])
  also have "\<dots> = xs"
    using Suc.prems by (simp add: add.commute)
  finally show ?case .
qed

subsection \<open>Association lists as Go maps and directories\<close>

lemma map_of_update [simp]: "map_of (AList.update k v al) = (map_of al)(k \<mapsto> v)"
  by (rule update_conv')

lemma map_of_filter_keys:
  "map_of (filter (\<lambda>(k, v). P k) al) k = (if P k then map_of al k else None)"
  by (induction al) auto

lemma map_of_filter_pred:
  "map_of (filter (\<lambda>p. P (fst p)) al) k = (if P k then map_of al k else None)"
  by (induction al) auto

text \<open>
  A Go map is an association list. Ranging over a map visits every key once, in an order
  that the run-time chooses: the order is an argument of the operations that range, and
  \<open>is_order\<close> says that it is one.
\<close>

definition is_order :: "'k list \<Rightarrow> ('k \<times> 'v) list \<Rightarrow> bool" where
  "is_order ord m \<longleftrightarrow> distinct ord \<and> set ord = fst ` set m"

definition range_vals :: "'k list \<Rightarrow> ('k \<times> 'v) list \<Rightarrow> 'v list" where
  "range_vals ord m = List.map_filter (map_of m) ord"

lemma range_vals_simps [simp]:
  "range_vals [] m = []"
  "range_vals (k # ks) m = (case map_of m k of None \<Rightarrow> range_vals ks m | Some v \<Rightarrow> v # range_vals ks m)"
  by (auto simp: range_vals_def map_filter_simps split: option.splits)

lemma set_range_vals: "set (range_vals ord m) = {v. \<exists>k \<in> set ord. map_of m k = Some v}"
  by (induction ord) (auto split: option.splits)

lemma set_range_vals_order:
  "is_order ord m \<Longrightarrow> set (range_vals ord m) = ran (map_of m)"
  unfolding set_range_vals is_order_def ran_def
  by (auto dest: map_of_SomeD intro: rev_image_eqI) (metis domI dom_map_of_conv_image_fst image_iff)

lemma is_order_keys: "distinct (map fst m) \<Longrightarrow> is_order (map fst m) m"
  by (simp add: is_order_def)

lemma range_vals_keys: "distinct (map fst m) \<Longrightarrow> range_vals (map fst m) m = map snd m"
proof -
  assume d: "distinct (map fst m)"
  have "\<And>xs. set xs \<subseteq> set m \<Longrightarrow> range_vals (map fst xs) m = map snd xs"
  proof -
    fix xs show "set xs \<subseteq> set m \<Longrightarrow> range_vals (map fst xs) m = map snd xs"
      using d by (induction xs) (auto simp: map_of_is_SomeI)
  qed
  then show ?thesis by simp
qed

lemma map_of_delete [simp]: "map_of (AList.delete k al) = (map_of al)(k := None)"
  by (simp add: delete_conv')

end
