(* ===== verification/Go_Strings.thy ===== *)
theory Go_Strings
  imports Prelude
begin

text \<open>
  The parts of Go's \<open>strconv\<close>, \<open>strings\<close>, \<open>encoding/hex\<close> and \<open>encoding/binary\<close> that the
  program calls: decimal printing and parsing, hexadecimal encoding, prefix and suffix
  tests, splitting at a separator, and 32-bit integers in both byte orders. A Go string is a
  byte sequence, here a HOL \<open>string\<close>; \<open>bytes_of_string\<close> is the conversion
  \<open>[]byte(s)\<close>.
\<close>

unbundle bit_operations_syntax

subsection \<open>Strings as bytes\<close>

definition bytes_of_string :: "string \<Rightarrow> bytes" where
  "bytes_of_string s = map of_char s"

definition string_of_bytes :: "bytes \<Rightarrow> string" where
  "string_of_bytes bs = map (\<lambda>b. char_of (unat b)) bs"

definition HasPrefix :: "string \<Rightarrow> string \<Rightarrow> bool" where
  "HasPrefix s p \<longleftrightarrow> take (length p) s = p"

definition HasSuffix :: "string \<Rightarrow> string \<Rightarrow> bool" where
  "HasSuffix s p \<longleftrightarrow> length p \<le> length s \<and> drop (length s - length p) s = p"

definition TrimPrefix :: "string \<Rightarrow> string \<Rightarrow> string" where
  "TrimPrefix s p = (if HasPrefix s p then drop (length p) s else s)"

definition TrimSuffix :: "string \<Rightarrow> string \<Rightarrow> string" where
  "TrimSuffix s p = (if HasSuffix s p then take (length s - length p) s else s)"

text \<open>\<open>strings.Split(s, sep)\<close> for a one-byte separator: always at least one part.\<close>

fun split_at :: "char \<Rightarrow> string \<Rightarrow> string list" where
  "split_at c [] = [[]]"
| "split_at c (x # xs) =
     (if x = c then [] # split_at c xs
      else (case split_at c xs of [] \<Rightarrow> [[x]] | p # ps \<Rightarrow> (x # p) # ps))"

lemma split_at_nonempty [simp]: "split_at c s \<noteq> []"
  by (cases s) (auto split: list.splits)

lemma split_at_no_sep: "c \<notin> set s \<Longrightarrow> split_at c s = [s]"
  by (induction s) auto

lemma split_at_append:
  "c \<notin> set s \<Longrightarrow> split_at c (s @ c # t) = s # split_at c t"
  by (induction s) auto

lemma HasPrefix_append [simp]: "HasPrefix (p @ s) p"
  by (simp add: HasPrefix_def)

lemma HasSuffix_append [simp]: "HasSuffix (s @ p) p"
  by (simp add: HasSuffix_def)

lemma TrimPrefix_append [simp]: "TrimPrefix (p @ s) p = s"
  by (simp add: TrimPrefix_def)

lemma TrimSuffix_append [simp]: "TrimSuffix (s @ p) p = s"
  by (simp add: TrimSuffix_def)

subsection \<open>Decimal numbers\<close>

definition digit :: "nat \<Rightarrow> char" where
  "digit d = char_of (48 + d)"

definition digit_val :: "char \<Rightarrow> nat option" where
  "digit_val c = (let n = of_char c :: nat in if 48 \<le> n \<and> n < 58 then Some (n - 48) else None)"

fun nat_str :: "nat \<Rightarrow> string" where
  "nat_str n = (if n < 10 then [digit n] else nat_str (n div 10) @ [digit (n mod 10)])"

declare nat_str.simps [simp del]

fun digits_val :: "nat \<Rightarrow> string \<Rightarrow> nat option" where
  "digits_val acc [] = Some acc"
| "digits_val acc (c # cs) =
     (case digit_val c of None \<Rightarrow> None | Some d \<Rightarrow> digits_val (10 * acc + d) cs)"

definition Itoa :: "int \<Rightarrow> string" where
  "Itoa i = (if i < 0 then CHR ''-'' # nat_str (nat (- i)) else nat_str (nat i))"

text \<open>\<open>strconv.Atoi\<close>: an optional sign, then at least one digit; out of range is an error.\<close>

definition Atoi :: "string \<Rightarrow> int option" where
  "Atoi s =
     (let neg = (s \<noteq> [] \<and> hd s = CHR ''-'');
          body = (if s \<noteq> [] \<and> (hd s = CHR ''-'' \<or> hd s = CHR ''+'') then tl s else s)
      in if body = [] then None
         else case digits_val 0 body of
                None \<Rightarrow> None
              | Some n \<Rightarrow>
                  (let v = (if neg then - int n else int n)
                   in if in_int64 v then Some v else None))"

lemma of_char_digit: "d < 10 \<Longrightarrow> (of_char (digit d) :: nat) = 48 + d"
  by (simp add: digit_def)

lemma digit_val_digit [simp]: "d < 10 \<Longrightarrow> digit_val (digit d) = Some d"
  by (simp add: digit_val_def of_char_digit)

lemma digit_not_sign: "d < 10 \<Longrightarrow> digit d \<noteq> CHR ''-'' \<and> digit d \<noteq> CHR ''+''"
  using of_char_digit [of d] by auto

lemma digits_val_append:
  "digits_val acc (s @ t) = (case digits_val acc s of None \<Rightarrow> None | Some a \<Rightarrow> digits_val a t)"
  by (induction s arbitrary: acc) (auto split: option.splits)

lemma digits_val_nat_str: "digits_val 0 (nat_str n) = Some n"
proof (induction n rule: nat_str.induct)
  case (1 n)
  show ?case
  proof (cases "n < 10")
    case True
    then show ?thesis by (simp add: nat_str.simps [of n])
  next
    case False
    with "1.IH" show ?thesis
      by (simp add: nat_str.simps [of n] digits_val_append)
  qed
qed

lemma nat_str_nonempty [simp]: "nat_str n \<noteq> []"
  by (simp add: nat_str.simps [of n])

lemma nat_str_chars: "c \<in> set (nat_str n) \<Longrightarrow> \<exists>d < 10. c = digit d"
proof (induction n rule: nat_str.induct)
  case (1 n)
  show ?case
  proof (cases "n < 10")
    case True
    with "1.prems" show ?thesis by (auto simp: nat_str.simps [of n])
  next
    case False
    with "1.prems" consider "c \<in> set (nat_str (n div 10))" | "c = digit (n mod 10)"
      by (auto simp: nat_str.simps [of n])
    then show ?thesis
    proof cases
      case 1
      with False "1.IH" show ?thesis by blast
    next
      case 2
      moreover have "n mod 10 < 10" by simp
      ultimately show ?thesis by blast
    qed
  qed
qed

lemma hd_nat_str_not_sign: "hd (nat_str n) \<noteq> CHR ''-'' \<and> hd (nat_str n) \<noteq> CHR ''+''"
proof -
  have "hd (nat_str n) \<in> set (nat_str n)" by simp
  then obtain d where "d < 10" "hd (nat_str n) = digit d"
    using nat_str_chars by blast
  then show ?thesis using digit_not_sign [of d] by simp
qed

lemma Atoi_Itoa: "in_int64 i \<Longrightarrow> Atoi (Itoa i) = Some i"
proof (cases "i < 0")
  case True
  assume "in_int64 i"
  with True show ?thesis
    by (simp add: Atoi_def Itoa_def digits_val_nat_str Let_def)
next
  case False
  assume range: "in_int64 i"
  obtain c cs where cs: "nat_str (nat i) = c # cs"
    by (cases "nat_str (nat i)") auto
  then have "c \<noteq> CHR ''-''" "c \<noteq> CHR ''+''"
    using hd_nat_str_not_sign [of "nat i"] by auto
  with False range cs digits_val_nat_str [of "nat i"] show ?thesis
    by (simp add: Atoi_def Itoa_def Let_def)
qed

lemma Itoa_inj: "Itoa i = Itoa j \<Longrightarrow> i = j"
proof -
  assume eq: "Itoa i = Itoa j"
  have val: "digits_val 0 (nat_str n) = Some n" for n
    by (rule digits_val_nat_str)
  have hd: "hd (nat_str n) \<noteq> CHR ''-''" for n
    using hd_nat_str_not_sign by blast
  have inj: "nat_str m = nat_str n \<Longrightarrow> m = n" for m n
    by (metis val option.inject)
  show "i = j"
  proof (cases "i < 0"; cases "j < 0")
    assume "i < 0" "j < 0"
    with eq have "nat_str (nat (- i)) = nat_str (nat (- j))" by (simp add: Itoa_def)
    then have "nat (- i) = nat (- j)" by (rule inj)
    with \<open>i < 0\<close> \<open>j < 0\<close> show ?thesis by simp
  next
    assume "i < 0" "\<not> j < 0"
    with eq have "nat_str (nat j) = CHR ''-'' # nat_str (nat (- i))" by (simp add: Itoa_def)
    then show ?thesis using hd [of "nat j"] by simp
  next
    assume "\<not> i < 0" "j < 0"
    with eq have "nat_str (nat i) = CHR ''-'' # nat_str (nat (- j))" by (simp add: Itoa_def)
    then show ?thesis using hd [of "nat i"] by simp
  next
    assume "\<not> i < 0" "\<not> j < 0"
    with eq have "nat_str (nat i) = nat_str (nat j)" by (simp add: Itoa_def)
    then have "nat i = nat j" by (rule inj)
    with \<open>\<not> i < 0\<close> \<open>\<not> j < 0\<close> show ?thesis by simp
  qed
qed

lemma Itoa_chars: "c \<in> set (Itoa i) \<Longrightarrow> c = CHR ''-'' \<or> (\<exists>d < 10. c = digit d)"
  using nat_str_chars by (auto simp: Itoa_def split: if_splits)

lemma Itoa_no_slash: "CHR ''/'' \<notin> set (Itoa i)"
proof
  assume "CHR ''/'' \<in> set (Itoa i)"
  then have "CHR ''/'' = CHR ''-'' \<or> (\<exists>d < 10. CHR ''/'' = digit d)"
    by (rule Itoa_chars)
  then obtain d where "d < 10" "CHR ''/'' = digit d"
    by auto
  then have "(of_char (CHR ''/'') :: nat) = 48 + d"
    using of_char_digit [of d] by simp
  then show False by simp
qed

subsection \<open>Hexadecimal\<close>

definition hex_digit :: "nat \<Rightarrow> char" where
  "hex_digit d = (if d < 10 then char_of (48 + d) else char_of (87 + d))"

definition from_hex :: "char \<Rightarrow> nat option" where
  "from_hex c =
     (let n = of_char c :: nat
      in if 48 \<le> n \<and> n < 58 then Some (n - 48)
         else if 97 \<le> n \<and> n < 103 then Some (n - 87)
         else if 65 \<le> n \<and> n < 71 then Some (n - 55)
         else None)"

definition hex_EncodeToString :: "bytes \<Rightarrow> string" where
  "hex_EncodeToString bs = concat (map (\<lambda>b. [hex_digit (unat b div 16), hex_digit (unat b mod 16)]) bs)"

fun hex_DecodeString :: "string \<Rightarrow> bytes result" where
  "hex_DecodeString [] = Inr []"
| "hex_DecodeString [c] = Inl (Errorf ''encoding/hex: odd length hex string'')"
| "hex_DecodeString (c # d # cs) =
     (case (from_hex c, from_hex d) of
        (Some h, Some l) \<Rightarrow>
          (case hex_DecodeString cs of
             Inl e \<Rightarrow> Inl e
           | Inr bs \<Rightarrow> Inr (word_of_nat (16 * h + l) # bs))
      | _ \<Rightarrow> Inl (Errorf ''encoding/hex: invalid byte''))"

lemma from_hex_hex_digit [simp]: "d < 16 \<Longrightarrow> from_hex (hex_digit d) = Some d"
  by (auto simp: from_hex_def hex_digit_def Let_def)

lemma hex_halves: "unat (b :: byte) div 16 < 16" "unat (b :: byte) mod 16 < 16"
  using unsigned_less [of b, where ?'a = nat] by simp_all

lemma hex_DecodeString_digits:
  "h < 16 \<Longrightarrow> l < 16 \<Longrightarrow> hex_DecodeString (hex_digit h # hex_digit l # cs)
     = (case hex_DecodeString cs of Inl e \<Rightarrow> Inl e | Inr bs \<Rightarrow> Inr (word_of_nat (16 * h + l) # bs))"
  by simp

lemma word_of_nat_unat_id: "word_of_nat (unat w) = w"
  by simp

lemma hex_recombine: "word_of_nat (16 * (unat b div 16) + unat b mod 16) = (b :: byte)"
proof -
  have "16 * (unat b div 16) + unat b mod 16 = unat b" by simp
  then show ?thesis by (simp only: word_of_nat_unat_id)
qed

lemma hex_EncodeToString_Cons:
  "hex_EncodeToString (b # bs)
     = hex_digit (unat b div 16) # hex_digit (unat b mod 16) # hex_EncodeToString bs"
  by (simp add: hex_EncodeToString_def)

lemma hex_roundtrip [simp]: "hex_DecodeString (hex_EncodeToString bs) = Inr bs"
proof (induction bs)
  case Nil
  then show ?case by (simp add: hex_EncodeToString_def)
next
  case (Cons b bs)
  then show ?case
    by (simp only: hex_EncodeToString_Cons hex_DecodeString_digits [OF hex_halves] hex_recombine
        sum.case)
qed

lemma hex_EncodeToString_inj: "hex_EncodeToString xs = hex_EncodeToString ys \<Longrightarrow> xs = ys"
  by (metis hex_roundtrip sum.inject(2))

lemma length_hex_EncodeToString [len_simps]: "length (hex_EncodeToString bs) = 2 * length bs"
  by (induction bs) (simp_all add: hex_EncodeToString_def)

subsection \<open>Binary encodings\<close>

definition PutUint32_LE :: "32 word \<Rightarrow> bytes" where
  "PutUint32_LE w = [ucast w, ucast (drop_bit 8 w), ucast (drop_bit 16 w), ucast (drop_bit 24 w)]"

fun Uint32_LE :: "bytes \<Rightarrow> 32 word" where
  "Uint32_LE (a # b # c # d # _) =
     ucast a OR push_bit 8 (ucast b) OR push_bit 16 (ucast c) OR push_bit 24 (ucast d)"
| "Uint32_LE _ = 0"

definition PutUint32_BE :: "32 word \<Rightarrow> bytes" where
  "PutUint32_BE w = rev (PutUint32_LE w)"

definition Uint32_BE :: "bytes \<Rightarrow> 32 word" where
  "Uint32_BE bs = Uint32_LE (rev (take 4 bs))"

lemma length_PutUint32 [len_simps, simp]:
  "length (PutUint32_LE w) = 4" "length (PutUint32_BE w) = 4"
  by (simp_all add: PutUint32_LE_def PutUint32_BE_def)

lemma Uint32_LE_Put [simp]: "Uint32_LE (PutUint32_LE w @ rest) = w"
proof -
  have "(ucast (ucast w :: byte) :: 32 word)
      OR push_bit 8 (ucast (ucast (drop_bit 8 w) :: byte))
      OR push_bit 16 (ucast (ucast (drop_bit 16 w) :: byte))
      OR push_bit 24 (ucast (ucast (drop_bit 24 w) :: byte)) = w"
  proof (rule bit_word_eqI)
    fix n assume "n < LENGTH(32)"
    then consider "n < 8" | "8 \<le> n" "n < 16" | "16 \<le> n" "n < 24" | "24 \<le> n" "n < 32"
      by fastforce
    then show "bit ((ucast (ucast w :: byte) :: 32 word)
      OR push_bit 8 (ucast (ucast (drop_bit 8 w) :: byte))
      OR push_bit 16 (ucast (ucast (drop_bit 16 w) :: byte))
      OR push_bit 24 (ucast (ucast (drop_bit 24 w) :: byte))) n = bit w n"
      by cases (auto simp: bit_or_iff bit_push_bit_iff bit_ucast_iff bit_drop_bit_eq)
  qed
  then show ?thesis by (simp add: PutUint32_LE_def)
qed

lemma Uint32_LE_Put_only [simp]: "Uint32_LE (PutUint32_LE w) = w"
  using Uint32_LE_Put [of w "[]"] by simp

lemma Uint32_BE_Put [simp]: "Uint32_BE (PutUint32_BE w @ rest) = w"
  using Uint32_LE_Put [of w "[]"] by (simp add: Uint32_BE_def PutUint32_BE_def)

end
