(* ===== verification/Protocol.thy ===== *)
theory Protocol
  imports Go_Strings
begin

text \<open>
  The shared types of \<open>pkg/protocol/messages.go\<close>: file events, chunks, Reed-Solomon schemes
  and their choice, encoded shards, and the entries of the manifest.
\<close>

subsection \<open>File events\<close>

type_synonym Op = "32 word"

definition OpCreate :: Op where "OpCreate = 0"

definition OpWrite :: Op where "OpWrite = 1"

definition OpDelete :: Op where "OpDelete = 2"

definition OpRename :: Op where "OpRename = 3"

definition Op_String :: "Op \<Rightarrow> string" where
  "Op_String op =
     (if op = OpCreate then ''CREATE''
      else if op = OpWrite then ''WRITE''
      else if op = OpDelete then ''DELETE''
      else if op = OpRename then ''RENAME''
      else ''UNKNOWN'')"

record FileEvent =
  evPath :: string
  evOperation :: Op
  evTimestamp :: time

subsection \<open>Chunks and schemes\<close>

record Chunk =
  chIndex :: int
  chData :: bytes
  chHash :: bytes
  chSize :: int

record RSScheme =
  DataShards :: int
  ParityShards :: int

definition TotalShards :: "RSScheme \<Rightarrow> int" where
  "TotalShards s = DataShards s + ParityShards s"

definition BestScheme :: "int \<Rightarrow> RSScheme result" where
  "BestScheme buddies =
     (if buddies \<ge> 10 then Inr \<lparr>DataShards = 6, ParityShards = 4\<rparr>
      else if buddies \<ge> 8 then Inr \<lparr>DataShards = 5, ParityShards = 3\<rparr>
      else if buddies \<ge> 5 then Inr \<lparr>DataShards = 3, ParityShards = 2\<rparr>
      else if buddies \<ge> 3 then Inr \<lparr>DataShards = 2, ParityShards = 1\<rparr>
      else Inl ErrInsufficientBuddies)"

subsection \<open>Shards and manifest entries\<close>

record EncodedShard =
  esFileID :: string
  esShardIndex :: int
  esIsParity :: bool
  esCiphertext :: bytes
  esNonce :: bytes
  esPlaintextHash :: bytes
  esScheme :: RSScheme
  esChunkSize :: int

record ShardLocation =
  slShardIndex :: int
  slIsParity :: bool
  slBuddyID :: string
  slStorageKey :: string

record ManifestEntry =
  meFileID :: string
  mePath :: string
  meHash :: string
  meSize :: int
  meModified :: time
  meScheme :: RSScheme
  meShards :: "ShardLocation list"
  meVersion :: int
  meBackedAt :: time
  meCompressed :: bool

subsection \<open>The choice of a scheme\<close>

text \<open>
  A scheme returned for a number of buddies never needs more shards than there are buddies, is
  never a mirror (at least two data shards, so that no single shard is the file), and always
  tolerates the loss of a shard.
\<close>

lemma BestScheme_Inr:
  assumes "BestScheme n = Inr s"
  shows "3 \<le> n" and "TotalShards s \<le> n" and "2 \<le> DataShards s"
    and "1 \<le> ParityShards s" and "ParityShards s < DataShards s" and "TotalShards s \<le> 256"
  using assms by (auto simp: BestScheme_def TotalShards_def split: if_splits)

text \<open>More buddies never give a scheme that tolerates fewer losses.\<close>

lemma BestScheme_mono:
  assumes "BestScheme m = Inr s" and "BestScheme n = Inr t" and "m \<le> n"
  shows "ParityShards s \<le> ParityShards t \<and> DataShards s \<le> DataShards t"
  using assms by (auto simp: BestScheme_def split: if_splits)

lemma BestScheme_Inl: "BestScheme n = Inl e \<longleftrightarrow> n < 3 \<and> e = ErrInsufficientBuddies"
  by (auto simp: BestScheme_def)

end
