(* ===== verification/External.thy ===== *)
theory External
  imports Protocol
begin

text \<open>
  The third-party packages the program links against are parameters of the model, collected in
  one record: \<open>klauspost/reedsolomon\<close>, \<open>klauspost/compress/zstd\<close>, \<open>x/crypto/argon2\<close> and
  \<open>x/crypto/hkdf\<close>. What the code relies on is stated as named predicates, each the documented
  behaviour of the package; a theorem that needs one has it as a hypothesis. At the end stands a
  concrete set of functions that satisfies all of them, for the witnesses: a single-parity code
  for two data shards, the identity for compression, and fixed-size constant keys.

  A Go slice of byte slices in which some are nil is a list of options.
\<close>

unbundle bit_operations_syntax

record libs =
  rs_New :: "int \<Rightarrow> int \<Rightarrow> error option"
  rs_Encode :: "int \<Rightarrow> int \<Rightarrow> bytes list \<Rightarrow> bytes list result"
  rs_Verify :: "int \<Rightarrow> int \<Rightarrow> bytes option list \<Rightarrow> bool result"
  rs_Reconstruct :: "int \<Rightarrow> int \<Rightarrow> bytes option list \<Rightarrow> bytes option list result"
  zstd_NewWriter :: "error option"
  zstd_NewReader :: "error option"
  zstd_EncodeAll :: "bytes \<Rightarrow> bytes"
  zstd_DecodeAll :: "bytes \<Rightarrow> bytes result"
  argon2_IDKey :: "bytes \<Rightarrow> bytes \<Rightarrow> nat \<Rightarrow> nat \<Rightarrow> nat \<Rightarrow> nat \<Rightarrow> bytes"
  hkdf_read :: "bytes \<Rightarrow> bytes \<Rightarrow> bytes \<Rightarrow> nat \<Rightarrow> bytes result"

subsection \<open>Erasure codes\<close>

definition uniform :: "nat \<Rightarrow> bytes list \<Rightarrow> bool" where
  "uniform n xs \<longleftrightarrow> (\<forall>x \<in> set xs. length x = n)"

text \<open>Some shards of a set are available, the others missing.\<close>

definition erased_from :: "bytes list \<Rightarrow> bytes option list \<Rightarrow> bool" where
  "erased_from full shards \<longleftrightarrow>
     length shards = length full \<and>
     (\<forall>i < length full. shards ! i = None \<or> shards ! i = Some (full ! i))"

definition available :: "bytes option list \<Rightarrow> nat" where
  "available shards = length (filter (\<lambda>s. s \<noteq> None) shards)"

definition rs_lawful :: "libs \<Rightarrow> int \<Rightarrow> int \<Rightarrow> bool" where
  "rs_lawful L d p \<longleftrightarrow>
     0 < d \<and> 0 \<le> p \<and> rs_New L d p = None \<and>
     (\<forall>n xs. 0 < n \<longrightarrow> length xs = nat d \<longrightarrow> uniform n xs \<longrightarrow>
        (\<exists>par. rs_Encode L d p (xs @ replicate (nat p) (replicate n 0)) = Inr (xs @ par) \<and>
               length par = nat p \<and> uniform n par \<and>
               (\<forall>shards. erased_from (xs @ par) shards \<longrightarrow> nat d \<le> available shards \<longrightarrow>
                  rs_Reconstruct L d p shards = Inr (map Some (xs @ par)))))"

subsection \<open>Compression and key derivation\<close>

definition zstd_lawful :: "libs \<Rightarrow> bool" where
  "zstd_lawful L \<longleftrightarrow>
     zstd_NewWriter L = None \<and> zstd_NewReader L = None \<and>
     (\<forall>src. zstd_DecodeAll L (zstd_EncodeAll L src) = Inr src)"

text \<open>HKDF-SHA256 yields up to 255 blocks of 32 bytes, so a read of 32 bytes succeeds.\<close>

definition hkdf_lawful :: "libs \<Rightarrow> bool" where
  "hkdf_lawful L \<longleftrightarrow> (\<forall>secret salt info. \<exists>k. hkdf_read L secret salt info 32 = Inr k \<and> length k = 32)"

text \<open>Argon2id returns a key of the requested length.\<close>

definition argon2_lawful :: "libs \<Rightarrow> bool" where
  "argon2_lawful L \<longleftrightarrow> (\<forall>pw salt t m p n. length (argon2_IDKey L pw salt t m p n) = n)"

lemma erased_from_length: "erased_from full shards \<Longrightarrow> length shards = length full"
  by (simp add: erased_from_def)

lemma erased_from_self: "erased_from full (map Some full)"
  by (simp add: erased_from_def)

lemma available_all: "available (map Some xs) = length xs"
  by (simp add: available_def filter_map comp_def)

subsection \<open>A concrete instance\<close>

definition xor_shard :: "bytes \<Rightarrow> bytes \<Rightarrow> bytes" where
  "xor_shard a b = map (\<lambda>(x, y). x XOR y) (zip a b)"

fun xor_reconstruct :: "bytes option list \<Rightarrow> bytes option list result" where
  "xor_reconstruct [Some a, Some b, _] = Inr [Some a, Some b, Some (xor_shard a b)]"
| "xor_reconstruct [Some a, None, Some c] = Inr [Some a, Some (xor_shard a c), Some c]"
| "xor_reconstruct [None, Some b, Some c] = Inr [Some (xor_shard b c), Some b, Some c]"
| "xor_reconstruct _ = Inl (Errorf ''too few shards given'')"

fun xor_encode :: "bytes list \<Rightarrow> bytes list result" where
  "xor_encode [a, b, _] = Inr [a, b, xor_shard a b]"
| "xor_encode _ = Inl (Errorf ''too few shards given'')"

definition demo_libs :: libs where
  "demo_libs = \<lparr>
     rs_New = (\<lambda>d p. if d = 2 \<and> p = 1 then None else Some (Errorf ''unsupported'')),
     rs_Encode = (\<lambda>_ _. xor_encode),
     rs_Verify = (\<lambda>_ _ shards. Inr (case shards of [Some a, Some b, Some c] \<Rightarrow> c = xor_shard a b | _ \<Rightarrow> False)),
     rs_Reconstruct = (\<lambda>_ _. xor_reconstruct),
     zstd_NewWriter = None, zstd_NewReader = None,
     zstd_EncodeAll = (\<lambda>src. src), zstd_DecodeAll = Inr,
     argon2_IDKey = (\<lambda>pw salt _ _ _ n. take n (pw @ salt @ replicate n 0)),
     hkdf_read = (\<lambda>_ _ info n. Inr (take n (info @ replicate n 0)))\<rparr>"

lemma length_xor_shard [simp]: "length (xor_shard a b) = min (length a) (length b)"
  by (simp add: xor_shard_def)

lemma xor_shard_cancel:
  assumes "length a = length b"
  shows "xor_shard a (xor_shard a b) = b" and "xor_shard b (xor_shard a b) = a"
proof -
  have "x XOR (x XOR y) = y" "y XOR (x XOR y) = x" for x y :: byte
    by (simp_all add: ac_simps flip: xor.assoc)
  then show "xor_shard a (xor_shard a b) = b" "xor_shard b (xor_shard a b) = a"
    using assms by (auto simp: xor_shard_def intro!: nth_equalityI)
qed

lemma list_of_length_2: "length xs = 2 \<Longrightarrow> \<exists>a b. xs = [a, b]"
  by (auto simp: numeral_2_eq_2 length_Suc_conv)

lemma xor_reconstruct_erased:
  assumes len: "length a = length b"
    and er: "erased_from [a, b, xor_shard a b] shards" and av: "2 \<le> available shards"
  shows "xor_reconstruct shards = Inr (map Some [a, b, xor_shard a b])"
proof -
  have "length shards = 3" using er by (simp add: erased_from_def)
  then obtain x y z where sh: "shards = [x, y, z]"
    by (auto simp: numeral_3_eq_3 length_Suc_conv)
  have each: "i < 3 \<Longrightarrow> shards ! i = None \<or> shards ! i = Some ([a, b, xor_shard a b] ! i)" for i
    using er by (simp add: erased_from_def)
  have "x = None \<or> x = Some a" "y = None \<or> y = Some b" "z = None \<or> z = Some (xor_shard a b)"
    using each [of 0] each [of 1] each [of 2] sh by simp_all
  then show ?thesis
    using av sh by (auto simp: available_def xor_shard_cancel [OF len])
qed

lemma demo_rs_lawful: "rs_lawful demo_libs 2 1"
  unfolding rs_lawful_def
proof (intro conjI allI impI)
  fix n :: nat and xs :: "bytes list"
  assume "0 < n" and len: "length xs = nat 2" and uni: "uniform n xs"
  from len obtain a b where xs: "xs = [a, b]"
    using list_of_length_2 [of xs] by auto
  with uni have ab: "length a = n" "length b = n" by (simp_all add: uniform_def)
  show "\<exists>par. rs_Encode demo_libs 2 1 (xs @ replicate (nat 1) (replicate n 0)) = Inr (xs @ par) \<and>
      length par = nat 1 \<and> uniform n par \<and>
      (\<forall>shards. erased_from (xs @ par) shards \<longrightarrow> nat 2 \<le> available shards \<longrightarrow>
         rs_Reconstruct demo_libs 2 1 shards = Inr (map Some (xs @ par)))"
    using xor_reconstruct_erased [of a b] ab xs
    by (intro exI [of _ "[xor_shard a b]"]) (simp add: demo_libs_def uniform_def)
qed (simp_all add: demo_libs_def)

lemma demo_zstd_lawful: "zstd_lawful demo_libs"
  by (simp add: zstd_lawful_def demo_libs_def)

lemma demo_hkdf_lawful: "hkdf_lawful demo_libs"
  by (auto simp: hkdf_lawful_def demo_libs_def min_def)

lemma demo_argon2_lawful: "argon2_lawful demo_libs"
  by (auto simp: argon2_lawful_def demo_libs_def min_def)

end
