(* ===== verification/Go_Crypto.thy ===== *)
theory Go_Crypto
  imports Go_Strings
begin

text \<open>
  The two primitives of Go's standard library on which the program's confidentiality and
  integrity rest, as executable definitions: \<open>crypto/sha256\<close> (FIPS 180-4) and AES in Galois
  counter mode (\<open>crypto/aes\<close> with \<open>cipher.NewGCM\<close>, FIPS 197 and SP 800-38D, 12-byte nonce,
  16-byte tag, no additional data). The round constants of SHA-256 are computed from the cube
  roots of the primes and the AES substitution box from inversion in \<open>GF(2^8)\<close>, as the
  standards define them. What the component theories use of them is at the end: the lengths, and
  that \<open>Open\<close> inverts \<open>Seal\<close>. Messages are assumed to stay below the 64 GiB limit of GCM.
\<close>

unbundle bit_operations_syntax

subsection \<open>SHA-256\<close>

fun icbrt_bits :: "nat \<Rightarrow> nat \<Rightarrow> nat \<Rightarrow> nat \<Rightarrow> nat" where
  "icbrt_bits e n r 0 = r"
| "icbrt_bits e n r (Suc k) = (if (r + 2 ^ k) ^ e \<le> n then icbrt_bits e n (r + 2 ^ k) k else icbrt_bits e n r k)"

text \<open>The first 32 bits of the fractional part of the \<open>e\<close>-th root of \<open>p\<close>.\<close>

definition root_frac :: "nat \<Rightarrow> nat \<Rightarrow> 32 word" where
  "root_frac e p = word_of_nat (icbrt_bits e (p * 2 ^ (32 * e)) 0 37)"

definition sha_primes :: "nat list" where
  "sha_primes =
    [2, 3, 5, 7, 11, 13, 17, 19, 23, 29, 31, 37, 41, 43, 47, 53, 59, 61, 67, 71, 73, 79, 83, 89,
     97, 101, 103, 107, 109, 113, 127, 131, 137, 139, 149, 151, 157, 163, 167, 173, 179, 181, 191,
     193, 197, 199, 211, 223, 227, 229, 233, 239, 241, 251, 257, 263, 269, 271, 277, 281, 283, 293,
     307, 311]"

definition sha_K :: "32 word list" where
  "sha_K = map (root_frac 3) sha_primes"

definition sha_H0 :: "32 word list" where
  "sha_H0 = map (root_frac 2) (take 8 sha_primes)"

definition sha_pad :: "bytes \<Rightarrow> bytes" where
  "sha_pad m = m @ [128] @ replicate ((119 - length m mod 64) mod 64) 0
     @ map (\<lambda>i. word_of_nat (8 * length m div 2 ^ (56 - 8 * i))) [0..<8]"

fun sha_words :: "bytes \<Rightarrow> 32 word list" where
  "sha_words (a # b # c # d # rest) = Uint32_BE [a, b, c, d] # sha_words rest"
| "sha_words _ = []"

definition sha_extend :: "32 word list \<Rightarrow> 32 word list" where
  "sha_extend ws =
     (let t = length ws; x = ws ! (t - 15); y = ws ! (t - 2);
          s0 = word_rotr 7 x XOR word_rotr 18 x XOR drop_bit 3 x;
          s1 = word_rotr 17 y XOR word_rotr 19 y XOR drop_bit 10 y
      in ws @ [ws ! (t - 16) + s0 + ws ! (t - 7) + s1])"

type_synonym sha_state =
  "32 word \<times> 32 word \<times> 32 word \<times> 32 word \<times> 32 word \<times> 32 word \<times> 32 word \<times> 32 word"

definition sha_round :: "32 word \<times> 32 word \<Rightarrow> sha_state \<Rightarrow> sha_state" where
  "sha_round kw st =
     (case st of (a, b, c, d, e, f, g, h) \<Rightarrow>
        let S1 = word_rotr 6 e XOR word_rotr 11 e XOR word_rotr 25 e;
            ch = (e AND f) XOR (NOT e AND g);
            t1 = h + S1 + ch + fst kw + snd kw;
            S0 = word_rotr 2 a XOR word_rotr 13 a XOR word_rotr 22 a;
            maj = (a AND b) XOR (a AND c) XOR (b AND c)
        in (t1 + S0 + maj, a, b, c, d + t1, e, f, g))"

definition sha_block :: "32 word list \<Rightarrow> sha_state \<Rightarrow> sha_state" where
  "sha_block ws st =
     (case fold sha_round (zip sha_K ((sha_extend ^^ 48) ws)) st of
        (a', b', c', d', e', f', g', h') \<Rightarrow>
          case st of (a, b, c, d, e, f, g, h) \<Rightarrow>
            (a + a', b + b', c + c', d + d', e + e', f + f', g + g', h + h'))"

definition sha_init :: sha_state where
  "sha_init = (sha_H0 ! 0, sha_H0 ! 1, sha_H0 ! 2, sha_H0 ! 3,
               sha_H0 ! 4, sha_H0 ! 5, sha_H0 ! 6, sha_H0 ! 7)"

definition Sum256 :: "bytes \<Rightarrow> bytes" where
  "Sum256 m =
     (let p = sha_pad m;
          st = fold (\<lambda>i. sha_block (sha_words (take 64 (drop (64 * i) p)))) [0..<length p div 64] sha_init
      in case st of (a, b, c, d, e, f, g, h) \<Rightarrow>
           concat (map PutUint32_BE [a, b, c, d, e, f, g, h]))"

lemma length_Sum256 [len_simps, simp]: "length (Sum256 m) = 32"
  by (auto simp: Sum256_def Let_def split: prod.splits)

subsection \<open>AES\<close>

text \<open>Multiplication by \<open>x\<close> and multiplication in \<open>GF(2^8)\<close> modulo \<open>x^8 + x^4 + x^3 + x + 1\<close>.\<close>

definition xtime :: "byte \<Rightarrow> byte" where
  "xtime b = (if bit b 7 then push_bit 1 b XOR 27 else push_bit 1 b)"

fun gmul_bits :: "nat \<Rightarrow> byte \<Rightarrow> byte \<Rightarrow> byte" where
  "gmul_bits 0 a b = 0"
| "gmul_bits (Suc k) a b = (if unat b mod 2 = 1 then a else 0) XOR gmul_bits k (xtime a) (drop_bit 1 b)"

definition gmul :: "byte \<Rightarrow> byte \<Rightarrow> byte" where
  "gmul = gmul_bits 8"

definition ginv :: "byte \<Rightarrow> byte" where
  "ginv a = ((\<lambda>x. gmul a x) ^^ 254) 1"

definition sub_byte :: "byte \<Rightarrow> byte" where
  "sub_byte b = (let i = ginv b in i XOR word_rotl 1 i XOR word_rotl 2 i XOR word_rotl 3 i XOR word_rotl 4 i XOR 99)"

definition xor_bytes :: "bytes \<Rightarrow> bytes \<Rightarrow> bytes" where
  "xor_bytes xs ys = map (\<lambda>(x, y). x XOR y) (zip xs ys)"

text \<open>The key schedule: \<open>Nk\<close> key words of four bytes, extended to \<open>4 * (Nk + 7)\<close> words.\<close>

definition key_extend :: "nat \<Rightarrow> bytes list \<Rightarrow> bytes list" where
  "key_extend nk ws =
     (let i = length ws; t = last ws;
          t' = (if i mod nk = 0
                then xor_bytes (map sub_byte (rotate1 t)) [(xtime ^^ (i div nk - 1)) 1, 0, 0, 0]
                else if 6 < nk \<and> i mod nk = 4 then map sub_byte t else t)
      in ws @ [xor_bytes (ws ! (i - nk)) t'])"

definition expand_key :: "bytes \<Rightarrow> bytes list" where
  "expand_key key =
     (let nk = length key div 4
      in (key_extend nk ^^ (4 * (nk + 7) - nk)) (map (\<lambda>i. take 4 (drop (4 * i) key)) [0..<nk]))"

definition round_key :: "bytes list \<Rightarrow> nat \<Rightarrow> bytes" where
  "round_key ws r = concat (take 4 (drop (4 * r) ws))"

definition shift_rows :: "bytes \<Rightarrow> bytes" where
  "shift_rows st = map (\<lambda>i. st ! ((i + 4 * (i mod 4)) mod 16)) [0..<16]"

definition mix_columns :: "bytes \<Rightarrow> bytes" where
  "mix_columns st =
     map (\<lambda>i. let c = 4 * (i div 4); r = i mod 4
              in gmul 2 (st ! (c + r)) XOR gmul 3 (st ! (c + (r + 1) mod 4))
                 XOR st ! (c + (r + 2) mod 4) XOR st ! (c + (r + 3) mod 4)) [0..<16]"

definition add_key :: "bytes \<Rightarrow> bytes \<Rightarrow> bytes" where
  "add_key k st = map (\<lambda>i. st ! i XOR k ! i) [0..<16]"

definition aes_block :: "bytes \<Rightarrow> bytes \<Rightarrow> bytes" where
  "aes_block key blk =
     (let ws = expand_key key; nr = length key div 4 + 6;
          st = fold (\<lambda>r st. add_key (round_key ws r) (mix_columns (shift_rows (map sub_byte st))))
                 [1..<nr] (add_key (round_key ws 0) blk)
      in add_key (round_key ws nr) (shift_rows (map sub_byte st)))"

lemma length_aes_block [len_simps, simp]: "length (aes_block key blk) = 16"
  by (simp add: aes_block_def add_key_def Let_def)

subsection \<open>Galois counter mode\<close>

definition block_word :: "bytes \<Rightarrow> 128 word" where
  "block_word bs = foldl (\<lambda>w b. push_bit 8 w OR ucast b) 0 bs"

definition word_block :: "128 word \<Rightarrow> bytes" where
  "word_block w = map (\<lambda>i. ucast (drop_bit (120 - 8 * i) w)) [0..<16]"

definition gf_step :: "128 word \<Rightarrow> nat \<Rightarrow> 128 word \<times> 128 word \<Rightarrow> 128 word \<times> 128 word" where
  "gf_step x i zv =
     (case zv of (z, v) \<Rightarrow>
        (if bit x (127 - i) then z XOR v else z,
         if unat v mod 2 = 1 then drop_bit 1 v XOR push_bit 120 225 else drop_bit 1 v))"

definition gf_mul :: "128 word \<Rightarrow> 128 word \<Rightarrow> 128 word" where
  "gf_mul x y = fst (fold (gf_step x) [0..<128] (0, y))"

definition blocks :: "bytes \<Rightarrow> bytes list" where
  "blocks d = map (\<lambda>i. let b = take 16 (drop (16 * i) d) in b @ replicate (16 - length b) 0)
     [0..<(length d + 15) div 16]"

definition len_block :: "nat \<Rightarrow> bytes" where
  "len_block n = replicate 8 0 @ map (\<lambda>i. word_of_nat (8 * n div 2 ^ (56 - 8 * i))) [0..<8]"

definition ghash :: "128 word \<Rightarrow> bytes \<Rightarrow> 128 word" where
  "ghash h c = fold (\<lambda>b y. gf_mul (y XOR block_word b) h) (blocks c @ [len_block (length c)]) 0"

definition ctr_block :: "bytes \<Rightarrow> bytes \<Rightarrow> nat \<Rightarrow> bytes" where
  "ctr_block key nonce i = aes_block key (nonce @ PutUint32_BE (word_of_nat i))"

definition keystream :: "bytes \<Rightarrow> bytes \<Rightarrow> nat \<Rightarrow> bytes" where
  "keystream key nonce n = concat (map (\<lambda>i. ctr_block key nonce (i + 2)) [0..<(n + 15) div 16])"

definition ctr_xor :: "bytes \<Rightarrow> bytes \<Rightarrow> bytes \<Rightarrow> bytes" where
  "ctr_xor key nonce d = xor_bytes d (keystream key nonce (length d))"

definition gcm_tag :: "bytes \<Rightarrow> bytes \<Rightarrow> bytes \<Rightarrow> bytes" where
  "gcm_tag key nonce c =
     xor_bytes (word_block (ghash (block_word (aes_block key (replicate 16 0))) c))
       (ctr_block key nonce 1)"

definition gcm_Seal :: "bytes \<Rightarrow> bytes \<Rightarrow> bytes \<Rightarrow> bytes" where
  "gcm_Seal key nonce plaintext =
     (let c = ctr_xor key nonce plaintext in c @ gcm_tag key nonce c)"

definition gcm_Open :: "bytes \<Rightarrow> bytes \<Rightarrow> bytes \<Rightarrow> bytes result" where
  "gcm_Open key nonce ct =
     (if length ct < 16 then Inl (Errorf ''cipher: message authentication failed'')
      else let c = take (length ct - 16) ct; tag = drop (length ct - 16) ct
           in if tag = gcm_tag key nonce c then Inr (ctr_xor key nonce c)
              else Inl (Errorf ''cipher: message authentication failed''))"

subsection \<open>What the program relies on\<close>

lemma length_keystream: "n \<le> length (keystream key nonce n)"
proof -
  have "length (keystream key nonce n) = 16 * ((n + 15) div 16)"
    by (simp add: keystream_def length_concat ctr_block_def comp_def sum_list_triv)
  then show ?thesis by simp
qed

lemma length_xor_bytes [simp]: "length (xor_bytes xs ys) = min (length xs) (length ys)"
  by (simp add: xor_bytes_def)

lemma xor_bytes_twice: "length xs \<le> length ys \<Longrightarrow> xor_bytes (xor_bytes xs ys) ys = xs"
  by (rule nth_equalityI) (simp_all add: xor_bytes_def ac_simps)

lemma length_ctr_xor [len_simps, simp]: "length (ctr_xor key nonce d) = length d"
  using length_keystream [of "length d" key nonce] by (simp add: ctr_xor_def)

lemma ctr_xor_twice [simp]: "ctr_xor key nonce (ctr_xor key nonce d) = d"
proof -
  have "ctr_xor key nonce (ctr_xor key nonce d)
      = xor_bytes (xor_bytes d (keystream key nonce (length d))) (keystream key nonce (length d))"
    by (simp only: ctr_xor_def [of key nonce "ctr_xor key nonce d"] length_ctr_xor)
       (simp add: ctr_xor_def)
  also have "\<dots> = d"
    by (rule xor_bytes_twice) (rule length_keystream)
  finally show ?thesis .
qed

lemma length_gcm_tag [len_simps, simp]: "length (gcm_tag key nonce c) = 16"
  by (simp add: gcm_tag_def word_block_def ctr_block_def)

lemma length_gcm_Seal [len_simps, simp]: "length (gcm_Seal key nonce d) = length d + 16"
  by (simp add: gcm_Seal_def Let_def)

lemma gcm_Open_Seal [simp]: "gcm_Open key nonce (gcm_Seal key nonce d) = Inr d"
  by (simp add: gcm_Open_def gcm_Seal_def Let_def)

text \<open>\<open>Open\<close> accepts nothing but what \<open>Seal\<close> produces: the accepted text is the sealed plaintext.\<close>

lemma gcm_Open_only_Seal: "gcm_Open key nonce ct = Inr d \<Longrightarrow> ct = gcm_Seal key nonce d"
proof -
  assume "gcm_Open key nonce ct = Inr d"
  then have len: "16 \<le> length ct"
    and tag: "drop (length ct - 16) ct = gcm_tag key nonce (take (length ct - 16) ct)"
    and d: "d = ctr_xor key nonce (take (length ct - 16) ct)"
    by (auto simp: gcm_Open_def Let_def split: if_splits)
  have "ct = take (length ct - 16) ct @ drop (length ct - 16) ct" by simp
  then show ?thesis by (metis tag d ctr_xor_twice gcm_Seal_def)
qed

end
