(* ===== verification/Crypto.thy ===== *)
theory Crypto
  imports External Go_Crypto
begin

text \<open>
  \<open>internal/crypto/encryptor.go\<close>: key derivation and AES-GCM encryption of byte strings and
  of shards. Randomness is an argument: \<open>rand.Reader\<close> is a stream of bytes, or \<open>None\<close> when
  reading from it fails.

  The locale \<open>cipher\<close> is the contract the rest of the program relies on; it is interpreted for
  the AES-GCM functions and for the shard cipher built on them.
\<close>

type_synonym entropy = "(nat \<Rightarrow> byte) option"

definition rand_read :: "entropy \<Rightarrow> nat \<Rightarrow> bytes result" where
  "rand_read r n = (case r of None \<Rightarrow> Inl ErrIO | Some f \<Rightarrow> Inr (map f [0..<n]))"

definition SaltSize :: nat where
  "SaltSize = 16"

subsection \<open>Key derivation\<close>

definition DeriveKey :: "libs \<Rightarrow> string \<Rightarrow> bytes \<Rightarrow> bytes" where
  "DeriveKey L password salt =
     argon2_IDKey L (bytes_of_string password) salt 3 (64 * 1024) 4 32"

definition DeriveCircleKey :: "libs \<Rightarrow> string \<Rightarrow> string \<Rightarrow> bytes \<Rightarrow> bytes" where
  "DeriveCircleKey L password circleID salt =
     DeriveKey L (password @ [CHR 0x00] @ circleID) salt"

definition NewSalt :: "entropy \<Rightarrow> bytes result" where
  "NewSalt r = wrap ''crypto: generate salt'' (rand_read r SaltSize)"

definition deriveSubKey :: "libs \<Rightarrow> bytes \<Rightarrow> bytes \<Rightarrow> string \<Rightarrow> bytes result" where
  "deriveSubKey L secret salt info =
     wrap ''crypto: HKDF derive'' (hkdf_read L secret salt (bytes_of_string info) 32)"

definition DeriveFileKey :: "libs \<Rightarrow> bytes \<Rightarrow> bytes \<Rightarrow> bytes result" where
  "DeriveFileKey L masterKey fileHash =
     deriveSubKey L masterKey fileHash ''cerclbackup-file-key-v1''"

definition DeriveShardKey :: "libs \<Rightarrow> bytes \<Rightarrow> int \<Rightarrow> bytes result" where
  "DeriveShardKey L fileKey shardIndex =
     deriveSubKey L fileKey [] (''cerclbackup-shard-key-v1-'' @ Itoa shardIndex)"

subsection \<open>Encryption\<close>

definition valid_key :: "bytes \<Rightarrow> bool" where
  "valid_key key \<longleftrightarrow> length key = 16 \<or> length key = 24 \<or> length key = 32"

definition NewCipher :: "bytes \<Rightarrow> unit result" where
  "NewCipher key = (if valid_key key then Inr () else Inl (Errorf ''crypto/aes: invalid key size''))"

definition Encrypt :: "entropy \<Rightarrow> bytes \<Rightarrow> bytes \<Rightarrow> bytes result" where
  "Encrypt r key plaintext =
     (case NewCipher key of
        Inl e \<Rightarrow> Inl (Wrap ''crypto: new AES cipher'' e)
      | Inr _ \<Rightarrow>
          (case rand_read r 12 of
             Inl e \<Rightarrow> Inl (Wrap ''crypto: generate nonce'' e)
           | Inr nonce \<Rightarrow> Inr (nonce @ gcm_Seal key nonce plaintext)))"

definition Decrypt :: "bytes \<Rightarrow> bytes \<Rightarrow> bytes result" where
  "Decrypt key blob =
     (case NewCipher key of
        Inl e \<Rightarrow> Inl (Wrap ''crypto: new AES cipher'' e)
      | Inr _ \<Rightarrow>
          if length blob < 12 then Inl (Errorf ''crypto: blob too short'')
          else wrap ''crypto: AES-GCM decrypt'' (gcm_Open key (take 12 blob) (drop 12 blob)))"

definition EncryptShard :: "libs \<Rightarrow> entropy \<Rightarrow> bytes \<Rightarrow> int \<Rightarrow> bytes \<Rightarrow> bytes result" where
  "EncryptShard L r fileKey shardIndex plaintext =
     rbind (DeriveShardKey L fileKey shardIndex) (\<lambda>shardKey. Encrypt r shardKey plaintext)"

definition DecryptShard :: "libs \<Rightarrow> bytes \<Rightarrow> int \<Rightarrow> bytes \<Rightarrow> bytes result" where
  "DecryptShard L fileKey shardIndex blob =
     rbind (DeriveShardKey L fileKey shardIndex) (\<lambda>shardKey. Decrypt shardKey blob)"

subsection \<open>The contract of a cipher\<close>

locale cipher =
  fixes enc :: "entropy \<Rightarrow> 'k \<Rightarrow> bytes \<Rightarrow> bytes result"
    and dec :: "'k \<Rightarrow> bytes \<Rightarrow> bytes result"
    and good :: "'k \<Rightarrow> bool"
  assumes dec_enc: "enc r k p = Inr c \<Longrightarrow> dec k c = Inr p"
    and enc_total: "good k \<Longrightarrow> \<exists>c. enc (Some f) k p = Inr c"
    and dec_only_enc: "dec k c = Inr p \<Longrightarrow> \<exists>r. enc r k p = Inr c"
    and enc_length: "enc r k p = Inr c \<Longrightarrow> length c = length p + 28"
begin

lemma enc_inj: "enc r k p = Inr c \<Longrightarrow> enc r' k p' = Inr c \<Longrightarrow> p = p'"
  by (metis dec_enc sum.inject(2))

lemma round_trip: "good k \<Longrightarrow> \<exists>c. enc (Some f) k p = Inr c \<and> dec k c = Inr p"
  using enc_total [of k f p] dec_enc by blast

lemma accepted_length: "dec k c = Inr p \<Longrightarrow> length c = length p + 28"
  using dec_only_enc [of k c p] enc_length by blast

text \<open>A sequence of plaintexts encrypted under its own keys decrypts to itself.\<close>

lemma map_round_trip:
  assumes "map_result (\<lambda>(r, k, p). enc r k p) xs = Inr cs"
  shows "map_result (\<lambda>((r, k, p), c). dec k c) (zip xs cs) = Inr (map (\<lambda>(r, k, p). p) xs)"
  using assms
proof (induction xs arbitrary: cs)
  case Nil
  then show ?case by simp
next
  case (Cons x xs)
  obtain r k p where x: "x = (r, k, p)" by (cases x)
  with Cons.prems obtain c cs' where "enc r k p = Inr c"
    and "map_result (\<lambda>(r, k, p). enc r k p) xs = Inr cs'" and "cs = c # cs'"
    by (auto split: sum.splits)
  with Cons.IH [of cs'] x dec_enc show ?case by simp
qed

end

lemma length_rand_read [len_simps]: "rand_read r n = Inr b \<Longrightarrow> length b = n"
  by (auto simp: rand_read_def split: option.splits)

lemma valid_key_32 [simp]: "length key = 32 \<Longrightarrow> valid_key key"
  by (simp add: valid_key_def)

lemma Encrypt_Inr:
  "Encrypt r key p = Inr c \<longleftrightarrow>
     valid_key key \<and> (\<exists>nonce. rand_read r 12 = Inr nonce \<and> c = nonce @ gcm_Seal key nonce p)"
  by (auto simp: Encrypt_def NewCipher_def split: sum.splits)

lemma Decrypt_Encrypt: "Encrypt r key p = Inr c \<Longrightarrow> Decrypt key c = Inr p"
  by (auto simp: Encrypt_Inr Decrypt_def NewCipher_def len_simps)

lemma Encrypt_total: "valid_key key \<Longrightarrow> \<exists>c. Encrypt (Some f) key p = Inr c"
  by (simp add: Encrypt_Inr rand_read_def)

lemma Decrypt_only_Encrypt:
  assumes "Decrypt key c = Inr p"
  shows "\<exists>r. Encrypt r key p = Inr c"
proof -
  from assms have v: "valid_key key" and len: "12 \<le> length c"
    and op: "gcm_Open key (take 12 c) (drop 12 c) = Inr p"
    by (auto simp: Decrypt_def NewCipher_def split: if_splits)
  have seal: "drop 12 c = gcm_Seal key (take 12 c) p"
    by (rule gcm_Open_only_Seal [OF op])
  have nonce: "rand_read (Some (\<lambda>i. c ! i)) 12 = Inr (take 12 c)"
    using len by (auto simp: rand_read_def intro!: nth_equalityI)
  have "c = take 12 c @ gcm_Seal key (take 12 c) p" by (simp flip: seal)
  with v nonce show ?thesis unfolding Encrypt_Inr by blast
qed

lemma Encrypt_length: "Encrypt r key p = Inr c \<Longrightarrow> length c = length p + 28"
  by (auto simp: Encrypt_Inr len_simps)

interpretation aes: cipher Encrypt Decrypt valid_key
  by unfold_locales (auto intro: Decrypt_Encrypt Encrypt_total Decrypt_only_Encrypt Encrypt_length)

lemma deriveSubKey_total:
  assumes "hkdf_lawful L"
  shows "\<exists>k. deriveSubKey L s salt info = Inr k \<and> length k = 32"
proof -
  obtain k where "hkdf_read L s salt (bytes_of_string info) 32 = Inr k" "length k = 32"
    using assms unfolding hkdf_lawful_def by blast
  then show ?thesis by (simp add: deriveSubKey_def)
qed

lemma DeriveShardKey_total: "hkdf_lawful L \<Longrightarrow> \<exists>k. DeriveShardKey L fk i = Inr k \<and> valid_key k"
  using deriveSubKey_total [of L fk "[]" "''cerclbackup-shard-key-v1-'' @ Itoa i"]
  by (auto simp: DeriveShardKey_def)

lemma DeriveFileKey_total: "hkdf_lawful L \<Longrightarrow> \<exists>k. DeriveFileKey L mk h = Inr k \<and> length k = 32"
  by (simp add: DeriveFileKey_def deriveSubKey_total)

lemma length_DeriveKey [len_simps]: "argon2_lawful L \<Longrightarrow> length (DeriveKey L pw salt) = 32"
  by (simp add: argon2_lawful_def DeriveKey_def)

text \<open>The shard cipher: its key is a file key and a shard index.\<close>

abbreviation shard_enc :: "libs \<Rightarrow> entropy \<Rightarrow> bytes \<times> int \<Rightarrow> bytes \<Rightarrow> bytes result" where
  "shard_enc L r k p \<equiv> EncryptShard L r (fst k) (snd k) p"

abbreviation shard_dec :: "libs \<Rightarrow> bytes \<times> int \<Rightarrow> bytes \<Rightarrow> bytes result" where
  "shard_dec L k c \<equiv> DecryptShard L (fst k) (snd k) c"

interpretation shard: cipher "shard_enc L" "shard_dec L" "\<lambda>_. hkdf_lawful L" for L
proof unfold_locales
  fix r k p c assume "shard_enc L r k p = Inr c"
  then show "shard_dec L k c = Inr p"
    by (auto simp: EncryptShard_def DecryptShard_def rbind_eq_Inr intro: Decrypt_Encrypt)
next
  fix k :: "bytes \<times> int" and f p assume "hkdf_lawful L"
  then obtain key where "DeriveShardKey L (fst k) (snd k) = Inr key" "valid_key key"
    using DeriveShardKey_total by blast
  then show "\<exists>c. shard_enc L (Some f) k p = Inr c"
    using Encrypt_total by (auto simp: EncryptShard_def)
next
  fix k c p assume "shard_dec L k c = Inr p"
  then obtain key where "DeriveShardKey L (fst k) (snd k) = Inr key" "Decrypt key c = Inr p"
    by (auto simp: DecryptShard_def rbind_eq_Inr)
  then show "\<exists>r. shard_enc L r k p = Inr c"
    using Decrypt_only_Encrypt [of key c p] by (auto simp: EncryptShard_def)
next
  fix r k p c assume "shard_enc L r k p = Inr c"
  then show "length c = length p + 28"
    by (auto simp: EncryptShard_def rbind_eq_Inr intro: Encrypt_length)
qed

end
