(* ===== verification/Go_FS.thy ===== *)
theory Go_FS
  imports Go_Strings "HOL-Library.Char_ord" "HOL-Library.List_Lexorder"
begin

text \<open>
  The file system as the program sees it through \<open>path/filepath\<close> and \<open>os\<close>: cleaned
  absolute paths as lists of components, a finite map from paths to file contents, the
  directories that exist, and the faults that the environment injects.

  A fault makes one kind of access to one path fail: a read (\<open>rfault\<close>), a write
  (\<open>wfault\<close>: the file cannot be opened, or only a prefix of the data reaches the disk, since
  \<open>os.WriteFile\<close> truncates the file before it writes), the creation or removal of a directory
  (\<open>dfault\<close>), the removal or the renaming of a file (\<open>mfault\<close>). Faults stay as they are during
  one operation of the program.
\<close>

subsection \<open>Paths\<close>

type_synonym path = "string list"

text \<open>
  \<open>filepath.Join(root, parts...)\<close> concatenates its arguments with slashes and applies
  \<open>filepath.Clean\<close>, which drops empty and dot components and lets a dot-dot component
  remove the one before it; at the root of an absolute path dot-dot stays at the root.
\<close>

definition path_step :: "path \<Rightarrow> string \<Rightarrow> path" where
  "path_step p c =
     (if c = '''' \<or> c = ''.'' then p else if c = ''..'' then butlast p else p @ [c])"

definition Join :: "path \<Rightarrow> string list \<Rightarrow> path" where
  "Join root parts = foldl path_step root (concat (map (split_at (CHR ''/'')) parts))"

definition beneath :: "path \<Rightarrow> path \<Rightarrow> bool" where
  "beneath p q \<longleftrightarrow> take (length p) q = p"

definition plain_component :: "string \<Rightarrow> bool" where
  "plain_component c \<longleftrightarrow> c \<noteq> '''' \<and> c \<noteq> ''.'' \<and> c \<noteq> ''..'' \<and> CHR ''/'' \<notin> set c"

lemma Join_Nil [simp]: "Join p [] = p"
  by (simp add: Join_def)

lemma Join_plain [path_simps]: "plain_component c \<Longrightarrow> Join p (c # cs) = Join (p @ [c]) cs"
  by (simp add: Join_def plain_component_def split_at_no_sep path_step_def)

lemma beneath_refl [simp]: "beneath p p"
  by (simp add: beneath_def)

lemma beneath_append [simp]: "beneath p (p @ q)"
  by (simp add: beneath_def)

lemma beneath_iff: "beneath p q \<longleftrightarrow> (\<exists>r. q = p @ r)"
  by (metis append_take_drop_id beneath_append beneath_def)

lemma plain_component_Itoa_suffix:
  assumes "CHR ''/'' \<notin> set t" and "2 < length t"
  shows "plain_component (Itoa i @ t)"
proof -
  have "length (Itoa i @ t) > 2" using assms(2) by simp
  then have "Itoa i @ t \<notin> {'''', ''.'', ''..''}"
    by (auto dest: arg_cong [where f = length] simp del: length_append)
  with assms(1) Itoa_no_slash show ?thesis by (simp add: plain_component_def)
qed

subsection \<open>Files and directories\<close>

datatype write_fault = OpenFault | ShortWrite nat

record fs =
  files :: "(path \<times> bytes) list"
  dirs :: "path list"
  rfault :: "path \<Rightarrow> bool"
  wfault :: "path \<Rightarrow> write_fault option"
  dfault :: "path \<Rightarrow> bool"
  mfault :: "path \<Rightarrow> bool"

definition empty_fs :: fs where
  "empty_fs = \<lparr>files = [], dirs = [], rfault = (\<lambda>_. False), wfault = (\<lambda>_. None),
     dfault = (\<lambda>_. False), mfault = (\<lambda>_. False)\<rparr>"

definition is_dir :: "fs \<Rightarrow> path \<Rightarrow> bool" where
  "is_dir s p \<longleftrightarrow> p = [] \<or> p \<in> set (dirs s)"

definition is_file :: "fs \<Rightarrow> path \<Rightarrow> bool" where
  "is_file s p \<longleftrightarrow> map_of (files s) p \<noteq> None"

definition set_file :: "fs \<Rightarrow> path \<Rightarrow> bytes \<Rightarrow> fs" where
  "set_file s p d = s\<lparr>files := AList.update p d (files s)\<rparr>"

definition ReadFile :: "fs \<Rightarrow> path \<Rightarrow> bytes result" where
  "ReadFile s p =
     (if rfault s p \<or> is_dir s p then Inl ErrIO
      else case map_of (files s) p of None \<Rightarrow> Inl ErrNotExist | Some d \<Rightarrow> Inr d)"

definition WriteFile :: "fs \<Rightarrow> path \<Rightarrow> bytes \<Rightarrow> fs \<times> error option" where
  "WriteFile s p d =
     (if \<not> is_dir s (butlast p) then (s, Some ErrNotExist)
      else if is_dir s p then (s, Some ErrIO)
      else case wfault s p of
             Some OpenFault \<Rightarrow> (s, Some ErrIO)
           | Some (ShortWrite n) \<Rightarrow> (set_file s p (take n d), Some ErrIO)
           | None \<Rightarrow> (set_file s p d, None))"

definition prefixes :: "path \<Rightarrow> path list" where
  "prefixes p = map (\<lambda>n. take n p) [1..<Suc (length p)]"

definition MkdirAll :: "fs \<Rightarrow> path \<Rightarrow> fs \<times> error option" where
  "MkdirAll s p =
     (if dfault s p \<or> (\<exists>q \<in> set (prefixes p). is_file s q) then (s, Some ErrIO)
      else (s\<lparr>dirs := filter (\<lambda>q. \<not> is_dir s q) (prefixes p) @ dirs s\<rparr>, None))"

definition RemoveAll :: "fs \<Rightarrow> path \<Rightarrow> fs \<times> error option" where
  "RemoveAll s p =
     (if dfault s p then (s, Some ErrIO)
      else (s\<lparr>files := filter (\<lambda>e. \<not> beneath p (fst e)) (files s),
              dirs := filter (\<lambda>q. \<not> beneath p q) (dirs s)\<rparr>, None))"

definition Remove :: "fs \<Rightarrow> path \<Rightarrow> fs \<times> error option" where
  "Remove s p =
     (if mfault s p then (s, Some ErrIO)
      else if is_file s p then (s\<lparr>files := filter (\<lambda>e. fst e \<noteq> p) (files s)\<rparr>, None)
      else if is_dir s p then (s, Some ErrIO)
      else (s, Some ErrNotExist))"

definition Rename :: "fs \<Rightarrow> path \<Rightarrow> path \<Rightarrow> fs \<times> error option" where
  "Rename s p q =
     (case map_of (files s) p of
        None \<Rightarrow> (s, Some ErrNotExist)
      | Some d \<Rightarrow>
          if mfault s p \<or> mfault s q \<or> is_dir s q \<or> \<not> is_dir s (butlast q) then (s, Some ErrIO)
          else (s\<lparr>files := AList.update q d (filter (\<lambda>e. fst e \<noteq> p) (files s))\<rparr>, None))"

definition Stat :: "fs \<Rightarrow> path \<Rightarrow> unit result" where
  "Stat s p = (if rfault s p then Inl ErrIO
     else if is_file s p \<or> is_dir s p then Inr () else Inl ErrNotExist)"

text \<open>
  \<open>os.ReadDir\<close> lists the entries of a directory, sorted by name, each with the answer of
  \<open>IsDir()\<close>. \<open>walk_files\<close> is what \<open>filepath.Walk\<close> and \<open>filepath.WalkDir\<close> visit beneath a
  root, less the directories: the files in lexical order. A directory that cannot be read makes
  the walk report an error, which the callbacks of this program return.
\<close>

definition child_names :: "fs \<Rightarrow> path \<Rightarrow> string list" where
  "child_names s p =
     sort (remdups (map last (filter (\<lambda>q. q \<noteq> [] \<and> butlast q = p) (map fst (files s) @ dirs s))))"

definition ReadDir :: "fs \<Rightarrow> path \<Rightarrow> (string \<times> bool) list result" where
  "ReadDir s p =
     (if rfault s p \<or> is_file s p then Inl ErrIO
      else if \<not> is_dir s p then Inl ErrNotExist
      else Inr (map (\<lambda>n. (n, is_dir s (p @ [n]))) (child_names s p)))"

definition walk_files :: "fs \<Rightarrow> path \<Rightarrow> (path \<times> bytes) list result" where
  "walk_files s root =
     (if \<not> is_file s root \<and> \<not> is_dir s root then Inl ErrNotExist
      else if \<exists>d \<in> set (root # dirs s). beneath root d \<and> rfault s d then Inl ErrIO
      else Inr (map (\<lambda>q. (q, the (map_of (files s) q)))
             (sort (remdups (filter (beneath root) (map fst (files s)))))))"

text \<open>The environment injects no fault.\<close>

definition fault_free :: "fs \<Rightarrow> bool" where
  "fault_free s \<longleftrightarrow> (\<forall>p. \<not> rfault s p \<and> wfault s p = None \<and> \<not> dfault s p \<and> \<not> mfault s p)"

subsection \<open>Laws\<close>

lemma set_file_simps [simp]:
  "map_of (files (set_file s p d)) = (map_of (files s))(p \<mapsto> d)"
  "dirs (set_file s p d) = dirs s" "rfault (set_file s p d) = rfault s"
  "wfault (set_file s p d) = wfault s" "dfault (set_file s p d) = dfault s"
  "mfault (set_file s p d) = mfault s"
  by (simp_all add: set_file_def)

lemma is_dir_set_file [simp]: "is_dir (set_file s p d) q = is_dir s q"
  by (simp add: is_dir_def)

lemma ReadFile_set_file:
  "ReadFile (set_file s p d) q
     = (if q = p \<and> \<not> rfault s p \<and> \<not> is_dir s p then Inr d else ReadFile s q)"
  by (auto simp: ReadFile_def)

lemma WriteFile_ok:
  "WriteFile s p d = (s', None) \<Longrightarrow> s' = set_file s p d \<and> \<not> is_dir s p \<and> is_dir s (butlast p)"
  by (auto simp: WriteFile_def split: if_splits option.splits write_fault.splits)

lemma WriteFile_cases:
  "WriteFile s p d = (s', e) \<Longrightarrow> s' = s \<or> (\<exists>n. s' = set_file s p (take n d))"
  by (auto simp: WriteFile_def split: if_splits option.splits write_fault.splits intro: exI [of _ "length d"])

lemma ReadFile_WriteFile_same:
  "WriteFile s p d = (s', None) \<Longrightarrow> \<not> rfault s p \<Longrightarrow> ReadFile s' p = Inr d"
  by (drule WriteFile_ok) (simp add: ReadFile_set_file)

lemma ReadFile_WriteFile_other:
  "WriteFile s p d = (s', e) \<Longrightarrow> q \<noteq> p \<Longrightarrow> ReadFile s' q = ReadFile s q"
  by (drule WriteFile_cases) (auto simp: ReadFile_set_file)

lemma WriteFile_frame:
  "WriteFile s p d = (s', e) \<Longrightarrow>
     dirs s' = dirs s \<and> rfault s' = rfault s \<and> wfault s' = wfault s
     \<and> dfault s' = dfault s \<and> mfault s' = mfault s"
  by (drule WriteFile_cases) auto

lemma MkdirAll_frame:
  "MkdirAll s p = (s', e) \<Longrightarrow>
     files s' = files s \<and> rfault s' = rfault s \<and> wfault s' = wfault s
     \<and> dfault s' = dfault s \<and> mfault s' = mfault s"
  by (auto simp: MkdirAll_def split: if_splits)

lemma MkdirAll_dirs:
  "MkdirAll s p = (s', e) \<Longrightarrow> is_dir s' q \<Longrightarrow> is_dir s q \<or> (q \<in> set (prefixes p) \<and> \<not> is_file s q)"
  by (auto simp: MkdirAll_def is_dir_def split: if_splits)

lemma MkdirAll_mono: "MkdirAll s p = (s', e) \<Longrightarrow> is_dir s q \<Longrightarrow> is_dir s' q"
  by (auto simp: MkdirAll_def is_dir_def split: if_splits)

lemma self_in_prefixes: "p \<noteq> [] \<Longrightarrow> p \<in> set (prefixes p)"
  by (auto simp: prefixes_def intro!: image_eqI [of _ _ "length p"] simp: Suc_le_eq)

lemma MkdirAll_is_dir: "MkdirAll s p = (s', None) \<Longrightarrow> is_dir s' p"
  by (cases "p = []") (auto simp: MkdirAll_def is_dir_def self_in_prefixes split: if_splits)

lemma ReadFile_MkdirAll: "MkdirAll s p = (s', e) \<Longrightarrow> ReadFile s' q = Inr d \<longleftrightarrow> ReadFile s q = Inr d"
  using MkdirAll_dirs [of s p s' e q] MkdirAll_mono [of s p s' e q] MkdirAll_frame [of s p s' e]
  by (auto simp: ReadFile_def is_file_def split: option.splits if_splits)

lemma ReadFile_RemoveAll:
  "RemoveAll s p = (s', None) \<Longrightarrow>
     ReadFile s' q = (if beneath p q \<and> \<not> rfault s q \<and> q \<noteq> [] then Inl ErrNotExist else ReadFile s q)"
  by (auto simp: RemoveAll_def ReadFile_def is_dir_def
      map_of_filter_pred [of "\<lambda>k. \<not> beneath p k"] split: if_splits)

lemma ReadFile_Remove:
  "Remove s p = (s', None) \<Longrightarrow> q \<noteq> p \<Longrightarrow> ReadFile s' q = ReadFile s q"
  by (auto simp: Remove_def ReadFile_def is_dir_def
      map_of_filter_pred [of "\<lambda>k. k \<noteq> p"] split: if_splits)

lemma ReadFile_eq_Inr:
  "ReadFile s p = Inr d \<longleftrightarrow> \<not> rfault s p \<and> \<not> is_dir s p \<and> map_of (files s) p = Some d"
  by (auto simp: ReadFile_def split: option.splits)

lemma walk_files_mem:
  assumes "walk_files s root = Inr fs"
  shows "fst ` set fs = {q \<in> fst ` set (files s). beneath root q}"
proof -
  have "map fst fs = sort (remdups (filter (beneath root) (map fst (files s))))"
    using assms by (auto simp: walk_files_def comp_def split: if_splits)
  from arg_cong [OF this, of set] show ?thesis by auto
qed

subsection \<open>Writing a file after creating its directory\<close>

definition ewrap :: "string \<Rightarrow> error option \<Rightarrow> error option" where
  "ewrap msg = map_option (Wrap msg)"

text \<open>
  The sequence the program uses for its state files:
  \<open>os.MkdirAll(filepath.Dir(p))\<close>, then \<open>os.WriteFile(p, d)\<close>, each error wrapped.
\<close>

definition put_file :: "string \<Rightarrow> string \<Rightarrow> fs \<Rightarrow> path \<Rightarrow> bytes \<Rightarrow> fs \<times> error option" where
  "put_file m1 m2 s p d =
     (case MkdirAll s (butlast p) of
        (s1, Some e) \<Rightarrow> (s1, Some (Wrap m1 e))
      | (s1, None) \<Rightarrow> (case WriteFile s1 p d of (s2, e) \<Rightarrow> (s2, ewrap m2 e)))"

text \<open>A path at which a file can be created: not a directory, and no file stands on the way to it.\<close>

definition writable :: "fs \<Rightarrow> path \<Rightarrow> bool" where
  "writable s p \<longleftrightarrow> p \<noteq> [] \<and> \<not> is_dir s p \<and> (\<forall>q \<in> set (prefixes (butlast p)). \<not> is_file s q)"

definition same_faults :: "fs \<Rightarrow> fs \<Rightarrow> bool" where
  "same_faults s s' \<longleftrightarrow> rfault s' = rfault s \<and> wfault s' = wfault s \<and> dfault s' = dfault s \<and> mfault s' = mfault s"

lemma ewrap_simps [simp]: "ewrap m None = None" "ewrap m (Some e) = Some (Wrap m e)"
  "ewrap m x = None \<longleftrightarrow> x = None"
  by (simp_all add: ewrap_def)

lemma same_faults_refl [simp]: "same_faults s s"
  by (simp add: same_faults_def)

lemma same_faults_trans: "same_faults s t \<Longrightarrow> same_faults t u \<Longrightarrow> same_faults s u"
  by (simp add: same_faults_def)

lemma same_faults_fault_free: "same_faults s s' \<Longrightarrow> fault_free s' = fault_free s"
  by (simp add: same_faults_def fault_free_def)

lemma WriteFile_faults: "WriteFile s p d = (s', e) \<Longrightarrow> same_faults s s'"
  by (drule WriteFile_frame) (simp add: same_faults_def)

lemma MkdirAll_faults: "MkdirAll s p = (s', e) \<Longrightarrow> same_faults s s'"
  by (drule MkdirAll_frame) (simp add: same_faults_def)

lemma put_file_None:
  assumes "put_file m1 m2 s p d = (s', None)"
  obtains s1 where "MkdirAll s (butlast p) = (s1, None)" "WriteFile s1 p d = (s', None)"
  using assms by (auto simp: put_file_def split: prod.splits option.splits)

lemma put_file_faults: "put_file m1 m2 s p d = (s', e) \<Longrightarrow> same_faults s s'"
  by (auto simp: put_file_def split: prod.splits option.splits
      dest!: MkdirAll_faults WriteFile_faults intro: same_faults_trans)

lemma ReadFile_put_file_same:
  assumes "put_file m1 m2 s p d = (s', None)" and "\<not> rfault s p"
  shows "ReadFile s' p = Inr d"
proof -
  from assms(1) obtain s1 where m: "MkdirAll s (butlast p) = (s1, None)"
    and w: "WriteFile s1 p d = (s', None)" by (rule put_file_None)
  from MkdirAll_frame [OF m] assms(2) show ?thesis
    by (intro ReadFile_WriteFile_same [OF w]) simp
qed

lemma ReadFile_put_file_other:
  assumes "put_file m1 m2 s p d = (s', e)" and "q \<noteq> p"
  shows "ReadFile s' q = Inr x \<longleftrightarrow> ReadFile s q = Inr x"
  using assms ReadFile_MkdirAll ReadFile_WriteFile_other
  by (fastforce simp: put_file_def split: prod.splits option.splits)

lemma put_file_total:
  assumes "fault_free s" and "writable s p"
  shows "\<exists>s'. put_file m1 m2 s p d = (s', None)"
proof -
  have ok: "\<not> (dfault s (butlast p) \<or> (\<exists>q \<in> set (prefixes (butlast p)). is_file s q))"
    using assms by (auto simp: fault_free_def writable_def)
  then obtain s1 where s1: "MkdirAll s (butlast p) = (s1, None)"
    by (auto simp: MkdirAll_def)
  have "length q < length p" if "q \<in> set (prefixes (butlast p))" for q
    using that assms(2) by (auto simp: writable_def prefixes_def min_def Suc_le_eq)
  then have "\<not> is_dir s1 p"
    using MkdirAll_dirs [OF s1] assms(2) by (auto simp: writable_def)
  moreover have "wfault s1 p = None"
    using assms(1) MkdirAll_frame [OF s1] by (simp add: fault_free_def)
  ultimately show ?thesis
    using MkdirAll_is_dir [OF s1] s1 by (auto simp: put_file_def WriteFile_def)
qed

lemma put_file_keeps_writable:
  assumes "put_file m1 m2 s p d = (s', None)"
  shows "writable s p \<longrightarrow> writable s' p"
proof -
  from assms obtain s1 where m: "MkdirAll s (butlast p) = (s1, None)"
    and w: "WriteFile s1 p d = (s', None)" by (rule put_file_None)
  show ?thesis
  proof
    assume wr: "writable s p"
    then have ne: "p \<noteq> []" by (simp add: writable_def)
    have short: "length q < length p" if "q \<in> set (prefixes (butlast p))" for q
      using that ne by (auto simp: prefixes_def min_def Suc_le_eq)
    have "\<not> is_file s' q" if "q \<in> set (prefixes (butlast p))" for q
      using wr that short [OF that] WriteFile_ok [OF w] MkdirAll_frame [OF m]
      by (auto simp: writable_def is_file_def)
    then show "writable s' p"
      using ne WriteFile_ok [OF w] by (simp add: writable_def)
  qed
qed

end
