(* ===== verification/Json.thy ===== *)
theory Json
  imports Go_Strings
begin

text \<open>
  \<open>encoding/json\<close> as the program uses it: for each Go type that is written and read back, a
  pair of a \<open>Marshal\<close> and an \<open>Unmarshal\<close> function. The pair is an argument of the operations
  that use it; what they rely on is \<open>inverts c v\<close>, that the value \<open>v\<close> survives the round
  trip.

  The second half builds one concrete self-delimiting encoding out of combinators, which is
  lawful for every value; it stands for the codec where an operation is run on concrete data.
\<close>

type_synonym 'a codec = "('a \<Rightarrow> bytes result) \<times> (bytes \<Rightarrow> 'a result)"

abbreviation Marshal :: "'a codec \<Rightarrow> 'a \<Rightarrow> bytes result" where
  "Marshal \<equiv> fst"

abbreviation Unmarshal :: "'a codec \<Rightarrow> bytes \<Rightarrow> 'a result" where
  "Unmarshal \<equiv> snd"

definition inverts :: "'a codec \<Rightarrow> 'a \<Rightarrow> bool" where
  "inverts c v = (case Marshal c v of Inl _ \<Rightarrow> False | Inr b \<Rightarrow> Unmarshal c b = Inr v)"

lemma inverts_Unmarshal: "inverts c v \<Longrightarrow> Marshal c v = Inr b \<Longrightarrow> Unmarshal c b = Inr v"
  by (simp add: inverts_def)

lemma inverts_Marshal: "inverts c v \<Longrightarrow> \<exists>b. Marshal c v = Inr b"
  by (auto simp: inverts_def split: sum.splits)

subsection \<open>A concrete encoding\<close>

type_synonym 'a wirefmt = "('a \<Rightarrow> bytes) \<times> (bytes \<Rightarrow> ('a \<times> bytes) option)"

definition fmt_ok :: "'a wirefmt \<Rightarrow> bool" where
  "fmt_ok d \<longleftrightarrow> (\<forall>v rest. snd d (fst d v @ rest) = Some (v, rest))"

fun fmt_unary :: "bytes \<Rightarrow> (nat \<times> bytes) option" where
  "fmt_unary [] = None"
| "fmt_unary (b # bs) =
     (if b = 0 then Some (0, bs)
      else case fmt_unary bs of None \<Rightarrow> None | Some (n, r) \<Rightarrow> Some (Suc n, r))"

definition fmt_nat :: "nat wirefmt" where
  "fmt_nat = (\<lambda>n. replicate n 1 @ [0], fmt_unary)"

definition fmt_byte :: "byte wirefmt" where
  "fmt_byte = (\<lambda>b. [b], \<lambda>bs. case bs of [] \<Rightarrow> None | b # r \<Rightarrow> Some (b, r))"

definition fmt_pair :: "'a wirefmt \<Rightarrow> 'b wirefmt \<Rightarrow> ('a \<times> 'b) wirefmt" where
  "fmt_pair f g =
     (\<lambda>(a, b). fst f a @ fst g b,
      \<lambda>bs. case snd f bs of None \<Rightarrow> None
           | Some (a, r) \<Rightarrow> (case snd g r of None \<Rightarrow> None | Some (b, r') \<Rightarrow> Some ((a, b), r')))"

fun fmt_many :: "(bytes \<Rightarrow> ('a \<times> bytes) option) \<Rightarrow> nat \<Rightarrow> bytes \<Rightarrow> ('a list \<times> bytes) option" where
  "fmt_many d 0 bs = Some ([], bs)"
| "fmt_many d (Suc n) bs =
     (case d bs of None \<Rightarrow> None
      | Some (x, r) \<Rightarrow> (case fmt_many d n r of None \<Rightarrow> None | Some (xs, r') \<Rightarrow> Some (x # xs, r')))"

definition fmt_list :: "'a wirefmt \<Rightarrow> 'a list wirefmt" where
  "fmt_list f =
     (\<lambda>xs. fst fmt_nat (length xs) @ concat (map (fst f) xs),
      \<lambda>bs. case snd fmt_nat bs of None \<Rightarrow> None | Some (n, r) \<Rightarrow> fmt_many (snd f) n r)"

definition fmt_iso :: "('b \<Rightarrow> 'a) \<Rightarrow> ('a \<Rightarrow> 'b) \<Rightarrow> 'a wirefmt \<Rightarrow> 'b wirefmt" where
  "fmt_iso dn up f =
     (\<lambda>v. fst f (dn v), \<lambda>bs. case snd f bs of None \<Rightarrow> None | Some (x, r) \<Rightarrow> Some (up x, r))"

definition fmt_bytes :: "bytes wirefmt" where
  "fmt_bytes = fmt_list fmt_byte"

definition fmt_string :: "string wirefmt" where
  "fmt_string = fmt_iso bytes_of_string string_of_bytes fmt_bytes"

definition fmt_bool :: "bool wirefmt" where
  "fmt_bool = fmt_iso (\<lambda>b. if b then 1 else 0) (\<lambda>n. n = 1) fmt_byte"

fun bits_of :: "nat \<Rightarrow> bool list" where
  "bits_of n = (if n = 0 then [] else (n mod 2 = 1) # bits_of (n div 2))"

declare bits_of.simps [simp del]

definition of_bits :: "bool list \<Rightarrow> nat" where
  "of_bits bs = foldr (\<lambda>b n. (if b then 1 else 0) + 2 * n) bs 0"

definition fmt_int :: "int wirefmt" where
  "fmt_int = fmt_iso (\<lambda>i. (i < 0, bits_of (nat \<bar>i\<bar>))) (\<lambda>(s, bs). if s then - int (of_bits bs) else int (of_bits bs))
     (fmt_pair fmt_bool (fmt_list fmt_bool))"

definition codec_of :: "'a wirefmt \<Rightarrow> 'a codec" where
  "codec_of f =
     (\<lambda>v. Inr (fst f v),
      \<lambda>bs. case snd f bs of Some (v, []) \<Rightarrow> Inr v | _ \<Rightarrow> Inl (Errorf ''json: malformed input''))"

named_theorems fmt_intros \<open>formats built by the combinators are lawful\<close>

lemma fmt_nat_ok [fmt_intros]: "fmt_ok fmt_nat"
proof -
  have "fmt_unary ((replicate n 1 @ [0]) @ rest) = Some (n, rest)" for n rest
    by (induction n) auto
  then show ?thesis by (simp add: fmt_ok_def fmt_nat_def)
qed

lemma fmt_byte_ok [fmt_intros]: "fmt_ok fmt_byte"
  by (simp add: fmt_ok_def fmt_byte_def)

lemma fmt_pair_ok [fmt_intros]: "fmt_ok f \<Longrightarrow> fmt_ok g \<Longrightarrow> fmt_ok (fmt_pair f g)"
  by (auto simp: fmt_ok_def fmt_pair_def)

lemma fmt_many_ok:
  "fmt_ok f \<Longrightarrow> fmt_many (snd f) (length xs) (concat (map (fst f) xs) @ rest) = Some (xs, rest)"
  by (induction xs) (auto simp: fmt_ok_def)

lemma fmt_list_ok [fmt_intros]: "fmt_ok f \<Longrightarrow> fmt_ok (fmt_list f)"
  using fmt_nat_ok fmt_many_ok [of f] unfolding fmt_list_def
  by (simp add: fmt_ok_def [of "(_, _)"] fmt_ok_def [of fmt_nat])

lemma fmt_iso_ok: "fmt_ok f \<Longrightarrow> (\<And>v. up (dn v) = v) \<Longrightarrow> fmt_ok (fmt_iso dn up f)"
  by (simp add: fmt_ok_def fmt_iso_def)

lemma fmt_bytes_ok [fmt_intros]: "fmt_ok fmt_bytes"
  by (simp add: fmt_bytes_def fmt_intros)

lemma string_of_bytes_of_string [simp]: "string_of_bytes (bytes_of_string s) = s"
proof -
  have "char_of (unat (of_char c :: byte)) = c" for c :: char
    by (subst of_nat_of_char [symmetric]) (simp add: unat_of_nat take_bit_eq_mod)
  then show ?thesis by (simp add: string_of_bytes_def bytes_of_string_def comp_def)
qed

lemma fmt_string_ok [fmt_intros]: "fmt_ok fmt_string"
  unfolding fmt_string_def by (rule fmt_iso_ok) (simp_all add: fmt_intros)

lemma fmt_bool_ok [fmt_intros]: "fmt_ok fmt_bool"
  unfolding fmt_bool_def by (rule fmt_iso_ok) (simp_all add: fmt_intros)

lemma of_bits_bits_of [simp]: "of_bits (bits_of n) = n"
proof (induction n rule: bits_of.induct)
  case (1 n)
  then show ?case
    by (cases "n = 0") (simp_all add: bits_of.simps [of n] bits_of.simps [of 0] of_bits_def, presburger)
qed

lemma fmt_int_ok [fmt_intros]: "fmt_ok fmt_int"
  unfolding fmt_int_def by (rule fmt_iso_ok) (simp_all add: fmt_intros)

lemma codec_of_inverts [intro]: "fmt_ok f \<Longrightarrow> inverts (codec_of f) v"
proof -
  assume "fmt_ok f"
  then have "snd f (fst f v @ []) = Some (v, [])" unfolding fmt_ok_def by blast
  then show ?thesis by (simp add: inverts_def codec_of_def)
qed

end
