(* ===== verification/Persist.thy ===== *)
theory Persist
  imports Go_FS Json
begin

text \<open>
  The contract of a state file: what is saved is what the next load returns. Every component
  that keeps its state in one file (key store, manifest, buddy registry, shard queue, pending
  invitations, circles) promises it; the program's read-modify-write operations rely on it.

  \<open>rmw\<close> is the shape of those operations: load, change, save. The lemmas of the locale show
  that a sequence of completed read-modify-write operations loses no update.
\<close>

definition rmw :: "(fs \<Rightarrow> 's result) \<Rightarrow> (fs \<Rightarrow> 's \<Rightarrow> fs \<times> error option) \<Rightarrow> ('s \<Rightarrow> 's) \<Rightarrow> fs \<Rightarrow> fs \<times> error option" where
  "rmw load save f s = (case load s of Inl e \<Rightarrow> (s, Some e) | Inr v \<Rightarrow> save s (f v))"

fun rmw_all :: "(fs \<Rightarrow> 's result) \<Rightarrow> (fs \<Rightarrow> 's \<Rightarrow> fs \<times> error option) \<Rightarrow> ('s \<Rightarrow> 's) list \<Rightarrow> fs \<Rightarrow> fs \<times> error option" where
  "rmw_all load save [] s = (s, None)"
| "rmw_all load save (f # fs) s =
     (case rmw load save f s of (s', Some e) \<Rightarrow> (s', Some e) | (s', None) \<Rightarrow> rmw_all load save fs s')"

locale persistent =
  fixes save :: "fs \<Rightarrow> 's \<Rightarrow> fs \<times> error option"
    and load :: "fs \<Rightarrow> 's result"
    and sound :: "fs \<Rightarrow> 's \<Rightarrow> bool"
  assumes load_save: "save s v = (s', None) \<Longrightarrow> sound s v \<Longrightarrow> load s' = Inr v"
    and sound_save: "save s v = (s', e) \<Longrightarrow> sound s' w = sound s w"
begin

lemma rmw_effect:
  assumes "load s = Inr v" and "rmw load save f s = (s', None)" and "sound s (f v)"
  shows "load s' = Inr (f v)"
  using assms load_save by (simp add: rmw_def)

lemma rmw_sound: "rmw load save f s = (s', e) \<Longrightarrow> sound s' w = sound s w"
  using sound_save by (auto simp: rmw_def split: sum.splits)

lemma no_lost_update:
  assumes "load s = Inr v" and "rmw_all load save fs s = (s', None)"
    and "\<And>n. n < length fs \<Longrightarrow> sound s (foldl (\<lambda>w f. f w) v (take (Suc n) fs))"
  shows "load s' = Inr (foldl (\<lambda>w f. f w) v fs)"
  using assms
proof (induction fs arbitrary: s v)
  case Nil
  then show ?case by simp
next
  case (Cons f fs)
  from Cons.prems(2) obtain s1 where s1: "rmw load save f s = (s1, None)"
    and rest: "rmw_all load save fs s1 = (s', None)"
    by (auto split: prod.splits option.splits)
  have l1: "load s1 = Inr (f v)"
    using Cons.prems(3) [of 0] by (intro rmw_effect [OF Cons.prems(1) s1]) simp
  have snd1: "sound s1 (foldl (\<lambda>w f. f w) (f v) (take (Suc n) fs))" if "n < length fs" for n
    using Cons.prems(3) [of "Suc n"] that rmw_sound [OF s1] by simp
  show ?case
    using Cons.IH [OF l1 rest snd1] by simp
qed

lemma failed_load_keeps: "load s = Inl e \<Longrightarrow> rmw load save f s = (s, Some e)"
  by (simp add: rmw_def)

end

end
