(* ===== verification/Go_Time.thy ===== *)
theory Go_Time
  imports Go_Strings
begin

text \<open>
  The parts of Go's \<open>time\<close> package that the program uses: durations with their 64-bit width, the
  saturating difference of two times, and the calendar (year, month, ISO week) of a time in
  UTC. Day 0 is Monday, January 1 of year 1.
\<close>

definition Second :: duration where "Second = 1000000000"

definition Minute :: duration where "Minute = 60 * Second"

definition Hour :: duration where "Hour = 60 * Minute"

text \<open>\<open>t.Sub(u)\<close> saturates at the ends of \<open>int64\<close>.\<close>

definition time_Sub :: "time \<Rightarrow> time \<Rightarrow> duration" where
  "time_Sub t u = max (- (2 ^ 63)) (min (2 ^ 63 - 1) (t - u))"

definition day_of :: "time \<Rightarrow> int" where
  "day_of t = t div (24 * Hour)"

text \<open>The year, and the day of the year counted from 0, of a day.\<close>

definition civil :: "int \<Rightarrow> int \<times> int" where
  "civil d =
     (let n400 = d div 146097; r400 = d mod 146097;
          n100 = min 3 (r400 div 36524); r100 = r400 - n100 * 36524;
          n4 = r100 div 1461; r4 = r100 mod 1461;
          n1 = min 3 (r4 div 365)
      in (400 * n400 + 100 * n100 + 4 * n4 + n1 + 1, r4 - n1 * 365))"

definition is_leap :: "int \<Rightarrow> bool" where
  "is_leap y \<longleftrightarrow> y mod 4 = 0 \<and> (y mod 100 \<noteq> 0 \<or> y mod 400 = 0)"

fun month_from :: "int \<Rightarrow> int \<Rightarrow> int list \<Rightarrow> int" where
  "month_from m yday [] = m"
| "month_from m yday (n # ns) = (if yday < n then m else month_from (m + 1) (yday - n) ns)"

definition time_Year :: "time \<Rightarrow> int" where
  "time_Year t = fst (civil (day_of t))"

definition time_Month :: "time \<Rightarrow> int" where
  "time_Month t =
     (case civil (day_of t) of (y, yday) \<Rightarrow>
        month_from 1 yday [31, if is_leap y then 29 else 28, 31, 30, 31, 30, 31, 31, 30, 31, 30])"

text \<open>The week that contains the day's Thursday, in the year of that Thursday.\<close>

definition ISOWeek :: "time \<Rightarrow> int \<times> int" where
  "ISOWeek t =
     (let d = day_of t; thursday = d - d mod 7 + 3
      in case civil thursday of (y, yday) \<Rightarrow> (y, yday div 7 + 1))"

text \<open>The verb \<open>%02d\<close>.\<close>

definition pad2 :: "int \<Rightarrow> string" where
  "pad2 i = (if 0 \<le> i \<and> i < 10 then CHR ''0'' # Itoa i else Itoa i)"

lemma time_Sub_in_range: "in_int64 (t - u) \<Longrightarrow> time_Sub t u = t - u"
  by (auto simp: time_Sub_def in_int64_def)

end
