(* ===== verification/Manifest.thy ===== *)
theory Manifest
  imports Crypto Persist Protocol Go_Time "HOL-Library.Multiset"
begin

text \<open>
  \<open>internal/manifest/manifest.go\<close>: the encrypted index of backed-up files. The entries are a Go
  map from file ids; operations that range over it take the order of the iteration as an
  argument, so that what is proved holds for every order. \<open>os.Stat\<close>'s modification time, the
  fresh UUID and the current time are arguments of \<open>Upsert\<close> and \<open>PruneVersions\<close>.

  The mutex makes every operation atomic: the model has one function per critical section.
\<close>

type_synonym entries = "(string \<times> ManifestEntry) list"

record data =
  mdVersion :: int
  mdEntries :: entries

record Manifest =
  mfPath :: path
  mfMasterKey :: bytes
  mfData :: data

definition New_Manifest :: "path \<Rightarrow> bytes \<Rightarrow> Manifest" where
  "New_Manifest p key = \<lparr>mfPath = p, mfMasterKey = key, mfData = \<lparr>mdVersion = 1, mdEntries = []\<rparr>\<rparr>"

abbreviation entries_of :: "Manifest \<Rightarrow> entries" where
  "entries_of m \<equiv> mdEntries (mfData m)"

definition set_entries :: "Manifest \<Rightarrow> entries \<Rightarrow> Manifest" where
  "set_entries m es = m\<lparr>mfData := (mfData m)\<lparr>mdEntries := es\<rparr>\<rparr>"

subsection \<open>Loading and saving\<close>

definition Load_Manifest :: "data codec \<Rightarrow> fs \<Rightarrow> Manifest \<Rightarrow> Manifest \<times> error option" where
  "Load_Manifest c s m =
     (case ReadFile s (mfPath m) of
        Inl ErrNotExist \<Rightarrow> (m, None)
      | Inl e \<Rightarrow> (m, Some (Wrap ''manifest: read'' e))
      | Inr blob \<Rightarrow>
          (case Decrypt (mfMasterKey m) blob of
             Inl e \<Rightarrow> (m, Some (Wrap ''manifest: decrypt'' e))
           | Inr plaintext \<Rightarrow>
               (case Unmarshal c plaintext of
                  Inl e \<Rightarrow> (m, Some (Wrap ''manifest: parse'' e))
                | Inr d \<Rightarrow> (m\<lparr>mfData := d\<rparr>, None))))"

definition Save_Manifest :: "data codec \<Rightarrow> entropy \<Rightarrow> fs \<Rightarrow> Manifest \<Rightarrow> fs \<times> error option" where
  "Save_Manifest c r s m =
     (case Marshal c (mfData m) of
        Inl e \<Rightarrow> (s, Some (Wrap ''manifest: marshal'' e))
      | Inr plaintext \<Rightarrow>
          (case Encrypt r (mfMasterKey m) plaintext of
             Inl e \<Rightarrow> (s, Some e)
           | Inr encrypted \<Rightarrow> put_file ''manifest: mkdir'' ''manifest: write'' s (mfPath m) encrypted))"

definition EncryptedBytes :: "data codec \<Rightarrow> entropy \<Rightarrow> Manifest \<Rightarrow> bytes result" where
  "EncryptedBytes c r m =
     rbind (wrap ''manifest: marshal'' (Marshal c (mfData m))) (Encrypt r (mfMasterKey m))"

subsection \<open>Versions\<close>

definition versionOf :: "ManifestEntry \<Rightarrow> int" where
  "versionOf e = (if meVersion e = 0 then 1 else meVersion e)"

text \<open>The in-place insertion sort: the inner loop moves the element at \<open>j\<close> to the left.\<close>

fun sift :: "nat \<Rightarrow> ManifestEntry list \<Rightarrow> ManifestEntry list" where
  "sift 0 xs = xs"
| "sift (Suc j) xs =
     (if versionOf (xs ! Suc j) < versionOf (xs ! j)
      then sift j (xs[Suc j := xs ! j, j := xs ! Suc j]) else xs)"

definition sortByVersion :: "ManifestEntry list \<Rightarrow> ManifestEntry list" where
  "sortByVersion xs = foldl (\<lambda>ys i. sift i ys) xs [1..<length xs]"

definition version_step :: "string \<Rightarrow> int \<Rightarrow> ManifestEntry \<Rightarrow> int" where
  "version_step srcPath nextVersion e =
     (if mePath e = srcPath
      then (let v = (if meVersion e = 0 then 1 else meVersion e)
            in if v \<ge> nextVersion then wrap64 (v + 1) else nextVersion)
      else nextVersion)"

definition next_version :: "string \<Rightarrow> ManifestEntry list \<Rightarrow> int" where
  "next_version srcPath es = foldl (version_step srcPath) 1 es"

definition Upsert ::
  "string list \<Rightarrow> time result \<Rightarrow> string \<Rightarrow> time \<Rightarrow> Manifest \<Rightarrow> string \<Rightarrow> bytes \<Rightarrow> int \<Rightarrow> RSScheme
     \<Rightarrow> ShardLocation list \<Rightarrow> Manifest \<times> ManifestEntry result" where
  "Upsert ord modTime uuid now m srcPath contentHash sz scheme shards =
     (case modTime of
        Inl e \<Rightarrow> (m, Inl (Wrap ''manifest: stat'' e))
      | Inr mt \<Rightarrow>
          let entry = \<lparr>meFileID = uuid, mePath = srcPath, meHash = hex_EncodeToString contentHash,
                 meSize = sz, meModified = mt, meScheme = scheme, meShards = shards,
                 meVersion = next_version srcPath (range_vals ord (entries_of m)),
                 meBackedAt = now, meCompressed = False\<rparr>
          in (set_entries m (AList.update uuid entry (entries_of m)), Inr entry))"

definition ListVersions :: "string list \<Rightarrow> Manifest \<Rightarrow> string \<Rightarrow> ManifestEntry list" where
  "ListVersions ord m p = sortByVersion (filter (\<lambda>e. mePath e = p) (range_vals ord (entries_of m)))"

fun latest_loop :: "string \<Rightarrow> ManifestEntry option \<Rightarrow> ManifestEntry list \<Rightarrow> ManifestEntry option" where
  "latest_loop p best [] = best"
| "latest_loop p best (e # es) =
     (if mePath e \<noteq> p then latest_loop p best es
      else case best of
             None \<Rightarrow> latest_loop p (Some e) es
           | Some b \<Rightarrow> latest_loop p (if versionOf e > versionOf b then Some e else best) es)"

definition Latest :: "string list \<Rightarrow> Manifest \<Rightarrow> string \<Rightarrow> ManifestEntry option" where
  "Latest ord m p = latest_loop p None (range_vals ord (entries_of m))"

subsection \<open>Retention\<close>

record RetentionPolicy =
  KeepAllDays :: int
  KeepWeeklyDays :: int
  MaxVersions :: int

definition DefaultRetentionPolicy :: RetentionPolicy where
  "DefaultRetentionPolicy = \<lparr>KeepAllDays = 30, KeepWeeklyDays = 90, MaxVersions = 50\<rparr>"

text \<open>\<open>time.Duration(days)*24*time.Hour\<close>, at its 64-bit width.\<close>

definition days_duration :: "int \<Rightarrow> duration" where
  "days_duration days = wrap64 (wrap64 (days * 24) * Hour)"

definition weekKey :: "time \<Rightarrow> string" where
  "weekKey t = (case ISOWeek t of (yr, wk) \<Rightarrow> Itoa yr @ ''-W'' @ pad2 wk)"

definition monthKey :: "time \<Rightarrow> string" where
  "monthKey t = Itoa (time_Year t) @ ''-'' @ pad2 (time_Month t)"

definition backed_time :: "ManifestEntry \<Rightarrow> time" where
  "backed_time e = (if meBackedAt e = 0 then meModified e else meBackedAt e)"

fun keep_loop ::
  "RetentionPolicy \<Rightarrow> time \<Rightarrow> string list \<Rightarrow> ManifestEntry list \<Rightarrow> ManifestEntry list \<Rightarrow> ManifestEntry list" where
  "keep_loop policy now seen keep [] = keep"
| "keep_loop policy now seen keep (e # es) =
     (let backedAt = backed_time e; age = time_Sub now backedAt in
      if age \<le> days_duration (KeepAllDays policy)
      then keep_loop policy now (meFileID e # seen) (keep @ [e]) es
      else if age \<le> days_duration (KeepWeeklyDays policy)
      then (if weekKey backedAt \<notin> set seen
            then keep_loop policy now (meFileID e # weekKey backedAt # seen) (keep @ [e]) es
            else keep_loop policy now seen keep es)
      else (if monthKey backedAt \<notin> set seen
            then keep_loop policy now (meFileID e # monthKey backedAt # seen) (keep @ [e]) es
            else keep_loop policy now seen keep es))"

definition selectVersionsToKeep ::
  "ManifestEntry list \<Rightarrow> RetentionPolicy \<Rightarrow> time \<Rightarrow> ManifestEntry list" where
  "selectVersionsToKeep versions policy now =
     (if versions = [] then []
      else
        let newest = last versions;
            keep = sortByVersion
              (keep_loop policy now [meFileID newest] [newest] (rev (butlast versions)))
        in if MaxVersions policy > 0 \<and> int (length keep) > MaxVersions policy
           then drop (length keep - nat (MaxVersions policy)) keep
           else keep)"

definition group_by_path :: "ManifestEntry list \<Rightarrow> (string \<times> ManifestEntry list) list" where
  "group_by_path es =
     foldl (\<lambda>g e. AList.update (mePath e)
        ((case map_of g (mePath e) of None \<Rightarrow> [] | Some xs \<Rightarrow> xs) @ [e]) g) [] es"

fun prune_loop ::
  "RetentionPolicy \<Rightarrow> time \<Rightarrow> ManifestEntry list list \<Rightarrow> entries \<Rightarrow> string list \<Rightarrow> entries \<times> string list" where
  "prune_loop policy now [] es pruned = (es, pruned)"
| "prune_loop policy now (versions # groups) es pruned =
     (let sorted_versions = sortByVersion versions;
          keepSet = map meFileID (selectVersionsToKeep sorted_versions policy now);
          gone = map meFileID (filter (\<lambda>e. meFileID e \<notin> set keepSet) sorted_versions)
      in prune_loop policy now groups (foldl (\<lambda>m k. AList.delete k m) es gone) (pruned @ gone))"

definition PruneVersions ::
  "string list \<Rightarrow> string list \<Rightarrow> time \<Rightarrow> Manifest \<Rightarrow> RetentionPolicy \<Rightarrow> Manifest \<times> string list" where
  "PruneVersions ord pord now m policy =
     (let byPath = group_by_path (range_vals ord (entries_of m));
          (es, pruned) = prune_loop policy now (range_vals pord byPath) (entries_of m) []
      in (set_entries m es, pruned))"

subsection \<open>The other operations\<close>

definition Get_Manifest :: "Manifest \<Rightarrow> string \<Rightarrow> ManifestEntry option" where
  "Get_Manifest m fileID = map_of (entries_of m) fileID"

definition FindByPath :: "string list \<Rightarrow> Manifest \<Rightarrow> string \<Rightarrow> ManifestEntry option" where
  "FindByPath ord m p = find (\<lambda>e. mePath e = p) (range_vals ord (entries_of m))"

definition All :: "string list \<Rightarrow> Manifest \<Rightarrow> ManifestEntry list" where
  "All ord m = range_vals ord (entries_of m)"

definition ImportEntry :: "Manifest \<Rightarrow> ManifestEntry \<Rightarrow> Manifest" where
  "ImportEntry m e =
     (if map_of (entries_of m) (meFileID e) = None
      then set_entries m (AList.update (meFileID e) e (entries_of m)) else m)"

definition Remove_Manifest :: "Manifest \<Rightarrow> string \<Rightarrow> Manifest" where
  "Remove_Manifest m fileID = set_entries m (AList.delete fileID (entries_of m))"

definition LastModified :: "string list \<Rightarrow> Manifest \<Rightarrow> time" where
  "LastModified ord m =
     foldl (\<lambda>t e. if meModified e > t then meModified e else t) 0 (range_vals ord (entries_of m))"

text \<open>\<open>hashFile\<close> streams the file through SHA-256.\<close>

definition hashFile_Manifest :: "fs \<Rightarrow> path \<Rightarrow> bytes result" where
  "hashFile_Manifest s p =
     (case ReadFile s p of Inl e \<Rightarrow> Inl (Wrap ''manifest: open for hash'' e) | Inr d \<Rightarrow> Inr (Sum256 d))"

subsection \<open>The sort\<close>

text \<open>
  The inner loop inserts the element behind a sorted prefix to the right of every element whose
  version is not larger, so the sort is stable.
\<close>

lemma sift_append:
  assumes "sorted (map versionOf ys)"
  shows "sift (length ys) (ys @ x # zs) =
    filter (\<lambda>y. versionOf y \<le> versionOf x) ys @ x # filter (\<lambda>y. versionOf x < versionOf y) ys @ zs"
  using assms
proof (induction ys arbitrary: zs rule: rev_induct)
  case Nil
  then show ?case by simp
next
  case (snoc y ys)
  show ?case
  proof (cases "versionOf x < versionOf y")
    case True
    then have "sift (length (ys @ [y])) ((ys @ [y]) @ x # zs) = sift (length ys) (ys @ x # y # zs)"
      by (simp add: nth_append list_update_append)
    with snoc True show ?thesis by (simp add: sorted_append)
  next
    case False
    then have "\<forall>z \<in> set ys. versionOf z \<le> versionOf x"
      using snoc.prems by (auto simp: sorted_append)
    then have "filter (\<lambda>y. versionOf y \<le> versionOf x) ys = ys"
      "filter (\<lambda>y. versionOf x < versionOf y) ys = []"
      by (auto simp: filter_empty_conv intro: filter_True)
    with False show ?thesis by (simp add: nth_append)
  qed
qed

lemma sorted_insert:
  "sorted (map versionOf ys) \<Longrightarrow> sorted (map versionOf
     (filter (\<lambda>y. versionOf y \<le> versionOf x) ys @ x # filter (\<lambda>y. versionOf x < versionOf y) ys))"
  by (auto simp: sorted_append sorted_filter)

definition sort_upto :: "nat \<Rightarrow> ManifestEntry list \<Rightarrow> ManifestEntry list" where
  "sort_upto n xs = foldl (\<lambda>ys i. sift i ys) xs [1..<Suc n]"

lemma sort_upto_inv:
  "n < length xs \<Longrightarrow> \<exists>ys. sort_upto n xs = ys @ drop (Suc n) xs \<and> length ys = Suc n
     \<and> sorted (map versionOf ys) \<and> mset ys = mset (take (Suc n) xs)"
proof (induction n)
  case 0
  then show ?case
    by (intro exI [of _ "take 1 xs"]) (cases xs; simp add: sort_upto_def)
next
  case (Suc n)
  then obtain ys where ys: "sort_upto n xs = ys @ drop (Suc n) xs" "length ys = Suc n"
    "sorted (map versionOf ys)" "mset ys = mset (take (Suc n) xs)" by auto
  let ?x = "xs ! Suc n"
  let ?zs = "filter (\<lambda>y. versionOf y \<le> versionOf ?x) ys @ ?x # filter (\<lambda>y. versionOf ?x < versionOf y) ys"
  have "drop (Suc n) xs = ?x # drop (Suc (Suc n)) xs"
    using Suc.prems by (simp add: Cons_nth_drop_Suc)
  then have "sort_upto (Suc n) xs = ?zs @ drop (Suc (Suc n)) xs"
    using sift_append [OF ys(3), of ?x "drop (Suc (Suc n)) xs"] ys(1,2) by (simp add: sort_upto_def)
  moreover have "mset ?zs = mset ys + {#?x#}"
    using multiset_partition [of "mset ys" "\<lambda>y. versionOf y \<le> versionOf ?x"] by (simp add: not_le)
  then have "mset ?zs = mset (take (Suc (Suc n)) xs)" and "length ?zs = Suc (Suc n)"
    using ys(2,4) Suc.prems by (simp_all add: take_Suc_conv_app_nth [of "Suc n"] size_mset [symmetric] del: size_mset)
  ultimately show ?case
    using sorted_insert [OF ys(3), of ?x] by blast
qed

lemma sortByVersion_sorted: "sorted (map versionOf (sortByVersion xs))"
  and mset_sortByVersion [simp]: "mset (sortByVersion xs) = mset xs"
proof -
  have "sorted (map versionOf (sortByVersion xs)) \<and> mset (sortByVersion xs) = mset xs"
  proof (cases xs)
    case Nil
    then show ?thesis by (simp add: sortByVersion_def)
  next
    case (Cons x zs)
    then show ?thesis
      using sort_upto_inv [of "length zs" xs] by (auto simp: sortByVersion_def sort_upto_def)
  qed
  then show "sorted (map versionOf (sortByVersion xs))" "mset (sortByVersion xs) = mset xs" by auto
qed

lemma set_sortByVersion [simp]: "set (sortByVersion xs) = set xs"
  by (metis mset_sortByVersion set_mset_mset)

lemma length_sortByVersion [simp]: "length (sortByVersion xs) = length xs"
  by (metis mset_sortByVersion size_mset)

subsection \<open>Ranging over the entries\<close>

lemma mset_map_filter: "mset (List.map_filter f xs) = image_mset (the \<circ> f) (filter_mset (\<lambda>x. f x \<noteq> None) (mset xs))"
  by (induction xs) (auto simp: map_filter_simps split: option.splits)

lemma mset_range_vals:
  assumes "is_order ord m" and "distinct (map fst m)"
  shows "mset (range_vals ord m) = mset (map snd m)"
proof -
  have "mset ord = mset (map fst m)"
    using assms set_eq_iff_mset_eq_distinct [of ord "map fst m"] by (simp add: is_order_def)
  then have "mset (range_vals ord m) = mset (range_vals (map fst m) m)"
    by (simp only: range_vals_def mset_map_filter)
  then show ?thesis by (simp add: range_vals_keys [OF assms(2)])
qed

definition ids_ok :: "entries \<Rightarrow> bool" where
  "ids_ok es \<longleftrightarrow> distinct (map fst es) \<and> (\<forall>(k, e) \<in> set es. meFileID e = k)"

definition versions_ok :: "entries \<Rightarrow> bool" where
  "versions_ok es \<longleftrightarrow>
     (\<forall>e \<in> snd ` set es. 1 \<le> versionOf e) \<and>
     (\<forall>e \<in> snd ` set es. \<forall>e' \<in> snd ` set es.
        mePath e = mePath e' \<longrightarrow> versionOf e = versionOf e' \<longrightarrow> meFileID e = meFileID e')"

definition manifest_ok :: "Manifest \<Rightarrow> bool" where
  "manifest_ok m \<longleftrightarrow> ids_ok (entries_of m) \<and> versions_ok (entries_of m)"

lemma entries_set_entries [simp]: "entries_of (set_entries m es) = es"
  by (simp add: set_entries_def)

lemma set_range_vals_ids:
  assumes "is_order ord es" and "ids_ok es"
  shows "e \<in> set (range_vals ord es) \<longleftrightarrow> map_of es (meFileID e) = Some e"
proof -
  have "e \<in> set (range_vals ord es) \<longleftrightarrow> e \<in> ran (map_of es)"
    by (simp add: set_range_vals_order [OF assms(1)])
  also have "\<dots> \<longleftrightarrow> map_of es (meFileID e) = Some e"
    using assms(2) by (auto simp: ids_ok_def ran_def dest: map_of_SomeD)
  finally show ?thesis .
qed

lemma map_of_id: "ids_ok es \<Longrightarrow> map_of es k = Some e \<Longrightarrow> meFileID e = k"
  by (auto simp: ids_ok_def dest: map_of_SomeD)

lemma ids_ok_unique: "ids_ok es \<Longrightarrow> e \<in> snd ` set es \<longleftrightarrow> map_of es (meFileID e) = Some e"
  unfolding ids_ok_def by (force dest: map_of_SomeD)

lemma ids_ok_update:
  "ids_ok es \<Longrightarrow> meFileID e = k \<Longrightarrow> ids_ok (AList.update k e es)"
proof -
  assume ok: "ids_ok es" and k: "meFileID e = k"
  have d: "distinct (map fst (AList.update k e es))"
    using ok by (simp add: ids_ok_def distinct_update)
  have "meFileID x = j" if "(j, x) \<in> set (AList.update k e es)" for j x
    using map_of_is_SomeI [OF d that] ok k
    by (auto simp: ids_ok_def split: if_splits dest: map_of_SomeD)
  with d show ?thesis by (auto simp: ids_ok_def)
qed

lemma ids_ok_delete: "ids_ok es \<Longrightarrow> ids_ok (AList.delete k es)"
proof -
  assume ok: "ids_ok es"
  have d: "distinct (map fst (AList.delete k es))"
    using ok by (simp add: ids_ok_def distinct_delete)
  have "meFileID x = j" if "(j, x) \<in> set (AList.delete k es)" for j x
    using map_of_is_SomeI [OF d that] ok by (auto simp: ids_ok_def split: if_splits dest: map_of_SomeD)
  with d show ?thesis by (auto simp: ids_ok_def)
qed

lemma snd_set_update:
  assumes "distinct (map fst es)" and "k \<notin> fst ` set es"
  shows "snd ` set (AList.update k e es) = insert e (snd ` set es)"
  using assms by (induction es) auto

subsection \<open>Version numbers\<close>

text \<open>Version numbers are 64-bit; only a path that already has the largest one, which an imported entry can have,
  wraps around.\<close>

definition room_above :: "string \<Rightarrow> ManifestEntry set \<Rightarrow> bool" where
  "room_above p es \<longleftrightarrow> (\<forall>e \<in> es. mePath e = p \<longrightarrow> versionOf e < 2 ^ 63 - 1)"

lemma version_step_mono: "room_above p {e} \<Longrightarrow> 1 \<le> nv \<Longrightarrow> nv \<le> version_step p nv e"
  by (auto simp: version_step_def versionOf_def room_above_def wrap64_id in_int64_def Let_def)

lemma version_step_gt: "room_above p {e} \<Longrightarrow> 1 \<le> nv \<Longrightarrow> mePath e = p \<Longrightarrow> versionOf e < version_step p nv e"
  by (auto simp: version_step_def versionOf_def room_above_def wrap64_id in_int64_def Let_def)

lemma version_step_in_int64: "in_int64 nv \<Longrightarrow> in_int64 (version_step p nv e)"
  by (simp add: version_step_def wrap64_in_int64 Let_def)

lemma room_above_Cons: "room_above p (set (e # es)) \<longleftrightarrow> room_above p {e} \<and> room_above p (set es)"
  by (simp add: room_above_def)

lemma room_above_append: "room_above p (set (xs @ ys)) \<longleftrightarrow> room_above p (set xs) \<and> room_above p (set ys)"
  by (auto simp: room_above_def)

lemma next_version_mono: "room_above p (set es) \<Longrightarrow> 1 \<le> nv \<Longrightarrow> nv \<le> foldl (version_step p) nv es"
proof (induction es arbitrary: nv)
  case Nil
  then show ?case by simp
next
  case (Cons e es)
  then have "nv \<le> version_step p nv e" "room_above p (set es)"
    using version_step_mono by (simp_all only: room_above_Cons)
  with Cons.IH [of "version_step p nv e"] Cons.prems(2) show ?case by simp
qed

lemma next_version_pos: "room_above p (set es) \<Longrightarrow> 1 \<le> next_version p es"
  using next_version_mono [of p es 1] by (simp add: next_version_def)

lemma next_version_in_int64: "in_int64 (next_version p es)"
proof -
  have "in_int64 nv \<Longrightarrow> in_int64 (foldl (version_step p) nv es)" for nv
    by (induction es arbitrary: nv) (simp_all add: version_step_in_int64)
  then show ?thesis by (simp add: next_version_def in_int64_def)
qed

lemma next_version_gt:
  assumes "room_above p (set es)" and "e \<in> set es" and "mePath e = p"
  shows "versionOf e < next_version p es"
proof -
  obtain xs ys where es: "es = xs @ e # ys"
    using assms(2) by (meson split_list)
  have room: "room_above p (set xs)" "room_above p {e}" "room_above p (set ys)"
    using assms(1) unfolding es room_above_append room_above_Cons by blast+
  let ?nv = "foldl (version_step p) 1 xs"
  have nv: "1 \<le> ?nv" by (rule next_version_mono [OF room(1)]) simp
  have "1 \<le> version_step p ?nv e" using version_step_mono [OF room(2) nv] nv by simp
  then have "version_step p ?nv e \<le> next_version p es"
    using next_version_mono [OF room(3)] by (simp add: es next_version_def)
  with version_step_gt [OF room(2) nv assms(3)] show ?thesis by simp
qed

lemma latest_loop_Some:
  "latest_loop p best es = Some e \<Longrightarrow>
     (best = Some e \<or> e \<in> set es \<and> mePath e = p) \<and>
     (\<forall>b. best = Some b \<longrightarrow> versionOf b \<le> versionOf e) \<and>
     (\<forall>x \<in> set es. mePath x = p \<longrightarrow> versionOf x \<le> versionOf e)"
  by (induction p best es rule: latest_loop.induct) (fastforce split: if_splits option.splits)+

lemma latest_loop_None: "latest_loop p best es = None \<longleftrightarrow> best = None \<and> (\<forall>x \<in> set es. mePath x \<noteq> p)"
  by (induction p best es rule: latest_loop.induct) (auto split: option.splits)

subsection \<open>Retention\<close>

definition gone :: "RetentionPolicy \<Rightarrow> time \<Rightarrow> ManifestEntry list \<Rightarrow> string list" where
  "gone policy now versions =
     map meFileID (filter (\<lambda>e. meFileID e \<notin> meFileID ` set (selectVersionsToKeep (sortByVersion versions) policy now))
       (sortByVersion versions))"

lemma mem_gone_nonempty: "k \<in> set (gone policy now g) \<Longrightarrow> g \<noteq> []"
  by (auto simp: gone_def)

lemma mem_gone:
  "k \<in> set (gone policy now (filter P es)) \<longleftrightarrow> (\<exists>e \<in> set es. P e \<and> meFileID e = k
     \<and> meFileID e \<notin> meFileID ` set (selectVersionsToKeep (sortByVersion (filter P es)) policy now))"
  by (auto simp: gone_def)

lemma prune_loop_eq:
  "prune_loop policy now groups es pruned =
     (foldl (\<lambda>m k. AList.delete k m) es (concat (map (gone policy now) groups)),
      pruned @ concat (map (gone policy now) groups))"
  by (induction groups arbitrary: es pruned) (simp_all add: Let_def gone_def)

lemma map_of_foldl_delete:
  "map_of (foldl (\<lambda>m k. AList.delete k m) es ks) j = (if j \<in> set ks then None else map_of es j)"
  by (induction ks arbitrary: es) auto

lemma ids_ok_foldl_delete: "ids_ok es \<Longrightarrow> ids_ok (foldl (\<lambda>m k. AList.delete k m) es ks)"
  by (induction ks arbitrary: es) (auto intro: ids_ok_delete)

lemma group_by_path_gen:
  "map_of (foldl (\<lambda>g e. AList.update (mePath e)
        ((case map_of g (mePath e) of None \<Rightarrow> [] | Some xs \<Rightarrow> xs) @ [e]) g) g es) p =
   (if filter (\<lambda>e. mePath e = p) es = [] then map_of g p
    else Some ((case map_of g p of None \<Rightarrow> [] | Some xs \<Rightarrow> xs) @ filter (\<lambda>e. mePath e = p) es))"
  by (induction es arbitrary: g) auto

lemma map_of_group_by_path:
  "map_of (group_by_path es) p =
     (if filter (\<lambda>e. mePath e = p) es = [] then None else Some (filter (\<lambda>e. mePath e = p) es))"
  unfolding group_by_path_def by (subst group_by_path_gen) simp

lemma keep_loop_Cons:
  obtains seen' keep' where "keep_loop policy now seen keep (e # es) = keep_loop policy now seen' keep' es"
    and "keep' = keep \<or> keep' = keep @ [e]"
proof -
  have "\<exists>seen' keep'. keep_loop policy now seen keep (e # es) = keep_loop policy now seen' keep' es
      \<and> (keep' = keep \<or> keep' = keep @ [e])"
    unfolding keep_loop.simps Let_def
    by (cases "time_Sub now (backed_time e) \<le> days_duration (KeepAllDays policy)";
        cases "time_Sub now (backed_time e) \<le> days_duration (KeepWeeklyDays policy)";
        cases "weekKey (backed_time e) \<in> set seen"; cases "monthKey (backed_time e) \<in> set seen";
        simp only: if_True if_False not_True_eq_False not_False_eq_True simp_thms; blast)
  with that show ?thesis by blast
qed

lemma keep_loop_keeps: "set keep \<subseteq> set (keep_loop policy now seen keep es)"
proof (induction es arbitrary: seen keep)
  case Nil
  then show ?case by simp
next
  case (Cons e es)
  obtain seen' keep' where "keep_loop policy now seen keep (e # es) = keep_loop policy now seen' keep' es"
    and "keep' = keep \<or> keep' = keep @ [e]" by (rule keep_loop_Cons)
  with Cons.IH [of keep' seen'] show ?case by auto
qed

lemma keep_loop_from: "set (keep_loop policy now seen keep es) \<subseteq> set keep \<union> set es"
proof (induction es arbitrary: seen keep)
  case Nil
  then show ?case by simp
next
  case (Cons e es)
  obtain seen' keep' where "keep_loop policy now seen keep (e # es) = keep_loop policy now seen' keep' es"
    and "keep' = keep \<or> keep' = keep @ [e]" by (rule keep_loop_Cons)
  with Cons.IH [of seen' keep'] show ?case by auto
qed

lemmas keep_loop_set = keep_loop_keeps keep_loop_from

lemma keep_loop_window:
  "e \<in> set es \<Longrightarrow> time_Sub now (backed_time e) \<le> days_duration (KeepAllDays policy)
     \<Longrightarrow> e \<in> set (keep_loop policy now seen keep es)"
proof (induction policy now seen keep es rule: keep_loop.induct)
  case (1 policy now seen keep)
  then show ?case by simp
next
  case (2 policy now seen keep x es)
  show ?case
  proof (cases "e = x")
    case True
    with 2(7) show ?thesis
      using keep_loop_set(1) [of "keep @ [x]" policy now "meFileID x # seen" es] by (auto simp: Let_def)
  next
    case False
    with 2 show ?thesis by (simp add: Let_def)
  qed
qed

lemma set_select_subset: "set (selectVersionsToKeep versions policy now) \<subseteq> set versions"
proof (cases "versions = []")
  case True
  then show ?thesis by (simp add: selectVersionsToKeep_def)
next
  case False
  have "set (keep_loop policy now [meFileID (last versions)] [last versions] (rev (butlast versions))) \<subseteq> set versions"
    using keep_loop_set(2) [of policy now "[meFileID (last versions)]" "[last versions]" "rev (butlast versions)"]
      False in_set_butlastD by fastforce
  then show ?thesis
    using False by (auto simp: selectVersionsToKeep_def Let_def dest!: in_set_dropD)
qed

lemma sorted_le_last: "sorted (map f ks) \<Longrightarrow> x \<in> set ks \<Longrightarrow> f x \<le> f (last ks)"
  by (induction ks) auto

lemma last_of_sorted:
  assumes "sorted (map versionOf ks)" and "x \<in> set ks" and "\<And>y. y \<in> set ks \<Longrightarrow> y \<noteq> x \<Longrightarrow> versionOf y < versionOf x"
  shows "last ks = x"
  using sorted_le_last [OF assms(1,2)] assms(3) [of "last ks"] assms(2) by (cases ks) force+

lemma select_keeps_last:
  assumes "versions \<noteq> []" and "\<And>y. y \<in> set versions \<Longrightarrow> y \<noteq> last versions \<Longrightarrow> versionOf y < versionOf (last versions)"
  shows "last versions \<in> set (selectVersionsToKeep versions policy now)"
proof -
  define keep where "keep = sortByVersion (keep_loop policy now [meFileID (last versions)] [last versions] (rev (butlast versions)))"
  have "set keep \<subseteq> set versions"
    using keep_loop_set(2) [of policy now "[meFileID (last versions)]" "[last versions]" "rev (butlast versions)"]
      assms(1) in_set_butlastD by (fastforce simp: keep_def)
  moreover have mem: "last versions \<in> set keep"
    using keep_loop_set(1) [of "[last versions]"] by (simp add: keep_def)
  ultimately have "last keep = last versions"
    using assms(2) by (intro last_of_sorted) (auto simp: keep_def sortByVersion_sorted)
  moreover have "keep \<noteq> []" using mem by auto
  ultimately have "n < length keep \<Longrightarrow> last versions \<in> set (drop n keep)" for n
    by (metis drop_eq_Nil last_drop last_in_set not_le)
  moreover have "selectVersionsToKeep versions policy now =
      (if MaxVersions policy > 0 \<and> int (length keep) > MaxVersions policy
       then drop (length keep - nat (MaxVersions policy)) keep else keep)"
    using assms(1) by (simp add: selectVersionsToKeep_def keep_def Let_def)
  ultimately show ?thesis using mem by (auto simp: nat_less_iff)
qed

lemma select_cap:
  "0 < MaxVersions policy \<Longrightarrow> int (length (selectVersionsToKeep versions policy now)) \<le> MaxVersions policy"
  by (auto simp: selectVersionsToKeep_def Let_def)

text \<open>What survives a prune: the entries that the retention rule selects from the sorted versions of
  their path.\<close>

lemma mem_ListVersions:
  assumes "is_order ord (entries_of m)" and "ids_ok (entries_of m)"
  shows "e \<in> set (ListVersions ord m p) \<longleftrightarrow> map_of (entries_of m) (meFileID e) = Some e \<and> mePath e = p"
  using assms by (auto simp: ListVersions_def set_range_vals_ids)

lemma Prune_result:
  assumes "PruneVersions ord pord now m policy = (m', pruned)"
  shows "entries_of m' = foldl (\<lambda>es k. AList.delete k es) (entries_of m) pruned"
    and "pruned = concat (map (gone policy now) (range_vals pord (group_by_path (range_vals ord (entries_of m)))))"
  using assms by (auto simp: PruneVersions_def prune_loop_eq Let_def)

lemma mem_pruned:
  assumes "is_order ord (entries_of m)" and "ids_ok (entries_of m)"
    and "is_order pord (group_by_path (range_vals ord (entries_of m)))"
    and "PruneVersions ord pord now m policy = (m', pruned)"
  shows "k \<in> set pruned \<longleftrightarrow> (\<exists>e. map_of (entries_of m) k = Some e
           \<and> e \<notin> set (selectVersionsToKeep (ListVersions ord m (mePath e)) policy now))"
proof -
  let ?vals = "range_vals ord (entries_of m)"
  have sel_id: "meFileID e \<in> meFileID ` set (selectVersionsToKeep (ListVersions ord m p) policy now) \<longleftrightarrow>
      e \<in> set (selectVersionsToKeep (ListVersions ord m p) policy now)" if "e \<in> set ?vals" for e p
  proof
    assume "meFileID e \<in> meFileID ` set (selectVersionsToKeep (ListVersions ord m p) policy now)"
    then obtain e' where e': "e' \<in> set (selectVersionsToKeep (ListVersions ord m p) policy now)"
      "meFileID e = meFileID e'" by auto
    then have "map_of (entries_of m) (meFileID e') = Some e'"
      using set_select_subset mem_ListVersions [OF assms(1,2)] by blast
    moreover have "map_of (entries_of m) (meFileID e) = Some e"
      using that set_range_vals_ids [OF assms(1,2), of e] by blast
    ultimately have "e' = e" using e'(2) by simp
    with e'(1) show "e \<in> set (selectVersionsToKeep (ListVersions ord m p) policy now)" by simp
  qed auto
  have "k \<in> set pruned \<longleftrightarrow> (\<exists>g \<in> ran (map_of (group_by_path ?vals)). k \<in> set (gone policy now g))"
    using Prune_result(2) [OF assms(4)] set_range_vals_order [OF assms(3)] by auto
  also have "ran (map_of (group_by_path ?vals)) = {g. g \<noteq> [] \<and> (\<exists>p. g = filter (\<lambda>e. mePath e = p) ?vals)}"
    by (auto simp: ran_def map_of_group_by_path)
  also have "(\<exists>g \<in> {g. g \<noteq> [] \<and> (\<exists>p. g = filter (\<lambda>e. mePath e = p) ?vals)}. k \<in> set (gone policy now g))
      \<longleftrightarrow> (\<exists>p. k \<in> set (gone policy now (filter (\<lambda>e. mePath e = p) ?vals)))"
    using mem_gone_nonempty by blast
  also have "\<dots> \<longleftrightarrow> (\<exists>e \<in> set ?vals. meFileID e = k
      \<and> meFileID e \<notin> meFileID ` set (selectVersionsToKeep (ListVersions ord m (mePath e)) policy now))"
    unfolding mem_gone ListVersions_def by blast
  also have "\<dots> \<longleftrightarrow> (\<exists>e \<in> set ?vals. meFileID e = k
      \<and> e \<notin> set (selectVersionsToKeep (ListVersions ord m (mePath e)) policy now))"
    using sel_id by blast
  also have "\<dots> \<longleftrightarrow> (\<exists>e. map_of (entries_of m) k = Some e
      \<and> e \<notin> set (selectVersionsToKeep (ListVersions ord m (mePath e)) policy now))"
    using set_range_vals_ids [OF assms(1,2)] map_of_id [OF assms(2)] by (metis (no_types))
  finally show ?thesis .
qed

lemma Prune_survivors:
  assumes "is_order ord (entries_of m)" and "ids_ok (entries_of m)"
    and "is_order pord (group_by_path (range_vals ord (entries_of m)))"
    and "PruneVersions ord pord now m policy = (m', pruned)"
  shows "map_of (entries_of m') k = Some e \<longleftrightarrow> map_of (entries_of m) k = Some e
      \<and> e \<in> set (selectVersionsToKeep (ListVersions ord m (mePath e)) policy now)"
  using mem_pruned [OF assms, of k] Prune_result(1) [OF assms(4)]
  by (auto simp: map_of_foldl_delete)

lemma Prune_ids_ok:
  "PruneVersions ord pord now m policy = (m', pruned) \<Longrightarrow> ids_ok (entries_of m) \<Longrightarrow> ids_ok (entries_of m')"
  by (drule Prune_result(1)) (simp add: ids_ok_foldl_delete)

lemma versions_ok_subset:
  "versions_ok es \<Longrightarrow> snd ` set es' \<subseteq> snd ` set es \<Longrightarrow> versions_ok es'"
  unfolding versions_ok_def by (meson subsetD)

lemma ListVersions_last:
  assumes "is_order ord (entries_of m)" and "manifest_ok m" and "ListVersions ord m p \<noteq> []"
    and "y \<in> set (ListVersions ord m p)" and "y \<noteq> last (ListVersions ord m p)"
  shows "versionOf y < versionOf (last (ListVersions ord m p))"
proof -
  let ?vs = "ListVersions ord m p"
  have ok: "ids_ok (entries_of m)" "versions_ok (entries_of m)" using assms(2) by (simp_all add: manifest_ok_def)
  have mem: "y \<in> snd ` set (entries_of m)" "last ?vs \<in> snd ` set (entries_of m)"
    "mePath y = p" "mePath (last ?vs) = p"
    using assms(3,4) mem_ListVersions [OF assms(1) ok(1)] last_in_set [OF assms(3)] ids_ok_unique [OF ok(1)] by auto
  then have "meFileID y \<noteq> meFileID (last ?vs)"
    using assms(5) ids_ok_unique [OF ok(1)] by (metis option.inject)
  then have "versionOf y \<noteq> versionOf (last ?vs)"
    using ok(2) mem unfolding versions_ok_def by metis
  moreover have "versionOf y \<le> versionOf (last ?vs)"
    using sorted_le_last [of versionOf ?vs y] assms(4) by (simp add: ListVersions_def sortByVersion_sorted)
  ultimately show ?thesis by simp
qed

lemma Latest_iff:
  assumes "is_order ord (entries_of m)" and "manifest_ok m"
  shows "Latest ord m p = Some e \<longleftrightarrow>
     map_of (entries_of m) (meFileID e) = Some e \<and> mePath e = p
     \<and> (\<forall>x. map_of (entries_of m) (meFileID x) = Some x \<and> mePath x = p \<longrightarrow> versionOf x \<le> versionOf e)"
proof -
  have ok: "ids_ok (entries_of m)" "versions_ok (entries_of m)"
    using assms(2) by (simp_all add: manifest_ok_def)
  note mem = set_range_vals_ids [OF assms(1) ok(1)]
  have fwd: "Latest ord m p = Some e \<Longrightarrow> map_of (entries_of m) (meFileID e) = Some e \<and> mePath e = p
     \<and> (\<forall>x. map_of (entries_of m) (meFileID x) = Some x \<and> mePath x = p \<longrightarrow> versionOf x \<le> versionOf e)" for e
    unfolding Latest_def mem [symmetric]
    by (drule latest_loop_Some) simp
  show ?thesis
  proof
    assume r: "map_of (entries_of m) (meFileID e) = Some e \<and> mePath e = p
     \<and> (\<forall>x. map_of (entries_of m) (meFileID x) = Some x \<and> mePath x = p \<longrightarrow> versionOf x \<le> versionOf e)"
    then have "e \<in> set (range_vals ord (entries_of m))" "mePath e = p" using mem [of e] by simp_all
    then have "Latest ord m p \<noteq> None" by (auto simp: Latest_def latest_loop_None)
    then obtain e' where e': "Latest ord m p = Some e'" by auto
    have "versionOf e' = versionOf e" using fwd [OF e'] r by (simp add: eq_iff)
    then have "meFileID e' = meFileID e"
      using ok(2) fwd [OF e'] r ids_ok_unique [OF ok(1)] unfolding versions_ok_def by metis
    then have "e' = e" using conjunct1 [OF fwd [OF e']] conjunct1 [OF r] by (metis option.inject)
    then show "Latest ord m p = Some e" using e' by blast
  qed (rule fwd)
qed

lemma Prune_manifest_ok:
  assumes "is_order ord (entries_of m)" and "manifest_ok m"
    and "is_order pord (group_by_path (range_vals ord (entries_of m)))"
    and "PruneVersions ord pord now m policy = (m', pruned)"
  shows "manifest_ok m'"
proof -
  have ok: "ids_ok (entries_of m)" "versions_ok (entries_of m)"
    using assms(2) by (simp_all add: manifest_ok_def)
  have ok': "ids_ok (entries_of m')" by (rule Prune_ids_ok [OF assms(4) ok(1)])
  have "snd ` set (entries_of m') \<subseteq> snd ` set (entries_of m)"
    using ids_ok_unique [OF ok(1)] ids_ok_unique [OF ok'] Prune_survivors [OF assms(1) ok(1) assms(3,4)] by blast
  then show ?thesis
    using ok' versions_ok_subset [OF ok(2)] by (simp add: manifest_ok_def)
qed

lemma Prune_keeps_last:
  assumes "is_order ord (entries_of m)" and "manifest_ok m" and "Latest ord m p = Some e"
  shows "e \<in> set (selectVersionsToKeep (ListVersions ord m p) policy now)"
proof -
  have ok: "ids_ok (entries_of m)" using assms(2) by (simp add: manifest_ok_def)
  note e = assms(3) [unfolded Latest_iff [OF assms(1,2)]]
  have mem: "e \<in> set (ListVersions ord m p)" using e mem_ListVersions [OF assms(1) ok] by simp
  then have ne: "ListVersions ord m p \<noteq> []" by auto
  note top = ListVersions_last [OF assms(1,2) ne]
  have "last (ListVersions ord m p) = e"
  proof (rule ccontr)
    assume "last (ListVersions ord m p) \<noteq> e"
    then have "versionOf e < versionOf (last (ListVersions ord m p))" using top [OF mem] by simp
    moreover have "last (ListVersions ord m p) \<in> set (ListVersions ord m p)" using ne by simp
    then have "versionOf (last (ListVersions ord m p)) \<le> versionOf e"
      using e mem_ListVersions [OF assms(1) ok] by blast
    ultimately show False by simp
  qed
  with select_keeps_last [OF ne top] show ?thesis by simp
qed

lemma snd_distinct: "ids_ok es \<Longrightarrow> distinct (map snd es)"
proof -
  assume ok: "ids_ok es"
  have "map meFileID (map snd es) = map fst es"
    using ok by (auto simp: ids_ok_def)
  with ok show "distinct (map snd es)"
    by (metis distinct_map ids_ok_def)
qed

lemma mset_ListVersions:
  assumes "is_order ord (entries_of m)" and "ids_ok (entries_of m)"
  shows "mset (ListVersions ord m p) = mset (filter (\<lambda>e. mePath e = p) (map snd (entries_of m)))"
  using mset_range_vals [OF assms(1)] assms(2) by (simp add: ListVersions_def ids_ok_def)

lemma distinct_ListVersions:
  assumes "is_order ord (entries_of m)" and "ids_ok (entries_of m)"
  shows "distinct (ListVersions ord m p)"
  using mset_ListVersions [OF assms, of p] snd_distinct [OF assms(2)]
  by (metis distinct_filter mset_eq_imp_distinct_iff)

subsection \<open>The manifest as a persistent component\<close>

lemma Save_Manifest_None:
  assumes "Save_Manifest c r s m = (s', None)"
  obtains pt enc where "Marshal c (mfData m) = Inr pt" "Encrypt r (mfMasterKey m) pt = Inr enc"
    "put_file ''manifest: mkdir'' ''manifest: write'' s (mfPath m) enc = (s', None)"
  using assms by (auto simp: Save_Manifest_def split: sum.splits)

lemma Save_Manifest_faults: "Save_Manifest c r s m = (s', e) \<Longrightarrow> same_faults s s'"
  by (auto simp: Save_Manifest_def split: sum.splits dest: put_file_faults)

lemma Load_after_Save:
  assumes "Save_Manifest c r s m = (s', None)" and "inverts c (mfData m)" and "\<not> rfault s (mfPath m)"
    and "mfPath m0 = mfPath m" and "mfMasterKey m0 = mfMasterKey m"
  shows "Load_Manifest c s' m0 = (m, None)"
proof -
  from assms(1) obtain pt enc where pt: "Marshal c (mfData m) = Inr pt"
    and enc: "Encrypt r (mfMasterKey m) pt = Inr enc"
    and put: "put_file ''manifest: mkdir'' ''manifest: write'' s (mfPath m) enc = (s', None)"
    by (rule Save_Manifest_None)
  show ?thesis
    using ReadFile_put_file_same [OF put assms(3)] aes.dec_enc [OF enc] inverts_Unmarshal [OF assms(2) pt] assms(4,5)
    by (simp add: Load_Manifest_def)
qed

lemma Save_Manifest_total:
  assumes "valid_key (mfMasterKey m)" and "fault_free s" and "writable s (mfPath m)" and "inverts c (mfData m)"
  shows "\<exists>s'. Save_Manifest c (Some g) s m = (s', None)"
proof -
  obtain pt where "Marshal c (mfData m) = Inr pt" using inverts_Marshal [OF assms(4)] by blast
  moreover obtain enc where "Encrypt (Some g) (mfMasterKey m) pt = Inr enc"
    using aes.enc_total [OF assms(1)] by blast
  ultimately show ?thesis
    using put_file_total [OF assms(2,3)] by (simp add: Save_Manifest_def)
qed

definition manifest_contents :: "Manifest \<times> error option \<Rightarrow> data result" where
  "manifest_contents me = (case me of (m, None) \<Rightarrow> Inr (mfData m) | (m, Some e) \<Rightarrow> Inl e)"

interpretation manifest_file: persistent
  "\<lambda>s d. Save_Manifest c r s \<lparr>mfPath = p, mfMasterKey = key, mfData = d\<rparr>"
  "\<lambda>s. manifest_contents (Load_Manifest c s (New_Manifest p key))"
  "\<lambda>s d. inverts c d \<and> \<not> rfault s p" for c r p key
proof unfold_locales
  fix s s' d assume "Save_Manifest c r s \<lparr>mfPath = p, mfMasterKey = key, mfData = d\<rparr> = (s', None)"
    and "inverts c d \<and> \<not> rfault s p"
  then show "manifest_contents (Load_Manifest c s' (New_Manifest p key)) = Inr d"
    using Load_after_Save [of c r s "\<lparr>mfPath = p, mfMasterKey = key, mfData = d\<rparr>" s' "New_Manifest p key"]
    by (simp add: manifest_contents_def New_Manifest_def)
next
  fix s d s' e w assume "Save_Manifest c r s \<lparr>mfPath = p, mfMasterKey = key, mfData = d\<rparr> = (s', e)"
  from Save_Manifest_faults [OF this]
  show "(inverts c w \<and> \<not> rfault s' p) = (inverts c w \<and> \<not> rfault s p)"
    by (simp add: same_faults_def)
qed

subsection \<open>Concrete manifests\<close>

definition entry_fmt :: "ManifestEntry wirefmt" where
  "entry_fmt = fmt_iso
     (\<lambda>e. ((meFileID e, mePath e, meHash e, meSize e, meModified e),
           (DataShards (meScheme e), ParityShards (meScheme e)),
           map (\<lambda>l. (slShardIndex l, slIsParity l, slBuddyID l, slStorageKey l)) (meShards e),
           meVersion e, meBackedAt e, meCompressed e))
     (\<lambda>((i, p, h, n, t), (ds, ps), ls, v, b, z).
        \<lparr>meFileID = i, mePath = p, meHash = h, meSize = n, meModified = t,
         meScheme = \<lparr>DataShards = ds, ParityShards = ps\<rparr>,
         meShards = map (\<lambda>(a, b, c, d). \<lparr>slShardIndex = a, slIsParity = b, slBuddyID = c, slStorageKey = d\<rparr>) ls,
         meVersion = v, meBackedAt = b, meCompressed = z\<rparr>)
     (fmt_pair (fmt_pair fmt_string (fmt_pair fmt_string (fmt_pair fmt_string (fmt_pair fmt_int fmt_int))))
       (fmt_pair (fmt_pair fmt_int fmt_int)
         (fmt_pair (fmt_list (fmt_pair fmt_int (fmt_pair fmt_bool (fmt_pair fmt_string fmt_string))))
           (fmt_pair fmt_int (fmt_pair fmt_int fmt_bool)))))"

lemma entry_fmt_ok [fmt_intros]: "fmt_ok entry_fmt"
proof -
  have sl: "\<lparr>slShardIndex = slShardIndex x, slIsParity = slIsParity x, slBuddyID = slBuddyID x,
      slStorageKey = slStorageKey x\<rparr> = x" for x :: ShardLocation
    by (cases x) simp
  have rs: "\<lparr>DataShards = DataShards x, ParityShards = ParityShards x\<rparr> = x" for x :: RSScheme
    by (cases x) simp
  show ?thesis
    unfolding entry_fmt_def by (rule fmt_iso_ok) (simp_all add: fmt_intros comp_def sl rs)
qed

definition manifest_fmt :: "data wirefmt" where
  "manifest_fmt = fmt_iso (\<lambda>d. (mdVersion d, mdEntries d)) (\<lambda>(v, es). \<lparr>mdVersion = v, mdEntries = es\<rparr>)
     (fmt_pair fmt_int (fmt_list (fmt_pair fmt_string entry_fmt)))"

lemma manifest_fmt_ok: "fmt_ok manifest_fmt"
  unfolding manifest_fmt_def by (rule fmt_iso_ok) (simp_all add: fmt_intros)

definition demo_entry :: "string \<Rightarrow> int \<Rightarrow> time \<Rightarrow> ManifestEntry" where
  "demo_entry i v t = \<lparr>meFileID = i, mePath = ''/etc/hosts'', meHash = [], meSize = 3, meModified = t,
     meScheme = \<lparr>DataShards = 2, ParityShards = 1\<rparr>, meShards = [], meVersion = v, meBackedAt = t, meCompressed = True\<rparr>"

definition demo_manifest :: Manifest where
  "demo_manifest = \<lparr>mfPath = [''home'', ''manifest.enc''], mfMasterKey = replicate 32 9,
     mfData = \<lparr>mdVersion = 1, mdEntries = [(''b'', demo_entry ''b'' 2 (5 * Hour)), (''a'', demo_entry ''a'' 1 Hour)]\<rparr>\<rparr>"

lemma demo_manifest_ok: "manifest_ok demo_manifest"
  by (simp add: manifest_ok_def ids_ok_def versions_ok_def demo_manifest_def demo_entry_def versionOf_def)

lemma demo_manifest_order: "is_order [''a'', ''b''] (entries_of demo_manifest)"
  by (auto simp: is_order_def demo_manifest_def)

lemma demo_range_vals:
  "range_vals [''a'', ''b''] (entries_of demo_manifest) = [demo_entry ''a'' 1 Hour, demo_entry ''b'' 2 (5 * Hour)]"
  by (simp add: demo_manifest_def)

lemma demo_group_order: "is_order [''/etc/hosts''] (group_by_path (range_vals [''a'', ''b''] (entries_of demo_manifest)))"
  unfolding demo_range_vals by (simp add: is_order_def group_by_path_def demo_entry_def)

subsection \<open>Properties\<close>

lemma Upsert_Inr:
  assumes "Upsert ord (Inr mt) uuid now m p h n sch locs = (m', Inr e)"
  shows "entries_of m' = AList.update uuid e (entries_of m)" and "meFileID e = uuid" and "mePath e = p"
    and "meVersion e = next_version p (range_vals ord (entries_of m))"
    and "meHash e = hex_EncodeToString h" and "meScheme e = sch" and "meSize e = n" and "meCompressed e = False"
  using assms by (auto simp: Upsert_def Let_def)

lemma Upsert_version:
  assumes "is_order ord (entries_of m)" and "manifest_ok m" and "room_above p (snd ` set (entries_of m))"
    and "Upsert ord (Inr mt) uuid now m p h n sch locs = (m', Inr e)"
  shows "1 \<le> meVersion e" and "versionOf e = meVersion e"
proof -
  have "set (range_vals ord (entries_of m)) = snd ` set (entries_of m)"
    using set_range_vals_ids [OF assms(1)] ids_ok_unique assms(2) by (auto simp: manifest_ok_def)
  then show "1 \<le> meVersion e" using next_version_pos assms(3) Upsert_Inr(4) [OF assms(4)] by simp
  then show "versionOf e = meVersion e" by (simp add: versionOf_def)
qed

lemma Upsert_above:
  assumes "is_order ord (entries_of m)" and "manifest_ok m" and "room_above p (snd ` set (entries_of m))"
    and "Upsert ord (Inr mt) uuid now m p h n sch locs = (m', Inr e)"
    and "x \<in> snd ` set (entries_of m)" and "mePath x = p"
  shows "versionOf x < versionOf e"
proof -
  have "set (range_vals ord (entries_of m)) = snd ` set (entries_of m)"
    using set_range_vals_ids [OF assms(1)] ids_ok_unique assms(2) by (auto simp: manifest_ok_def)
  then show ?thesis
    using next_version_gt [of p "range_vals ord (entries_of m)" x] assms(3,5,6) Upsert_version(2) [OF assms(1-4)]
      Upsert_Inr(4) [OF assms(4)] by simp
qed

lemma Upsert_manifest_ok:
  assumes "is_order ord (entries_of m)" and "manifest_ok m" and "room_above p (snd ` set (entries_of m))"
    and "uuid \<notin> fst ` set (entries_of m)"
    and "Upsert ord (Inr mt) uuid now m p h n sch locs = (m', Inr e)"
  shows "manifest_ok m'"
proof -
  have ok: "ids_ok (entries_of m)" "versions_ok (entries_of m)"
    using assms(2) by (simp_all add: manifest_ok_def)
  note e = Upsert_Inr [OF assms(5)]
  have "1 \<le> versionOf e" using Upsert_version [OF assms(1-3,5)] by simp
  moreover note above = Upsert_above [OF assms(1-3,5)]
  have "snd ` set (entries_of m') = insert e (snd ` set (entries_of m))"
    using snd_set_update [of "entries_of m" uuid e] ok(1) assms(4) e(1) by (simp add: ids_ok_def)
  ultimately have "versions_ok (entries_of m')"
    using ok(2) above e(3) unfolding versions_ok_def
    by (metis insert_iff less_irrefl)
  then show ?thesis
    using ids_ok_update [OF ok(1) e(2)] e(1) by (simp add: manifest_ok_def)
qed

text \<open>Recording a backup of a file adds a version above every version the path had, unless
  one of them is the largest 64-bit number:
  the entry becomes the one that \<open>Latest\<close> returns, for every order of iteration, no older
  entry changes, and the manifest keeps one entry per file id and per version of a path.\<close>

theorem Upsert_adds_the_newest_version:
  assumes "is_order ord (entries_of m)" and "manifest_ok m" and "room_above p (snd ` set (entries_of m))"
    and "uuid \<notin> fst ` set (entries_of m)"
    and "Upsert ord (Inr mt) uuid now m p h n sch locs = (m', Inr e)"
  shows "manifest_ok m'
    \<and> (\<forall>k x. map_of (entries_of m) k = Some x \<longrightarrow> map_of (entries_of m') k = Some x)
    \<and> (\<forall>x \<in> snd ` set (entries_of m). mePath x = p \<longrightarrow> versionOf x < versionOf e)
    \<and> (\<forall>ord'. is_order ord' (entries_of m') \<longrightarrow> Latest ord' m' p = Some e)"
proof (intro conjI allI impI ballI)
  note e = Upsert_Inr [OF assms(5)]
  have ok: "ids_ok (entries_of m)" using assms(2) by (simp add: manifest_ok_def)
  show ok': "manifest_ok m'" by (rule Upsert_manifest_ok [OF assms])
  show "map_of (entries_of m') k = Some x" if "map_of (entries_of m) k = Some x" for k x
    using that assms(4) e(1) by (metis domI dom_map_of_conv_image_fst fun_upd_other map_of_update)
  show above: "versionOf x < versionOf e" if "x \<in> snd ` set (entries_of m)" "mePath x = p" for x
    by (rule Upsert_above [OF assms(1-3,5) that])
  fix ord' assume ord': "is_order ord' (entries_of m')"
  have "versionOf x \<le> versionOf e" if "map_of (entries_of m') (meFileID x) = Some x" "mePath x = p" for x
    using that above [of x] e(1,2) ids_ok_unique [OF ok] by (cases "meFileID x = uuid") auto
  then show "Latest ord' m' p = Some e"
    using e(1-3) by (simp add: Latest_iff [OF ord' ok'])
qed

theorem Upsert_adds_the_newest_version_witness:
  "\<exists>m' e. Upsert [''a'', ''b''] (Inr 7) ''c'' (9 * Hour) demo_manifest ''/etc/hosts'' [1] 4
      \<lparr>DataShards = 2, ParityShards = 1\<rparr> [] = (m', Inr e) \<and> versionOf e = 3
      \<and> Latest [''c'', ''a'', ''b''] m' ''/etc/hosts'' = Some e"
proof -
  obtain m' e where u: "Upsert [''a'', ''b''] (Inr 7) ''c'' (9 * Hour) demo_manifest ''/etc/hosts'' [1] 4
      \<lparr>DataShards = 2, ParityShards = 1\<rparr> [] = (m', Inr e)"
    by (simp add: Upsert_def Let_def)
  have "versionOf e = 3"
    using Upsert_Inr(4) [OF u] unfolding demo_range_vals
    by (simp add: next_version_def version_step_def demo_entry_def versionOf_def wrap64_def)
  moreover have "is_order [''c'', ''a'', ''b''] (entries_of m')"
    using Upsert_Inr(1) [OF u] by (auto simp: is_order_def demo_manifest_def)
  then have "Latest [''c'', ''a'', ''b''] m' ''/etc/hosts'' = Some e"
    using Upsert_adds_the_newest_version [OF demo_manifest_order demo_manifest_ok _ _ u]
    by (simp add: demo_manifest_def demo_entry_def room_above_def versionOf_def)
  ultimately show ?thesis using u by blast
qed

text \<open>\<open>ListVersions\<close> returns exactly the entries of the path, each as often as the manifest
  holds it, ordered from the oldest version to the newest.\<close>

theorem ListVersions_sorted_permutation:
  assumes "is_order ord (entries_of m)" and "ids_ok (entries_of m)"
  shows "sorted (map versionOf (ListVersions ord m p))
    \<and> mset (ListVersions ord m p) = mset (filter (\<lambda>e. mePath e = p) (map snd (entries_of m)))"
  using mset_ListVersions [OF assms] by (simp add: ListVersions_def sortByVersion_sorted)

theorem ListVersions_sorted_permutation_witness:
  "sorted (map versionOf (ListVersions [''a'', ''b''] demo_manifest ''/etc/hosts''))"
  using ListVersions_sorted_permutation [OF demo_manifest_order] demo_manifest_ok
  by (simp add: manifest_ok_def)



lemma select_window:
  assumes "e \<in> set versions" and "MaxVersions policy \<le> 0"
    and "time_Sub now (backed_time e) \<le> days_duration (KeepAllDays policy)"
  shows "e \<in> set (selectVersionsToKeep versions policy now)"
proof -
  let ?k = "keep_loop policy now [meFileID (last versions)] [last versions] (rev (butlast versions))"
  have "versions \<noteq> []" using assms(1) by auto
  then have "e = last versions \<or> e \<in> set (butlast versions)"
    using assms(1) by (metis append_butlast_last_id in_set_conv_decomp rotate1.simps(2) set_ConsD set_rotate1)
  then have "e \<in> set ?k"
    using keep_loop_window [OF _ assms(3)] keep_loop_set(1) [of "[last versions]"] by auto
  with \<open>versions \<noteq> []\<close> assms(2) show ?thesis
    by (simp add: selectVersionsToKeep_def Let_def)
qed

text \<open>C32. Pruning keeps its promises: with a cap, no path has more versions than the cap
  afterwards; without a cap, every version whose age is within the keep-all window survives.\<close>

theorem Prune_respects_the_policy:
  assumes "is_order ord (entries_of m)" and "manifest_ok m"
    and "is_order pord (group_by_path (range_vals ord (entries_of m)))"
    and "PruneVersions ord pord now m policy = (m', pruned)"
  shows "(0 < MaxVersions policy \<longrightarrow> is_order ord' (entries_of m')
            \<longrightarrow> int (length (ListVersions ord' m' p)) \<le> MaxVersions policy)
    \<and> (MaxVersions policy \<le> 0 \<longrightarrow> map_of (entries_of m) k = Some e
         \<longrightarrow> time_Sub now (backed_time e) \<le> days_duration (KeepAllDays policy)
         \<longrightarrow> map_of (entries_of m') k = Some e)"
proof (intro conjI impI)
  have ok: "ids_ok (entries_of m)" using assms(2) by (simp add: manifest_ok_def)
  note surv = Prune_survivors [OF assms(1) ok assms(3,4)]
  {
    assume cap: "0 < MaxVersions policy" and ord': "is_order ord' (entries_of m')"
    let ?sel = "selectVersionsToKeep (ListVersions ord m p) policy now"
    have ok': "ids_ok (entries_of m')" by (rule Prune_ids_ok [OF assms(4) ok])
    have "set (ListVersions ord' m' p) \<subseteq> set ?sel"
      using mem_ListVersions [OF ord' ok'] surv by auto
    then have "card (set (ListVersions ord' m' p)) \<le> length ?sel"
      by (meson List.finite_set card_length card_mono le_trans)
    then show "int (length (ListVersions ord' m' p)) \<le> MaxVersions policy"
      using select_cap [OF cap, of "ListVersions ord m p" now] distinct_card [OF distinct_ListVersions [OF ord' ok']]
      by (metis nat_int_comparison(3) order_trans)
  }
  assume "MaxVersions policy \<le> 0" and e: "map_of (entries_of m) k = Some e"
    and "time_Sub now (backed_time e) \<le> days_duration (KeepAllDays policy)"
  moreover have "e \<in> set (ListVersions ord m (mePath e))"
    using e map_of_id [OF ok e] mem_ListVersions [OF assms(1) ok] by simp
  ultimately show "map_of (entries_of m') k = Some e"
    using select_window surv by blast
qed

theorem Prune_respects_the_policy_witness:
  "\<exists>m' pruned. PruneVersions [''a'', ''b''] [''/etc/hosts''] (6 * Hour) demo_manifest
       \<lparr>KeepAllDays = 30, KeepWeeklyDays = 90, MaxVersions = 0\<rparr> = (m', pruned)
     \<and> map_of (entries_of m') ''a'' = Some (demo_entry ''a'' 1 Hour)"
proof -
  obtain m' pruned where pr: "PruneVersions [''a'', ''b''] [''/etc/hosts''] (6 * Hour) demo_manifest
       \<lparr>KeepAllDays = 30, KeepWeeklyDays = 90, MaxVersions = 0\<rparr> = (m', pruned)"
    by fastforce
  have "time_Sub (6 * Hour) (backed_time (demo_entry ''a'' 1 Hour)) \<le> days_duration 30"
    by (simp add: time_Sub_def backed_time_def demo_entry_def days_duration_def wrap64_def Hour_def Minute_def Second_def)
  moreover have "map_of (entries_of demo_manifest) ''a'' = Some (demo_entry ''a'' 1 Hour)"
    by (simp add: demo_manifest_def)
  ultimately have "map_of (entries_of m') ''a'' = Some (demo_entry ''a'' 1 Hour)"
    using Prune_respects_the_policy [OF demo_manifest_order demo_manifest_ok demo_group_order pr, of _ _ "''a''"]
    by simp
  with pr show ?thesis by blast
qed

text \<open>The retention windows are computed at 64 bits: a keep-all window of 106752 days, about 292
  years, wraps around to a negative duration, so that a version backed up an hour ago no longer
  falls in the keep-all window; up to 106751 days the window is what it says.\<close>

theorem retention_window_overflow:
  "(0 \<le> d \<and> d \<le> 106751 \<longrightarrow> days_duration d = d * 24 * Hour)
    \<and> days_duration 106752 < 0
    \<and> \<not> time_Sub (7 * Hour) (6 * Hour) \<le> days_duration 106752"
proof (intro conjI impI)
  assume d: "0 \<le> d \<and> d \<le> 106751"
  then have "in_int64 (d * 24)" "in_int64 (d * 24 * Hour)"
    by (simp_all add: in_int64_def Hour_def Minute_def Second_def)
  then show "days_duration d = d * 24 * Hour" by (simp add: days_duration_def wrap64_id)
qed (simp_all add: days_duration_def wrap64_def Hour_def Minute_def Second_def time_Sub_def)

theorem retention_window_overflow_witness: "days_duration 30 = 720 * Hour"
  using retention_window_overflow [of 30] by simp

text \<open>A saved manifest is what the next process loads: saving succeeds when the file can be
  written, and loading with the same key into a fresh handle gives the same manifest. The
  bytes that \<open>EncryptedBytes\<close> hands to the buddies decrypt to the same data.\<close>

theorem manifest_save_load:
  assumes "valid_key (mfMasterKey m)" and "fault_free s" and "writable s (mfPath m)" and "inverts c (mfData m)"
  shows "(\<exists>s'. Save_Manifest c (Some g) s m = (s', None)
      \<and> Load_Manifest c s' (New_Manifest (mfPath m) (mfMasterKey m)) = (m, None))
    \<and> (\<exists>b pt. EncryptedBytes c (Some g) m = Inr b \<and> Decrypt (mfMasterKey m) b = Inr pt \<and> Unmarshal c pt = Inr (mfData m))"
proof
  obtain s' where s': "Save_Manifest c (Some g) s m = (s', None)"
    using Save_Manifest_total [OF assms] by blast
  then show "\<exists>s'. Save_Manifest c (Some g) s m = (s', None)
      \<and> Load_Manifest c s' (New_Manifest (mfPath m) (mfMasterKey m)) = (m, None)"
    using Load_after_Save [OF s' assms(4)] assms(2) by (auto simp: fault_free_def New_Manifest_def)
  obtain pt where pt: "Marshal c (mfData m) = Inr pt" using inverts_Marshal [OF assms(4)] by blast
  obtain b where b: "Encrypt (Some g) (mfMasterKey m) pt = Inr b" using aes.enc_total [OF assms(1)] by blast
  show "\<exists>b pt. EncryptedBytes c (Some g) m = Inr b \<and> Decrypt (mfMasterKey m) b = Inr pt \<and> Unmarshal c pt = Inr (mfData m)"
    using pt b aes.dec_enc [OF b] inverts_Unmarshal [OF assms(4) pt] by (simp add: EncryptedBytes_def)
qed

theorem manifest_save_load_witness:
  "\<exists>s'. Save_Manifest (codec_of manifest_fmt) (Some (\<lambda>_. 1)) empty_fs demo_manifest = (s', None)
     \<and> Load_Manifest (codec_of manifest_fmt) s' (New_Manifest [''home'', ''manifest.enc''] (replicate 32 9)) = (demo_manifest, None)"
proof -
  have "writable empty_fs (mfPath demo_manifest)" "fault_free empty_fs" "valid_key (mfMasterKey demo_manifest)"
    by (simp_all add: demo_manifest_def empty_fs_def writable_def is_dir_def is_file_def prefixes_def fault_free_def)
  from manifest_save_load [OF this(3,2,1) codec_of_inverts [OF manifest_fmt_ok]] show ?thesis
    by (simp add: demo_manifest_def)
qed

subsection \<open>The type of a manifest\<close>

text \<open>A manifest has the type its JSON form promises: one entry per file id, filed under that id, with a 64-bit version.
  \<open>manifest_reach m\<close> holds of what \<open>m\<close> becomes under the operations of the package, in any order.\<close>

definition entries_typed :: "entries \<Rightarrow> bool" where
  "entries_typed es \<longleftrightarrow> ids_ok es \<and> (\<forall>e \<in> snd ` set es. in_int64 (meVersion e))"

inductive manifest_reach :: "Manifest \<Rightarrow> Manifest \<Rightarrow> bool" for m where
  start: "manifest_reach m m"
| upserted: "manifest_reach m m1 \<Longrightarrow> Upsert ord mt uuid now m1 p h n sch locs = (m2, r) \<Longrightarrow> manifest_reach m m2"
| pruned: "manifest_reach m m1 \<Longrightarrow> PruneVersions ord pord now m1 policy = (m2, ids) \<Longrightarrow> manifest_reach m m2"
| removed: "manifest_reach m m1 \<Longrightarrow> manifest_reach m (Remove_Manifest m1 k)"
| imported: "manifest_reach m m1 \<Longrightarrow> in_int64 (meVersion e) \<Longrightarrow> manifest_reach m (ImportEntry m1 e)"

lemma entries_typed_update:
  assumes "entries_typed es" and "meFileID e = k" and "in_int64 (meVersion e)"
  shows "entries_typed (AList.update k e es)"
proof -
  have "snd ` set (AList.update k e es) \<subseteq> insert e (snd ` set es)"
    by (induction es) auto
  with assms ids_ok_update [of es e k] show ?thesis unfolding entries_typed_def by blast
qed

lemma entries_typed_delete: "entries_typed es \<Longrightarrow> entries_typed (AList.delete k es)"
  using ids_ok_delete [of es k] by (auto simp: entries_typed_def AList.delete_eq)

lemma entries_typed_deletes: "entries_typed es \<Longrightarrow> entries_typed (foldl (\<lambda>m k. AList.delete k m) es ks)"
  by (induction ks arbitrary: es) (auto intro: entries_typed_delete)

text \<open>C30. Whatever is recorded, pruned, removed or imported, in whatever order and also when a version number wraps around,
  a manifest keeps its type: every entry is filed under its own id, no id occurs twice, and every version number is
  a 64-bit integer.\<close>

theorem manifest_stays_typed:
  assumes "manifest_reach m m'" and "entries_typed (entries_of m)"
  shows "entries_typed (entries_of m')"
  using assms
proof induction
  case (upserted m1 ord mt uuid now p h n sch locs m2 r)
  then show ?case
    by (cases mt) (auto simp: Upsert_def Let_def next_version_in_int64 intro!: entries_typed_update)
next
  case (pruned m1 ord pord now policy m2 ids)
  from Prune_result(1) [OF pruned.hyps(2)] pruned show ?case by (simp add: entries_typed_deletes)
next
  case (removed m1 k)
  then show ?case by (simp add: Remove_Manifest_def entries_typed_delete)
next
  case (imported m1 e)
  then show ?case by (simp add: ImportEntry_def entries_typed_update)
qed

definition hostile_entry :: ManifestEntry where
  "hostile_entry = (demo_entry ''z'' (2 ^ 63 - 1) 0)\<lparr>mePath := ''/etc/hosts''\<rparr>"

theorem manifest_stays_typed_witness:
  "\<exists>m1 e. Upsert [''a'', ''b'', ''z''] (Inr 7) ''c'' (9 * Hour) (ImportEntry demo_manifest hostile_entry) ''/etc/hosts'' [1] 4
       \<lparr>DataShards = 2, ParityShards = 1\<rparr> [] = (m1, Inr e)
     \<and> entries_typed (entries_of (Remove_Manifest m1 ''a''))"
proof -
  let ?m = "ImportEntry demo_manifest hostile_entry"
  obtain m1 e where u: "Upsert [''a'', ''b'', ''z''] (Inr 7) ''c'' (9 * Hour) ?m ''/etc/hosts'' [1] 4
      \<lparr>DataShards = 2, ParityShards = 1\<rparr> [] = (m1, Inr e)"
    by (simp add: Upsert_def Let_def)
  have "manifest_reach demo_manifest (Remove_Manifest m1 ''a'')"
    by (rule manifest_reach.removed, rule manifest_reach.upserted [OF _ u], rule manifest_reach.imported [OF manifest_reach.start])
       (simp add: hostile_entry_def demo_entry_def in_int64_def)
  moreover have "entries_typed (entries_of demo_manifest)"
    using demo_manifest_ok by (simp add: manifest_ok_def entries_typed_def demo_manifest_def demo_entry_def in_int64_def)
  ultimately show ?thesis using manifest_stays_typed u by blast
qed

text \<open>An archive can claim any version. After the import of an entry with the largest version of a path, the
  next backup of that path can get a negative version, and the newest version stays the imported one.\<close>

lemma imported_version_hides_backups:
  assumes "Upsert [''a'', ''b'', ''z''] (Inr mt) ''c'' now (ImportEntry demo_manifest hostile_entry) ''/etc/hosts'' h n sch locs = (m1, Inr e)"
  shows "versionOf e < 0" and "Latest [''a'', ''b'', ''z'', ''c''] m1 ''/etc/hosts'' = Some hostile_entry"
proof -
  have m: "entries_of (ImportEntry demo_manifest hostile_entry) = [(''b'', demo_entry ''b'' 2 (5 * Hour)), (''a'', demo_entry ''a'' 1 Hour), (''z'', hostile_entry)]"
    by (simp add: ImportEntry_def demo_manifest_def hostile_entry_def demo_entry_def)
  note e = Upsert_Inr [OF assms, unfolded m]
  show v: "versionOf e < 0"
    using e(4) by (simp add: range_vals_def List.map_filter_simps next_version_def version_step_def hostile_entry_def
        demo_entry_def versionOf_def wrap64_def)
  show "Latest [''a'', ''b'', ''z'', ''c''] m1 ''/etc/hosts'' = Some hostile_entry"
    using v e(3) by (simp add: Latest_def e(1) range_vals_def List.map_filter_simps hostile_entry_def demo_entry_def versionOf_def)
qed

end
