(* ===== verification/Storage.thy ===== *)
theory Storage
  imports Persist
begin

text \<open>
  \<open>internal/storage/store.go\<close>: the local shard store. A shard is a file
  \<open>root/fileID/index.shard\<close>; \<open>meta.json\<close> beside it lists the shards of the file.

  The locale \<open>shard_store\<close> is the key-value contract that the backup and restore pipelines
  use. It is interpreted here for this store, and in \<open>Buddy_Store\<close> for the store that holds
  other people's shards.
\<close>

text \<open>Putting a list of shards one after the other, stopping at the first error.\<close>

fun put_all :: "(fs \<Rightarrow> 'k \<Rightarrow> bytes \<Rightarrow> fs \<times> error option) \<Rightarrow> fs \<Rightarrow> ('k \<times> bytes) list \<Rightarrow> fs \<times> error option" where
  "put_all put s [] = (s, None)"
| "put_all put s ((k, d) # kds) =
     (case put s k d of (s', Some e) \<Rightarrow> (s', Some e) | (s', None) \<Rightarrow> put_all put s' kds)"

locale shard_store =
  fixes put :: "fs \<Rightarrow> 'k \<Rightarrow> bytes \<Rightarrow> fs \<times> error option"
    and get :: "fs \<Rightarrow> 'k \<Rightarrow> bytes result"
    and key_ok :: "'k \<Rightarrow> bool"
    and readable :: "fs \<Rightarrow> 'k \<Rightarrow> bool"
  assumes get_put_same: "put s k d = (s', None) \<Longrightarrow> key_ok k \<Longrightarrow> readable s k \<Longrightarrow> get s' k = Inr d"
    and get_put_other: "put s k d = (s', e) \<Longrightarrow> key_ok k \<Longrightarrow> key_ok k' \<Longrightarrow> k' \<noteq> k
           \<Longrightarrow> get s' k' = Inr x \<longleftrightarrow> get s k' = Inr x"
    and readable_put: "put s k d = (s', e) \<Longrightarrow> readable s' k' = readable s k'"
begin

lemma put_all_other:
  assumes "put_all put s kds = (s', e)" and "\<And>k d. (k, d) \<in> set kds \<Longrightarrow> key_ok k \<and> k \<noteq> k'" and "key_ok k'"
  shows "get s' k' = Inr x \<longleftrightarrow> get s k' = Inr x"
  using assms
proof (induction kds arbitrary: s)
  case Nil
  then show ?case by simp
next
  case (Cons kd kds)
  obtain k d where kd: "kd = (k, d)" by (cases kd)
  obtain s1 e1 where p: "put s k d = (s1, e1)" by (cases "put s k d")
  have here: "get s1 k' = Inr x \<longleftrightarrow> get s k' = Inr x"
    using get_put_other [OF p] Cons.prems(2) [of k d] Cons.prems(3) kd by auto
  show ?case
  proof (cases e1)
    case None
    then have rest: "put_all put s1 kds = (s', e)" using Cons.prems(1) p kd by simp
    have "key_ok a \<and> a \<noteq> k'" if "(a, b) \<in> set kds" for a b
      using that Cons.prems(2) [of a b] by simp
    with Cons.IH [OF rest] Cons.prems(3) here show ?thesis by blast
  next
    case (Some err)
    with Cons.prems(1) p kd here show ?thesis by simp
  qed
qed

lemma put_all_gets:
  assumes "put_all put s kds = (s', None)" and "distinct (map fst kds)"
    and "\<And>k d. (k, d) \<in> set kds \<Longrightarrow> key_ok k \<and> readable s k"
    and "(k, d) \<in> set kds"
  shows "get s' k = Inr d"
  using assms
proof (induction kds arbitrary: s)
  case Nil
  then show ?case by simp
next
  case (Cons kd kds)
  obtain k0 d0 where kd: "kd = (k0, d0)" by (cases kd)
  obtain s1 where p: "put s k0 d0 = (s1, None)" and rest: "put_all put s1 kds = (s', None)"
    using Cons.prems(1) kd by (auto split: prod.splits option.splits)
  have ok: "key_ok a \<and> readable s1 a \<and> a \<noteq> k0" if "(a, b) \<in> set kds" for a b
    using that Cons.prems(2) Cons.prems(3) [of a b] readable_put [OF p] kd by force
  show ?case
  proof (cases "(k, d) = (k0, d0)")
    case True
    have "get s1 k0 = Inr d0" and "key_ok k0"
      using get_put_same [OF p] Cons.prems(3) [of k0 d0] kd by simp_all
    then show ?thesis
      using put_all_other [OF rest, of k0 d0] ok True by auto
  next
    case False
    then have "(k, d) \<in> set kds" using Cons.prems(4) kd by auto
    then show ?thesis
      using Cons.IH [OF rest] ok Cons.prems(2) by auto
  qed
qed

end

locale total_shard_store = shard_store +
  fixes inv :: "fs \<Rightarrow> bool"
  assumes put_total: "inv s \<Longrightarrow> key_ok k \<Longrightarrow> \<exists>s'. put s k d = (s', None) \<and> inv s'"
begin

lemma put_all_total:
  "inv s \<Longrightarrow> (\<And>k d. (k, d) \<in> set kds \<Longrightarrow> key_ok k) \<Longrightarrow> \<exists>s'. put_all put s kds = (s', None) \<and> inv s'"
proof (induction kds arbitrary: s)
  case Nil
  then show ?case by simp
next
  case (Cons kd kds)
  obtain k d where kd: "kd = (k, d)" by (cases kd)
  then have "key_ok k" using Cons.prems(2) [of k d] by simp
  with put_total [OF Cons.prems(1)] obtain s1 where s1: "put s k d = (s1, None)" "inv s1" by blast
  have "key_ok a" if "(a, b) \<in> set kds" for a b
    using that Cons.prems(2) [of a b] by simp
  with Cons.IH [OF s1(2)] show ?case using kd s1(1) by auto
qed

end

subsection \<open>The local store\<close>

record ShardMeta =
  smFileID :: string
  smShardIndex :: int
  smIsParity :: bool
  smSize :: int

record Store =
  stRoot :: path

definition New :: "fs \<Rightarrow> path \<Rightarrow> fs \<times> Store result" where
  "New s root =
     (case MkdirAll s root of
        (s', Some e) \<Rightarrow> (s', Inl (Wrap ''storage: mkdir'' e))
      | (s', None) \<Rightarrow> (s', Inr \<lparr>stRoot = root\<rparr>))"

definition shardPath :: "Store \<Rightarrow> string \<Rightarrow> int \<Rightarrow> path" where
  "shardPath st fileID shardIndex = Join (stRoot st) [fileID, Itoa shardIndex @ ''.shard'']"

definition metaPath :: "Store \<Rightarrow> string \<Rightarrow> path" where
  "metaPath st fileID = Join (stRoot st) [fileID, ''meta.json'']"

definition readMeta :: "ShardMeta list codec \<Rightarrow> fs \<Rightarrow> Store \<Rightarrow> string \<Rightarrow> ShardMeta list result" where
  "readMeta c s st fileID = rbind (ReadFile s (metaPath st fileID)) (Unmarshal c)"

definition writeMeta ::
  "ShardMeta list codec \<Rightarrow> fs \<Rightarrow> Store \<Rightarrow> string \<Rightarrow> ShardMeta list \<Rightarrow> fs \<times> error option" where
  "writeMeta c s st fileID meta =
     (case Marshal c meta of
        Inl e \<Rightarrow> (s, Some e)
      | Inr d \<Rightarrow> WriteFile s (metaPath st fileID) d)"

text \<open>The loop that updates the entry of a shard, or appends one.\<close>

fun upsert_meta :: "string \<Rightarrow> int \<Rightarrow> bool \<Rightarrow> int \<Rightarrow> ShardMeta list \<Rightarrow> ShardMeta list" where
  "upsert_meta fileID idx par n [] =
     [\<lparr>smFileID = fileID, smShardIndex = idx, smIsParity = par, smSize = n\<rparr>]"
| "upsert_meta fileID idx par n (m # ms) =
     (if smShardIndex m = idx then m\<lparr>smSize := n, smIsParity := par\<rparr> # ms
      else m # upsert_meta fileID idx par n ms)"

definition Put ::
  "ShardMeta list codec \<Rightarrow> fs \<Rightarrow> Store \<Rightarrow> string \<Rightarrow> int \<Rightarrow> bool \<Rightarrow> bytes \<Rightarrow> fs \<times> error option" where
  "Put c s st fileID shardIndex isParity d =
     (case MkdirAll s (Join (stRoot st) [fileID]) of
        (s1, Some e) \<Rightarrow> (s1, Some (Wrap ''storage: mkdir'' e))
      | (s1, None) \<Rightarrow>
          (case WriteFile s1 (shardPath st fileID shardIndex) d of
             (s2, Some e) \<Rightarrow> (s2, Some (Wrap ''storage: write shard'' e))
           | (s2, None) \<Rightarrow>
               let meta = (case readMeta c s2 st fileID of Inl _ \<Rightarrow> [] | Inr m \<Rightarrow> m) in
               writeMeta c s2 st fileID
                 (upsert_meta fileID shardIndex isParity (int (length d)) meta)))"

definition Get :: "fs \<Rightarrow> Store \<Rightarrow> string \<Rightarrow> int \<Rightarrow> bytes result" where
  "Get s st fileID shardIndex =
     wrap ''storage: get shard'' (ReadFile s (shardPath st fileID shardIndex))"

definition Delete :: "fs \<Rightarrow> Store \<Rightarrow> string \<Rightarrow> fs \<times> error option" where
  "Delete s st fileID =
     (case RemoveAll s (Join (stRoot st) [fileID]) of (s', e) \<Rightarrow> (s', ewrap ''storage: delete'' e))"

definition ListFiles :: "fs \<Rightarrow> Store \<Rightarrow> string list result" where
  "ListFiles s st =
     (case ReadDir s (stRoot st) of
        Inl ErrNotExist \<Rightarrow> Inr []
      | Inl e \<Rightarrow> Inl (Wrap ''storage: list'' e)
      | Inr entries \<Rightarrow> Inr (map fst (filter snd entries)))"

definition Meta :: "ShardMeta list codec \<Rightarrow> fs \<Rightarrow> Store \<Rightarrow> string \<Rightarrow> ShardMeta list result" where
  "Meta c s st fileID = readMeta c s st fileID"

definition DiskUsageBytes :: "fs \<Rightarrow> Store \<Rightarrow> int result" where
  "DiskUsageBytes s st =
     (case walk_files s (stRoot st) of
        Inl e \<Rightarrow> Inl e
      | Inr fs \<Rightarrow> Inr (foldl (\<lambda>total f. wrap64 (total + int (length (snd f)))) 0 fs))"

subsection \<open>Paths of the store\<close>

lemma shardPath_plain [path_simps]:
  "plain_component f \<Longrightarrow> shardPath st f i = stRoot st @ [f, Itoa i @ ''.shard'']"
  by (simp add: shardPath_def Join_plain plain_component_Itoa_suffix)

lemma metaPath_plain [path_simps]:
  "plain_component f \<Longrightarrow> metaPath st f = stRoot st @ [f, ''meta.json'']"
proof -
  have "plain_component ''meta.json''" by (simp add: plain_component_def)
  then show "plain_component f \<Longrightarrow> metaPath st f = stRoot st @ [f, ''meta.json'']"
    by (simp add: metaPath_def Join_plain)
qed

lemma shard_name_not_meta: "Itoa i @ ''.shard'' \<noteq> ''meta.json''"
proof
  assume eq: "Itoa i @ ''.shard'' = ''meta.json''"
  have "last (Itoa i @ ''.shard'') = CHR ''d''" by simp
  then show False unfolding eq by simp
qed

lemma shardPath_inj:
  "plain_component f \<Longrightarrow> plain_component g \<Longrightarrow> shardPath st f i = shardPath st g j \<longleftrightarrow> f = g \<and> i = j"
  by (auto simp: path_simps dest: Itoa_inj)

lemma shardPath_not_meta:
  "plain_component f \<Longrightarrow> plain_component g \<Longrightarrow> shardPath st f i \<noteq> metaPath st g"
  by (simp add: path_simps shard_name_not_meta)

subsection \<open>The store meets its contract\<close>

lemma writeMeta_faults: "writeMeta c s st f m = (s', e) \<Longrightarrow> same_faults s s'"
  by (auto simp: writeMeta_def split: sum.splits dest: WriteFile_faults)

lemma ReadFile_writeMeta:
  "writeMeta c s st f m = (s', e) \<Longrightarrow> q \<noteq> metaPath st f \<Longrightarrow> ReadFile s' q = ReadFile s q"
  by (auto simp: writeMeta_def split: sum.splits dest: ReadFile_WriteFile_other)

text \<open>The stages of a successful \<open>Put\<close>.\<close>

lemma Put_None:
  assumes "Put c s st f i par d = (s', None)"
  obtains s1 s2 where "MkdirAll s (Join (stRoot st) [f]) = (s1, None)"
    "WriteFile s1 (shardPath st f i) d = (s2, None)"
    "writeMeta c s2 st f (upsert_meta f i par (int (length d))
       (case readMeta c s2 st f of Inl _ \<Rightarrow> [] | Inr m \<Rightarrow> m)) = (s', None)"
  using assms by (auto simp: Put_def Let_def split: prod.splits option.splits)

lemma Put_faults: "Put c s st f i par d = (s', e) \<Longrightarrow> same_faults s s'"
  by (auto simp: Put_def Let_def split: prod.splits option.splits
      dest!: MkdirAll_faults WriteFile_faults writeMeta_faults intro: same_faults_trans)

lemma Put_frame:
  assumes "Put c s st f i par d = (s', e)" and "q \<noteq> shardPath st f i" and "q \<noteq> metaPath st f"
  shows "ReadFile s' q = Inr x \<longleftrightarrow> ReadFile s q = Inr x"
proof -
  obtain s1 e1 where m: "MkdirAll s (Join (stRoot st) [f]) = (s1, e1)" by fastforce
  obtain s2 e2 where w: "WriteFile s1 (shardPath st f i) d = (s2, e2)" by fastforce
  obtain s3 e3 where wm: "writeMeta c s2 st f (upsert_meta f i par (int (length d))
       (case readMeta c s2 st f of Inl _ \<Rightarrow> [] | Inr m \<Rightarrow> m)) = (s3, e3)" by fastforce
  have "s' \<in> {s1, s2, s3}"
    using assms(1) by (auto simp: Put_def Let_def m w wm split: option.splits)
  then show ?thesis
    using ReadFile_MkdirAll [OF m, of q x] ReadFile_WriteFile_other [OF w assms(2)]
      ReadFile_writeMeta [OF wm assms(3)] by auto
qed

lemma Get_Put_same:
  assumes "Put c s st f i par d = (s', None)" and "plain_component f" and "\<not> rfault s (shardPath st f i)"
  shows "Get s' st f i = Inr d"
proof -
  from assms(1) obtain s1 s2 where m: "MkdirAll s (Join (stRoot st) [f]) = (s1, None)"
    and w: "WriteFile s1 (shardPath st f i) d = (s2, None)"
    and wm: "writeMeta c s2 st f (upsert_meta f i par (int (length d))
       (case readMeta c s2 st f of Inl _ \<Rightarrow> [] | Inr m \<Rightarrow> m)) = (s', None)"
    by (rule Put_None)
  have "ReadFile s2 (shardPath st f i) = Inr d"
    using MkdirAll_frame [OF m] assms(3) by (intro ReadFile_WriteFile_same [OF w]) simp
  then have "ReadFile s' (shardPath st f i) = Inr d"
    using ReadFile_writeMeta [OF wm shardPath_not_meta [OF assms(2,2)]] by simp
  then show ?thesis by (simp add: Get_def)
qed

interpretation lstore: shard_store
  "\<lambda>s k d. Put c s st (fst k) (snd k) (par (snd k)) d"
  "\<lambda>s k. Get s st (fst k) (snd k)"
  "\<lambda>k. plain_component (fst k)"
  "\<lambda>s k. \<not> rfault s (shardPath st (fst k) (snd k))" for c st par
proof unfold_locales
  fix s d s' and k :: "string \<times> int"
  assume "Put c s st (fst k) (snd k) (par (snd k)) d = (s', None)" "plain_component (fst k)"
    "\<not> rfault s (shardPath st (fst k) (snd k))"
  then show "Get s' st (fst k) (snd k) = Inr d" by (rule Get_Put_same)
next
  fix s d s' e x and k k' :: "string \<times> int"
  assume p: "Put c s st (fst k) (snd k) (par (snd k)) d = (s', e)"
    and plain: "plain_component (fst k)" "plain_component (fst k')" and ne: "k' \<noteq> k"
  have "shardPath st (fst k') (snd k') \<noteq> shardPath st (fst k) (snd k)"
    using ne by (simp add: shardPath_inj plain prod_eq_iff)
  then show "Get s' st (fst k') (snd k') = Inr x \<longleftrightarrow> Get s st (fst k') (snd k') = Inr x"
    using Put_frame [OF p] shardPath_not_meta [OF plain(2,1)] by (simp add: Get_def)
next
  fix s d s' e and k k' :: "string \<times> int"
  assume "Put c s st (fst k) (snd k) (par (snd k)) d = (s', e)"
  then show "(\<not> rfault s' (shardPath st (fst k') (snd k'))) = (\<not> rfault s (shardPath st (fst k') (snd k')))"
    using Put_faults by (fastforce simp: same_faults_def)
qed

subsection \<open>Metadata\<close>

definition meta_ok :: "ShardMeta list \<Rightarrow> bool" where
  "meta_ok ms \<longleftrightarrow> distinct (map smShardIndex ms)"

lemma upsert_meta_index:
  "smShardIndex ` set (upsert_meta f i par n ms) = insert i (smShardIndex ` set ms)"
  by (induction ms) auto

lemma upsert_meta_ok: "meta_ok ms \<Longrightarrow> meta_ok (upsert_meta f i par n ms)"
proof (induction ms)
  case Nil
  then show ?case by (simp add: meta_ok_def)
next
  case (Cons m ms)
  then show ?case
    using upsert_meta_index [of f i par n ms] by (auto simp: meta_ok_def image_iff)
qed

lemma upsert_meta_find:
  "find (\<lambda>m. smShardIndex m = j) (upsert_meta f i par n ms) =
     (if j = i then
        (case find (\<lambda>m. smShardIndex m = i) ms of
           None \<Rightarrow> Some \<lparr>smFileID = f, smShardIndex = i, smIsParity = par, smSize = n\<rparr>
         | Some m \<Rightarrow> Some (m\<lparr>smSize := n, smIsParity := par\<rparr>))
      else find (\<lambda>m. smShardIndex m = j) ms)"
  by (induction ms) auto

definition meta_fmt :: "ShardMeta list wirefmt" where
  "meta_fmt = fmt_list (fmt_iso (\<lambda>m. (smFileID m, smShardIndex m, smIsParity m, smSize m))
     (\<lambda>(f, i, p, n). \<lparr>smFileID = f, smShardIndex = i, smIsParity = p, smSize = n\<rparr>)
     (fmt_pair fmt_string (fmt_pair fmt_int (fmt_pair fmt_bool fmt_int))))"

lemma meta_fmt_ok: "fmt_ok meta_fmt"
  unfolding meta_fmt_def by (intro fmt_list_ok fmt_iso_ok) (simp_all add: fmt_intros)

subsection \<open>When a shard can be stored\<close>

text \<open>
  The shape of a store's part of the file system: no file stands at, above or directly below
  the root, and the directories below the root are its children.
\<close>

definition store_ok :: "fs \<Rightarrow> path \<Rightarrow> bool" where
  "store_ok s root \<longleftrightarrow>
     (\<forall>q \<in> fst ` set (files s). \<not> beneath q root \<and> \<not> (beneath root q \<and> length q = Suc (length root))) \<and>
     (\<forall>q \<in> set (dirs s). beneath root q \<longrightarrow> length q \<le> Suc (length root))"

definition marshals :: "'a codec \<Rightarrow> bool" where
  "marshals c \<longleftrightarrow> (\<forall>v. is_ok (Marshal c v))"

lemma is_file_iff: "is_file s q \<longleftrightarrow> q \<in> fst ` set (files s)"
  by (metis domIff dom_map_of_conv_image_fst is_file_def)

lemma set_file_keys: "fst ` set (files (set_file s p d)) = insert p (fst ` set (files s))"
  unfolding set_file_def by (simp add: dom_map_of_conv_image_fst [symmetric])

lemma prefixes_child: "q \<in> set (prefixes (root @ [f])) \<Longrightarrow> beneath q root \<or> q = root @ [f]"
  by (auto simp: prefixes_def beneath_def min_def)

lemma MkdirAll_store_ok:
  assumes "store_ok s root" and "fault_free s"
  shows "\<exists>s'. MkdirAll s (root @ [f]) = (s', None) \<and> store_ok s' root \<and> fault_free s' \<and> is_dir s' (root @ [f])"
proof -
  have nofile: "\<not> is_file s q" if "q \<in> set (prefixes (root @ [f]))" for q
    using prefixes_child [OF that] assms(1) by (auto simp: store_ok_def is_file_iff)
  then obtain s' where s': "MkdirAll s (root @ [f]) = (s', None)"
    using assms(2) by (auto simp: MkdirAll_def fault_free_def)
  have "length q \<le> Suc (length root)" if "q \<in> set (prefixes (root @ [f]))" for q
    using that by (auto simp: prefixes_def min_def)
  then have "store_ok s' root"
    using s' assms(1) by (auto simp: store_ok_def MkdirAll_def split: if_splits)
  with s' show ?thesis
    using MkdirAll_is_dir [OF s'] MkdirAll_faults [OF s'] assms(2)
    by (simp add: same_faults_fault_free)
qed

lemma WriteFile_store_ok:
  assumes "store_ok s root" and "fault_free s" and "is_dir s (root @ [f])"
  shows "\<exists>s'. WriteFile s (root @ [f, n]) d = (s', None) \<and> store_ok s' root \<and> fault_free s'
      \<and> is_dir s' (root @ [f])"
proof -
  have "\<not> is_dir s (root @ [f, n])"
    using assms(1) by (auto simp: store_ok_def is_dir_def)
  moreover have "butlast (root @ [f, n]) = root @ [f]" by (simp add: butlast_append)
  ultimately have w: "WriteFile s (root @ [f, n]) d = (set_file s (root @ [f, n]) d, None)"
    using assms(2,3) by (simp add: WriteFile_def fault_free_def)
  moreover have "store_ok (set_file s (root @ [f, n]) d) root"
    using assms(1) by (simp add: store_ok_def set_file_keys) (simp add: beneath_def)
  moreover have "fault_free (set_file s (root @ [f, n]) d)"
    using assms(2) by (simp add: fault_free_def)
  ultimately show ?thesis using assms(3) by simp
qed

lemma Put_total:
  assumes "store_ok s (stRoot st)" and "fault_free s" and "marshals c" and f: "plain_component f"
  shows "\<exists>s'. Put c s st f i par d = (s', None) \<and> store_ok s' (stRoot st) \<and> fault_free s'"
proof -
  obtain s1 where s1: "MkdirAll s (stRoot st @ [f]) = (s1, None)" "store_ok s1 (stRoot st)"
    "fault_free s1" "is_dir s1 (stRoot st @ [f])"
    using MkdirAll_store_ok [OF assms(1,2)] by blast
  obtain s2 where s2: "WriteFile s1 (shardPath st f i) d = (s2, None)" "store_ok s2 (stRoot st)"
    "fault_free s2" "is_dir s2 (stRoot st @ [f])"
    using WriteFile_store_ok [OF s1(2-4)] f by (simp add: path_simps) blast
  let ?meta = "upsert_meta f i par (int (length d)) (case readMeta c s2 st f of Inl _ \<Rightarrow> [] | Inr m \<Rightarrow> m)"
  obtain b where b: "Marshal c ?meta = Inr b"
    using assms(3) by (auto simp: marshals_def is_ok_iff)
  then obtain s3 where s3: "writeMeta c s2 st f ?meta = (s3, None)" "store_ok s3 (stRoot st)" "fault_free s3"
    using WriteFile_store_ok [OF s2(2-4)] f by (simp add: writeMeta_def path_simps) blast
  then show ?thesis
    using f s1(1) s2(1) by (simp add: Put_def Join_plain)
qed

interpretation lstore_total: total_shard_store
  "\<lambda>s k d. Put c s st (fst k) (snd k) (par (snd k)) d"
  "\<lambda>s k. Get s st (fst k) (snd k)"
  "\<lambda>k. plain_component (fst k)"
  "\<lambda>s k. \<not> rfault s (shardPath st (fst k) (snd k))"
  "\<lambda>s. marshals c \<and> store_ok s (stRoot st) \<and> fault_free s" for c st par
  by unfold_locales (auto dest: Put_total)

lemma codec_of_marshals: "marshals (codec_of f)"
  by (simp add: marshals_def codec_of_def)

subsection \<open>Properties\<close>

text \<open>Storing a batch of shards of plain file ids succeeds on a fault-free disk, and
  afterwards every shard of the batch reads back as the bytes that were put, while every shard
  outside the batch reads as before.\<close>

theorem store_batch_reads_back:
  assumes "marshals c" and "store_ok s (stRoot st)" and "fault_free s"
    and "distinct (map fst kds)" and "\<forall>(k, d) \<in> set kds. plain_component (fst k)"
  shows "\<exists>s'. put_all (\<lambda>s k d. Put c s st (fst k) (snd k) (par (snd k)) d) s kds = (s', None)
     \<and> (\<forall>((f, i), d) \<in> set kds. Get s' st f i = Inr d)
     \<and> (\<forall>f i x. plain_component f \<and> (f, i) \<notin> fst ` set kds \<longrightarrow> Get s' st f i = Inr x \<longleftrightarrow> Get s st f i = Inr x)"
proof -
  have ok: "plain_component (fst k)" if "(k, d) \<in> set kds" for k d
    using that assms(5) by auto
  obtain s' where s': "put_all (\<lambda>s k d. Put c s st (fst k) (snd k) (par (snd k)) d) s kds = (s', None)"
    using lstore_total.put_all_total [of c s st kds par] assms(1-3) ok by blast
  have "Get s' st f i = Inr d" if "((f, i), d) \<in> set kds" for f i d
    using lstore.put_all_gets [OF s' assms(4) _ that] ok assms(3) by (simp add: fault_free_def)
  moreover have "Get s' st f i = Inr x \<longleftrightarrow> Get s st f i = Inr x"
    if "plain_component f" "(f, i) \<notin> fst ` set kds" for f i x
    using lstore.put_all_other [OF s', of "(f, i)" x] that ok by force
  ultimately show ?thesis using s' by blast
qed

theorem store_batch_reads_back_witness:
  "\<exists>s'. put_all (\<lambda>s k d. Put (codec_of meta_fmt) s \<lparr>stRoot = [''store'']\<rparr> (fst k) (snd k) (snd k = 1) d) empty_fs
       [((''f1'', 0), [1, 2]), ((''f1'', 1), [3])] = (s', None)
     \<and> Get s' \<lparr>stRoot = [''store'']\<rparr> ''f1'' 1 = Inr [3]"
  using store_batch_reads_back [of "codec_of meta_fmt" empty_fs "\<lparr>stRoot = [''store'']\<rparr>"
      "[((''f1'', 0), [1, 2]), ((''f1'', 1), [3])]" "\<lambda>i. i = 1"]
  by (auto simp: codec_of_marshals store_ok_def empty_fs_def fault_free_def plain_component_def)

text \<open>After a successful \<open>Put\<close> the metadata of the file has one entry per shard index,
  the entry of the stored shard records its size and parity flag, and every other entry is
  as it was.\<close>

theorem Put_updates_meta:
  assumes "Put c s st f i par d = (s', None)" and "plain_component f"
    and "Meta c s st f = Inr ms" and "meta_ok ms" and "inverts c (upsert_meta f i par (int (length d)) ms)"
  shows "\<exists>ms'. Meta c s' st f = Inr ms' \<and> meta_ok ms'
     \<and> (\<exists>m. find (\<lambda>m. smShardIndex m = i) ms' = Some m \<and> smSize m = int (length d) \<and> smIsParity m = par)
     \<and> (\<forall>j. j \<noteq> i \<longrightarrow> find (\<lambda>m. smShardIndex m = j) ms' = find (\<lambda>m. smShardIndex m = j) ms)"
proof -
  from assms(1) obtain s1 s2 where m: "MkdirAll s (Join (stRoot st) [f]) = (s1, None)"
    and w: "WriteFile s1 (shardPath st f i) d = (s2, None)"
    and wm: "writeMeta c s2 st f (upsert_meta f i par (int (length d))
       (case readMeta c s2 st f of Inl _ \<Rightarrow> [] | Inr m \<Rightarrow> m)) = (s', None)"
    by (rule Put_None)
  obtain b where b: "ReadFile s (metaPath st f) = Inr b" "Unmarshal c b = Inr ms"
    using assms(3) by (auto simp: Meta_def readMeta_def rbind_eq_Inr)
  have rd: "ReadFile s2 (metaPath st f) = Inr b"
    using ReadFile_WriteFile_other [OF w shardPath_not_meta [OF assms(2,2), symmetric]]
      ReadFile_MkdirAll [OF m] b(1) by simp
  then have "readMeta c s2 st f = Inr ms" using b by (simp add: readMeta_def)
  with wm have wm': "writeMeta c s2 st f (upsert_meta f i par (int (length d)) ms) = (s', None)" by simp
  then obtain b' where b': "Marshal c (upsert_meta f i par (int (length d)) ms) = Inr b'"
    "WriteFile s2 (metaPath st f) b' = (s', None)"
    by (auto simp: writeMeta_def split: sum.splits)
  have "ReadFile s' (metaPath st f) = Inr b'"
    using ReadFile_WriteFile_same [OF b'(2)] rd by (simp add: ReadFile_eq_Inr)
  then have "Meta c s' st f = Inr (upsert_meta f i par (int (length d)) ms)"
    using inverts_Unmarshal [OF assms(5) b'(1)] by (simp add: Meta_def readMeta_def)
  then show ?thesis
    using assms(4) by (auto simp: upsert_meta_ok upsert_meta_find split: option.splits)
qed

definition demo_store_fs :: fs where
  "demo_store_fs = empty_fs\<lparr>files := [([''store'', ''f1'', ''meta.json''], fst meta_fmt [])],
     dirs := [[''store''], [''store'', ''f1'']]\<rparr>"

theorem Put_updates_meta_witness:
  "\<exists>s' ms'. Put (codec_of meta_fmt) demo_store_fs \<lparr>stRoot = [''store'']\<rparr> ''f1'' 2 True [9, 9] = (s', None)
     \<and> Meta (codec_of meta_fmt) s' \<lparr>stRoot = [''store'']\<rparr> ''f1'' = Inr ms'
     \<and> (\<exists>m. find (\<lambda>m. smShardIndex m = 2) ms' = Some m \<and> smSize m = 2 \<and> smIsParity m)"
proof -
  let ?st = "\<lparr>stRoot = [''store'']\<rparr>"
  have plain: "plain_component ''f1''" by (simp add: plain_component_def)
  have "store_ok demo_store_fs (stRoot ?st)" "fault_free demo_store_fs"
    by (simp_all add: demo_store_fs_def store_ok_def empty_fs_def fault_free_def beneath_def)
  then obtain s' where s': "Put (codec_of meta_fmt) demo_store_fs ?st ''f1'' 2 True [9, 9] = (s', None)"
    using Put_total [OF _ _ codec_of_marshals plain, where st = ?st] by blast
  have "Unmarshal (codec_of meta_fmt) (fst meta_fmt []) = Inr []"
    using inverts_Unmarshal [OF codec_of_inverts [OF meta_fmt_ok], of "[]"] by (simp add: codec_of_def)
  then have "Meta (codec_of meta_fmt) demo_store_fs ?st ''f1'' = Inr []"
    using plain by (simp add: Meta_def readMeta_def path_simps ReadFile_def demo_store_fs_def empty_fs_def is_dir_def)
  from Put_updates_meta [OF s' plain this] show ?thesis
    using s' by (auto simp: meta_ok_def codec_of_inverts meta_fmt_ok)
qed

text \<open>Deleting a file id removes all of its shards and leaves every other file's shards.\<close>

theorem Delete_removes_only_its_file:
  assumes "Delete s st f = (s', None)" and "plain_component f" and "plain_component g" and "fault_free s"
  shows "Get s' st g i = (if g = f then Inl (Wrap ''storage: get shard'' ErrNotExist) else Get s st g i)"
proof -
  have "RemoveAll s (stRoot st @ [f]) = (s', None)"
    using assms(1,2) by (auto simp: Delete_def Join_plain split: prod.splits)
  from ReadFile_RemoveAll [OF this] show ?thesis
    using assms(2-4) by (simp add: Get_def path_simps beneath_def fault_free_def)
qed

theorem Delete_removes_only_its_file_witness:
  "Get (fst (Delete demo_store_fs \<lparr>stRoot = [''store'']\<rparr> ''f2'')) \<lparr>stRoot = [''store'']\<rparr> ''f2'' 0
     = Inl (Wrap ''storage: get shard'' ErrNotExist)"
proof -
  obtain s' where "Delete demo_store_fs \<lparr>stRoot = [''store'']\<rparr> ''f2'' = (s', None)"
    by (simp add: Delete_def RemoveAll_def demo_store_fs_def empty_fs_def)
  from Delete_removes_only_its_file [OF this, of "''f2''"] this show ?thesis
    by (simp add: plain_component_def demo_store_fs_def empty_fs_def fault_free_def)
qed

text \<open>A file id that is not a plain component can leave the store: with a dot-dot id the
  shard is written beside the store's root. The store itself does not check its file ids.\<close>

theorem Put_can_leave_the_root:
  "\<exists>s'. Put (codec_of meta_fmt) empty_fs \<lparr>stRoot = [''data'', ''store'']\<rparr> ''../evil'' 0 False [1] = (s', None)
     \<and> ReadFile s' [''data'', ''evil'', ''0.shard''] = Inr [1]
     \<and> \<not> beneath [''data'', ''store''] [''data'', ''evil'', ''0.shard'']"
proof -
  have "Itoa 0 = ''0''" by code_simp
  then show ?thesis
    by (simp add: Put_def Join_def path_step_def MkdirAll_def empty_fs_def prefixes_def is_file_def is_dir_def
        shardPath_def metaPath_def WriteFile_def readMeta_def writeMeta_def codec_of_def ReadFile_def beneath_def
        set_file_def Let_def upt_rec)
qed

end
