(* ===== verification/Keystore.thy ===== *)
theory Keystore
  imports Crypto Persist
begin

text \<open>
  \<open>internal/crypto/keystore.go\<close>: the master key, its salt and the named extras, kept in one
  file that is encrypted under a key derived from the password. The salt stands in clear before
  the ciphertext. The Go map \<open>extras\<close> is an association list, a nil map the empty one: the
  code treats both alike.
\<close>

record Keystore =
  ksPath :: path
  ksMasterKey :: bytes
  ksSalt :: bytes
  ksExtras :: "(string \<times> bytes) list"
  ksUnlocked :: bool

record keystoreJSON =
  kjMasterKey :: bytes
  kjSalt :: bytes
  kjExtras :: "(string \<times> bytes) list"

definition NewKeystore :: "path \<Rightarrow> Keystore" where
  "NewKeystore p = \<lparr>ksPath = p, ksMasterKey = [], ksSalt = [], ksExtras = [], ksUnlocked = False\<rparr>"

definition keystore_json :: "Keystore \<Rightarrow> keystoreJSON" where
  "keystore_json k = \<lparr>kjMasterKey = ksMasterKey k, kjSalt = ksSalt k, kjExtras = ksExtras k\<rparr>"

definition ks_save ::
  "libs \<Rightarrow> keystoreJSON codec \<Rightarrow> entropy \<Rightarrow> fs \<Rightarrow> Keystore \<Rightarrow> string \<Rightarrow> fs \<times> error option" where
  "ks_save L c r s k password =
     (case Marshal c (keystore_json k) of
        Inl e \<Rightarrow> (s, Some (Wrap ''keystore: marshal'' e))
      | Inr plaintext \<Rightarrow>
          let fileKey = DeriveKey L password (ksSalt k) in
          (case Encrypt r fileKey plaintext of
             Inl e \<Rightarrow> (s, Some e)
           | Inr encrypted \<Rightarrow>
               let payload = ksSalt k @ encrypted in
               put_file ''keystore: mkdir'' ''keystore: write'' s (ksPath k) payload))"

definition Create ::
  "libs \<Rightarrow> keystoreJSON codec \<Rightarrow> entropy \<Rightarrow> entropy \<Rightarrow> fs \<Rightarrow> Keystore \<Rightarrow> string
     \<Rightarrow> Keystore \<times> fs \<times> error option" where
  "Create L c r1 r2 s k password =
     (case NewSalt r1 of
        Inl e \<Rightarrow> (k, s, Some e)
      | Inr salt \<Rightarrow>
          let k' = k\<lparr>ksSalt := salt, ksMasterKey := DeriveKey L password salt, ksUnlocked := True\<rparr>
          in (k', ks_save L c r2 s k' password))"

definition Unlock ::
  "libs \<Rightarrow> keystoreJSON codec \<Rightarrow> fs \<Rightarrow> Keystore \<Rightarrow> string \<Rightarrow> Keystore \<times> error option" where
  "Unlock L c s k password =
     (case ReadFile s (ksPath k) of
        Inl e \<Rightarrow> (k, Some (Wrap ''keystore: read'' e))
      | Inr blob \<Rightarrow>
          if length blob < SaltSize then (k, Some (Errorf ''keystore: file too short''))
          else
            let salt = take SaltSize blob; encrypted = drop SaltSize blob;
                fileKey = DeriveKey L password salt in
            (case Decrypt fileKey encrypted of
               Inl e \<Rightarrow> (k, Some (Errorf ''keystore: wrong password or corrupted file''))
             | Inr plaintext \<Rightarrow>
                 (case Unmarshal c plaintext of
                    Inl e \<Rightarrow> (k, Some (Wrap ''keystore: parse'' e))
                  | Inr kj \<Rightarrow>
                      (k\<lparr>ksSalt := kjSalt kj, ksMasterKey := kjMasterKey kj,
                         ksExtras := kjExtras kj, ksUnlocked := True\<rparr>, None))))"

definition MasterKey :: "Keystore \<Rightarrow> bytes result" where
  "MasterKey k =
     (if \<not> ksUnlocked k then Inl (Panic ''keystore: MasterKey called on locked keystore'')
      else Inr (ksMasterKey k))"

definition Save ::
  "libs \<Rightarrow> keystoreJSON codec \<Rightarrow> entropy \<Rightarrow> fs \<Rightarrow> Keystore \<Rightarrow> string \<Rightarrow> fs \<times> error option" where
  "Save L c r s k password =
     (if \<not> ksUnlocked k then (s, Some (Errorf ''keystore: cannot save locked keystore''))
      else ks_save L c r s k password)"

text \<open>A missing extra is the nil slice.\<close>

definition LoadExtra :: "Keystore \<Rightarrow> string \<Rightarrow> bytes" where
  "LoadExtra k name = (case map_of (ksExtras k) name of None \<Rightarrow> [] | Some d \<Rightarrow> d)"

definition StoreExtra ::
  "libs \<Rightarrow> keystoreJSON codec \<Rightarrow> entropy \<Rightarrow> fs \<Rightarrow> Keystore \<Rightarrow> string \<Rightarrow> bytes \<Rightarrow> string
     \<Rightarrow> Keystore \<times> fs \<times> error option" where
  "StoreExtra L c r s k name d password =
     (if \<not> ksUnlocked k then (k, s, Some (Errorf ''keystore: cannot store extra on locked keystore''))
      else let k' = k\<lparr>ksExtras := AList.update name d (ksExtras k)\<rparr>
           in (k', ks_save L c r s k' password))"

subsection \<open>The JSON of a key store\<close>

text \<open>
  What \<open>encoding/json\<close> documents for this type: byte slices are written in base64 and come back as they were, and so
  do map keys that are valid UTF-8, as the names that the program uses are. An association list stands for a map if its
  keys differ.
\<close>

definition ascii :: "string \<Rightarrow> bool" where
  "ascii n \<longleftrightarrow> list_all (\<lambda>c. (of_char c :: nat) < 128) n"

definition plain_names :: "(string \<times> bytes) list \<Rightarrow> bool" where
  "plain_names es \<longleftrightarrow> distinct (map fst es) \<and> list_all ascii (map fst es)"

definition ks_json :: "keystoreJSON codec \<Rightarrow> bool" where
  "ks_json c \<longleftrightarrow> (\<forall>v. plain_names (kjExtras v) \<longrightarrow> inverts c v)"

lemma ks_json_inverts: "ks_json c \<Longrightarrow> plain_names (ksExtras k) \<Longrightarrow> inverts c (keystore_json k)"
  by (simp add: ks_json_def keystore_json_def)

lemma plain_names_Nil [simp]: "plain_names []"
  by (simp add: plain_names_def)

lemma plain_names_update: "plain_names es \<Longrightarrow> ascii n \<Longrightarrow> plain_names (AList.update n d es)"
  by (auto simp: plain_names_def distinct_update list_all_iff dom_update simp flip: dom_map_of_conv_image_fst
      simp: update_conv')

subsection \<open>What a saved key store opens to\<close>

lemma length_NewSalt: "NewSalt r = Inr salt \<Longrightarrow> length salt = SaltSize"
  by (simp add: NewSalt_def length_rand_read)

lemma ks_save_None:
  assumes "ks_save L c r s k pw = (s', None)"
  obtains pt enc where "Marshal c (keystore_json k) = Inr pt"
    "Encrypt r (DeriveKey L pw (ksSalt k)) pt = Inr enc"
    "put_file ''keystore: mkdir'' ''keystore: write'' s (ksPath k) (ksSalt k @ enc) = (s', None)"
  using assms by (auto simp: ks_save_def Let_def split: sum.splits)

lemma ks_save_faults: "ks_save L c r s k pw = (s', e) \<Longrightarrow> same_faults s s'"
  by (auto simp: ks_save_def Let_def split: sum.splits dest: put_file_faults)

text \<open>Opening the file that \<open>save\<close> wrote yields the saved contents, whatever the handle held.\<close>

lemma Unlock_ks_save:
  assumes save: "ks_save L c r s k pw = (s', None)"
    and salt: "length (ksSalt k) = SaltSize"
    and json: "inverts c (keystore_json k)"
    and read: "\<not> rfault s (ksPath k)"
    and path: "ksPath k0 = ksPath k"
  shows "Unlock L c s' k0 pw = (k\<lparr>ksUnlocked := True\<rparr>, None)"
proof -
  from save obtain pt enc where pt: "Marshal c (keystore_json k) = Inr pt"
    and enc: "Encrypt r (DeriveKey L pw (ksSalt k)) pt = Inr enc"
    and put: "put_file ''keystore: mkdir'' ''keystore: write'' s (ksPath k) (ksSalt k @ enc) = (s', None)"
    by (rule ks_save_None)
  have "ReadFile s' (ksPath k0) = Inr (ksSalt k @ enc)"
    using ReadFile_put_file_same [OF put read] path by simp
  moreover have "Decrypt (DeriveKey L pw (ksSalt k)) enc = Inr pt"
    by (rule aes.dec_enc [OF enc])
  moreover have "Unmarshal c pt = Inr (keystore_json k)"
    by (rule inverts_Unmarshal [OF json pt])
  ultimately show ?thesis
    using salt path by (simp add: Unlock_def Let_def keystore_json_def)
qed

lemma Unlock_error_keeps: "Unlock L c s k pw = (k', Some e) \<Longrightarrow> k' = k"
  by (auto simp: Unlock_def Let_def split: sum.splits if_splits)

lemma Unlock_ok_unlocked: "Unlock L c s k pw = (k', None) \<Longrightarrow> ksUnlocked k' \<and> ksPath k' = ksPath k"
  by (auto simp: Unlock_def Let_def split: sum.splits if_splits)

subsection \<open>The key store as a persistent component\<close>

definition ks_contents :: "Keystore \<times> error option \<Rightarrow> keystoreJSON result" where
  "ks_contents ke = (case ke of (k, None) \<Rightarrow> Inr (keystore_json k) | (k, Some e) \<Rightarrow> Inl e)"

definition ks_handle :: "path \<Rightarrow> keystoreJSON \<Rightarrow> Keystore" where
  "ks_handle p v = \<lparr>ksPath = p, ksMasterKey = kjMasterKey v, ksSalt = kjSalt v,
     ksExtras = kjExtras v, ksUnlocked = True\<rparr>"

definition ks_sound :: "keystoreJSON codec \<Rightarrow> path \<Rightarrow> fs \<Rightarrow> keystoreJSON \<Rightarrow> bool" where
  "ks_sound c p s v \<longleftrightarrow> length (kjSalt v) = SaltSize \<and> inverts c v \<and> \<not> rfault s p"

lemma keystore_json_handle [simp]: "keystore_json (ks_handle p v) = v"
  by (simp add: keystore_json_def ks_handle_def)

interpretation ks: persistent
  "\<lambda>s v. ks_save L c r s (ks_handle p v) pw"
  "\<lambda>s. ks_contents (Unlock L c s (NewKeystore p) pw)"
  "ks_sound c p" for L c r p pw
proof unfold_locales
  fix s v s' assume "ks_save L c r s (ks_handle p v) pw = (s', None)" and "ks_sound c p s v"
  then show "ks_contents (Unlock L c s' (NewKeystore p) pw) = Inr v"
    using Unlock_ks_save [of L c r s "ks_handle p v" pw s' "NewKeystore p"]
    by (simp add: ks_sound_def ks_contents_def NewKeystore_def)
       (simp add: ks_handle_def keystore_json_def)
next
  fix s v s' e w assume "ks_save L c r s (ks_handle p v) pw = (s', e)"
  then show "ks_sound c p s' w = ks_sound c p s w"
    using ks_save_faults [of L c r s] by (simp add: ks_sound_def same_faults_def)
qed

subsection \<open>A concrete JSON codec\<close>

definition ks_fmt :: "keystoreJSON wirefmt" where
  "ks_fmt = fmt_iso (\<lambda>v. (kjMasterKey v, kjSalt v, kjExtras v))
     (\<lambda>(m, t, x). \<lparr>kjMasterKey = m, kjSalt = t, kjExtras = x\<rparr>)
     (fmt_pair fmt_bytes (fmt_pair fmt_bytes (fmt_list (fmt_pair fmt_string fmt_bytes))))"

lemma ks_fmt_ok: "fmt_ok ks_fmt"
  unfolding ks_fmt_def by (rule fmt_iso_ok) (simp_all add: fmt_intros)

subsection \<open>Properties\<close>

lemma ks_save_total:
  assumes "argon2_lawful L" and "fault_free s" and "writable s (ksPath k)" and "inverts c (keystore_json k)"
  shows "\<exists>s'. ks_save L c (Some g) s k pw = (s', None)"
proof -
  obtain pt where "Marshal c (keystore_json k) = Inr pt"
    using inverts_Marshal [OF assms(4)] by blast
  moreover have "valid_key (DeriveKey L pw (ksSalt k))"
    using assms(1) by (simp add: length_DeriveKey)
  then obtain enc where "Encrypt (Some g) (DeriveKey L pw (ksSalt k)) pt = Inr enc"
    using aes.enc_total by blast
  ultimately show ?thesis
    using put_file_total [OF assms(2,3)] by (simp add: ks_save_def)
qed

lemma ks_save_reopens:
  assumes "argon2_lawful L" and "fault_free s" and "writable s (ksPath k)"
    and "inverts c (keystore_json k)" and "length (ksSalt k) = SaltSize"
  shows "\<exists>s'. ks_save L c (Some g) s k pw = (s', None) \<and> fault_free s' \<and> writable s' (ksPath k)
      \<and> Unlock L c s' (NewKeystore (ksPath k)) pw = (k\<lparr>ksUnlocked := True\<rparr>, None)"
proof -
  obtain s' where s': "ks_save L c (Some g) s k pw = (s', None)"
    using ks_save_total [OF assms(1-4)] by blast
  have "fault_free s'"
    using ks_save_faults [OF s'] assms(2) by (simp add: same_faults_fault_free)
  moreover have "writable s' (ksPath k)"
    using s' assms(3) by (auto elim!: ks_save_None dest: put_file_keeps_writable)
  moreover have "Unlock L c s' (NewKeystore (ksPath k)) pw = (k\<lparr>ksUnlocked := True\<rparr>, None)"
    using assms by (intro Unlock_ks_save [OF s']) (simp_all add: fault_free_def NewKeystore_def)
  ultimately show ?thesis using s' by blast
qed

text \<open>C29. Creating a key store succeeds when the file can be written, and opening the file
  with the same password, from a fresh handle, gives back the same store: the same master key,
  which is the one derived from the password and the generated salt.\<close>

theorem Create_then_Unlock:
  assumes "argon2_lawful L" and "fault_free s" and "writable s p"
    and "inverts c \<lparr>kjMasterKey = DeriveKey L pw (map f [0..<16]), kjSalt = map f [0..<16], kjExtras = []\<rparr>"
  shows "\<exists>k s'. Create L c (Some f) (Some g) s (NewKeystore p) pw = (k, s', None)
      \<and> Unlock L c s' (NewKeystore p) pw = (k, None)
      \<and> MasterKey k = Inr (DeriveKey L pw (map f [0..<16]))"
proof -
  define salt where "salt = map f [0..<16]"
  define k where "k = (NewKeystore p)\<lparr>ksSalt := salt, ksMasterKey := DeriveKey L pw salt, ksUnlocked := True\<rparr>"
  have path: "ksPath k = p" and salt: "length (ksSalt k) = SaltSize"
    and json: "inverts c (keystore_json k)"
    using assms(4) by (simp_all add: k_def salt_def SaltSize_def NewKeystore_def keystore_json_def)
  obtain s' where s': "ks_save L c (Some g) s k pw = (s', None)"
    and un: "Unlock L c s' (NewKeystore p) pw = (k\<lparr>ksUnlocked := True\<rparr>, None)"
    using ks_save_reopens [OF assms(1,2) _ json salt] assms(3) path by auto
  have "NewSalt (Some f) = Inr salt"
    by (simp add: NewSalt_def rand_read_def SaltSize_def salt_def)
  then have "Create L c (Some f) (Some g) s (NewKeystore p) pw = (k, s', None)"
    using s' by (simp add: Create_def k_def Let_def)
  moreover have "Unlock L c s' (NewKeystore p) pw = (k, None)"
    using un by (simp add: k_def)
  moreover have "MasterKey k = Inr (DeriveKey L pw salt)"
    by (simp add: MasterKey_def k_def)
  ultimately show ?thesis
    unfolding salt_def by blast
qed

theorem Create_then_Unlock_witness:
  "\<exists>k s'. Create demo_libs (codec_of ks_fmt) (Some word_of_nat) (Some (\<lambda>_. 7)) empty_fs
        (NewKeystore [''home'', ''keystore.enc'']) ''hunter2'' = (k, s', None)
      \<and> Unlock demo_libs (codec_of ks_fmt) s' (NewKeystore [''home'', ''keystore.enc'']) ''hunter2'' = (k, None)
      \<and> MasterKey k = Inr (DeriveKey demo_libs ''hunter2'' (map word_of_nat [0..<16]))"
  by (rule Create_then_Unlock)
     (simp_all add: demo_argon2_lawful codec_of_inverts ks_fmt_ok fault_free_def empty_fs_def
        writable_def is_dir_def is_file_def prefixes_def)

text \<open>Changing the password (\<open>Save\<close> with a new one on an unlocked store) keeps the master
  key and every extra: a fresh handle opened with the new password is the store that was saved.\<close>

theorem Save_new_password_keeps_keys:
  assumes "Unlock L c s k0 oldpw = (k, None)" and "length (ksSalt k) = SaltSize"
    and "inverts c (keystore_json k)" and "\<not> rfault s (ksPath k)"
    and "Save L c r s k newpw = (s', None)" and "ksPath k1 = ksPath k0"
  shows "\<exists>k'. Unlock L c s' k1 newpw = (k', None) \<and> MasterKey k' = MasterKey k
      \<and> (\<forall>n. LoadExtra k' n = LoadExtra k n)"
proof -
  have u: "ksUnlocked k" "ksPath k = ksPath k0"
    using Unlock_ok_unlocked [OF assms(1)] by simp_all
  then have "ks_save L c r s k newpw = (s', None)"
    using assms(5) by (simp add: Save_def)
  then have "Unlock L c s' k1 newpw = (k\<lparr>ksUnlocked := True\<rparr>, None)"
    using assms u by (intro Unlock_ks_save) auto
  then show ?thesis
    using u by (simp add: MasterKey_def LoadExtra_def)
qed

definition demo_ks :: Keystore where
  "demo_ks = \<lparr>ksPath = [''home'', ''keystore.enc''], ksMasterKey = replicate 32 9, ksSalt = replicate 16 5,
     ksExtras = [(''identity'', [1, 2, 3])], ksUnlocked = True\<rparr>"

theorem Save_new_password_keeps_keys_witness:
  "\<exists>s k s' k'. Unlock demo_libs (codec_of ks_fmt) s (NewKeystore (ksPath demo_ks)) ''old'' = (k, None)
     \<and> Save demo_libs (codec_of ks_fmt) (Some (\<lambda>_. 3)) s k ''new'' = (s', None)
     \<and> Unlock demo_libs (codec_of ks_fmt) s' (NewKeystore (ksPath demo_ks)) ''new'' = (k', None)
     \<and> MasterKey k' = Inr (replicate 32 9) \<and> LoadExtra k' ''identity'' = [1, 2, 3]"
proof -
  have ok: "writable empty_fs (ksPath demo_ks)" "fault_free empty_fs" "length (ksSalt demo_ks) = SaltSize"
    by (simp_all add: demo_ks_def empty_fs_def writable_def is_dir_def is_file_def prefixes_def
        fault_free_def SaltSize_def)
  have json: "inverts (codec_of ks_fmt) (keystore_json demo_ks)"
    by (simp add: codec_of_inverts ks_fmt_ok)
  obtain s where s: "Unlock demo_libs (codec_of ks_fmt) s (NewKeystore (ksPath demo_ks)) ''old'' = (demo_ks, None)"
    "fault_free s" "writable s (ksPath demo_ks)"
    using ks_save_reopens [OF demo_argon2_lawful ok(2,1) json ok(3), where g = "\<lambda>_. 1" and pw = "''old''"]
    by (auto simp: demo_ks_def)
  obtain s' where s': "Save demo_libs (codec_of ks_fmt) (Some (\<lambda>_. 3)) s demo_ks ''new'' = (s', None)"
    using ks_save_total [OF demo_argon2_lawful s(2,3) json] by (auto simp: Save_def demo_ks_def)
  have "\<not> rfault s (ksPath demo_ks)" using s(2) by (simp add: fault_free_def)
  from Save_new_password_keeps_keys [OF s(1) ok(3) json this s' refl]
  obtain k' where "Unlock demo_libs (codec_of ks_fmt) s' (NewKeystore (ksPath demo_ks)) ''new'' = (k', None)"
    "MasterKey k' = MasterKey demo_ks" "LoadExtra k' ''identity'' = LoadExtra demo_ks ''identity''"
    by blast
  moreover have "MasterKey demo_ks = Inr (replicate 32 9)" "LoadExtra demo_ks ''identity'' = [1, 2, 3]"
    by (simp_all add: MasterKey_def LoadExtra_def demo_ks_def)
  ultimately show ?thesis using s(1) s' by metis
qed

text \<open>A locked key store gives nothing away and changes nothing: \<open>MasterKey\<close> panics,
  \<open>Save\<close> and \<open>StoreExtra\<close> return an error and leave the file system and the handle alone; and
  an \<open>Unlock\<close> that fails leaves the handle as it was, in particular locked.\<close>

theorem locked_keystore_is_inert:
  assumes "\<not> ksUnlocked k"
  shows "MasterKey k = Inl (Panic ''keystore: MasterKey called on locked keystore'')
    \<and> (\<exists>e. Save L c r s k pw = (s, Some e))
    \<and> (\<exists>e. StoreExtra L c r s k name d pw = (k, s, Some e))
    \<and> (\<forall>k' e. Unlock L c s k pw = (k', Some e) \<longrightarrow> \<not> ksUnlocked k')"
  using assms by (auto simp: MasterKey_def Save_def StoreExtra_def dest: Unlock_error_keeps)

theorem locked_keystore_is_inert_witness:
  "(\<exists>e. Save demo_libs (codec_of ks_fmt) None empty_fs (NewKeystore [''k'']) ''pw'' = (empty_fs, Some e))"
  using locked_keystore_is_inert [of "NewKeystore [''k'']"] by (simp add: NewKeystore_def)

end
