(* ===== verification/Identity.thy ===== *)
theory Identity
  imports Keystore
begin

text \<open>
  \<open>internal/identity/identity.go\<close> and \<open>internal/p2p/identity.go\<close>: the peer key is derived from a 16-byte
  seed that a 12-word phrase encodes; both are kept as extras of the key store. BIP39 and the
  Ed25519 keys of libp2p are the record \<open>idlib\<close>; a private key is its raw representation.
\<close>

record idlib =
  il_NewEntropy :: "bytes result"
  il_NewMnemonic :: "bytes \<Rightarrow> string result"
  il_IsMnemonicValid :: "string \<Rightarrow> bool"
  il_EntropyFromMnemonic :: "string \<Rightarrow> bytes result"
  il_GenerateEd25519Key :: "bytes \<Rightarrow> bytes result"
  il_MarshalPrivateKey :: "bytes \<Rightarrow> bytes result"
  il_UnmarshalPrivateKey :: "bytes \<Rightarrow> bytes result"

definition SeedSize :: nat where "SeedSize = 16"

definition KeyName :: string where "KeyName = ''identity_seed''"

definition identityDomain :: string where "identityDomain = ''cerclbackup-identity-seed-v1''"

definition peerKeyName :: string where "peerKeyName = ''peer_privkey''"

definition Generate_Identity :: "idlib \<Rightarrow> (bytes \<times> string) result" where
  "Generate_Identity I =
     rbind (wrap ''identity: entropy'' (il_NewEntropy I)) (\<lambda>seed.
     rbind (wrap ''identity: mnemonic'' (il_NewMnemonic I seed)) (\<lambda>mnemonic. Inr (seed, mnemonic)))"

definition SeedFromMnemonic :: "idlib \<Rightarrow> string \<Rightarrow> bytes result" where
  "SeedFromMnemonic I mnemonic =
     (if \<not> il_IsMnemonicValid I mnemonic then Inl (Errorf ''identity: invalid recovery phrase'')
      else case il_EntropyFromMnemonic I mnemonic of
             Inl e \<Rightarrow> Inl (Wrap ''identity: decode phrase'' e)
           | Inr seed \<Rightarrow>
               if length seed \<noteq> SeedSize then Inl (Errorf ''identity: expected another seed size'') else Inr seed)"

definition MnemonicFromSeed :: "idlib \<Rightarrow> bytes \<Rightarrow> string result" where
  "MnemonicFromSeed I seed =
     (if length seed \<noteq> SeedSize then Inl (Errorf ''identity: seed must be 16 bytes'')
      else wrap ''identity: encode seed'' (il_NewMnemonic I seed))"

definition DerivePrivKey :: "libs \<Rightarrow> idlib \<Rightarrow> bytes \<Rightarrow> bytes result" where
  "DerivePrivKey L I seed =
     (if length seed \<noteq> SeedSize then Inl (Errorf ''identity: seed must be 16 bytes'')
      else
        rbind (wrap ''identity: hkdf'' (hkdf_read L seed [] (bytes_of_string identityDomain) 32)) (\<lambda>expanded.
        wrap ''identity: ed25519'' (il_GenerateEd25519Key I expanded)))"

definition EnsurePeerIdentity ::
  "libs \<Rightarrow> idlib \<Rightarrow> keystoreJSON codec \<Rightarrow> entropy \<Rightarrow> entropy \<Rightarrow> fs \<Rightarrow> Keystore \<Rightarrow> string
     \<Rightarrow> Keystore \<times> fs \<times> bytes result" where
  "EnsurePeerIdentity L I c r1 r2 s ks password =
     (let raw = LoadExtra ks peerKeyName in
      if raw \<noteq> [] then (ks, s, wrap ''p2p: unmarshal peer key'' (il_UnmarshalPrivateKey I raw))
      else case Generate_Identity I of
             Inl e \<Rightarrow> (ks, s, Inl (Wrap ''p2p: generate identity seed'' e))
           | Inr (seed, _) \<Rightarrow>
               (case StoreExtra L c r1 s ks KeyName seed password of
                  (ks1, s1, Some e) \<Rightarrow> (ks1, s1, Inl (Wrap ''p2p: store identity seed'' e))
                | (ks1, s1, None) \<Rightarrow>
                    (case DerivePrivKey L I seed of
                       Inl e \<Rightarrow> (ks1, s1, Inl e)
                     | Inr priv \<Rightarrow>
                         (case il_MarshalPrivateKey I priv of
                            Inl e \<Rightarrow> (ks1, s1, Inl (Wrap ''p2p: marshal peer key'' e))
                          | Inr raw \<Rightarrow>
                              (case StoreExtra L c r2 s1 ks1 peerKeyName raw password of
                                 (ks2, s2, Some e) \<Rightarrow> (ks2, s2, Inl (Wrap ''p2p: store peer key'' e))
                               | (ks2, s2, None) \<Rightarrow> (ks2, s2, Inr priv))))))"

definition EnsurePeerIdentityFromSeed ::
  "libs \<Rightarrow> idlib \<Rightarrow> keystoreJSON codec \<Rightarrow> entropy \<Rightarrow> entropy \<Rightarrow> fs \<Rightarrow> Keystore \<Rightarrow> bytes \<Rightarrow> string
     \<Rightarrow> Keystore \<times> fs \<times> bytes result" where
  "EnsurePeerIdentityFromSeed L I c r1 r2 s ks seed password =
     (case DerivePrivKey L I seed of
        Inl e \<Rightarrow> (ks, s, Inl e)
      | Inr priv \<Rightarrow>
          (case il_MarshalPrivateKey I priv of
             Inl e \<Rightarrow> (ks, s, Inl (Wrap ''p2p: marshal peer key'' e))
           | Inr raw \<Rightarrow>
               (case StoreExtra L c r1 s ks KeyName seed password of
                  (ks1, s1, Some e) \<Rightarrow> (ks1, s1, Inl (Wrap ''p2p: store identity seed'' e))
                | (ks1, s1, None) \<Rightarrow>
                    (case StoreExtra L c r2 s1 ks1 peerKeyName raw password of
                       (ks2, s2, Some e) \<Rightarrow> (ks2, s2, Inl (Wrap ''p2p: store peer key'' e))
                     | (ks2, s2, None) \<Rightarrow> (ks2, s2, Inr priv)))))"

text \<open>What the code relies on: a phrase encodes its seed, and a marshalled key reads back.\<close>

definition id_lawful :: "idlib \<Rightarrow> bool" where
  "id_lawful I \<longleftrightarrow>
     (\<forall>seed w. il_NewMnemonic I seed = Inr w \<longrightarrow> il_IsMnemonicValid I w \<and> il_EntropyFromMnemonic I w = Inr seed) \<and>
     (\<forall>k raw. il_MarshalPrivateKey I k = Inr raw \<longrightarrow> raw \<noteq> [] \<and> il_UnmarshalPrivateKey I raw = Inr k)"

lemma StoreExtra_None:
  "StoreExtra L c r s ks n d pw = (ks', s', None) \<Longrightarrow>
     ksUnlocked ks \<and> ks' = ks\<lparr>ksExtras := AList.update n d (ksExtras ks)\<rparr>"
  by (auto simp: StoreExtra_def Let_def split: if_splits)

lemma EnsurePeerIdentity_fresh:
  assumes "EnsurePeerIdentity L I c r1 r2 s ks pw = (ks', s', Inr priv)" and "LoadExtra ks peerKeyName = []"
  shows "\<exists>seed raw. DerivePrivKey L I seed = Inr priv \<and> il_MarshalPrivateKey I priv = Inr raw
     \<and> LoadExtra ks' KeyName = seed \<and> LoadExtra ks' peerKeyName = raw"
proof -
  from assms obtain seed w ks1 s1 raw where st1: "StoreExtra L c r1 s ks KeyName seed pw = (ks1, s1, None)"
    and der: "DerivePrivKey L I seed = Inr priv" and raw: "il_MarshalPrivateKey I priv = Inr raw"
    and st2: "StoreExtra L c r2 s1 ks1 peerKeyName raw pw = (ks', s', None)"
    by (auto simp: EnsurePeerIdentity_def Let_def split: sum.splits prod.splits option.splits)
  show ?thesis
    using der raw StoreExtra_None [OF st1] StoreExtra_None [OF st2]
    by (auto simp: LoadExtra_def KeyName_def peerKeyName_def)
qed

subsection \<open>Properties\<close>

text \<open>The recovery phrase brings back the peer identity: when a key store made a fresh identity, the
  phrase of the seed it stored, entered on another key store, yields the same private key, and a
  later start of either store loads that key.\<close>

theorem recovery_phrase_restores_the_identity:
  assumes "id_lawful I" and "LoadExtra ks peerKeyName = []"
    and "EnsurePeerIdentity L I c r1 r2 s ks pw = (ks1, s1, Inr priv)"
    and "MnemonicFromSeed I (LoadExtra ks1 KeyName) = Inr phrase"
    and "SeedFromMnemonic I phrase = Inr seed"
    and "EnsurePeerIdentityFromSeed L I c r3 r4 t ks2 seed pw2 = (ks3, t', res)"
    and "res = Inr priv2"
  shows "priv2 = priv
    \<and> snd (snd (EnsurePeerIdentity L I c r1 r2 s1 ks1 pw)) = Inr priv
    \<and> snd (snd (EnsurePeerIdentity L I c r3 r4 t' ks3 pw2)) = Inr priv"
proof -
  obtain seed0 raw where f: "DerivePrivKey L I seed0 = Inr priv" "il_MarshalPrivateKey I priv = Inr raw"
    "LoadExtra ks1 KeyName = seed0" "LoadExtra ks1 peerKeyName = raw"
    using EnsurePeerIdentity_fresh [OF assms(3,2)] by blast
  have "il_NewMnemonic I seed0 = Inr phrase"
    using assms(4) f(3) by (simp add: MnemonicFromSeed_def split: if_splits)
  then have "seed = seed0"
    using assms(1,5) by (auto simp: id_lawful_def SeedFromMnemonic_def split: if_splits)
  with f(1) have der: "DerivePrivKey L I seed = Inr priv" by simp
  have r: "raw \<noteq> []" "il_UnmarshalPrivateKey I raw = Inr priv"
    using assms(1) f(2) by (auto simp: id_lawful_def)
  from assms(6,7) der f(2) obtain k1 u1 where "StoreExtra L c r4 u1 k1 peerKeyName raw pw2 = (ks3, t', None)"
    and "priv2 = priv"
    by (auto simp: EnsurePeerIdentityFromSeed_def split: prod.splits option.splits)
  then have "LoadExtra ks3 peerKeyName = raw"
    by (auto simp: LoadExtra_def dest: StoreExtra_None)
  then show ?thesis
    using \<open>priv2 = priv\<close> r f(4) by (simp add: EnsurePeerIdentity_def)
qed

definition demo_id :: idlib where
  "demo_id = \<lparr>il_NewEntropy = Inr (replicate 16 4), il_NewMnemonic = (\<lambda>b. Inr (string_of_bytes b)),
     il_IsMnemonicValid = (\<lambda>_. True), il_EntropyFromMnemonic = (\<lambda>w. Inr (bytes_of_string w)),
     il_GenerateEd25519Key = Inr, il_MarshalPrivateKey = (\<lambda>k. Inr (0 # k)), il_UnmarshalPrivateKey = (\<lambda>r. Inr (tl r))\<rparr>"

lemma bytes_of_string_of_bytes [simp]: "bytes_of_string (string_of_bytes b) = b"
proof -
  have "of_char (char_of (unat w)) = w" for w :: byte
  proof -
    have "unat w < 256" using unsigned_less [of w] by simp
    then have "(of_nat (of_char (char_of (unat w) :: char)) :: byte) = w"
      by (simp add: of_char_of word_of_nat_unat_id del: of_nat_of_char)
    then show ?thesis by (simp only: of_nat_of_char)
  qed
  then show ?thesis by (simp add: bytes_of_string_def string_of_bytes_def comp_def)
qed

lemma demo_id_lawful: "id_lawful demo_id"
  by (auto simp: id_lawful_def demo_id_def)

theorem recovery_phrase_restores_the_identity_witness:
  "\<exists>s1 ks1 priv phrase seed ks3 t'.
      EnsurePeerIdentity demo_libs demo_id (codec_of ks_fmt) (Some (\<lambda>_. 1)) (Some (\<lambda>_. 2)) empty_fs demo_ks ''pw'' = (ks1, s1, Inr priv)
    \<and> MnemonicFromSeed demo_id (LoadExtra ks1 KeyName) = Inr phrase \<and> SeedFromMnemonic demo_id phrase = Inr seed
    \<and> EnsurePeerIdentityFromSeed demo_libs demo_id (codec_of ks_fmt) (Some (\<lambda>_. 3)) (Some (\<lambda>_. 4)) empty_fs demo_ks seed ''pw2'' = (ks3, t', Inr priv)
    \<and> snd (snd (EnsurePeerIdentity demo_libs demo_id (codec_of ks_fmt) (Some (\<lambda>_. 3)) (Some (\<lambda>_. 4)) t' ks3 ''pw2'')) = Inr priv"
proof -
  let ?L = demo_libs and ?c = "codec_of ks_fmt"
  have st: "\<exists>s'. StoreExtra ?L ?c (Some g) s k n d pw = (k\<lparr>ksExtras := AList.update n d (ksExtras k)\<rparr>, s', None)
      \<and> fault_free s' \<and> writable s' (ksPath k)"
    if "ksUnlocked k" "fault_free s" "writable s (ksPath k)" "length (ksSalt k) = SaltSize" for g s k n d pw
    using ks_save_reopens [OF demo_argon2_lawful that(2), of "k\<lparr>ksExtras := AList.update n d (ksExtras k)\<rparr>" ?c g pw]
      that codec_of_inverts [OF ks_fmt_ok] by (auto simp: StoreExtra_def Let_def)
  have k0: "ksUnlocked demo_ks" "fault_free empty_fs" "writable empty_fs (ksPath demo_ks)" "length (ksSalt demo_ks) = SaltSize"
    by (simp_all add: demo_ks_def empty_fs_def writable_def is_dir_def is_file_def prefixes_def fault_free_def SaltSize_def)
  let ?seed = "replicate 16 (4 :: byte)"
  obtain priv where "hkdf_read ?L ?seed [] (bytes_of_string identityDomain) 32 = Inr priv"
    using demo_hkdf_lawful unfolding hkdf_lawful_def by blast
  then have priv: "DerivePrivKey ?L demo_id ?seed = Inr priv"
    by (simp add: DerivePrivKey_def SeedSize_def demo_id_def)
  let ?k1 = "demo_ks\<lparr>ksExtras := AList.update KeyName ?seed (ksExtras demo_ks)\<rparr>"
  let ?k2 = "?k1\<lparr>ksExtras := AList.update peerKeyName (0 # priv) (ksExtras ?k1)\<rparr>"
  have two: "\<exists>s1 s2. StoreExtra ?L ?c (Some g) empty_fs demo_ks KeyName ?seed pw = (?k1, s1, None)
      \<and> StoreExtra ?L ?c (Some h) s1 ?k1 peerKeyName (0 # priv) pw = (?k2, s2, None)" for g h pw
  proof -
    obtain s1 where s1: "StoreExtra ?L ?c (Some g) empty_fs demo_ks KeyName ?seed pw = (?k1, s1, None)" "fault_free s1"
      "writable s1 (ksPath demo_ks)" using st [OF k0] by blast
    obtain s2 where "StoreExtra ?L ?c (Some h) s1 ?k1 peerKeyName (0 # priv) pw = (?k2, s2, None)"
      using st [of ?k1 s1 h peerKeyName "0 # priv" pw] s1 k0 by auto
    with s1(1) show ?thesis by blast
  qed
  have gen: "Generate_Identity demo_id = Inr (?seed, string_of_bytes ?seed)" "il_MarshalPrivateKey demo_id priv = Inr (0 # priv)"
    by (simp_all add: Generate_Identity_def demo_id_def)
  have no: "LoadExtra demo_ks peerKeyName = []" by (simp add: LoadExtra_def demo_ks_def peerKeyName_def)
  obtain s1 where e1: "EnsurePeerIdentity ?L demo_id ?c (Some (\<lambda>_. 1)) (Some (\<lambda>_. 2)) empty_fs demo_ks ''pw'' = (?k2, s1, Inr priv)"
    using two [of "\<lambda>_. 1" "''pw''" "\<lambda>_. 2"] priv gen no by (auto simp: EnsurePeerIdentity_def)
  obtain t' where e2: "EnsurePeerIdentityFromSeed ?L demo_id ?c (Some (\<lambda>_. 3)) (Some (\<lambda>_. 4)) empty_fs demo_ks ?seed ''pw2'' = (?k2, t', Inr priv)"
    using two [of "\<lambda>_. 3" "''pw2''" "\<lambda>_. 4"] priv gen by (auto simp: EnsurePeerIdentityFromSeed_def)
  have "LoadExtra ?k2 KeyName = ?seed" by (simp add: LoadExtra_def KeyName_def peerKeyName_def)
  then have ph: "MnemonicFromSeed demo_id (LoadExtra ?k2 KeyName) = Inr (string_of_bytes ?seed)"
    by (simp add: MnemonicFromSeed_def SeedSize_def demo_id_def)
  have sd: "SeedFromMnemonic demo_id (string_of_bytes ?seed) = Inr ?seed"
    by (simp add: SeedFromMnemonic_def demo_id_def SeedSize_def)
  show ?thesis
    using recovery_phrase_restores_the_identity [OF demo_id_lawful no e1 ph sd e2 refl] e1 ph sd e2 by blast
qed

end
