(* ===== verification/Buddy_Store.thy ===== *)
theory Buddy_Store
  imports Storage Go_Crypto
begin

text \<open>
  \<open>internal/buddy/store.go\<close>: the shards and manifests that other peers' owners have pushed to
  this peer, under \<open>root/remote/owner/file/index.shard\<close>. Owner and file ids come from the
  network, so every path is built through \<open>isSafePathComponent\<close>.
\<close>

record BuddyStore =
  bsRoot :: path

definition NewStore :: "path \<Rightarrow> BuddyStore" where
  "NewStore root = \<lparr>bsRoot = root\<rparr>"

definition isSafePathComponent :: "string \<Rightarrow> bool" where
  "isSafePathComponent s =
     (if s = '''' \<or> s = ''.'' \<or> s = ''..'' then False
      else \<not> (\<exists>c \<in> set s. c = CHR ''/'' \<or> c = CHR 0x5C))"

definition shardPath_Buddy :: "BuddyStore \<Rightarrow> string \<Rightarrow> string \<Rightarrow> int \<Rightarrow> path result" where
  "shardPath_Buddy bs ownerPeerID fileID shardIndex =
     (if \<not> isSafePathComponent ownerPeerID then Inl (Errorf ''buddystore: unsafe owner id'')
      else if \<not> isSafePathComponent fileID then Inl (Errorf ''buddystore: unsafe file id'')
      else Inr (Join (bsRoot bs) [''remote'', ownerPeerID, fileID, Itoa shardIndex @ ''.shard'']))"

definition Put_Buddy :: "fs \<Rightarrow> BuddyStore \<Rightarrow> string \<Rightarrow> string \<Rightarrow> int \<Rightarrow> bytes \<Rightarrow> fs \<times> error option" where
  "Put_Buddy s bs owner fileID idx d =
     (case shardPath_Buddy bs owner fileID idx of
        Inl e \<Rightarrow> (s, Some e)
      | Inr p \<Rightarrow> put_file ''buddystore: mkdir'' ''buddystore: write'' s p d)"

definition Get_Buddy :: "fs \<Rightarrow> BuddyStore \<Rightarrow> string \<Rightarrow> string \<Rightarrow> int \<Rightarrow> bytes result" where
  "Get_Buddy s bs owner fileID idx =
     rbind (shardPath_Buddy bs owner fileID idx) (\<lambda>p. wrap ''buddystore: read'' (ReadFile s p))"

definition Has_Buddy :: "fs \<Rightarrow> BuddyStore \<Rightarrow> string \<Rightarrow> string \<Rightarrow> int \<Rightarrow> bool" where
  "Has_Buddy s bs owner fileID idx =
     (case shardPath_Buddy bs owner fileID idx of Inl _ \<Rightarrow> False | Inr p \<Rightarrow> is_ok (Stat s p))"

definition Delete_Buddy :: "fs \<Rightarrow> BuddyStore \<Rightarrow> string \<Rightarrow> string \<Rightarrow> int \<Rightarrow> fs \<times> error option" where
  "Delete_Buddy s bs owner fileID idx =
     (case shardPath_Buddy bs owner fileID idx of Inl e \<Rightarrow> (s, Some e) | Inr p \<Rightarrow> Remove s p)"

definition DeleteOwner :: "fs \<Rightarrow> BuddyStore \<Rightarrow> string \<Rightarrow> fs \<times> error option" where
  "DeleteOwner s bs owner =
     (if \<not> isSafePathComponent owner then (s, Some (Errorf ''buddystore: unsafe owner id''))
      else RemoveAll s (Join (bsRoot bs) [''remote'', owner]))"

text \<open>\<open>p + ".hash"\<close> lengthens the last component of the path.\<close>

definition hashPath :: "BuddyStore \<Rightarrow> string \<Rightarrow> string \<Rightarrow> int \<Rightarrow> path result" where
  "hashPath bs owner fileID idx =
     rbind (shardPath_Buddy bs owner fileID idx) (\<lambda>p. Inr (butlast p @ [last p @ ''.hash'']))"

definition PutWithHash :: "fs \<Rightarrow> BuddyStore \<Rightarrow> string \<Rightarrow> string \<Rightarrow> int \<Rightarrow> bytes \<Rightarrow> fs \<times> error option" where
  "PutWithHash s bs owner fileID idx d =
     (case Put_Buddy s bs owner fileID idx d of
        (s1, Some e) \<Rightarrow> (s1, Some e)
      | (s1, None) \<Rightarrow>
          (case hashPath bs owner fileID idx of
             Inl e \<Rightarrow> (s1, Some e)
           | Inr hp \<Rightarrow> WriteFile s1 hp (Sum256 d)))"

definition Verify_Buddy :: "fs \<Rightarrow> BuddyStore \<Rightarrow> string \<Rightarrow> string \<Rightarrow> int \<Rightarrow> bool" where
  "Verify_Buddy s bs owner fileID idx =
     (case Get_Buddy s bs owner fileID idx of
        Inl _ \<Rightarrow> False
      | Inr d \<Rightarrow>
          (case hashPath bs owner fileID idx of
             Inl _ \<Rightarrow> False
           | Inr hp \<Rightarrow> (case ReadFile s hp of Inl _ \<Rightarrow> False | Inr expected \<Rightarrow> Sum256 d = expected)))"

record ShardRef =
  srOwnerPeerID :: string
  srFileID :: string
  srShardIndex :: int

text \<open>The callback of \<open>ListAll\<close>: the reference of a visited file, if its name has the shape of a shard.\<close>

definition shard_ref :: "path \<Rightarrow> path \<Rightarrow> ShardRef option" where
  "shard_ref root p =
     (if \<not> HasSuffix (last p) ''.shard'' then None
      else
        let segs = drop (length root) p in
        if length segs \<noteq> 3 then None
        else case Atoi (TrimSuffix (segs ! 2) ''.shard'') of
               None \<Rightarrow> None
             | Some idx \<Rightarrow> Some \<lparr>srOwnerPeerID = segs ! 0, srFileID = segs ! 1, srShardIndex = idx\<rparr>)"

definition ListAll :: "fs \<Rightarrow> BuddyStore \<Rightarrow> ShardRef list result" where
  "ListAll s bs =
     (let root = Join (bsRoot bs) [''remote''] in
      if Stat s root = Inl ErrNotExist then Inr []
      else case walk_files s root of
             Inl e \<Rightarrow> Inl e
           | Inr fs \<Rightarrow> Inr (List.map_filter (\<lambda>(p, _). shard_ref root p) fs))"

definition PutManifest_Buddy :: "fs \<Rightarrow> BuddyStore \<Rightarrow> string \<Rightarrow> bytes \<Rightarrow> fs \<times> error option" where
  "PutManifest_Buddy s bs owner d =
     (if \<not> isSafePathComponent owner then (s, Some (Errorf ''store: unsafe owner id''))
      else
        let dir = Join (bsRoot bs) [''remote'', owner] in
        case MkdirAll s dir of
          (s1, Some e) \<Rightarrow> (s1, Some (Wrap ''store: mkdir'' e))
        | (s1, None) \<Rightarrow> WriteFile s1 (Join dir [''manifest.enc'']) d)"

definition GetManifest_Buddy :: "fs \<Rightarrow> BuddyStore \<Rightarrow> string \<Rightarrow> bytes result" where
  "GetManifest_Buddy s bs owner =
     (if \<not> isSafePathComponent owner then Inl (Errorf ''store: unsafe owner id'')
      else case ReadFile s (Join (bsRoot bs) [''remote'', owner, ''manifest.enc'']) of
             Inl ErrNotExist \<Rightarrow> Inl (Errorf ''store: no manifest'')
           | Inl e \<Rightarrow> Inl (Wrap ''store: read manifest'' e)
           | Inr d \<Rightarrow> Inr d)"

subsection \<open>Paths\<close>

lemma safe_plain: "isSafePathComponent s \<Longrightarrow> plain_component s"
  by (auto simp: isSafePathComponent_def plain_component_def split: if_splits)

lemma plain_remote [simp]: "plain_component ''remote''" "plain_component ''manifest.enc''"
  by (simp_all add: plain_component_def)

abbreviation owner_dir :: "BuddyStore \<Rightarrow> string \<Rightarrow> path" where
  "owner_dir bs owner \<equiv> bsRoot bs @ [''remote'', owner]"

lemma shardPath_Buddy_Inr:
  "shardPath_Buddy bs owner f i = Inr p \<longleftrightarrow> isSafePathComponent owner \<and> isSafePathComponent f
     \<and> p = owner_dir bs owner @ [f, Itoa i @ ''.shard'']"
  by (auto simp: shardPath_Buddy_def Join_plain safe_plain plain_component_Itoa_suffix)

lemma hashPath_Inr:
  "hashPath bs owner f i = Inr p \<longleftrightarrow> isSafePathComponent owner \<and> isSafePathComponent f
     \<and> p = owner_dir bs owner @ [f, Itoa i @ ''.shard.hash'']"
  by (auto simp: hashPath_def rbind_eq_Inr shardPath_Buddy_Inr butlast_append)

lemma hash_suffix_differs: "Itoa j @ ''.shard.hash'' \<noteq> Itoa i @ ''.shard''"
proof
  assume eq: "Itoa j @ ''.shard.hash'' = Itoa i @ ''.shard''"
  have "last (Itoa j @ ''.shard.hash'') = CHR ''h''" by simp
  then show False unfolding eq by simp
qed

subsection \<open>Confinement\<close>

text \<open>What an operation can change: paths beneath the directory of one owner.\<close>

definition confined :: "path \<Rightarrow> fs \<Rightarrow> fs \<Rightarrow> bool" where
  "confined dir s s' \<longleftrightarrow> (\<forall>q x. \<not> beneath dir q \<longrightarrow> ReadFile s' q = Inr x \<longleftrightarrow> ReadFile s q = Inr x)"

lemma confined_refl [simp]: "confined dir s s"
  by (simp add: confined_def)

lemma confined_trans: "confined dir s t \<Longrightarrow> confined dir t u \<Longrightarrow> confined dir s u"
  by (simp add: confined_def)

lemma put_file_confined: "put_file m1 m2 s p d = (s', e) \<Longrightarrow> beneath dir p \<Longrightarrow> confined dir s s'"
  unfolding confined_def using ReadFile_put_file_other by metis

lemma WriteFile_confined: "WriteFile s p d = (s', e) \<Longrightarrow> beneath dir p \<Longrightarrow> confined dir s s'"
  unfolding confined_def using ReadFile_WriteFile_other by metis

lemma MkdirAll_confined: "MkdirAll s p = (s', e) \<Longrightarrow> confined dir s s'"
  unfolding confined_def using ReadFile_MkdirAll by metis

lemma RemoveAll_confined: "RemoveAll s p = (s', e) \<Longrightarrow> beneath dir p \<Longrightarrow> confined dir s s'"
proof (cases e)
  case None
  assume r: "RemoveAll s p = (s', e)" and b: "beneath dir p"
  have "\<not> beneath dir q \<Longrightarrow> \<not> beneath p q" for q
    using b by (auto simp: beneath_iff)
  then show ?thesis
    unfolding confined_def using ReadFile_RemoveAll [OF r [unfolded None]] by simp
next
  case (Some err)
  assume "RemoveAll s p = (s', e)"
  with Some show ?thesis by (auto simp: RemoveAll_def split: if_splits)
qed

lemma Remove_confined: "Remove s p = (s', e) \<Longrightarrow> beneath dir p \<Longrightarrow> confined dir s s'"
proof (cases e)
  case None
  assume r: "Remove s p = (s', e)" and b: "beneath dir p"
  then show ?thesis
    unfolding confined_def using ReadFile_Remove [OF r [unfolded None]] by metis
next
  case (Some err)
  assume "Remove s p = (s', e)"
  with Some show ?thesis by (auto simp: Remove_def split: if_splits)
qed

lemma Put_Buddy_confined: "Put_Buddy s bs o' f i d = (s', e) \<Longrightarrow> confined (owner_dir bs o') s s'"
  by (auto simp: Put_Buddy_def shardPath_Buddy_Inr split: sum.splits intro!: put_file_confined)
     (auto simp: shardPath_Buddy_Inr beneath_iff)

lemma PutWithHash_confined: "PutWithHash s bs o' f i d = (s', e) \<Longrightarrow> confined (owner_dir bs o') s s'"
proof -
  assume r: "PutWithHash s bs o' f i d = (s', e)"
  obtain s1 e1 where p: "Put_Buddy s bs o' f i d = (s1, e1)" by fastforce
  have c1: "confined (owner_dir bs o') s s1" by (rule Put_Buddy_confined [OF p])
  have "beneath (owner_dir bs o') hp" if "hashPath bs o' f i = Inr hp" for hp
    using that by (auto simp: hashPath_Inr beneath_iff)
  then have "confined (owner_dir bs o') s1 s'"
    using r p by (auto simp: PutWithHash_def split: option.splits sum.splits intro: WriteFile_confined)
  with c1 show ?thesis by (rule confined_trans)
qed

lemma PutManifest_confined: "PutManifest_Buddy s bs o' d = (s', e) \<Longrightarrow> confined (owner_dir bs o') s s'"
proof -
  assume r: "PutManifest_Buddy s bs o' d = (s', e)"
  show ?thesis
  proof (cases "isSafePathComponent o'")
    case False
    with r show ?thesis by (simp add: PutManifest_Buddy_def)
  next
    case True
    have dir: "Join (bsRoot bs) [''remote'', o'] = owner_dir bs o'"
      using safe_plain [OF True] by (simp add: Join_plain)
    have p: "beneath (owner_dir bs o') (Join (owner_dir bs o') [''manifest.enc''])"
      by (simp add: Join_plain beneath_iff)
    obtain s1 e1 where m: "MkdirAll s (owner_dir bs o') = (s1, e1)" by fastforce
    have "confined (owner_dir bs o') s1 s'"
      using r True m p by (auto simp: PutManifest_Buddy_def Let_def dir split: option.splits intro: WriteFile_confined)
    with MkdirAll_confined [OF m] show ?thesis by (rule confined_trans)
  qed
qed

lemma Delete_Buddy_confined: "Delete_Buddy s bs o' f i = (s', e) \<Longrightarrow> confined (owner_dir bs o') s s'"
  by (auto simp: Delete_Buddy_def split: sum.splits intro!: Remove_confined)
     (auto simp: shardPath_Buddy_Inr beneath_iff)

lemma DeleteOwner_confined: "DeleteOwner s bs o' = (s', e) \<Longrightarrow> confined (owner_dir bs o') s s'"
  using RemoveAll_confined [of s "owner_dir bs o'" s' e "owner_dir bs o'"] safe_plain [of o']
  by (auto simp: DeleteOwner_def Join_plain split: if_splits)

lemmas buddy_confined = Put_Buddy_confined PutWithHash_confined PutManifest_confined
  Delete_Buddy_confined DeleteOwner_confined

subsection \<open>The store meets its contract\<close>

lemma Put_Buddy_Inr:
  "Put_Buddy s bs o' f i d = (s', None) \<Longrightarrow> isSafePathComponent o' \<and> isSafePathComponent f
     \<and> put_file ''buddystore: mkdir'' ''buddystore: write'' s (owner_dir bs o' @ [f, Itoa i @ ''.shard'']) d = (s', None)"
  by (auto simp: Put_Buddy_def shardPath_Buddy_Inr split: sum.splits)

lemma Put_Buddy_faults: "Put_Buddy s bs o' f i d = (s', e) \<Longrightarrow> same_faults s s'"
  by (auto simp: Put_Buddy_def split: sum.splits dest: put_file_faults)

abbreviation bkey_path :: "BuddyStore \<Rightarrow> string \<times> string \<times> int \<Rightarrow> path" where
  "bkey_path bs k \<equiv> owner_dir bs (fst k) @ [fst (snd k), Itoa (snd (snd k)) @ ''.shard'']"

interpretation bstore: shard_store
  "\<lambda>s k d. Put_Buddy s bs (fst k) (fst (snd k)) (snd (snd k)) d"
  "\<lambda>s k. Get_Buddy s bs (fst k) (fst (snd k)) (snd (snd k))"
  "\<lambda>k. isSafePathComponent (fst k) \<and> isSafePathComponent (fst (snd k))"
  "\<lambda>s k. \<not> rfault s (bkey_path bs k)" for bs
proof unfold_locales
  fix s s' d and k :: "string \<times> string \<times> int"
  assume p: "Put_Buddy s bs (fst k) (fst (snd k)) (snd (snd k)) d = (s', None)"
    and ok: "isSafePathComponent (fst k) \<and> isSafePathComponent (fst (snd k))" and r: "\<not> rfault s (bkey_path bs k)"
  have "shardPath_Buddy bs (fst k) (fst (snd k)) (snd (snd k)) = Inr (bkey_path bs k)"
    using ok by (simp add: shardPath_Buddy_Inr)
  then show "Get_Buddy s' bs (fst k) (fst (snd k)) (snd (snd k)) = Inr d"
    using ReadFile_put_file_same [OF conjunct2 [OF conjunct2 [OF Put_Buddy_Inr [OF p]]] r]
    by (simp add: Get_Buddy_def)
next
  fix s s' d e x and k k' :: "string \<times> string \<times> int"
  assume p: "Put_Buddy s bs (fst k) (fst (snd k)) (snd (snd k)) d = (s', e)"
    and ok: "isSafePathComponent (fst k) \<and> isSafePathComponent (fst (snd k))"
      "isSafePathComponent (fst k') \<and> isSafePathComponent (fst (snd k'))" and ne: "k' \<noteq> k"
  have paths: "shardPath_Buddy bs (fst k) (fst (snd k)) (snd (snd k)) = Inr (bkey_path bs k)"
    "shardPath_Buddy bs (fst k') (fst (snd k')) (snd (snd k')) = Inr (bkey_path bs k')"
    using ok by (simp_all add: shardPath_Buddy_Inr)
  have "bkey_path bs k' \<noteq> bkey_path bs k" using ne by (auto simp: prod_eq_iff dest: Itoa_inj)
  moreover have "put_file ''buddystore: mkdir'' ''buddystore: write'' s (bkey_path bs k) d = (s', e)"
    using p paths(1) by (simp add: Put_Buddy_def)
  ultimately show "Get_Buddy s' bs (fst k') (fst (snd k')) (snd (snd k')) = Inr x
      \<longleftrightarrow> Get_Buddy s bs (fst k') (fst (snd k')) (snd (snd k')) = Inr x"
    using paths(2) ReadFile_put_file_other by (simp add: Get_Buddy_def)
next
  fix s s' d e and k k' :: "string \<times> string \<times> int"
  assume "Put_Buddy s bs (fst k) (fst (snd k)) (snd (snd k)) d = (s', e)"
  from Put_Buddy_faults [OF this] show "(\<not> rfault s' (bkey_path bs k')) = (\<not> rfault s (bkey_path bs k'))"
    by (simp add: same_faults_def)
qed

subsection \<open>Properties\<close>

text \<open>C33. The buddy store never writes outside the directory of the owner it is called for: whatever
  ids a peer sends, every operation leaves each file that is not beneath
  \<open>root/remote/owner\<close> readable exactly as before. In particular one owner's requests cannot
  change what another owner stored.\<close>

theorem buddy_store_confined:
  "\<forall>s' e. (Put_Buddy s bs owner f i d = (s', e) \<or> PutWithHash s bs owner f i d = (s', e)
       \<or> PutManifest_Buddy s bs owner d = (s', e) \<or> Delete_Buddy s bs owner f i = (s', e)
       \<or> DeleteOwner s bs owner = (s', e)) \<longrightarrow>
     (\<forall>q x. \<not> beneath (bsRoot bs @ [''remote'', owner]) q \<longrightarrow> ReadFile s' q = Inr x \<longleftrightarrow> ReadFile s q = Inr x)"
proof (intro allI impI, goal_cases)
  case (1 s' e q x)
  then have "confined (owner_dir bs owner) s s'" by (auto dest: buddy_confined)
  with 1 show ?case by (simp add: confined_def)
qed

theorem buddy_store_confined_witness:
  "ReadFile (fst (PutWithHash (empty_fs\<lparr>files := [([''secret''], [7])]\<rparr>) \<lparr>bsRoot = [''b'']\<rparr> ''..'' ''../../secret'' 0 [1]))
     [''secret''] = Inr [7]"
proof -
  let ?s = "empty_fs\<lparr>files := [([''secret''], [7])]\<rparr>"
  obtain s' e where r: "PutWithHash ?s \<lparr>bsRoot = [''b'']\<rparr> ''..'' ''../../secret'' 0 [1] = (s', e)" by fastforce
  have "ReadFile ?s [''secret''] = Inr [7]"
    by (simp add: ReadFile_def empty_fs_def is_dir_def)
  with buddy_store_confined [rule_format, OF disjI2 [OF disjI1 [OF r]], of "[''secret'']"] r show ?thesis
    by (simp add: beneath_def)
qed

lemma buddy_put_verifies:
  assumes "PutWithHash s bs owner f i d = (s', None)" and "fault_free s"
  shows "Get_Buddy s' bs owner f i = Inr d \<and> Verify_Buddy s' bs owner f i"
proof -
  from assms(1) obtain s1 hp where p: "Put_Buddy s bs owner f i d = (s1, None)"
    and hp: "hashPath bs owner f i = Inr hp" and w: "WriteFile s1 hp (Sum256 d) = (s', None)"
    by (auto simp: PutWithHash_def split: prod.splits option.splits sum.splits)
  have safe: "isSafePathComponent owner" "isSafePathComponent f" using Put_Buddy_Inr [OF p] by simp_all
  have ff: "fault_free s1" using same_faults_fault_free [OF Put_Buddy_faults [OF p]] assms(2) by simp
  have "Get_Buddy s1 bs owner f i = Inr d"
    using bstore.get_put_same [of s bs "(owner, f, i)" d s1] p safe assms(2) by (simp add: fault_free_def)
  moreover have "owner_dir bs owner @ [f, Itoa i @ ''.shard''] \<noteq> hp"
    using hp hash_suffix_differs by (auto simp: hashPath_Inr dest: sym)
  from ReadFile_WriteFile_other [OF w this]
  have "Get_Buddy s' bs owner f i = Get_Buddy s1 bs owner f i"
    using safe by (simp add: Get_Buddy_def shardPath_Buddy_def Join_plain safe_plain plain_component_Itoa_suffix)
  moreover have "ReadFile s' hp = Inr (Sum256 d)"
    using ReadFile_WriteFile_same [OF w] ff by (simp add: fault_free_def)
  ultimately show ?thesis using hp by (simp add: Verify_Buddy_def)
qed

text \<open>A shard stored with its hash verifies, and reads back as the bytes that were sent.\<close>

theorem PutWithHash_verifies:
  assumes "PutWithHash s bs owner f i d = (s', None)" and "fault_free s"
  shows "Get_Buddy s' bs owner f i = Inr d \<and> Verify_Buddy s' bs owner f i"
  by (rule buddy_put_verifies [OF assms])

theorem PutWithHash_verifies_witness:
  "\<exists>s'. PutWithHash empty_fs \<lparr>bsRoot = [''b'']\<rparr> ''alice'' ''f'' 0 [1] = (s', None)
     \<and> Verify_Buddy s' \<lparr>bsRoot = [''b'']\<rparr> ''alice'' ''f'' 0"
proof -
  have "Itoa 0 = ''0''" by code_simp
  then obtain s' where "PutWithHash empty_fs \<lparr>bsRoot = [''b'']\<rparr> ''alice'' ''f'' 0 [1] = (s', None)"
    by (simp add: PutWithHash_def Put_Buddy_def hashPath_def shardPath_Buddy_def isSafePathComponent_def
        Join_def path_step_def put_file_def MkdirAll_def empty_fs_def prefixes_def is_file_def is_dir_def
        WriteFile_def set_file_def upt_rec)
  with PutWithHash_verifies [OF this] show ?thesis by (simp add: empty_fs_def fault_free_def)
qed

text \<open>\<open>ListAll\<close> finds every stored shard: a shard file of an owner and a file id, with an index
  that fits Go's \<open>int\<close>, is in the list with exactly those three values.\<close>

theorem ListAll_complete:
  assumes "ListAll s bs = Inr refs" and "Get_Buddy s bs owner f i = Inr d" and "in_int64 i"
    and "is_dir s (bsRoot bs @ [''remote''])"
  shows "\<lparr>srOwnerPeerID = owner, srFileID = f, srShardIndex = i\<rparr> \<in> set refs"
proof -
  let ?root = "bsRoot bs @ [''remote'']"
  let ?p = "owner_dir bs owner @ [f, Itoa i @ ''.shard'']"
  have root: "Join (bsRoot bs) [''remote''] = ?root" by (simp add: Join_plain)
  have "ReadFile s ?p = Inr d"
    using assms(2) by (auto simp: Get_Buddy_def rbind_eq_Inr shardPath_Buddy_Inr)
  then have mem: "?p \<in> fst ` set (files s)"
    by (auto simp: ReadFile_eq_Inr dest: map_of_SomeD intro: rev_image_eqI)
  have "Stat s ?root \<noteq> Inl ErrNotExist" using assms(4) by (simp add: Stat_def)
  then obtain fs where fs: "walk_files s ?root = Inr fs"
    and refs: "refs = List.map_filter (\<lambda>(p, _). shard_ref ?root p) fs"
    using assms(1) by (auto simp: ListAll_def root Let_def split: sum.splits if_splits)
  have "?p \<in> fst ` set fs"
    using walk_files_mem [OF fs] mem by (simp add: beneath_iff)
  moreover have "shard_ref ?root ?p = Some \<lparr>srOwnerPeerID = owner, srFileID = f, srShardIndex = i\<rparr>"
    using assms(3) by (simp add: shard_ref_def Atoi_Itoa)
  ultimately show ?thesis
    unfolding refs by (force simp: map_filter_def)
qed

theorem ListAll_complete_witness:
  "\<exists>refs. ListAll (empty_fs\<lparr>files := [([''b'', ''remote'', ''alice'', ''f'', ''0.shard''], [1])],
       dirs := [[''b''], [''b'', ''remote'']]\<rparr>) \<lparr>bsRoot = [''b'']\<rparr> = Inr refs
     \<and> \<lparr>srOwnerPeerID = ''alice'', srFileID = ''f'', srShardIndex = 0\<rparr> \<in> set refs"
proof -
  let ?s = "empty_fs\<lparr>files := [([''b'', ''remote'', ''alice'', ''f'', ''0.shard''], [1])],
       dirs := [[''b''], [''b'', ''remote'']]\<rparr>"
  have i0: "Itoa 0 = ''0''" by code_simp
  obtain refs where refs: "ListAll ?s \<lparr>bsRoot = [''b'']\<rparr> = Inr refs"
    by (simp add: ListAll_def Join_plain Stat_def walk_files_def is_dir_def is_file_def empty_fs_def Let_def)
  have "Get_Buddy ?s \<lparr>bsRoot = [''b'']\<rparr> ''alice'' ''f'' 0 = Inr [1]"
    by (simp add: Get_Buddy_def shardPath_Buddy_def isSafePathComponent_def Join_def path_step_def i0
        ReadFile_def is_dir_def empty_fs_def)
  from ListAll_complete [OF refs this] refs show ?thesis
    by (simp add: in_int64_def is_dir_def)
qed

end
