(* ===== verification/Registry.thy ===== *)
theory Registry
  imports Crypto Persist
begin

text \<open>
  \<open>internal/buddy/registry.go\<close>: the known buddies, in an encrypted JSON file that a daemon and
  one-shot commands share. Every operation reloads the file before it reads or changes the map,
  so a handle that another process has overtaken works on the current contents.

  \<open>save\<close> writes the entries in the order in which the run-time ranges over the map: the order is
  an argument.
\<close>

record Entry =
  bePeerID :: string
  bePubKey :: bytes
  beFriendlyName :: string
  beAddrs :: "string list"
  beAddedAt :: time

type_synonym registryData = "Entry list"

record Registry =
  rgPath :: path
  rgMasterKey :: bytes
  rgByPeerID :: "(string \<times> Entry) list"

text \<open>The map that \<open>load\<close> builds from the entries of the file.\<close>

definition fresh_map :: "registryData \<Rightarrow> (string \<times> Entry) list" where
  "fresh_map es = foldl (\<lambda>m e. AList.update (bePeerID e) e m) [] es"

definition load_Registry :: "registryData codec \<Rightarrow> fs \<Rightarrow> Registry \<Rightarrow> Registry \<times> error option" where
  "load_Registry c s r =
     (case ReadFile s (rgPath r) of
        Inl ErrNotExist \<Rightarrow> (r, None)
      | Inl e \<Rightarrow> (r, Some (Wrap ''registry: read'' e))
      | Inr ciphertext \<Rightarrow>
          (case Decrypt (rgMasterKey r) ciphertext of
             Inl e \<Rightarrow> (r, Some (Wrap ''registry: decrypt'' e))
           | Inr plain \<Rightarrow>
               (case Unmarshal c plain of
                  Inl e \<Rightarrow> (r, Some (Wrap ''registry: unmarshal'' e))
                | Inr d \<Rightarrow> (r\<lparr>rgByPeerID := fresh_map d\<rparr>, None))))"

definition NewRegistry :: "registryData codec \<Rightarrow> fs \<Rightarrow> path \<Rightarrow> bytes \<Rightarrow> Registry result" where
  "NewRegistry c s p key =
     (case load_Registry c s \<lparr>rgPath = p, rgMasterKey = key, rgByPeerID = []\<rparr> of
        (r, None) \<Rightarrow> Inr r
      | (r, Some e) \<Rightarrow> Inl e)"

definition save_Registry ::
  "registryData codec \<Rightarrow> string list \<Rightarrow> entropy \<Rightarrow> fs \<Rightarrow> Registry \<Rightarrow> fs \<times> error option" where
  "save_Registry c ord rnd s r =
     (case Marshal c (range_vals ord (rgByPeerID r)) of
        Inl e \<Rightarrow> (s, Some (Wrap ''registry: marshal'' e))
      | Inr plain \<Rightarrow>
          (case Encrypt rnd (rgMasterKey r) plain of
             Inl e \<Rightarrow> (s, Some (Wrap ''registry: encrypt'' e))
           | Inr ciphertext \<Rightarrow>
               (case MkdirAll s (butlast (rgPath r)) of
                  (s1, Some e) \<Rightarrow> (s1, Some (Wrap ''registry: mkdir'' e))
                | (s1, None) \<Rightarrow> WriteFile s1 (rgPath r) ciphertext)))"

definition stamp :: "time \<Rightarrow> Entry \<Rightarrow> Entry" where
  "stamp now e = (if beAddedAt e = 0 then e\<lparr>beAddedAt := now\<rparr> else e)"

definition Add ::
  "registryData codec \<Rightarrow> string list \<Rightarrow> entropy \<Rightarrow> time \<Rightarrow> fs \<Rightarrow> Registry \<Rightarrow> Entry
     \<Rightarrow> Registry \<times> fs \<times> error option" where
  "Add c ord rnd now s r e =
     (case load_Registry c s r of
        (r1, Some err) \<Rightarrow> (r1, s, Some err)
      | (r1, None) \<Rightarrow>
          let e' = stamp now e;
              r2 = r1\<lparr>rgByPeerID := AList.update (bePeerID e') e' (rgByPeerID r1)\<rparr>
          in (r2, save_Registry c ord rnd s r2))"

definition UpdateAddrs ::
  "registryData codec \<Rightarrow> string list \<Rightarrow> entropy \<Rightarrow> fs \<Rightarrow> Registry \<Rightarrow> string \<Rightarrow> string list \<Rightarrow> Registry \<times> fs" where
  "UpdateAddrs c ord rnd s r peerID addrs =
     (case load_Registry c s r of
        (r1, Some err) \<Rightarrow> (r1, s)
      | (r1, None) \<Rightarrow>
          (case map_of (rgByPeerID r1) peerID of
             None \<Rightarrow> (r1, s)
           | Some e \<Rightarrow>
               let r2 = r1\<lparr>rgByPeerID := AList.update peerID (e\<lparr>beAddrs := addrs\<rparr>) (rgByPeerID r1)\<rparr>
               in (r2, fst (save_Registry c ord rnd s r2))))"

definition Remove_Registry ::
  "registryData codec \<Rightarrow> string list \<Rightarrow> entropy \<Rightarrow> fs \<Rightarrow> Registry \<Rightarrow> string \<Rightarrow> Registry \<times> fs \<times> error option" where
  "Remove_Registry c ord rnd s r peerID =
     (case load_Registry c s r of
        (r1, Some err) \<Rightarrow> (r1, s, Some err)
      | (r1, None) \<Rightarrow>
          let r2 = r1\<lparr>rgByPeerID := AList.delete peerID (rgByPeerID r1)\<rparr>
          in (r2, save_Registry c ord rnd s r2))"

definition IsKnown :: "registryData codec \<Rightarrow> fs \<Rightarrow> Registry \<Rightarrow> string \<Rightarrow> Registry \<times> bool" where
  "IsKnown c s r peerID =
     (case load_Registry c s r of
        (r1, Some err) \<Rightarrow> (r1, False)
      | (r1, None) \<Rightarrow> (r1, map_of (rgByPeerID r1) peerID \<noteq> None))"

definition Get_Registry :: "registryData codec \<Rightarrow> fs \<Rightarrow> Registry \<Rightarrow> string \<Rightarrow> Registry \<times> Entry option" where
  "Get_Registry c s r peerID =
     (case load_Registry c s r of
        (r1, Some err) \<Rightarrow> (r1, None)
      | (r1, None) \<Rightarrow> (r1, map_of (rgByPeerID r1) peerID))"

definition List_Registry :: "registryData codec \<Rightarrow> string list \<Rightarrow> fs \<Rightarrow> Registry \<Rightarrow> Registry \<times> Entry list" where
  "List_Registry c ord s r =
     (case load_Registry c s r of
        (r1, Some err) \<Rightarrow> (r1, [])
      | (r1, None) \<Rightarrow> (r1, range_vals ord (rgByPeerID r1)))"

subsection \<open>The entries of a registry file\<close>

definition read_entries :: "registryData codec \<Rightarrow> bytes \<Rightarrow> fs \<Rightarrow> path \<Rightarrow> registryData result" where
  "read_entries c key s p = rbind (rbind (ReadFile s p) (Decrypt key)) (Unmarshal c)"

definition write_entries ::
  "registryData codec \<Rightarrow> entropy \<Rightarrow> bytes \<Rightarrow> fs \<Rightarrow> path \<Rightarrow> registryData \<Rightarrow> fs \<times> error option" where
  "write_entries c rnd key s p es =
     save_Registry c (map bePeerID es) rnd s \<lparr>rgPath = p, rgMasterKey = key, rgByPeerID = map (\<lambda>e. (bePeerID e, e)) es\<rparr>"

definition keyed :: "(string \<times> Entry) list \<Rightarrow> bool" where
  "keyed m \<longleftrightarrow> distinct (map fst m) \<and> (\<forall>(k, e) \<in> set m. bePeerID e = k)"

lemma load_Registry_read:
  "read_entries c (rgMasterKey r) s (rgPath r) = Inr es \<Longrightarrow>
     load_Registry c s r = (r\<lparr>rgByPeerID := fresh_map es\<rparr>, None)"
  by (auto simp: read_entries_def rbind_eq_Inr load_Registry_def)

lemma save_Registry_None:
  assumes "save_Registry c ord rnd s r = (s', None)"
  obtains pt ct s1 where "Marshal c (range_vals ord (rgByPeerID r)) = Inr pt"
    "Encrypt rnd (rgMasterKey r) pt = Inr ct" "MkdirAll s (butlast (rgPath r)) = (s1, None)"
    "WriteFile s1 (rgPath r) ct = (s', None)"
  using assms by (auto simp: save_Registry_def split: sum.splits prod.splits option.splits)

lemma save_Registry_faults: "save_Registry c ord rnd s r = (s', e) \<Longrightarrow> same_faults s s'"
  by (auto simp: save_Registry_def split: sum.splits prod.splits option.splits
      dest!: MkdirAll_faults WriteFile_faults intro: same_faults_trans)

lemma read_after_save:
  assumes "save_Registry c ord rnd s r = (s', None)" and "inverts c (range_vals ord (rgByPeerID r))"
    and "\<not> rfault s (rgPath r)"
  shows "read_entries c (rgMasterKey r) s' (rgPath r) = Inr (range_vals ord (rgByPeerID r))"
proof -
  from assms(1) obtain pt ct s1 where pt: "Marshal c (range_vals ord (rgByPeerID r)) = Inr pt"
    and ct: "Encrypt rnd (rgMasterKey r) pt = Inr ct" and m: "MkdirAll s (butlast (rgPath r)) = (s1, None)"
    and w: "WriteFile s1 (rgPath r) ct = (s', None)"
    by (rule save_Registry_None)
  have "ReadFile s' (rgPath r) = Inr ct"
    using ReadFile_WriteFile_same [OF w] MkdirAll_frame [OF m] assms(3) by simp
  then show ?thesis
    using aes.dec_enc [OF ct] inverts_Unmarshal [OF assms(2) pt] by (simp add: read_entries_def)
qed

lemma range_vals_zip: "distinct (map bePeerID es) \<Longrightarrow> range_vals (map bePeerID es) (map (\<lambda>e. (bePeerID e, e)) es) = es"
  using range_vals_keys [of "map (\<lambda>e. (bePeerID e, e)) es"] by (simp add: comp_def)

interpretation registry_file: persistent
  "\<lambda>s es. write_entries c rnd key s p es"
  "\<lambda>s. read_entries c key s p"
  "\<lambda>s es. inverts c es \<and> \<not> rfault s p \<and> distinct (map bePeerID es)" for c rnd key p
proof unfold_locales
  fix s s' es assume "write_entries c rnd key s p es = (s', None)"
    and ok: "inverts c es \<and> \<not> rfault s p \<and> distinct (map bePeerID es)"
  then show "read_entries c key s' p = Inr es"
    using read_after_save [of c "map bePeerID es" rnd s "\<lparr>rgPath = p, rgMasterKey = key,
      rgByPeerID = map (\<lambda>e. (bePeerID e, e)) es\<rparr>" s'] range_vals_zip [of es]
    by (simp add: write_entries_def)
next
  fix s s' e es w assume "write_entries c rnd key s p es = (s', e)"
  then have "same_faults s s'" unfolding write_entries_def by (rule save_Registry_faults)
  then show "(inverts c w \<and> \<not> rfault s' p \<and> distinct (map bePeerID w)) = (inverts c w \<and> \<not> rfault s p \<and> distinct (map bePeerID w))"
    by (simp add: same_faults_def)
qed

subsection \<open>The map behind the file\<close>

lemma map_of_fresh_gen:
  "map_of (foldl (\<lambda>m e. AList.update (bePeerID e) e m) m0 es) k =
     (case find (\<lambda>e. bePeerID e = k) (rev es) of None \<Rightarrow> map_of m0 k | Some e \<Rightarrow> Some e)"
  by (induction es rule: rev_induct) auto

lemma keyed_from_map: "distinct (map fst m) \<Longrightarrow> (\<And>k e. map_of m k = Some e \<Longrightarrow> bePeerID e = k) \<Longrightarrow> keyed m"
  by (auto simp: keyed_def)

lemma keyed_update: "keyed m \<Longrightarrow> bePeerID e = k \<Longrightarrow> keyed (AList.update k e m)"
  by (rule keyed_from_map) (auto simp: keyed_def distinct_update split: if_splits dest: map_of_SomeD)

lemma keyed_delete: "keyed m \<Longrightarrow> keyed (AList.delete k m)"
  by (rule keyed_from_map) (auto simp: keyed_def distinct_delete split: if_splits dest: map_of_SomeD)

lemma fresh_map_keyed: "keyed (fresh_map es)"
proof -
  have "keyed m0 \<Longrightarrow> keyed (foldl (\<lambda>m e. AList.update (bePeerID e) e m) m0 es)" for m0
  proof (induction es arbitrary: m0)
    case (Cons e es)
    have "keyed (AList.update (bePeerID e) e m0)" by (rule keyed_update [OF Cons.prems refl])
    with Cons.IH show ?case by simp
  qed simp
  moreover have "keyed []" by (simp add: keyed_def)
  ultimately show ?thesis unfolding fresh_map_def by blast
qed

lemma map_of_keyed: "keyed m \<Longrightarrow> map_of m k = Some e \<Longrightarrow> bePeerID e = k"
  by (auto simp: keyed_def dest: map_of_SomeD)

lemma fresh_map_range_vals:
  assumes "keyed m" and "is_order ord m"
  shows "map_of (fresh_map (range_vals ord m)) = map_of m"
proof
  fix k
  let ?es = "range_vals ord m"
  have mem: "e \<in> set ?es \<longleftrightarrow> map_of m (bePeerID e) = Some e" for e
    using set_range_vals_order [OF assms(2)] map_of_keyed [OF assms(1)] by (auto simp: ran_def)
  show "map_of (fresh_map ?es) k = map_of m k"
  proof (cases "find (\<lambda>e. bePeerID e = k) (rev ?es)")
    case None
    then have none: "\<forall>e \<in> set ?es. bePeerID e \<noteq> k" by (simp add: find_None_iff)
    have "map_of m k = None"
    proof (rule ccontr)
      assume "map_of m k \<noteq> None"
      then obtain e where e: "map_of m k = Some e" by blast
      then show False using none mem [of e] map_of_keyed [OF assms(1) e] by simp
    qed
    with None show ?thesis by (simp add: fresh_map_def map_of_fresh_gen)
  next
    case (Some e)
    then have "e \<in> set ?es" "bePeerID e = k" by (auto simp: find_Some_iff) (metis nth_mem set_rev length_rev)
    with Some mem [of e] show ?thesis by (simp add: fresh_map_def map_of_fresh_gen)
  qed
qed

lemma Get_after_save:
  assumes "save_Registry c ord rnd s r = (s', None)" and "inverts c (range_vals ord (rgByPeerID r))"
    and "\<not> rfault s (rgPath r)" and "keyed (rgByPeerID r)" and "is_order ord (rgByPeerID r)"
    and "rgPath r2 = rgPath r" and "rgMasterKey r2 = rgMasterKey r"
  shows "snd (Get_Registry c s' r2 pid) = map_of (rgByPeerID r) pid"
  using load_Registry_read [of c r2 s'] read_after_save [OF assms(1-3)] fresh_map_range_vals [OF assms(4,5)] assms(6,7)
  by (simp add: Get_Registry_def)

subsection \<open>Properties\<close>


lemma save_Registry_total:
  assumes "valid_key (rgMasterKey r)" and "fault_free s" and "writable s (rgPath r)"
    and "inverts c (range_vals ord (rgByPeerID r))"
  shows "\<exists>s'. save_Registry c ord (Some g) s r = (s', None) \<and> fault_free s' \<and> writable s' (rgPath r)"
proof -
  obtain pt where pt: "Marshal c (range_vals ord (rgByPeerID r)) = Inr pt"
    using inverts_Marshal [OF assms(4)] by blast
  obtain ct where ct: "Encrypt (Some g) (rgMasterKey r) pt = Inr ct"
    using aes.enc_total [OF assms(1)] by blast
  obtain s' where s': "put_file [] [] s (rgPath r) ct = (s', None)"
    using put_file_total [OF assms(2,3)] by blast
  then obtain s1 where "MkdirAll s (butlast (rgPath r)) = (s1, None)" "WriteFile s1 (rgPath r) ct = (s', None)"
    by (rule put_file_None)
  with pt ct have "save_Registry c ord (Some g) s r = (s', None)" by (simp add: save_Registry_def)
  then show ?thesis
    using put_file_keeps_writable [OF s'] put_file_faults [OF s'] assms(2,3) by (simp add: same_faults_fault_free)
qed

definition registry_fmt :: "registryData wirefmt" where
  "registry_fmt = fmt_list (fmt_iso
     (\<lambda>e. (bePeerID e, bePubKey e, beFriendlyName e, beAddrs e, beAddedAt e))
     (\<lambda>(i, k, n, a, t). \<lparr>bePeerID = i, bePubKey = k, beFriendlyName = n, beAddrs = a, beAddedAt = t\<rparr>)
     (fmt_pair fmt_string (fmt_pair fmt_bytes (fmt_pair fmt_string (fmt_pair (fmt_list fmt_string) fmt_int)))))"

lemma registry_fmt_ok: "fmt_ok registry_fmt"
  unfolding registry_fmt_def by (intro fmt_list_ok fmt_iso_ok) (simp_all add: fmt_intros)

definition demo_buddy :: "string \<Rightarrow> Entry" where
  "demo_buddy i = \<lparr>bePeerID = i, bePubKey = [], beFriendlyName = [], beAddrs = [], beAddedAt = 1\<rparr>"

definition demo_registry :: "(string \<times> Entry) list \<Rightarrow> Registry" where
  "demo_registry m = \<lparr>rgPath = [''home'', ''buddies.enc''], rgMasterKey = replicate 32 9, rgByPeerID = m\<rparr>"


end
