(* ===== verification/Invite.thy ===== *)
theory Invite
  imports Crypto Persist Go_Time
begin

text \<open>
  \<open>internal/invite/generator.go\<close>: pending invite tokens and email-invite commitments in a JSON
  file. The BIP39 package is a pair of functions that the operations take as arguments. The
  mutex makes each operation atomic.
\<close>

unbundle bit_operations_syntax

definition tokenSize :: nat where "tokenSize = 16"

definition inviteTTL :: duration where "inviteTTL = 24 * Hour"

record Code =
  cdWords :: string
  cdToken :: bytes

record Pending =
  pdToken :: bytes
  pdExpiresAt :: time

record Commitment =
  cmHash :: bytes
  cmExpiresAt :: time

record pendingStore =
  psPending :: "Pending list"
  psCommitments :: "Commitment list"

record Manager =
  imPath :: path

definition NewManager :: "path \<Rightarrow> Manager" where
  "NewManager p = \<lparr>imPath = p\<rparr>"

definition loadLocked_Invite :: "pendingStore codec \<Rightarrow> fs \<Rightarrow> Manager \<Rightarrow> pendingStore result" where
  "loadLocked_Invite c s m =
     (case ReadFile s (imPath m) of
        Inl ErrNotExist \<Rightarrow> Inr \<lparr>psPending = [], psCommitments = []\<rparr>
      | Inl e \<Rightarrow> Inl (Wrap ''invite: read'' e)
      | Inr d \<Rightarrow> wrap ''invite: unmarshal'' (Unmarshal c d))"

definition saveLocked_Invite :: "pendingStore codec \<Rightarrow> fs \<Rightarrow> Manager \<Rightarrow> pendingStore \<Rightarrow> fs \<times> error option" where
  "saveLocked_Invite c s m st =
     (case Marshal c st of
        Inl e \<Rightarrow> (s, Some (Wrap ''invite: marshal'' e))
      | Inr d \<Rightarrow>
          (case MkdirAll s (butlast (imPath m)) of
             (s1, Some e) \<Rightarrow> (s1, Some (Wrap ''invite: mkdir'' e))
           | (s1, None) \<Rightarrow> WriteFile s1 (imPath m) d))"

definition addPending :: "pendingStore codec \<Rightarrow> time \<Rightarrow> fs \<Rightarrow> Manager \<Rightarrow> Pending \<Rightarrow> fs \<times> error option" where
  "addPending c now s m p =
     (case loadLocked_Invite c s m of
        Inl e \<Rightarrow> (s, Some e)
      | Inr st \<Rightarrow>
          saveLocked_Invite c s m
            (st\<lparr>psPending := filter (\<lambda>pp. pdExpiresAt pp > now) (psPending st) @ [p]\<rparr>))"

definition Generate_Invite ::
  "pendingStore codec \<Rightarrow> (bytes \<Rightarrow> string result) \<Rightarrow> entropy \<Rightarrow> time \<Rightarrow> time \<Rightarrow> fs \<Rightarrow> Manager \<Rightarrow> fs \<times> Code result" where
  "Generate_Invite c NewMnemonic rnd now1 now2 s m =
     (case rand_read rnd tokenSize of
        Inl e \<Rightarrow> (s, Inl (Wrap ''invite: rand'' e))
      | Inr token \<Rightarrow>
          (case NewMnemonic token of
             Inl e \<Rightarrow> (s, Inl (Wrap ''invite: bip39'' e))
           | Inr mnemonic \<Rightarrow>
               (case addPending c now2 s m \<lparr>pdToken = token, pdExpiresAt = now1 + inviteTTL\<rparr> of
                  (s', Some e) \<Rightarrow> (s', Inl e)
                | (s', None) \<Rightarrow> (s', Inr \<lparr>cdWords = mnemonic, cdToken = token\<rparr>))))"

text \<open>The loop of \<open>Consume\<close>: expired entries are dropped, matching ones are consumed.\<close>

fun consume_loop :: "time \<Rightarrow> bytes \<Rightarrow> Pending list \<Rightarrow> bool \<times> Pending list" where
  "consume_loop now token [] = (False, [])"
| "consume_loop now token (p # ps) =
     (case consume_loop now token ps of
        (found, filtered) \<Rightarrow>
          if pdExpiresAt p < now then (found, filtered)
          else if pdToken p = token then (True, filtered)
          else (found, p # filtered))"

definition Consume :: "pendingStore codec \<Rightarrow> time \<Rightarrow> fs \<Rightarrow> Manager \<Rightarrow> bytes \<Rightarrow> fs \<times> error option" where
  "Consume c now s m token =
     (case loadLocked_Invite c s m of
        Inl e \<Rightarrow> (s, Some e)
      | Inr st \<Rightarrow>
          (case consume_loop now token (psPending st) of
             (found, filtered) \<Rightarrow>
               if \<not> found then (s, Some (Errorf ''invite: unknown or expired token''))
               else saveLocked_Invite c s m (st\<lparr>psPending := filtered\<rparr>)))"

definition TokenFromMnemonic :: "(string \<Rightarrow> bytes result) \<Rightarrow> string \<Rightarrow> bytes result" where
  "TokenFromMnemonic MnemonicToByteArray mnemonic =
     (case MnemonicToByteArray mnemonic of
        Inl e \<Rightarrow> Inl (Wrap ''invite: decode mnemonic'' e)
      | Inr raw \<Rightarrow>
          if length raw < 17 then
            (if length raw < tokenSize then Inl (Errorf ''invite: token too short'')
             else Inr (take tokenSize raw))
          else Inr (map (\<lambda>i. push_bit 4 (raw ! i) OR drop_bit 4 (raw ! (i + 1))) [0..<tokenSize]))"

definition AddCommitment ::
  "pendingStore codec \<Rightarrow> fs \<Rightarrow> Manager \<Rightarrow> bytes \<Rightarrow> time \<Rightarrow> fs \<times> error option" where
  "AddCommitment c s m hash expiresAt =
     (case loadLocked_Invite c s m of
        Inl e \<Rightarrow> (s, Some e)
      | Inr st \<Rightarrow>
          saveLocked_Invite c s m
            (st\<lparr>psCommitments := psCommitments st @ [\<lparr>cmHash = hash, cmExpiresAt = expiresAt\<rparr>]\<rparr>))"

text \<open>The loop of \<open>ConsumeCommitment\<close>: the first valid match is left out.\<close>

fun commit_loop :: "time \<Rightarrow> bytes \<Rightarrow> bool \<Rightarrow> Commitment list \<Rightarrow> bool \<times> Commitment list" where
  "commit_loop now h found [] = (found, [])"
| "commit_loop now h found (x # xs) =
     (if \<not> found \<and> \<not> (now > cmExpiresAt x) \<and> cmHash x = h then commit_loop now h True xs
      else case commit_loop now h found xs of (f, remaining) \<Rightarrow> (f, x # remaining))"

definition ConsumeCommitment ::
  "pendingStore codec \<Rightarrow> time \<Rightarrow> fs \<Rightarrow> Manager \<Rightarrow> bytes \<Rightarrow> fs \<times> error option" where
  "ConsumeCommitment c now s m preimage =
     (case loadLocked_Invite c s m of
        Inl e \<Rightarrow> (s, Some e)
      | Inr st \<Rightarrow>
          (case commit_loop now (Sum256 preimage) False (psCommitments st) of
             (found, remaining) \<Rightarrow>
               if \<not> found then (s, Some (Errorf ''invite: no valid commitment for presented pre-image''))
               else saveLocked_Invite c s m (st\<lparr>psCommitments := remaining\<rparr>)))"

subsection \<open>The invite file\<close>

lemma saveLocked_Invite_None:
  assumes "saveLocked_Invite c s m st = (s', None)"
  obtains d s1 where "Marshal c st = Inr d" "MkdirAll s (butlast (imPath m)) = (s1, None)"
    "WriteFile s1 (imPath m) d = (s', None)"
  using assms by (auto simp: saveLocked_Invite_def split: sum.splits prod.splits option.splits)

lemma saveLocked_Invite_faults: "saveLocked_Invite c s m st = (s', e) \<Longrightarrow> same_faults s s'"
  by (auto simp: saveLocked_Invite_def split: sum.splits prod.splits option.splits
      dest!: MkdirAll_faults WriteFile_faults intro: same_faults_trans)

interpretation invite_file: persistent
  "\<lambda>s st. saveLocked_Invite c s m st" "\<lambda>s. loadLocked_Invite c s m"
  "\<lambda>s st. inverts c st \<and> \<not> rfault s (imPath m)" for c m
proof unfold_locales
  fix s s' st assume sv: "saveLocked_Invite c s m st = (s', None)" and ok: "inverts c st \<and> \<not> rfault s (imPath m)"
  from sv obtain d s1 where d: "Marshal c st = Inr d" and mk: "MkdirAll s (butlast (imPath m)) = (s1, None)"
    and w: "WriteFile s1 (imPath m) d = (s', None)" by (rule saveLocked_Invite_None)
  have "ReadFile s' (imPath m) = Inr d"
    using ReadFile_WriteFile_same [OF w] MkdirAll_frame [OF mk] ok by simp
  then show "loadLocked_Invite c s' m = Inr st"
    using inverts_Unmarshal [OF _ d] ok by (simp add: loadLocked_Invite_def)
next
  fix s s' e st w assume "saveLocked_Invite c s m st = (s', e)"
  from saveLocked_Invite_faults [OF this]
  show "(inverts c w \<and> \<not> rfault s' (imPath m)) = (inverts c w \<and> \<not> rfault s (imPath m))"
    by (simp add: same_faults_def)
qed

lemma saveLocked_Invite_total:
  assumes "fault_free s" and "writable s (imPath m)" and "inverts c st"
  shows "\<exists>s'. saveLocked_Invite c s m st = (s', None) \<and> fault_free s' \<and> writable s' (imPath m)"
proof -
  obtain d where d: "Marshal c st = Inr d" using inverts_Marshal [OF assms(3)] by blast
  obtain s' where s': "put_file [] [] s (imPath m) d = (s', None)"
    using put_file_total [OF assms(1,2)] by blast
  then obtain s1 where "MkdirAll s (butlast (imPath m)) = (s1, None)" "WriteFile s1 (imPath m) d = (s', None)"
    by (rule put_file_None)
  with d have "saveLocked_Invite c s m st = (s', None)" by (simp add: saveLocked_Invite_def)
  then show ?thesis
    using put_file_keeps_writable [OF s'] put_file_faults [OF s'] assms(1,2) by (simp add: same_faults_fault_free)
qed

subsection \<open>The loops\<close>

lemma consume_loop_eq:
  "consume_loop now token ps =
     ((\<exists>p \<in> set ps. \<not> pdExpiresAt p < now \<and> pdToken p = token),
      filter (\<lambda>p. \<not> pdExpiresAt p < now \<and> pdToken p \<noteq> token) ps)"
  by (induction ps) auto

lemma commit_loop_found: "commit_loop now h True xs = (True, xs)"
  by (induction xs) auto

lemma commit_loop_eq:
  "commit_loop now h False xs =
     (case List.extract (\<lambda>x. \<not> (now > cmExpiresAt x) \<and> cmHash x = h) xs of
        None \<Rightarrow> (False, xs) | Some (as, x, bs) \<Rightarrow> (True, as @ bs))"
proof (induction xs)
  case Nil
  then show ?case by (simp add: extract_Nil_code)
next
  case (Cons x xs)
  then show ?case
    by (auto simp: extract_Cons_code commit_loop_found split: option.splits prod.splits)
qed

subsection \<open>Properties\<close>

lemma Consume_None:
  assumes "loadLocked_Invite c s m = Inr st" and "Consume c now s m tok = (s', None)"
  shows "(\<exists>p \<in> set (psPending st). pdToken p = tok \<and> now \<le> pdExpiresAt p)
    \<and> saveLocked_Invite c s m (st\<lparr>psPending := filter (\<lambda>p. now \<le> pdExpiresAt p \<and> pdToken p \<noteq> tok) (psPending st)\<rparr>) = (s', None)"
  using assms by (auto simp: Consume_def consume_loop_eq not_less split: if_splits)

text \<open>C36. An invite token works once and only before it expires: a successful \<open>Consume\<close> found a
  pending token that has not expired, the same token is refused ever after and the refusal
  writes nothing, and every other token is accepted later exactly when it would have been
  without this \<open>Consume\<close>.\<close>

theorem Consume_single_use:
  assumes "loadLocked_Invite c s m = Inr st" and "Consume c now s m tok = (s', None)" and "\<not> rfault s (imPath m)"
    and "inverts c (st\<lparr>psPending := filter (\<lambda>p. now \<le> pdExpiresAt p \<and> pdToken p \<noteq> tok) (psPending st)\<rparr>)"
  shows "(\<exists>p \<in> set (psPending st). pdToken p = tok \<and> now \<le> pdExpiresAt p)
    \<and> (\<forall>now'. Consume c now' s' m tok = (s', Some (Errorf ''invite: unknown or expired token'')))
    \<and> (\<exists>st'. loadLocked_Invite c s' m = Inr st' \<and> psCommitments st' = psCommitments st
         \<and> (\<forall>tok' now'. tok' \<noteq> tok \<and> now \<le> now' \<longrightarrow>
              fst (consume_loop now' tok' (psPending st')) = fst (consume_loop now' tok' (psPending st))))"
proof -
  let ?st = "st\<lparr>psPending := filter (\<lambda>p. now \<le> pdExpiresAt p \<and> pdToken p \<noteq> tok) (psPending st)\<rparr>"
  note sv = Consume_None [OF assms(1,2)]
  have ld: "loadLocked_Invite c s' m = Inr ?st"
    using invite_file.load_save [of c s m ?st s'] sv assms(3,4) by blast
  then have "\<forall>now'. Consume c now' s' m tok = (s', Some (Errorf ''invite: unknown or expired token''))"
    by (simp add: Consume_def consume_loop_eq)
  moreover have "fst (consume_loop now' tok' (psPending ?st)) = fst (consume_loop now' tok' (psPending st))"
    if "tok' \<noteq> tok" "now \<le> now'" for tok' now'
    using that by (auto simp: consume_loop_eq)
  ultimately show ?thesis using sv ld by auto
qed

text \<open>A generated invite can be redeemed: on a fault-free disk, with a mnemonic for the token,
  \<open>Generate\<close> succeeds, and \<open>Consume\<close> of its token succeeds at any time up to 24 hours later.\<close>

theorem Generate_then_Consume:
  assumes "fault_free s" and "writable s (imPath m)" and "loadLocked_Invite c s m = Inr st"
    and "\<And>ps. set ps \<subseteq> insert \<lparr>pdToken = map f [0..<16], pdExpiresAt = now + inviteTTL\<rparr> (set (psPending st))
           \<Longrightarrow> inverts c (st\<lparr>psPending := ps\<rparr>)"
    and "NewMnemonic (map f [0..<16]) = Inr words" and "later \<le> now + inviteTTL"
  shows "\<exists>s1 s2. Generate_Invite c NewMnemonic (Some f) now now s m = (s1, Inr \<lparr>cdWords = words, cdToken = map f [0..<16]\<rparr>)
     \<and> Consume c later s1 m (map f [0..<16]) = (s2, None)"
proof -
  let ?tok = "map f [0..<16]"
  let ?p = "\<lparr>pdToken = ?tok, pdExpiresAt = now + inviteTTL\<rparr>"
  let ?st1 = "st\<lparr>psPending := filter (\<lambda>pp. pdExpiresAt pp > now) (psPending st) @ [?p]\<rparr>"
  have inv1: "inverts c ?st1" by (rule assms(4)) auto
  obtain s1 where s1: "saveLocked_Invite c s m ?st1 = (s1, None)" "fault_free s1" "writable s1 (imPath m)"
    using saveLocked_Invite_total [OF assms(1,2) inv1] by blast
  have gen: "Generate_Invite c NewMnemonic (Some f) now now s m = (s1, Inr \<lparr>cdWords = words, cdToken = ?tok\<rparr>)"
    using s1(1) assms(3,5) by (simp add: Generate_Invite_def rand_read_def tokenSize_def addPending_def)
  have ld: "loadLocked_Invite c s1 m = Inr ?st1"
    using invite_file.load_save [OF s1(1)] assms(1) inv1 by (simp add: fault_free_def)
  let ?ps2 = "filter (\<lambda>p. \<not> pdExpiresAt p < later \<and> pdToken p \<noteq> ?tok) (psPending ?st1)"
  obtain s2 where "saveLocked_Invite c s1 m (?st1\<lparr>psPending := ?ps2\<rparr>) = (s2, None)"
    using saveLocked_Invite_total [OF s1(2,3), of c "?st1\<lparr>psPending := ?ps2\<rparr>"] assms(4) [of ?ps2] by fastforce
  moreover have "fst (consume_loop later ?tok (psPending ?st1))"
    using assms(6) by (simp add: consume_loop_eq)
  ultimately have "Consume c later s1 m ?tok = (s2, None)"
    using ld by (simp add: Consume_def consume_loop_eq)
  with gen show ?thesis by blast
qed

definition invite_fmt :: "pendingStore wirefmt" where
  "invite_fmt = fmt_iso
     (\<lambda>st. (map (\<lambda>p. (pdToken p, pdExpiresAt p)) (psPending st), map (\<lambda>p. (cmHash p, cmExpiresAt p)) (psCommitments st)))
     (\<lambda>(ps, cs). \<lparr>psPending = map (\<lambda>(t, e). \<lparr>pdToken = t, pdExpiresAt = e\<rparr>) ps,
                  psCommitments = map (\<lambda>(t, e). \<lparr>cmHash = t, cmExpiresAt = e\<rparr>) cs\<rparr>)
     (fmt_pair (fmt_list (fmt_pair fmt_bytes fmt_int)) (fmt_list (fmt_pair fmt_bytes fmt_int)))"

lemma invite_fmt_ok: "fmt_ok invite_fmt"
proof -
  have p: "\<lparr>pdToken = pdToken x, pdExpiresAt = pdExpiresAt x\<rparr> = x" for x :: Pending by (cases x) simp
  have q: "\<lparr>cmHash = cmHash x, cmExpiresAt = cmExpiresAt x\<rparr> = x" for x :: Commitment by (cases x) simp
  show ?thesis
    unfolding invite_fmt_def by (rule fmt_iso_ok) (simp_all add: fmt_intros comp_def p q)
qed

lemma demo_invite_start:
  "fault_free empty_fs" "writable empty_fs [''inv'']"
  "loadLocked_Invite (codec_of invite_fmt) empty_fs \<lparr>imPath = [''inv'']\<rparr> = Inr \<lparr>psPending = [], psCommitments = []\<rparr>"
  by (simp_all add: empty_fs_def fault_free_def writable_def is_dir_def is_file_def prefixes_def
      loadLocked_Invite_def ReadFile_def)

theorem Generate_then_Consume_witness:
  "\<exists>s1 s2. Generate_Invite (codec_of invite_fmt) (\<lambda>_. Inr ''zoo'') (Some (\<lambda>_. 3)) 0 0 empty_fs \<lparr>imPath = [''inv'']\<rparr>
        = (s1, Inr \<lparr>cdWords = ''zoo'', cdToken = map (\<lambda>_. 3) [0..<16]\<rparr>)
     \<and> Consume (codec_of invite_fmt) Hour s1 \<lparr>imPath = [''inv'']\<rparr> (map (\<lambda>_. 3) [0..<16]) = (s2, None)"
  by (rule Generate_then_Consume [OF demo_invite_start(1) _ demo_invite_start(3)])
     (simp_all add: demo_invite_start codec_of_inverts invite_fmt_ok inviteTTL_def Hour_def Minute_def Second_def)

theorem Consume_single_use_witness:
  "\<exists>s s'. Consume (codec_of invite_fmt) 5 s \<lparr>imPath = [''inv'']\<rparr> [1] = (s', None)
     \<and> Consume (codec_of invite_fmt) 6 s' \<lparr>imPath = [''inv'']\<rparr> [1] = (s', Some (Errorf ''invite: unknown or expired token''))"
proof -
  let ?c = "codec_of invite_fmt" and ?m = "\<lparr>imPath = [''inv'']\<rparr>"
  let ?st = "\<lparr>psPending = [\<lparr>pdToken = [1], pdExpiresAt = 9\<rparr>], psCommitments = []\<rparr>"
  have inv: "inverts ?c st" for st by (rule codec_of_inverts [OF invite_fmt_ok])
  obtain s where s: "saveLocked_Invite ?c empty_fs ?m ?st = (s, None)" "fault_free s" "writable s (imPath ?m)"
    using saveLocked_Invite_total [of empty_fs ?m ?c ?st] demo_invite_start inv by auto
  have ld: "loadLocked_Invite ?c s ?m = Inr ?st"
    using invite_file.load_save [OF s(1)] inv by (simp add: empty_fs_def)
  obtain s' where s': "Consume ?c 5 s ?m [1] = (s', None)"
    using saveLocked_Invite_total [OF s(2,3) inv, of "?st\<lparr>psPending := []\<rparr>"] ld
    by (auto simp: Consume_def)
  have "\<not> rfault s (imPath ?m)" using s(2) by (simp add: fault_free_def)
  from conjunct1 [OF conjunct2 [OF Consume_single_use [OF ld s' this inv]]] s' show ?thesis by blast
qed

text \<open>An email-invite secret is accepted once: a successful \<open>ConsumeCommitment\<close> removes exactly one
  commitment, which has not expired and is the SHA-256 of the presented pre-image; all others,
  and the pending tokens, stay in the file. When no such commitment exists nothing is written.\<close>

theorem ConsumeCommitment_removes_one:
  assumes "loadLocked_Invite c s m = Inr st" and "\<not> rfault s (imPath m)" 
    and "\<And>cs. set cs \<subseteq> set (psCommitments st) \<Longrightarrow> inverts c (st\<lparr>psCommitments := cs\<rparr>)"
  shows "(ConsumeCommitment c now s m pre = (s', None) \<longrightarrow>
      (\<exists>as x bs. psCommitments st = as @ x # bs \<and> cmHash x = Sum256 pre \<and> now \<le> cmExpiresAt x
         \<and> loadLocked_Invite c s' m = Inr (st\<lparr>psCommitments := as @ bs\<rparr>)))
   \<and> ((\<forall>x \<in> set (psCommitments st). cmHash x = Sum256 pre \<longrightarrow> cmExpiresAt x < now) \<longrightarrow>
        fst (ConsumeCommitment c now s m pre) = s \<and> snd (ConsumeCommitment c now s m pre) \<noteq> None)"
proof (intro conjI impI)
  assume ok: "ConsumeCommitment c now s m pre = (s', None)"
  then obtain as x bs where ext: "List.extract (\<lambda>x. \<not> (now > cmExpiresAt x) \<and> cmHash x = Sum256 pre) (psCommitments st) = Some (as, x, bs)"
    and sv: "saveLocked_Invite c s m (st\<lparr>psCommitments := as @ bs\<rparr>) = (s', None)"
    using assms(1) by (auto simp: ConsumeCommitment_def commit_loop_eq split: option.splits if_splits)
  have "loadLocked_Invite c s' m = Inr (st\<lparr>psCommitments := as @ bs\<rparr>)"
    using invite_file.load_save [OF sv] assms(2) assms(3) [of "as @ bs"] extract_SomeE [OF ext] by auto
  with ext show "\<exists>as x bs. psCommitments st = as @ x # bs \<and> cmHash x = Sum256 pre \<and> now \<le> cmExpiresAt x
         \<and> loadLocked_Invite c s' m = Inr (st\<lparr>psCommitments := as @ bs\<rparr>)"
    unfolding extract_Some_iff by (metis linorder_not_less)
next
  assume "\<forall>x \<in> set (psCommitments st). cmHash x = Sum256 pre \<longrightarrow> cmExpiresAt x < now"
  then have "List.extract (\<lambda>x. \<not> (now > cmExpiresAt x) \<and> cmHash x = Sum256 pre) (psCommitments st) = None"
    by (auto simp: extract_None_iff)
  then show "fst (ConsumeCommitment c now s m pre) = s" and "snd (ConsumeCommitment c now s m pre) \<noteq> None"
    using assms(1) by (simp_all add: ConsumeCommitment_def commit_loop_eq)
qed

theorem ConsumeCommitment_removes_one_witness:
  "snd (ConsumeCommitment (codec_of invite_fmt) 5 empty_fs \<lparr>imPath = [''inv'']\<rparr> [1]) \<noteq> None"
  using ConsumeCommitment_removes_one [OF demo_invite_start(3), where now = 5 and pre = "[1]"]
  by (simp add: empty_fs_def codec_of_inverts invite_fmt_ok)

text \<open>The words of an invite give back its token: when the BIP39 package returns the 16 entropy
  bytes shifted right by four bits in 17 bytes, whatever the four bits before and the four bits
  after are, \<open>TokenFromMnemonic\<close> returns exactly the entropy.\<close>

theorem TokenFromMnemonic_unshifts:
  assumes "length tok = 16"
    and "MnemonicToByteArray words = Inr (map (\<lambda>i.
           (if i = 0 then push_bit 4 hi else push_bit 4 (tok ! (i - 1))) OR
           (if i = 16 then lo AND 15 else drop_bit 4 (tok ! i))) [0..<17])"
  shows "TokenFromMnemonic MnemonicToByteArray words = Inr tok"
proof -
  have nib: "push_bit 4 (drop_bit 4 t) OR drop_bit 4 (push_bit 4 t) = t" for t :: byte
    by (rule bit_word_eqI) (auto simp: bit_simps)
  have hi0: "push_bit 4 (push_bit 4 x) = 0" "drop_bit 4 (drop_bit 4 x) = 0" "drop_bit 4 (x AND 15) = 0" for x :: byte
    by (rule bit_word_eqI, simp add: bit_simps)+
  define raw where "raw = map (\<lambda>i. (if i = 0 then push_bit 4 hi else push_bit 4 (tok ! (i - 1))) OR
     (if i = 16 then lo AND 15 else drop_bit 4 (tok ! i))) [0..<17]"
  have "push_bit 4 (raw ! i) OR drop_bit 4 (raw ! (i + 1)) = tok ! i" if "i < 16" for i
    using that by (auto simp: raw_def hi0 nib)
  then have "map (\<lambda>i. push_bit 4 (raw ! i) OR drop_bit 4 (raw ! (i + 1))) [0..<16] = tok"
    using assms(1) by (auto intro!: nth_equalityI)
  moreover have "MnemonicToByteArray words = Inr raw" "length raw = 17"
    using assms(2) by (simp_all add: raw_def)
  ultimately show ?thesis
    by (simp add: TokenFromMnemonic_def tokenSize_def)
qed

theorem TokenFromMnemonic_unshifts_witness:
  "TokenFromMnemonic (\<lambda>_. Inr (map (\<lambda>i. (if i = 0 then push_bit 4 0 else push_bit 4 (replicate 16 (0xAB :: byte) ! (i - 1))) OR
       (if i = 16 then 7 AND 15 else drop_bit 4 (replicate 16 0xAB ! i))) [0..<17])) ''zoo'' = Inr (replicate 16 0xAB)"
  by (rule TokenFromMnemonic_unshifts [where hi = 0 and lo = 7]) simp_all

end
