(* ===== verification/Wire.thy ===== *)
theory Wire
  imports Json
begin

text \<open>
  \<open>pkg/wire\<close>: the messages that peers exchange and their framing, a 4-byte big-endian length
  before a JSON payload. A stream has the bytes that are still to be read, the bytes that were
  written, and whether its writes fail.
\<close>

definition maxMsgSize :: nat where
  "maxMsgSize = 64 * 1024 * 1024"

definition ProtoPush :: string where "ProtoPush = ''/cerclbackup/push/1.0.0''"
definition ProtoPull :: string where "ProtoPull = ''/cerclbackup/pull/1.0.0''"
definition ProtoInvite :: string where "ProtoInvite = ''/cerclbackup/invite/1.0.0''"
definition ProtoManifest :: string where "ProtoManifest = ''/cerclbackup/manifest/1.0.0''"

definition TypeShardPush :: string where "TypeShardPush = ''shard_push''"
definition TypeShardAck :: string where "TypeShardAck = ''shard_ack''"
definition TypeShardRequest :: string where "TypeShardRequest = ''shard_request''"
definition TypeShardResponse :: string where "TypeShardResponse = ''shard_response''"
definition TypeInviteRequest :: string where "TypeInviteRequest = ''invite_request''"
definition TypeInviteResponse :: string where "TypeInviteResponse = ''invite_response''"
definition TypeManifestPush :: string where "TypeManifestPush = ''manifest_push''"
definition TypeManifestAck :: string where "TypeManifestAck = ''manifest_ack''"
definition TypeManifestRequest :: string where "TypeManifestRequest = ''manifest_request''"
definition TypeManifestResponse :: string where "TypeManifestResponse = ''manifest_response''"

subsection \<open>Messages\<close>

record ShardPush =
  spType :: string
  spOwnerID :: string
  spFileID :: string
  spShardIndex :: int
  spIsParity :: bool
  spData :: bytes

record ShardAck =
  saType :: string
  saFileID :: string
  saShardIndex :: int
  saOK :: bool
  saError :: string

record ShardRequest =
  sqType :: string
  sqOwnerID :: string
  sqFileID :: string
  sqShardIndex :: int

record ShardResponse =
  ssType :: string
  ssFileID :: string
  ssShardIndex :: int
  ssData :: bytes
  ssFound :: bool

record InviteRequest =
  iqType :: string
  iqToken :: bytes
  iqPeerID :: string
  iqPubKey :: bytes
  iqAddrs :: "string list"

record InviteResponse =
  isType :: string
  isOK :: bool
  isPeerID :: string
  isPubKey :: bytes
  isError :: string

record ManifestPush =
  mpType :: string
  mpOwnerID :: string
  mpData :: bytes

record ManifestAck =
  maType :: string
  maOK :: bool
  maError :: string

record ManifestRequest =
  mqType :: string
  mqOwnerID :: string

record ManifestResponse =
  mrType :: string
  mrOwnerID :: string
  mrFound :: bool
  mrData :: bytes

subsection \<open>Framing\<close>

record stream =
  sin :: bytes
  sout :: bytes
  swfails :: bool

definition stream_Write :: "stream \<Rightarrow> bytes \<Rightarrow> stream \<times> error option" where
  "stream_Write s b = (if swfails s then (s, Some ErrIO) else (s\<lparr>sout := sout s @ b\<rparr>, None))"

text \<open>\<open>io.ReadFull\<close> on the incoming bytes.\<close>

definition read_full :: "bytes \<Rightarrow> nat \<Rightarrow> bytes \<times> bytes result" where
  "read_full b n =
     (if n \<le> length b then (drop n b, Inr (take n b))
      else if b = [] then ([], Inl ErrEOF) else ([], Inl ErrUnexpectedEOF))"

definition WriteMsg :: "'a codec \<Rightarrow> stream \<Rightarrow> 'a \<Rightarrow> stream \<times> error option" where
  "WriteMsg c s v =
     (case Marshal c v of
        Inl e \<Rightarrow> (s, Some (Wrap ''wire: marshal'' e))
      | Inr payload \<Rightarrow>
          if length payload > maxMsgSize then (s, Some (Errorf ''wire: message too large''))
          else case stream_Write s (PutUint32_BE (word_of_nat (length payload))) of
                 (s1, Some e) \<Rightarrow> (s1, Some (Wrap ''wire: write header'' e))
               | (s1, None) \<Rightarrow>
                   (case stream_Write s1 payload of
                      (s2, Some e) \<Rightarrow> (s2, Some (Wrap ''wire: write payload'' e))
                    | (s2, None) \<Rightarrow> (s2, None)))"

definition ReadRawMsg :: "bytes \<Rightarrow> bytes \<times> bytes result" where
  "ReadRawMsg b =
     (case read_full b 4 of
        (b1, Inl e) \<Rightarrow> (b1, Inl (Wrap ''wire: read header'' e))
      | (b1, Inr header) \<Rightarrow>
          let sz = Uint32_BE header in
          if sz = 0 then (b1, Inl (Errorf ''wire: empty message''))
          else if unat sz > maxMsgSize then (b1, Inl (Errorf ''wire: message too large''))
          else case read_full b1 (unat sz) of
                 (b2, Inl e) \<Rightarrow> (b2, Inl (Wrap ''wire: read payload'' e))
               | (b2, Inr buf) \<Rightarrow> (b2, Inr buf))"

definition ReadMsg :: "'a codec \<Rightarrow> bytes \<Rightarrow> bytes \<times> 'a result" where
  "ReadMsg c b =
     (case read_full b 4 of
        (b1, Inl e) \<Rightarrow> (b1, Inl (Wrap ''wire: read header'' e))
      | (b1, Inr header) \<Rightarrow>
          let sz = Uint32_BE header in
          if sz = 0 then (b1, Inl (Errorf ''wire: empty message''))
          else if unat sz > maxMsgSize then (b1, Inl (Errorf ''wire: message too large''))
          else case read_full b1 (unat sz) of
                 (b2, Inl e) \<Rightarrow> (b2, Inl (Wrap ''wire: read payload'' e))
               | (b2, Inr buf) \<Rightarrow>
                   (case Unmarshal c buf of
                      Inl e \<Rightarrow> (b2, Inl (Wrap ''wire: unmarshal'' e))
                    | Inr v \<Rightarrow> (b2, Inr v)))"

text \<open>\<open>ReadMsg\<close> is \<open>ReadRawMsg\<close> followed by \<open>json.Unmarshal\<close>.\<close>

lemma ReadMsg_raw:
  "ReadMsg c b = (case ReadRawMsg b of
     (b', Inl e) \<Rightarrow> (b', Inl e) | (b', Inr buf) \<Rightarrow> (b', wrap ''wire: unmarshal'' (Unmarshal c buf)))"
  by (auto simp: ReadMsg_def ReadRawMsg_def Let_def wrap_def split: prod.splits sum.splits)

definition frame :: "bytes \<Rightarrow> bytes" where
  "frame p = PutUint32_BE (word_of_nat (length p)) @ p"

lemma Uint32_BE_Put_only: "Uint32_BE (PutUint32_BE w) = w"
  using Uint32_BE_Put [of w "[]"] by simp

lemma ReadRawMsg_frame:
  assumes "p \<noteq> []" and "length p \<le> maxMsgSize"
  shows "ReadRawMsg (frame p @ rest) = (rest, Inr p)"
proof -
  have "length p < 2 ^ 32" using assms(2) by (simp add: maxMsgSize_def)
  then have n: "unat (word_of_nat (length p) :: 32 word) = length p"
    by (simp add: unat_of_nat take_bit_nat_eq_self)
  then have "(word_of_nat (length p) :: 32 word) \<noteq> 0" using assms(1) by (metis length_0_conv unsigned_0)
  with n show ?thesis
    using assms(2) by (simp add: ReadRawMsg_def frame_def read_full_def Uint32_BE_Put_only Let_def)
qed

text \<open>A frame that \<open>ReadRawMsg\<close> accepts is one that a writer produces, and nothing behind it is consumed.\<close>

lemma ReadRawMsg_Inr:
  assumes "ReadRawMsg b = (b', Inr p)"
  shows "p \<noteq> [] \<and> length p \<le> maxMsgSize \<and> 4 \<le> length b \<and> b = take 4 b @ p @ b'"
proof -
  let ?n = "unat (Uint32_BE (take 4 b))"
  have 4: "4 \<le> length b" and nz: "Uint32_BE (take 4 b) \<noteq> 0" and le: "?n \<le> maxMsgSize"
    and n: "?n \<le> length (drop 4 b)" and p: "p = take ?n (drop 4 b)" and b': "b' = drop ?n (drop 4 b)"
    using assms by (auto simp: ReadRawMsg_def read_full_def Let_def split: if_splits)
  have "0 < ?n" using nz by (simp add: unat_gt_0)
  then have "p \<noteq> []" using n p 4 by auto
  moreover have "length p = ?n" using n p by simp
  moreover have "p @ b' = drop 4 b" unfolding p b' by (rule append_take_drop_id)
  ultimately show ?thesis using 4 le by (metis append_take_drop_id)
qed

subsection \<open>The contract of a framed channel\<close>

locale framed =
  fixes send :: "stream \<Rightarrow> 'm \<Rightarrow> stream \<times> error option"
    and recv :: "bytes \<Rightarrow> bytes \<times> 'm result"
    and sendable :: "'m \<Rightarrow> bool"
  assumes recv_send: "sendable m \<Longrightarrow> \<not> swfails s \<Longrightarrow>
      \<exists>f. send s m = (s\<lparr>sout := sout s @ f\<rparr>, None) \<and> (\<forall>rest. recv (f @ rest) = (rest, Inr m))"
begin

fun send_all :: "stream \<Rightarrow> 'm list \<Rightarrow> stream" where
  "send_all s [] = s"
| "send_all s (m # ms) = send_all (fst (send s m)) ms"

fun recv_all :: "nat \<Rightarrow> bytes \<Rightarrow> bytes \<times> 'm list result" where
  "recv_all 0 b = (b, Inr [])"
| "recv_all (Suc n) b =
     (case recv b of (b1, Inl e) \<Rightarrow> (b1, Inl e)
      | (b1, Inr m) \<Rightarrow> (case recv_all n b1 of (b2, Inl e) \<Rightarrow> (b2, Inl e) | (b2, Inr ms) \<Rightarrow> (b2, Inr (m # ms))))"

text \<open>Messages written one after the other are read back in order, and nothing is left.\<close>

lemma recv_all_send_all:
  "(\<And>m. m \<in> set ms \<Longrightarrow> sendable m) \<Longrightarrow> \<not> swfails s \<Longrightarrow>
     \<exists>f. send_all s ms = s\<lparr>sout := sout s @ f\<rparr> \<and> (\<forall>rest. recv_all (length ms) (f @ rest) = (rest, Inr ms))"
proof (induction ms arbitrary: s)
  case Nil
  show ?case by (rule exI [of _ "[]"]) simp
next
  case (Cons m ms)
  obtain f where f: "send s m = (s\<lparr>sout := sout s @ f\<rparr>, None)" "\<forall>rest. recv (f @ rest) = (rest, Inr m)"
    using recv_send [of m s] Cons.prems by auto
  obtain g where g: "send_all (s\<lparr>sout := sout s @ f\<rparr>) ms = s\<lparr>sout := sout s @ f, sout := (sout s @ f) @ g\<rparr>"
    "\<forall>rest. recv_all (length ms) (g @ rest) = (rest, Inr ms)"
    using Cons.IH [of "s\<lparr>sout := sout s @ f\<rparr>"] Cons.prems by auto
  show ?case by (rule exI [of _ "f @ g"]) (simp add: f g)
qed

end

definition wire_sendable :: "'a codec \<Rightarrow> 'a \<Rightarrow> bool" where
  "wire_sendable c v \<longleftrightarrow> inverts c v \<and>
     (case Marshal c v of Inl _ \<Rightarrow> False | Inr p \<Rightarrow> p \<noteq> [] \<and> length p \<le> maxMsgSize)"

lemma WriteMsg_frame:
  assumes "Marshal c v = Inr p" and "length p \<le> maxMsgSize" and "\<not> swfails s"
  shows "WriteMsg c s v = (s\<lparr>sout := sout s @ frame p\<rparr>, None)"
  using assms by (simp add: WriteMsg_def stream_Write_def frame_def)

interpretation msgs: framed "WriteMsg c" "ReadMsg c" "wire_sendable c" for c
proof unfold_locales
  fix m and s :: stream assume ok: "wire_sendable c m" and w: "\<not> swfails s"
  then obtain p where p: "Marshal c m = Inr p" "p \<noteq> []" "length p \<le> maxMsgSize" "Unmarshal c p = Inr m"
    by (auto simp: wire_sendable_def inverts_def split: sum.splits)
  have "ReadMsg c (frame p @ rest) = (rest, Inr m)" for rest
    using ReadRawMsg_frame [OF p(2,3)] p(4) by (simp add: ReadMsg_raw)
  then show "\<exists>f. WriteMsg c s m = (s\<lparr>sout := sout s @ f\<rparr>, None) \<and> (\<forall>rest. ReadMsg c (f @ rest) = (rest, Inr m))"
    using WriteMsg_frame [OF p(1,3) w] by blast
qed

subsection \<open>Properties\<close>

text \<open>C35. What one peer writes the other reads: a message whose JSON is not empty and at most 64 MB
  arrives as it was sent, whatever follows it on the stream stays unread, and a message above
  the limit is refused before any byte is written.\<close>

theorem WriteMsg_ReadMsg:
  "(wire_sendable c m \<and> \<not> swfails s \<longrightarrow>
      (\<exists>f. WriteMsg c s m = (s\<lparr>sout := sout s @ f\<rparr>, None) \<and> (\<forall>rest. ReadMsg c (f @ rest) = (rest, Inr m))))
   \<and> (\<forall>p. Marshal c m = Inr p \<and> maxMsgSize < length p \<longrightarrow>
        WriteMsg c s m = (s, Some (Errorf ''wire: message too large'')))"
  using msgs.recv_send [of c m s] by (auto simp: WriteMsg_def)

definition push_fmt :: "ShardPush wirefmt" where
  "push_fmt = fmt_iso
     (\<lambda>p. (spType p, spOwnerID p, spFileID p, spShardIndex p, spIsParity p, spData p))
     (\<lambda>(t, w, f, i, y, d). \<lparr>spType = t, spOwnerID = w, spFileID = f, spShardIndex = i, spIsParity = y, spData = d\<rparr>)
     (fmt_pair fmt_string (fmt_pair fmt_string (fmt_pair fmt_string (fmt_pair fmt_int (fmt_pair fmt_bool fmt_bytes)))))"

lemma push_fmt_ok: "fmt_ok push_fmt"
  unfolding push_fmt_def by (rule fmt_iso_ok) (simp_all add: fmt_intros)

definition demo_push :: ShardPush where
  "demo_push = \<lparr>spType = ''p'', spOwnerID = ''o'', spFileID = ''f'', spShardIndex = 1, spIsParity = False, spData = [5]\<rparr>"

theorem WriteMsg_ReadMsg_witness:
  "\<exists>f. ReadMsg (codec_of push_fmt) (f @ [1, 2]) = ([1, 2], Inr demo_push)"
proof -
  have "fst push_fmt demo_push \<noteq> [] \<and> length (fst push_fmt demo_push) \<le> maxMsgSize"
    by (simp add: push_fmt_def demo_push_def fmt_iso_def fmt_pair_def fmt_string_def fmt_bytes_def fmt_list_def
        fmt_nat_def fmt_byte_def fmt_int_def fmt_bool_def bytes_of_string_def maxMsgSize_def bits_of.simps)
  then have "wire_sendable (codec_of push_fmt) demo_push"
    using codec_of_inverts [OF push_fmt_ok] by (simp add: wire_sendable_def codec_of_def)
  with WriteMsg_ReadMsg [of "codec_of push_fmt" demo_push "\<lparr>sin = [], sout = [], swfails = False\<rparr>"]
  show ?thesis by auto
qed

end
