(* ===== verification/Handlers.thy ===== *)
theory Handlers
  imports Buddy_Store Registry Invite Wire
begin

text \<open>
  \<open>internal/p2p/handler.go\<close> and \<open>sender.go\<close>: the stream handlers of the four protocols, and the
  client side of each exchange. A node has the file system with its buddy store, its handles on
  the registry and the pending invites, its own peer id and its serialised public key.

  libp2p authenticates the remote peer of a stream; its id is an argument of a handler. The key
  operations of libp2p are the record \<open>p2plib\<close>. The JSON codecs of all messages and files are
  the record \<open>codecs\<close>. A handler logs and ignores errors of its answers, so the result of
  \<open>WriteMsg\<close> is only its stream.
\<close>

record p2plib =
  pl_UnmarshalPublicKey :: "bytes \<Rightarrow> bytes result"
  pl_ExtractPublicKey :: "string \<Rightarrow> bytes option result"
  pl_Equals :: "bytes \<Rightarrow> bytes \<Rightarrow> bool"

record codecs =
  jShardPush :: "ShardPush codec"
  jShardAck :: "ShardAck codec"
  jShardRequest :: "ShardRequest codec"
  jShardResponse :: "ShardResponse codec"
  jInviteRequest :: "InviteRequest codec"
  jInviteResponse :: "InviteResponse codec"
  jManifestPush :: "ManifestPush codec"
  jManifestAck :: "ManifestAck codec"
  jManifestRequest :: "ManifestRequest codec"
  jManifestResponse :: "ManifestResponse codec"
  jEnvelope :: "string codec"
  jRegistry :: "registryData codec"
  jInvites :: "pendingStore codec"

record node =
  nFS :: fs
  nReg :: Registry
  nBS :: BuddyStore
  nInv :: Manager
  nSelf :: string
  nPubKey :: "bytes result"

text \<open>\<open>err.Error()\<close>, the constant parts of the message.\<close>

fun err_string :: "error \<Rightarrow> string" where
  "err_string (Errorf m) = m"
| "err_string (Wrap m e) = m @ '': '' @ err_string e"
| "err_string ErrNotExist = ''file does not exist''"
| "err_string ErrIO = ''input/output error''"
| "err_string ErrEOF = ''EOF''"
| "err_string ErrUnexpectedEOF = ''unexpected EOF''"
| "err_string ErrInsufficientBuddies = ''insufficient buddies''"
| "err_string (Panic m) = m"

definition stream_ReadMsg :: "'a codec \<Rightarrow> stream \<Rightarrow> stream \<times> 'a result" where
  "stream_ReadMsg c st = (case ReadMsg c (sin st) of (b, r) \<Rightarrow> (st\<lparr>sin := b\<rparr>, r))"

definition checkBuddyAuth ::
  "p2plib \<Rightarrow> registryData codec \<Rightarrow> fs \<Rightarrow> Registry \<Rightarrow> string \<Rightarrow> Registry \<times> bool" where
  "checkBuddyAuth P c s reg remotePeer =
     (case Get_Registry c s reg remotePeer of
        (reg', None) \<Rightarrow> (reg', False)
      | (reg', Some entry) \<Rightarrow>
          (reg',
           if bePubKey entry = [] then True
           else case pl_UnmarshalPublicKey P (bePubKey entry) of
                  Inl _ \<Rightarrow> False
                | Inr stored \<Rightarrow>
                    (case pl_ExtractPublicKey P remotePeer of
                       Inl _ \<Rightarrow> False
                     | Inr None \<Rightarrow> False
                     | Inr (Some connPub) \<Rightarrow> pl_Equals P stored connPub)))"

definition shard_nack :: ShardResponse where
  "shard_nack = \<lparr>ssType = TypeShardResponse, ssFileID = [], ssShardIndex = 0, ssData = [], ssFound = False\<rparr>"

definition pull_answer :: "fs \<Rightarrow> BuddyStore \<Rightarrow> string \<Rightarrow> string \<Rightarrow> int \<Rightarrow> ShardResponse" where
  "pull_answer s bs owner fileID idx =
     (let resp = \<lparr>ssType = TypeShardResponse, ssFileID = fileID, ssShardIndex = idx, ssData = [], ssFound = False\<rparr>
      in case Get_Buddy s bs owner fileID idx of
           Inl _ \<Rightarrow> resp | Inr d \<Rightarrow> resp\<lparr>ssData := d, ssFound := True\<rparr>)"

definition handlePull :: "p2plib \<Rightarrow> codecs \<Rightarrow> node \<Rightarrow> string \<Rightarrow> stream \<Rightarrow> node \<times> stream" where
  "handlePull P J n remotePeerID st =
     (case checkBuddyAuth P (jRegistry J) (nFS n) (nReg n) remotePeerID of
        (reg, ok) \<Rightarrow>
          let n = n\<lparr>nReg := reg\<rparr> in
          if \<not> ok then (n, fst (WriteMsg (jShardResponse J) st shard_nack))
          else case stream_ReadMsg (jShardRequest J) st of
                 (st, Inl e) \<Rightarrow> (n, st)
               | (st, Inr req) \<Rightarrow>
                   if sqOwnerID req \<noteq> remotePeerID \<and> sqOwnerID req \<noteq> nSelf n
                   then (n, fst (WriteMsg (jShardResponse J) st shard_nack))
                   else (n, fst (WriteMsg (jShardResponse J) st
                          (pull_answer (nFS n) (nBS n) (sqOwnerID req) (sqFileID req) (sqShardIndex req)))))"

definition handleShard :: "p2plib \<Rightarrow> codecs \<Rightarrow> node \<Rightarrow> string \<Rightarrow> stream \<Rightarrow> node \<times> stream" where
  "handleShard P J n remotePeerID st =
     (case checkBuddyAuth P (jRegistry J) (nFS n) (nReg n) remotePeerID of
        (reg, ok) \<Rightarrow>
          let n = n\<lparr>nReg := reg\<rparr> in
          if \<not> ok
          then (n, fst (WriteMsg (jShardAck J) st \<lparr>saType = TypeShardAck, saFileID = [], saShardIndex = 0,
                 saOK = False, saError = ''peer not in buddy registry''\<rparr>))
          else case stream_ReadMsg (jShardPush J) st of
                 (st, Inl e) \<Rightarrow> (n, st)
               | (st, Inr push) \<Rightarrow>
                   if spOwnerID push \<noteq> remotePeerID
                   then (n, fst (WriteMsg (jShardAck J) st \<lparr>saType = TypeShardAck, saFileID = [], saShardIndex = 0,
                          saOK = False, saError = ''owner id does not match authenticated peer''\<rparr>))
                   else case PutWithHash (nFS n) (nBS n) (spOwnerID push) (spFileID push) (spShardIndex push) (spData push) of
                          (s', Some e) \<Rightarrow>
                            (n\<lparr>nFS := s'\<rparr>, fst (WriteMsg (jShardAck J) st \<lparr>saType = TypeShardAck,
                               saFileID = spFileID push, saShardIndex = spShardIndex push, saOK = False, saError = err_string e\<rparr>))
                        | (s', None) \<Rightarrow>
                            (n\<lparr>nFS := s'\<rparr>, fst (WriteMsg (jShardAck J) st \<lparr>saType = TypeShardAck,
                               saFileID = spFileID push, saShardIndex = spShardIndex push, saOK = True, saError = []\<rparr>)))"

definition invite_resp :: "bool \<Rightarrow> string \<Rightarrow> bytes \<Rightarrow> string \<Rightarrow> InviteResponse" where
  "invite_resp ok pid pub err =
     \<lparr>isType = TypeInviteResponse, isOK = ok, isPeerID = pid, isPubKey = pub, isError = err\<rparr>"

text \<open>\<open>handleInvite\<close>: the token is tried as a classic one, then as the pre-image of a commitment.\<close>

definition handleInvite ::
  "codecs \<Rightarrow> string list \<Rightarrow> entropy \<Rightarrow> time \<Rightarrow> node \<Rightarrow> stream \<Rightarrow> node \<times> stream" where
  "handleInvite J ord rnd now n st =
     (case stream_ReadMsg (jInviteRequest J) st of
        (st, Inl e) \<Rightarrow> (n, st)
      | (st, Inr req) \<Rightarrow>
          (case (case Consume (jInvites J) now (nFS n) (nInv n) (iqToken req) of
                   (s1, None) \<Rightarrow> (s1, None)
                 | (s1, Some err) \<Rightarrow>
                     (case ConsumeCommitment (jInvites J) now s1 (nInv n) (iqToken req) of
                        (s2, Some err2) \<Rightarrow> (s2, Some err)
                      | (s2, None) \<Rightarrow> (s2, None))) of
             (s, Some err) \<Rightarrow>
               (n\<lparr>nFS := s\<rparr>, fst (WriteMsg (jInviteResponse J) st (invite_resp False [] [] (err_string err))))
           | (s, None) \<Rightarrow>
               let n = n\<lparr>nFS := s\<rparr> in
               (case nPubKey n of
                  Inl e \<Rightarrow> (n, fst (WriteMsg (jInviteResponse J) st (invite_resp False [] [] ''internal error'')))
                | Inr ownPub \<Rightarrow>
                    (case Add (jRegistry J) ord rnd now (nFS n) (nReg n)
                            \<lparr>bePeerID = iqPeerID req, bePubKey = iqPubKey req, beFriendlyName = [],
                             beAddrs = iqAddrs req, beAddedAt = 0\<rparr> of
                       (reg, s', _) \<Rightarrow>
                         (n\<lparr>nFS := s', nReg := reg\<rparr>,
                          fst (WriteMsg (jInviteResponse J) st (invite_resp True (nSelf n) ownPub [])))))))"

definition manifest_ack :: "bool \<Rightarrow> string \<Rightarrow> ManifestAck" where
  "manifest_ack ok err = \<lparr>maType = TypeManifestAck, maOK = ok, maError = err\<rparr>"

definition manifest_resp :: "string \<Rightarrow> bool \<Rightarrow> bytes \<Rightarrow> ManifestResponse" where
  "manifest_resp owner found d = \<lparr>mrType = TypeManifestResponse, mrOwnerID = owner, mrFound = found, mrData = d\<rparr>"

definition handleManifest :: "p2plib \<Rightarrow> codecs \<Rightarrow> node \<Rightarrow> string \<Rightarrow> stream \<Rightarrow> node \<times> stream" where
  "handleManifest P J n remotePeerID st =
     (case checkBuddyAuth P (jRegistry J) (nFS n) (nReg n) remotePeerID of
        (reg, ok) \<Rightarrow>
          let n = n\<lparr>nReg := reg\<rparr> in
          if \<not> ok then (n, st)
          else case ReadRawMsg (sin st) of
                 (b, Inl e) \<Rightarrow> (n, st\<lparr>sin := b\<rparr>)
               | (b, Inr raw) \<Rightarrow>
                   let st = st\<lparr>sin := b\<rparr> in
                   (case Unmarshal (jEnvelope J) raw of
                      Inl e \<Rightarrow> (n, st)
                    | Inr t \<Rightarrow>
                        if t = TypeManifestPush then
                          (case Unmarshal (jManifestPush J) raw of
                             Inl e \<Rightarrow> (n, fst (WriteMsg (jManifestAck J) st (manifest_ack False ''decode error'')))
                           | Inr push \<Rightarrow>
                               if mpOwnerID push \<noteq> remotePeerID
                               then (n, fst (WriteMsg (jManifestAck J) st
                                      (manifest_ack False ''owner id does not match authenticated peer'')))
                               else case PutManifest_Buddy (nFS n) (nBS n) (mpOwnerID push) (mpData push) of
                                      (s', Some e) \<Rightarrow>
                                        (n\<lparr>nFS := s'\<rparr>, fst (WriteMsg (jManifestAck J) st (manifest_ack False (err_string e))))
                                    | (s', None) \<Rightarrow>
                                        (n\<lparr>nFS := s'\<rparr>, fst (WriteMsg (jManifestAck J) st (manifest_ack True []))))
                        else if t = TypeManifestRequest then
                          (case Unmarshal (jManifestRequest J) raw of
                             Inl e \<Rightarrow> (n, st)
                           | Inr req \<Rightarrow>
                               if mqOwnerID req \<noteq> remotePeerID
                               then (n, fst (WriteMsg (jManifestResponse J) st (manifest_resp (mqOwnerID req) False [])))
                               else case GetManifest_Buddy (nFS n) (nBS n) (mqOwnerID req) of
                                      Inl e \<Rightarrow> (n, fst (WriteMsg (jManifestResponse J) st (manifest_resp (mqOwnerID req) False [])))
                                    | Inr d \<Rightarrow> (n, fst (WriteMsg (jManifestResponse J) st (manifest_resp (mqOwnerID req) True d))))
                        else (n, st)))"

definition RegisterHandlers ::
  "p2plib \<Rightarrow> codecs \<Rightarrow> string list \<Rightarrow> entropy \<Rightarrow> time \<Rightarrow> node \<Rightarrow> string \<Rightarrow> string \<Rightarrow> stream \<Rightarrow> node \<times> stream" where
  "RegisterHandlers P J ord rnd now n proto remote st =
     (if proto = ProtoPush then handleShard P J n remote st
      else if proto = ProtoPull then handlePull P J n remote st
      else if proto = ProtoInvite then handleInvite J ord rnd now n st
      else if proto = ProtoManifest then handleManifest P J n remote st
      else (n, st))"

subsection \<open>The client side\<close>

text \<open>
  \<open>h.NewStream\<close> gives a stream or an error; the incoming bytes of the stream are what the remote
  peer will answer. The upload limiter of \<open>PushShard\<close> only delays the call.
\<close>

definition PushShard ::
  "codecs \<Rightarrow> stream result \<Rightarrow> string \<Rightarrow> string \<Rightarrow> int \<Rightarrow> bool \<Rightarrow> bytes \<Rightarrow> stream option \<times> error option" where
  "PushShard J newStream ownerID fileID shardIndex isParity d =
     (case newStream of
        Inl e \<Rightarrow> (None, Some (Wrap ''p2p: open push stream'' e))
      | Inr st \<Rightarrow>
          (case WriteMsg (jShardPush J) st \<lparr>spType = TypeShardPush, spOwnerID = ownerID, spFileID = fileID,
                  spShardIndex = shardIndex, spIsParity = isParity, spData = d\<rparr> of
             (st1, Some e) \<Rightarrow> (Some st1, Some (Wrap ''p2p: write push'' e))
           | (st1, None) \<Rightarrow>
               (case stream_ReadMsg (jShardAck J) st1 of
                  (st2, Inl e) \<Rightarrow> (Some st2, Some (Wrap ''p2p: read ack'' e))
                | (st2, Inr ack) \<Rightarrow>
                    (Some st2, if \<not> saOK ack then Some (Errorf ''p2p: buddy rejected shard'') else None))))"

definition FetchShard ::
  "codecs \<Rightarrow> stream result \<Rightarrow> string \<Rightarrow> string \<Rightarrow> int \<Rightarrow> stream option \<times> bytes result" where
  "FetchShard J newStream ownerID fileID idx =
     (case newStream of
        Inl e \<Rightarrow> (None, Inl (Wrap ''p2p: open pull stream'' e))
      | Inr st \<Rightarrow>
          (case WriteMsg (jShardRequest J) st \<lparr>sqType = TypeShardRequest, sqOwnerID = ownerID, sqFileID = fileID,
                  sqShardIndex = idx\<rparr> of
             (st1, Some e) \<Rightarrow> (Some st1, Inl e)
           | (st1, None) \<Rightarrow>
               (case stream_ReadMsg (jShardResponse J) st1 of
                  (st2, Inl e) \<Rightarrow> (Some st2, Inl e)
                | (st2, Inr resp) \<Rightarrow>
                    (Some st2, if \<not> ssFound resp then Inl (Errorf ''p2p: shard not found'') else Inr (ssData resp)))))"

text \<open>\<open>SendInviteRequest\<close>: \<open>peerAddrs\<close> is what the peerstore holds for the target after the exchange.\<close>

definition SendInviteRequest ::
  "codecs \<Rightarrow> string list \<Rightarrow> entropy \<Rightarrow> time \<Rightarrow> node \<Rightarrow> stream result \<Rightarrow> string \<Rightarrow> string list \<Rightarrow> bytes \<Rightarrow> string
     \<Rightarrow> string list \<Rightarrow> node \<times> error option" where
  "SendInviteRequest J ord rnd now n newStream targetPeerID peerAddrs token friendlyName myAddrs =
     (case newStream of
        Inl e \<Rightarrow> (n, Some e)
      | Inr st \<Rightarrow>
          (case nPubKey n of
             Inl e \<Rightarrow> (n, Some e)
           | Inr ownPub \<Rightarrow>
               (case WriteMsg (jInviteRequest J) st \<lparr>iqType = TypeInviteRequest, iqToken = token, iqPeerID = nSelf n,
                       iqPubKey = ownPub, iqAddrs = myAddrs\<rparr> of
                  (st1, Some e) \<Rightarrow> (n, Some e)
                | (st1, None) \<Rightarrow>
                    (case stream_ReadMsg (jInviteResponse J) st1 of
                       (st2, Inl e) \<Rightarrow> (n, Some e)
                     | (st2, Inr resp) \<Rightarrow>
                         if \<not> isOK resp then (n, Some (Errorf ''invite rejected''))
                         else case Add (jRegistry J) ord rnd now (nFS n) (nReg n)
                                \<lparr>bePeerID = isPeerID resp, bePubKey = isPubKey resp, beFriendlyName = friendlyName,
                                 beAddrs = map (\<lambda>ma. ma @ ''/p2p/'' @ targetPeerID) peerAddrs, beAddedAt = 0\<rparr> of
                                (reg, s', e) \<Rightarrow> (n\<lparr>nFS := s', nReg := reg\<rparr>, e)))))"

subsection \<open>What a handler can change\<close>

lemma handlePull_fs: "nFS (fst (handlePull P J n remote st)) = nFS n"
  by (auto simp: handlePull_def Let_def split: prod.splits sum.splits)

lemma handleShard_confined: "confined (owner_dir (nBS n) remote) (nFS n) (nFS (fst (handleShard P J n remote st)))"
  by (auto simp: handleShard_def Let_def split: prod.splits sum.splits option.splits
      dest: PutWithHash_confined)

lemma handleManifest_confined: "confined (owner_dir (nBS n) remote) (nFS n) (nFS (fst (handleManifest P J n remote st)))"
  by (auto simp: handleManifest_def Let_def split: prod.splits sum.splits option.splits
      dest: PutManifest_confined)

definition only_at :: "path \<Rightarrow> fs \<Rightarrow> fs \<Rightarrow> bool" where
  "only_at p s s' \<longleftrightarrow> (\<forall>q x. q \<noteq> p \<longrightarrow> ReadFile s' q = Inr x \<longleftrightarrow> ReadFile s q = Inr x)"

lemma only_at_refl [simp]: "only_at p s s"
  by (simp add: only_at_def)

lemma only_at_trans: "only_at p s t \<Longrightarrow> only_at p t u \<Longrightarrow> only_at p s u"
  by (simp add: only_at_def)

lemma MkdirAll_only: "MkdirAll s d = (s', e) \<Longrightarrow> only_at p s s'"
  unfolding only_at_def using ReadFile_MkdirAll by metis

lemma WriteFile_only: "WriteFile s p d = (s', e) \<Longrightarrow> only_at p s s'"
  unfolding only_at_def using ReadFile_WriteFile_other by metis

lemma saveLocked_Invite_only: "saveLocked_Invite c s m st = (s', e) \<Longrightarrow> only_at (imPath m) s s'"
  by (auto simp: saveLocked_Invite_def split: sum.splits prod.splits option.splits
      intro: MkdirAll_only only_at_trans [OF MkdirAll_only WriteFile_only])

lemma Consume_only: "Consume c now s m tok = (s', e) \<Longrightarrow> only_at (imPath m) s s'"
  by (auto simp: Consume_def split: sum.splits prod.splits if_splits dest: saveLocked_Invite_only)

lemma ConsumeCommitment_only: "ConsumeCommitment c now s m tok = (s', e) \<Longrightarrow> only_at (imPath m) s s'"
  by (auto simp: ConsumeCommitment_def split: sum.splits prod.splits if_splits dest: saveLocked_Invite_only)

lemma save_Registry_only: "save_Registry c ord rnd s r = (s', e) \<Longrightarrow> only_at (rgPath r) s s'"
  by (auto simp: save_Registry_def split: sum.splits prod.splits option.splits
      intro: MkdirAll_only only_at_trans [OF MkdirAll_only WriteFile_only])

lemma load_Registry_path: "load_Registry c s r = (r', e) \<Longrightarrow> rgPath r' = rgPath r \<and> rgMasterKey r' = rgMasterKey r"
  by (auto simp: load_Registry_def split: sum.splits error.splits)

lemma Add_only: "Add c ord rnd now s r e = (r', s', err) \<Longrightarrow> only_at (rgPath r) s s' \<and> rgPath r' = rgPath r"
  by (auto simp: Add_def Let_def split: prod.splits option.splits dest: load_Registry_path)
     (metis load_Registry_path save_Registry_only Registry.ext_inject Registry.surjective Registry.update_convs(3))

lemma handleInvite_frame:
  assumes "handleInvite J ord rnd now n st = (n', st')" and "q \<noteq> imPath (nInv n)" and "q \<noteq> rgPath (nReg n)"
  shows "ReadFile (nFS n') q = Inr x \<longleftrightarrow> ReadFile (nFS n) q = Inr x"
proof -
  have con: "ReadFile s1 q = Inr x \<longleftrightarrow> ReadFile s q = Inr x" if "Consume c now s (nInv n) tok = (s1, e)" for c s tok s1 e
    using Consume_only [OF that] assms(2) by (simp add: only_at_def)
  have com: "ReadFile s1 q = Inr x \<longleftrightarrow> ReadFile s q = Inr x" if "ConsumeCommitment c now s (nInv n) tok = (s1, e)" for c s tok s1 e
    using ConsumeCommitment_only [OF that] assms(2) by (simp add: only_at_def)
  have ad: "ReadFile s1 q = Inr x \<longleftrightarrow> ReadFile s q = Inr x" if "Add c ord rnd now s (nReg n) e = (r', s1, err)" for c s e r' s1 err
    using Add_only [OF that] assms(3) by (simp add: only_at_def)
  show ?thesis
    using assms(1)
    by (auto simp: handleInvite_def Let_def split: prod.splits sum.splits option.splits dest!: con com ad)
qed

text \<open>The parts of a node that no handler changes.\<close>

definition same_config :: "node \<Rightarrow> node \<Rightarrow> bool" where
  "same_config n n' \<longleftrightarrow> nBS n' = nBS n \<and> nInv n' = nInv n \<and> nSelf n' = nSelf n \<and> rgPath (nReg n') = rgPath (nReg n)"

lemma checkBuddyAuth_path: "checkBuddyAuth P c s r remote = (r', ok) \<Longrightarrow> rgPath r' = rgPath r"
  by (auto simp: checkBuddyAuth_def Get_Registry_def split: prod.splits option.splits dest: load_Registry_path)

lemma RegisterHandlers_config:
  assumes "RegisterHandlers P J ord rnd now n proto remote st = (n', st')"
  shows "same_config n n'"
proof -
  have "same_config n (fst (handleShard P J n remote st))"
    by (auto simp: handleShard_def same_config_def Let_def split: prod.splits sum.splits option.splits dest: checkBuddyAuth_path)
  moreover have "same_config n (fst (handlePull P J n remote st))"
    by (auto simp: handlePull_def same_config_def Let_def split: prod.splits sum.splits dest: checkBuddyAuth_path)
  moreover have "same_config n (fst (handleManifest P J n remote st))"
    by (auto simp: handleManifest_def same_config_def Let_def split: prod.splits sum.splits option.splits dest: checkBuddyAuth_path)
  moreover have "same_config n (fst (handleInvite J ord rnd now n st))"
    by (auto simp: handleInvite_def same_config_def Let_def split: prod.splits sum.splits option.splits dest: Add_only)
  moreover have "same_config n n" by (simp add: same_config_def)
  ultimately show ?thesis
    using assms by (auto simp: RegisterHandlers_def split: if_splits dest: arg_cong [where f = fst])
qed

text \<open>A run of a node: peers, each named in the list, open streams with any protocol and any bytes.\<close>

inductive node_steps :: "p2plib \<Rightarrow> codecs \<Rightarrow> node \<Rightarrow> string list \<Rightarrow> node \<Rightarrow> bool" for P J where
  done_: "node_steps P J n [] n"
| step: "RegisterHandlers P J ord rnd now n proto remote st = (n1, st1) \<Longrightarrow> node_steps P J n1 rs n2
     \<Longrightarrow> node_steps P J n (remote # rs) n2"

inductive_cases node_steps_ConsE: "node_steps P J n (r # rs) n'"

lemma RegisterHandlers_frame:
  assumes "RegisterHandlers P J ord rnd now n proto remote st = (n', st')"
    and "\<not> beneath (owner_dir (nBS n) remote) q" and "q \<noteq> imPath (nInv n)" and "q \<noteq> rgPath (nReg n)"
  shows "ReadFile (nFS n') q = Inr x \<longleftrightarrow> ReadFile (nFS n) q = Inr x"
  using assms handleShard_confined [of n remote P J st] handleManifest_confined [of n remote P J st]
    handlePull_fs [of P J n remote st] handleInvite_frame [of J ord rnd now n st n' st' q x]
  by (auto simp: RegisterHandlers_def confined_def split: if_splits)

lemma owner_dirs_disjoint:
  "beneath (owner_dir bs owner) q \<Longrightarrow> beneath (owner_dir bs remote) q \<Longrightarrow> remote = owner"
  by (auto simp: beneath_iff)

subsection \<open>Properties\<close>

text \<open>C37. What an owner stored with this peer changes only through streams that libp2p authenticated as
  that owner: over any run of the node, with any peers, protocols and bytes on the streams, a
  file beneath the owner's directory reads the same as long as the owner itself opens no
  stream.\<close>

theorem only_the_owner_changes_its_shards:
  assumes "node_steps P J n peers n'" and "owner \<notin> set peers"
    and "beneath (bsRoot (nBS n) @ [''remote'', owner]) q" and "q \<noteq> imPath (nInv n)" and "q \<noteq> rgPath (nReg n)"
  shows "ReadFile (nFS n') q = Inr x \<longleftrightarrow> ReadFile (nFS n) q = Inr x"
  using assms
proof (induction rule: node_steps.induct)
  case (done_ n)
  then show ?case by simp
next
  case (step ord rnd now n proto remote st n1 st1 rs n2)
  have cfg: "same_config n n1" by (rule RegisterHandlers_config [OF step.hyps(1)])
  have "\<not> beneath (owner_dir (nBS n) remote) q"
    using step.prems(1,2) owner_dirs_disjoint by auto
  then have "ReadFile (nFS n1) q = Inr x \<longleftrightarrow> ReadFile (nFS n) q = Inr x"
    using RegisterHandlers_frame [OF step.hyps(1)] step.prems by blast
  with step.IH step.prems cfg show ?case by (simp add: same_config_def)
qed


text \<open>The registry key decides: a peer passes the check exactly when the registry, freshly loaded,
  has an entry for it whose stored key is empty or is a valid key equal to the one that the
  connection proved.\<close>

theorem checkBuddyAuth_iff:
  "snd (checkBuddyAuth P c s reg remote) \<longleftrightarrow>
     (\<exists>entry. snd (Get_Registry c s reg remote) = Some entry \<and>
        (bePubKey entry = [] \<or>
         (\<exists>stored conn. pl_UnmarshalPublicKey P (bePubKey entry) = Inr stored
            \<and> pl_ExtractPublicKey P remote = Inr (Some conn) \<and> pl_Equals P stored conn)))"
  by (auto simp: checkBuddyAuth_def split: prod.splits option.splits sum.splits)

text \<open>A pull never serves a third party's shard: whatever the request says, the handler either writes
  nothing or writes one response, and a response that carries data carries the stored bytes of
  a shard whose owner is the requester or this peer itself.\<close>

theorem handlePull_serves_own_shards_only:
  "snd (handlePull P J n remote st) = st\<lparr>sin := sin (snd (handlePull P J n remote st))\<rparr>
   \<or> (\<exists>resp st1. snd (handlePull P J n remote st) = fst (WriteMsg (jShardResponse J) st1 resp) \<and> sout st1 = sout st
        \<and> (ssData resp = [] \<or> (\<exists>owner f i. (owner = remote \<or> owner = nSelf n)
             \<and> Get_Buddy (nFS n) (nBS n) owner f i = Inr (ssData resp) \<and> ssFileID resp = f \<and> ssShardIndex resp = i)))"
proof -
  obtain reg ok where a: "checkBuddyAuth P (jRegistry J) (nFS n) (nReg n) remote = (reg, ok)" by fastforce
  obtain b r where rd: "ReadMsg (jShardRequest J) (sin st) = (b, r)" by fastforce
  let ?st = "st\<lparr>sin := b\<rparr>"
  consider (refused) "\<not> ok" | (unreadable) e where "ok" "r = Inl e" | (request) req where "ok" "r = Inr req"
    by (cases r) auto
  then show ?thesis
  proof cases
    case refused
    then have "snd (handlePull P J n remote st) = fst (WriteMsg (jShardResponse J) st shard_nack)"
      by (simp add: handlePull_def a)
    then show ?thesis by (intro disjI2 exI [of _ shard_nack] exI [of _ st]) (simp add: shard_nack_def)
  next
    case unreadable
    then show ?thesis by (simp add: handlePull_def a stream_ReadMsg_def rd Let_def)
  next
    case (request req)
    let ?resp = "if sqOwnerID req \<noteq> remote \<and> sqOwnerID req \<noteq> nSelf n then shard_nack
      else pull_answer (nFS n) (nBS n) (sqOwnerID req) (sqFileID req) (sqShardIndex req)"
    have "snd (handlePull P J n remote st) = fst (WriteMsg (jShardResponse J) ?st ?resp)"
      using request by (simp add: handlePull_def a stream_ReadMsg_def rd Let_def)
    moreover have "ssData ?resp = [] \<or> (\<exists>owner f i. (owner = remote \<or> owner = nSelf n)
             \<and> Get_Buddy (nFS n) (nBS n) owner f i = Inr (ssData ?resp) \<and> ssFileID ?resp = f \<and> ssShardIndex ?resp = i)"
      by (auto simp: shard_nack_def pull_answer_def Let_def split: sum.splits)
    ultimately show ?thesis by (intro disjI2 exI [of _ ?resp] exI [of _ ?st]) simp
  qed
qed

definition net :: "bytes \<Rightarrow> stream" where
  "net b = \<lparr>sin = b, sout = [], swfails = False\<rparr>"

lemma send_on_net:
  assumes "wire_sendable c m"
  obtains f where "\<And>b. WriteMsg c (net b) m = (\<lparr>sin = b, sout = f, swfails = False\<rparr>, None)"
    and "ReadMsg c f = ([], Inr m)"
proof -
  obtain p where p: "Marshal c m = Inr p" "p \<noteq> []" "length p \<le> maxMsgSize" "Unmarshal c p = Inr m"
    using assms by (auto simp: wire_sendable_def inverts_def split: sum.splits)
  have "WriteMsg c (net b) m = (\<lparr>sin = b, sout = frame p, swfails = False\<rparr>, None)" for b
    using WriteMsg_frame [OF p(1,3), of "net b"] by (simp add: net_def)
  moreover have "ReadMsg c (frame p) = ([], Inr m)"
    using ReadRawMsg_frame [OF p(2,3), of "[]"] p(4) by (simp add: ReadMsg_raw)
  ultimately show ?thesis using that by blast
qed

text \<open>A push reaches the buddy's disk: when the buddy has authenticated the owner and its disk accepts
  the shard, the bytes that \<open>PushShard\<close> writes make the handler store the shard and answer with
  an acknowledgement that \<open>PushShard\<close> accepts; the stored shard verifies against its hash.\<close>

theorem PushShard_stores_the_shard:
  assumes "snd (checkBuddyAuth P (jRegistry J) (nFS n) (nReg n) owner)"
    and "wire_sendable (jShardPush J) \<lparr>spType = TypeShardPush, spOwnerID = owner, spFileID = f, spShardIndex = i,
           spIsParity = par, spData = d\<rparr>"
    and "wire_sendable (jShardAck J) \<lparr>saType = TypeShardAck, saFileID = f, saShardIndex = i, saOK = True, saError = []\<rparr>"
    and "PutWithHash (nFS n) (nBS n) owner f i d = (s', None)" and "fault_free (nFS n)"
  shows "\<exists>request ack n'. handleShard P J n owner (net request) = (n', \<lparr>sin = [], sout = ack, swfails = False\<rparr>)
     \<and> PushShard J (Inr (net ack)) owner f i par d = (Some \<lparr>sin = [], sout = request, swfails = False\<rparr>, None)
     \<and> Get_Buddy (nFS n') (nBS n') owner f i = Inr d \<and> Verify_Buddy (nFS n') (nBS n') owner f i"
proof -
  let ?push = "\<lparr>spType = TypeShardPush, spOwnerID = owner, spFileID = f, spShardIndex = i, spIsParity = par, spData = d\<rparr>"
  let ?ack = "\<lparr>saType = TypeShardAck, saFileID = f, saShardIndex = i, saOK = True, saError = []\<rparr>"
  obtain request where rq: "\<And>b. WriteMsg (jShardPush J) (net b) ?push = (\<lparr>sin = b, sout = request, swfails = False\<rparr>, None)"
    "ReadMsg (jShardPush J) request = ([], Inr ?push)"
    by (rule send_on_net [OF assms(2)]) blast
  obtain ack where ak: "\<And>b. WriteMsg (jShardAck J) (net b) ?ack = (\<lparr>sin = b, sout = ack, swfails = False\<rparr>, None)"
    "ReadMsg (jShardAck J) ack = ([], Inr ?ack)"
    by (rule send_on_net [OF assms(3)]) blast
  obtain reg where a: "checkBuddyAuth P (jRegistry J) (nFS n) (nReg n) owner = (reg, True)"
    using assms(1) by (metis prod.collapse)
  have "handleShard P J n owner (net request) = (n\<lparr>nReg := reg, nFS := s'\<rparr>, \<lparr>sin = [], sout = ack, swfails = False\<rparr>)"
    using ak(1) [of "[]"] rq(2) by (simp add: handleShard_def a stream_ReadMsg_def assms(4) net_def)
  moreover have "PushShard J (Inr (net ack)) owner f i par d = (Some \<lparr>sin = [], sout = request, swfails = False\<rparr>, None)"
    using rq(1) ak(2) by (simp add: PushShard_def stream_ReadMsg_def)
  moreover have "Get_Buddy s' (nBS n) owner f i = Inr d \<and> Verify_Buddy s' (nBS n) owner f i"
    using buddy_put_verifies [OF assms(4,5)] .
  ultimately show ?thesis by fastforce
qed

text \<open>An owner gets back what it stored: a \<open>FetchShard\<close> by the authenticated owner over the buddy's
  pull handler returns exactly the bytes in the buddy store, or a "not found" error when the
  buddy cannot read the shard.\<close>

theorem FetchShard_returns_the_shard:
  assumes "snd (checkBuddyAuth P (jRegistry J) (nFS n) (nReg n) owner)"
    and "wire_sendable (jShardRequest J) \<lparr>sqType = TypeShardRequest, sqOwnerID = owner, sqFileID = f, sqShardIndex = i\<rparr>"
    and "wire_sendable (jShardResponse J) (pull_answer (nFS n) (nBS n) owner f i)"
  shows "\<exists>request answer n'. handlePull P J n owner (net request) = (n', \<lparr>sin = [], sout = answer, swfails = False\<rparr>)
     \<and> FetchShard J (Inr (net answer)) owner f i = (Some \<lparr>sin = [], sout = request, swfails = False\<rparr>,
          (case Get_Buddy (nFS n) (nBS n) owner f i of Inl _ \<Rightarrow> Inl (Errorf ''p2p: shard not found'') | Inr d \<Rightarrow> Inr d))"
proof -
  let ?req = "\<lparr>sqType = TypeShardRequest, sqOwnerID = owner, sqFileID = f, sqShardIndex = i\<rparr>"
  let ?resp = "pull_answer (nFS n) (nBS n) owner f i"
  obtain request where rq: "\<And>b. WriteMsg (jShardRequest J) (net b) ?req = (\<lparr>sin = b, sout = request, swfails = False\<rparr>, None)"
    "ReadMsg (jShardRequest J) request = ([], Inr ?req)"
    by (rule send_on_net [OF assms(2)]) blast
  obtain answer where an: "\<And>b. WriteMsg (jShardResponse J) (net b) ?resp = (\<lparr>sin = b, sout = answer, swfails = False\<rparr>, None)"
    "ReadMsg (jShardResponse J) answer = ([], Inr ?resp)"
    by (rule send_on_net [OF assms(3)]) blast
  obtain reg where a: "checkBuddyAuth P (jRegistry J) (nFS n) (nReg n) owner = (reg, True)"
    using assms(1) by (metis prod.collapse)
  have "handlePull P J n owner (net request) = (n\<lparr>nReg := reg\<rparr>, \<lparr>sin = [], sout = answer, swfails = False\<rparr>)"
    using an(1) [of "[]"] rq(2) by (simp add: handlePull_def a stream_ReadMsg_def net_def)
  moreover have "FetchShard J (Inr (net answer)) owner f i = (Some \<lparr>sin = [], sout = request, swfails = False\<rparr>,
      (case Get_Buddy (nFS n) (nBS n) owner f i of Inl _ \<Rightarrow> Inl (Errorf ''p2p: shard not found'') | Inr d \<Rightarrow> Inr d))"
    using rq(1) an(2) by (auto simp: FetchShard_def stream_ReadMsg_def pull_answer_def Let_def split: sum.splits)
  ultimately show ?thesis by blast
qed

text \<open>Without a valid invite nobody joins: when the presented token is neither a pending token nor
  the pre-image of a commitment, the invite handler adds no buddy (the registry file and the
  registry handle stay as they were) and answers with a refusal.\<close>

theorem handleInvite_needs_a_token:
  assumes "ReadMsg (jInviteRequest J) (sin st) = (b, Inr req)"
    and "Consume (jInvites J) now (nFS n) (nInv n) (iqToken req) = (s1, Some e1)"
    and "ConsumeCommitment (jInvites J) now s1 (nInv n) (iqToken req) = (s2, Some e2)"
  shows "handleInvite J ord rnd now n st =
      (n\<lparr>nFS := s2\<rparr>, fst (WriteMsg (jInviteResponse J) (st\<lparr>sin := b\<rparr>) (invite_resp False [] [] (err_string e1))))
    \<and> (\<forall>q x. q \<noteq> imPath (nInv n) \<longrightarrow> ReadFile s2 q = Inr x \<longleftrightarrow> ReadFile (nFS n) q = Inr x)"
  using assms only_at_trans [OF Consume_only [OF assms(2)] ConsumeCommitment_only [OF assms(3)]]
  by (simp add: handleInvite_def stream_ReadMsg_def only_at_def)

text \<open>Whoever presents a valid token chooses the identity it registers: the handler stores the peer
  id and the key of the request without comparing them to the authenticated remote peer of the
  stream, so the holder of a token can replace the stored key of a buddy that is already
  registered.\<close>

theorem handleInvite_trusts_the_claimed_identity:
  assumes "ReadMsg (jInviteRequest J) (sin st) = (b, Inr req)"
    and "Consume (jInvites J) now (nFS n) (nInv n) (iqToken req) = (s1, None)" and "nPubKey n = Inr own"
    and "read_entries (jRegistry J) (rgMasterKey (nReg n)) s1 (rgPath (nReg n)) = Inr es"
    and "iqPeerID req = victim" and "victim \<in> bePeerID ` set es"
  shows "map_option bePubKey (map_of (rgByPeerID (nReg (fst (handleInvite J ord rnd now n st)))) victim) = Some (iqPubKey req)"
  using assms load_Registry_read [OF assms(4)]
  by (simp add: handleInvite_def stream_ReadMsg_def Add_def Let_def stamp_def split: prod.splits)

subsection \<open>A concrete node\<close>

definition fail_codec :: "'a codec" where
  "fail_codec = (\<lambda>_. Inl ErrIO, \<lambda>_. Inl ErrIO)"

definition ack_fmt :: "ShardAck wirefmt" where
  "ack_fmt = fmt_iso (\<lambda>a. (saType a, saFileID a, saShardIndex a, saOK a, saError a))
     (\<lambda>(t, f, i, k, e). \<lparr>saType = t, saFileID = f, saShardIndex = i, saOK = k, saError = e\<rparr>)
     (fmt_pair fmt_string (fmt_pair fmt_string (fmt_pair fmt_int (fmt_pair fmt_bool fmt_string))))"

definition req_fmt :: "ShardRequest wirefmt" where
  "req_fmt = fmt_iso (\<lambda>a. (sqType a, sqOwnerID a, sqFileID a, sqShardIndex a))
     (\<lambda>(t, w, f, i). \<lparr>sqType = t, sqOwnerID = w, sqFileID = f, sqShardIndex = i\<rparr>)
     (fmt_pair fmt_string (fmt_pair fmt_string (fmt_pair fmt_string fmt_int)))"

definition resp_fmt :: "ShardResponse wirefmt" where
  "resp_fmt = fmt_iso (\<lambda>a. (ssType a, ssFileID a, ssShardIndex a, ssData a, ssFound a))
     (\<lambda>(t, f, i, d, k). \<lparr>ssType = t, ssFileID = f, ssShardIndex = i, ssData = d, ssFound = k\<rparr>)
     (fmt_pair fmt_string (fmt_pair fmt_string (fmt_pair fmt_int (fmt_pair fmt_bytes fmt_bool))))"

definition invreq_fmt :: "InviteRequest wirefmt" where
  "invreq_fmt = fmt_iso (\<lambda>a. (iqType a, iqToken a, iqPeerID a, iqPubKey a, iqAddrs a))
     (\<lambda>(t, k, p, b, a). \<lparr>iqType = t, iqToken = k, iqPeerID = p, iqPubKey = b, iqAddrs = a\<rparr>)
     (fmt_pair fmt_string (fmt_pair fmt_bytes (fmt_pair fmt_string (fmt_pair fmt_bytes (fmt_list fmt_string)))))"

lemma message_fmts_ok: "fmt_ok ack_fmt" "fmt_ok req_fmt" "fmt_ok resp_fmt" "fmt_ok invreq_fmt"
  unfolding ack_fmt_def req_fmt_def resp_fmt_def invreq_fmt_def
  by (rule fmt_iso_ok; simp add: fmt_intros)+

lemma sendable_codec_of:
  "fmt_ok f \<Longrightarrow> fst f v \<noteq> [] \<Longrightarrow> length (fst f v) \<le> maxMsgSize \<Longrightarrow> wire_sendable (codec_of f) v"
  using codec_of_inverts [of f v] by (simp add: wire_sendable_def codec_of_def)

lemmas fmt_defs = push_fmt_def ack_fmt_def req_fmt_def resp_fmt_def invreq_fmt_def fmt_iso_def fmt_pair_def fmt_string_def
  fmt_bytes_def fmt_list_def fmt_nat_def fmt_byte_def fmt_int_def fmt_bool_def bytes_of_string_def maxMsgSize_def
  bits_of.simps TypeShardPush_def TypeShardAck_def TypeShardRequest_def TypeShardResponse_def TypeInviteRequest_def

lemma demo_sendable:
  "wire_sendable (codec_of push_fmt) \<lparr>spType = TypeShardPush, spOwnerID = ''alice'', spFileID = ''f'', spShardIndex = 0,
     spIsParity = False, spData = [1]\<rparr>"
  "wire_sendable (codec_of ack_fmt) \<lparr>saType = TypeShardAck, saFileID = ''f'', saShardIndex = 0, saOK = True, saError = []\<rparr>"
  "wire_sendable (codec_of req_fmt) \<lparr>sqType = TypeShardRequest, sqOwnerID = ''alice'', sqFileID = ''f'', sqShardIndex = 0\<rparr>"
  "wire_sendable (codec_of resp_fmt) \<lparr>ssType = TypeShardResponse, ssFileID = ''f'', ssShardIndex = 0, ssData = [1], ssFound = True\<rparr>"
  "wire_sendable (codec_of invreq_fmt) \<lparr>iqType = TypeInviteRequest, iqToken = [1], iqPeerID = ''bob'', iqPubKey = [6], iqAddrs = []\<rparr>"
  by - (rule sendable_codec_of, (simp add: push_fmt_ok message_fmts_ok), (simp add: fmt_defs), (simp add: fmt_defs))+

definition demo_codecs :: codecs where
  "demo_codecs = \<lparr>jShardPush = codec_of push_fmt, jShardAck = codec_of ack_fmt, jShardRequest = codec_of req_fmt,
     jShardResponse = codec_of resp_fmt, jInviteRequest = codec_of invreq_fmt, jInviteResponse = fail_codec,
     jManifestPush = fail_codec, jManifestAck = fail_codec, jManifestRequest = fail_codec, jManifestResponse = fail_codec,
     jEnvelope = fail_codec, jRegistry = codec_of registry_fmt, jInvites = codec_of invite_fmt\<rparr>"

definition demo_p2p :: p2plib where
  "demo_p2p = \<lparr>pl_UnmarshalPublicKey = Inr, pl_ExtractPublicKey = (\<lambda>p. Inr (Some (bytes_of_string p))), pl_Equals = (=)\<rparr>"

definition demo_node :: "fs \<Rightarrow> node" where
  "demo_node s = \<lparr>nFS = s, nReg = demo_registry [(''alice'', (demo_buddy ''alice'')\<lparr>bePubKey := bytes_of_string ''alice''\<rparr>)],
     nBS = \<lparr>bsRoot = [''b'']\<rparr>, nInv = \<lparr>imPath = [''inv'']\<rparr>, nSelf = ''me'', nPubKey = Inr [8]\<rparr>"

definition demo_shard_fs :: fs where
  "demo_shard_fs = empty_fs\<lparr>files := [([''b'', ''remote'', ''alice'', ''f'', ''0.shard''], [1])],
     dirs := [[''b''], [''b'', ''remote''], [''b'', ''remote'', ''alice''], [''b'', ''remote'', ''alice'', ''f'']]\<rparr>"

lemma demo_auth:
  "ReadFile s [''home'', ''buddies.enc''] = Inl ErrNotExist \<Longrightarrow>
     checkBuddyAuth demo_p2p (jRegistry demo_codecs) s (nReg (demo_node s')) ''alice'' = (nReg (demo_node s'), True)"
  "ReadFile s [''home'', ''buddies.enc''] = Inl ErrNotExist \<Longrightarrow>
     checkBuddyAuth demo_p2p (jRegistry demo_codecs) s (nReg (demo_node s')) ''mallory'' = (nReg (demo_node s'), False)"
  by (simp_all add: checkBuddyAuth_def Get_Registry_def load_Registry_def demo_node_def demo_registry_def demo_p2p_def
      demo_buddy_def bytes_of_string_def)

lemma demo_no_registry: "ReadFile empty_fs p = (if p = [] then Inl ErrIO else Inl ErrNotExist)"
  "ReadFile demo_shard_fs [''home'', ''buddies.enc''] = Inl ErrNotExist"
  by (simp_all add: ReadFile_def empty_fs_def demo_shard_fs_def is_dir_def)


theorem only_the_owner_changes_its_shards_witness:
  "\<exists>n'. node_steps demo_p2p demo_codecs (demo_node demo_shard_fs) [''mallory''] n'
     \<and> ReadFile (nFS n') [''b'', ''remote'', ''alice'', ''f'', ''0.shard''] = Inr [1]"
proof -
  obtain n' st' where "RegisterHandlers demo_p2p demo_codecs [] None 0 (demo_node demo_shard_fs) ProtoPush ''mallory'' (net [9]) = (n', st')"
    by fastforce
  then have run: "node_steps demo_p2p demo_codecs (demo_node demo_shard_fs) [''mallory''] n'"
    by (rule node_steps.step) (rule node_steps.done_)
  have "ReadFile demo_shard_fs [''b'', ''remote'', ''alice'', ''f'', ''0.shard''] = Inr [1]"
    by (simp add: ReadFile_def demo_shard_fs_def empty_fs_def is_dir_def)
  with only_the_owner_changes_its_shards [OF run, of "''alice''" "[''b'', ''remote'', ''alice'', ''f'', ''0.shard'']" "[1]"] run
  show ?thesis by (auto simp: demo_node_def demo_registry_def beneath_def)
qed

theorem PushShard_stores_the_shard_witness:
  "\<exists>request ack n'. handleShard demo_p2p demo_codecs (demo_node empty_fs) ''alice'' (net request) = (n', \<lparr>sin = [], sout = ack, swfails = False\<rparr>)
     \<and> PushShard demo_codecs (Inr (net ack)) ''alice'' ''f'' 0 False [1] = (Some \<lparr>sin = [], sout = request, swfails = False\<rparr>, None)
     \<and> Get_Buddy (nFS n') (nBS n') ''alice'' ''f'' 0 = Inr [1] \<and> Verify_Buddy (nFS n') (nBS n') ''alice'' ''f'' 0"
proof -
  have "Itoa 0 = ''0''" by code_simp
  then obtain s' where s': "PutWithHash (nFS (demo_node empty_fs)) (nBS (demo_node empty_fs)) ''alice'' ''f'' 0 [1] = (s', None)"
    by (simp add: demo_node_def PutWithHash_def Put_Buddy_def hashPath_def shardPath_Buddy_def isSafePathComponent_def
        Join_def path_step_def put_file_def MkdirAll_def empty_fs_def prefixes_def is_file_def is_dir_def
        WriteFile_def set_file_def upt_rec)
  show ?thesis
  proof (rule PushShard_stores_the_shard [OF _ _ _ s'])
    show "snd (checkBuddyAuth demo_p2p (jRegistry demo_codecs) (nFS (demo_node empty_fs)) (nReg (demo_node empty_fs)) ''alice'')"
      using demo_auth(1) [of empty_fs empty_fs] by (simp add: demo_no_registry demo_node_def)
  qed (simp_all add: demo_codecs_def demo_sendable demo_node_def empty_fs_def fault_free_def)
qed

theorem FetchShard_returns_the_shard_witness:
  "\<exists>request answer n'. handlePull demo_p2p demo_codecs (demo_node demo_shard_fs) ''alice'' (net request) = (n', \<lparr>sin = [], sout = answer, swfails = False\<rparr>)
     \<and> FetchShard demo_codecs (Inr (net answer)) ''alice'' ''f'' 0 = (Some \<lparr>sin = [], sout = request, swfails = False\<rparr>, Inr [1])"
proof -
  have i0: "Itoa 0 = ''0''" by code_simp
  have get: "Get_Buddy demo_shard_fs \<lparr>bsRoot = [''b'']\<rparr> ''alice'' ''f'' 0 = Inr [1]"
    by (simp add: Get_Buddy_def shardPath_Buddy_def isSafePathComponent_def Join_def path_step_def i0
        ReadFile_def is_dir_def demo_shard_fs_def empty_fs_def)
  have "snd (checkBuddyAuth demo_p2p (jRegistry demo_codecs) (nFS (demo_node demo_shard_fs)) (nReg (demo_node demo_shard_fs)) ''alice'')"
    using demo_auth(1) [OF demo_no_registry(2)] by (simp add: demo_node_def)
  from FetchShard_returns_the_shard [OF this, of "''f''" 0] show ?thesis
    using get by (simp add: demo_codecs_def demo_node_def pull_answer_def demo_sendable)
qed

theorem handleInvite_needs_a_token_witness:
  "\<exists>b. ReadMsg (jInviteRequest demo_codecs) b = ([], Inr \<lparr>iqType = TypeInviteRequest, iqToken = [1], iqPeerID = ''bob'', iqPubKey = [6], iqAddrs = []\<rparr>)
     \<and> nReg (fst (handleInvite demo_codecs [] None 0 (demo_node empty_fs) (net b))) = nReg (demo_node empty_fs)"
proof -
  obtain b where b: "ReadMsg (codec_of invreq_fmt) b = ([], Inr \<lparr>iqType = TypeInviteRequest, iqToken = [1], iqPeerID = ''bob'', iqPubKey = [6], iqAddrs = []\<rparr>)"
    by (rule send_on_net [OF demo_sendable(5)]) blast
  then have rd: "ReadMsg (jInviteRequest demo_codecs) (sin (net b)) = ([], Inr \<lparr>iqType = TypeInviteRequest, iqToken = [1], iqPeerID = ''bob'', iqPubKey = [6], iqAddrs = []\<rparr>)"
    by (simp add: demo_codecs_def net_def)
  have "Consume (jInvites demo_codecs) 0 (nFS (demo_node empty_fs)) (nInv (demo_node empty_fs)) [1]
      = (empty_fs, Some (Errorf ''invite: unknown or expired token''))"
    using demo_invite_start(3) by (simp add: Consume_def demo_node_def demo_codecs_def)
  moreover have "ConsumeCommitment (jInvites demo_codecs) 0 empty_fs (nInv (demo_node empty_fs)) [1]
      = (empty_fs, Some (Errorf ''invite: no valid commitment for presented pre-image''))"
    using demo_invite_start(3) by (simp add: ConsumeCommitment_def demo_node_def demo_codecs_def)
  ultimately show ?thesis
    using handleInvite_needs_a_token [OF rd] b by (fastforce simp: demo_node_def demo_codecs_def)
qed

theorem handleInvite_trusts_the_claimed_identity_witness:
  "\<exists>s b. ReadMsg (jInviteRequest demo_codecs) b = ([], Inr \<lparr>iqType = TypeInviteRequest, iqToken = [1], iqPeerID = ''bob'', iqPubKey = [6], iqAddrs = []\<rparr>)
     \<and> map_option bePubKey (map_of (rgByPeerID (nReg (fst (handleInvite demo_codecs [''bob''] None 0 (demo_node s) (net b))))) ''bob'') = Some [6]"
proof -
  let ?jr = "codec_of registry_fmt" and ?ji = "codec_of invite_fmt" and ?m = "\<lparr>imPath = [''inv'']\<rparr>"
  let ?r0 = "demo_registry [(''bob'', demo_buddy ''bob'')]"
  let ?st = "\<lparr>psPending = [\<lparr>pdToken = [1], pdExpiresAt = 9\<rparr>], psCommitments = []\<rparr>"
  have inv: "inverts ?jr es" "inverts ?ji st" for es st
    by (simp_all add: codec_of_inverts registry_fmt_ok invite_fmt_ok)
  obtain b where b: "ReadMsg (codec_of invreq_fmt) b = ([], Inr \<lparr>iqType = TypeInviteRequest, iqToken = [1], iqPeerID = ''bob'', iqPubKey = [6], iqAddrs = []\<rparr>)"
    by (rule send_on_net [OF demo_sendable(5)]) blast
  obtain s1 where s1: "saveLocked_Invite ?ji empty_fs ?m ?st = (s1, None)" "fault_free s1" "writable s1 (imPath ?m)"
    using saveLocked_Invite_total [of empty_fs ?m ?ji ?st] demo_invite_start inv by auto
  have s1_file: "map_of (files s1) [''home''] = None" "is_dir s1 [''home''] = False" "is_dir s1 [''home'', ''buddies.enc''] = False"
    using s1(1) by (auto simp: saveLocked_Invite_def codec_of_def MkdirAll_def WriteFile_def empty_fs_def prefixes_def is_dir_def
        set_file_def split: if_splits)
  then have "writable s1 (rgPath ?r0)"
    by (simp add: writable_def is_file_def prefixes_def demo_registry_def)
  then obtain s where s: "save_Registry ?jr [''bob''] (Some (\<lambda>_. 1)) s1 ?r0 = (s, None)" "fault_free s"
    using save_Registry_total [of ?r0 s1 ?jr "[''bob'']" "\<lambda>_. 1"] s1(2) inv by (auto simp: demo_registry_def)
  have rd: "read_entries ?jr (replicate 32 9) s [''home'', ''buddies.enc''] = Inr [demo_buddy ''bob'']"
    using read_after_save [OF s(1)] inv s1(2) by (simp add: demo_registry_def fault_free_def)
  have ld1: "loadLocked_Invite ?ji s1 ?m = Inr ?st"
    using invite_file.load_save [OF s1(1)] inv by (simp add: empty_fs_def)
  then obtain d where d: "ReadFile s1 [''inv''] = Inr d" "Unmarshal ?ji d = Inr ?st"
    by (auto simp: loadLocked_Invite_def split: sum.splits error.splits)
  have "ReadFile s [''inv''] = Inr d"
    using save_Registry_only [OF s(1)] d(1) by (simp add: only_at_def demo_registry_def)
  then have ld: "loadLocked_Invite ?ji s ?m = Inr ?st" using d(2) by (simp add: loadLocked_Invite_def)
  have "writable s [''inv'']"
    using \<open>ReadFile s [''inv''] = Inr d\<close> by (simp add: writable_def prefixes_def ReadFile_eq_Inr)
  then obtain s2 where s2: "Consume ?ji 0 s ?m [1] = (s2, None)"
    using saveLocked_Invite_total [OF s(2), of ?m ?ji "?st\<lparr>psPending := []\<rparr>"] inv ld by (auto simp: Consume_def)
  obtain ct where ct: "ReadFile s [''home'', ''buddies.enc''] = Inr ct"
    using rd by (auto simp: read_entries_def rbind_eq_Inr)
  have "ReadFile s2 [''home'', ''buddies.enc''] = Inr ct"
    using Consume_only [OF s2] ct by (simp add: only_at_def)
  then have rd2: "read_entries ?jr (replicate 32 9) s2 [''home'', ''buddies.enc''] = Inr [demo_buddy ''bob'']"
    using rd ct by (simp add: read_entries_def)
  show ?thesis
    using handleInvite_trusts_the_claimed_identity [of demo_codecs "net b" "[]" _ 0 "demo_node s" s2 "[8]" "[demo_buddy ''bob'']" "''bob''" "[''bob'']" None]
      b s2 rd2 by (intro exI [of _ s] exI [of _ b]) (simp add: demo_codecs_def demo_node_def net_def demo_registry_def demo_buddy_def)
qed

end
