(* ===== verification/Queue.thy ===== *)
theory Queue
  imports Wire Persist
begin

text \<open>
  \<open>internal/p2p/queue.go\<close>: shard pushes for buddies that were offline, in a JSON file. \<open>Enqueue\<close> is one
  critical section. \<open>FlushToPeer\<close> has two, with the network pushes in between: it reads the
  queue, releases the lock, sends, takes the lock again and writes what remains. The
  sequential function is \<open>FlushToPeer\<close>; \<open>queue_step\<close> interleaves one flush with the
  \<open>Enqueue\<close> calls of other goroutines at the granularity of the critical sections.
\<close>

record PendingItem =
  piPeerID :: string
  piPush :: ShardPush

type_synonym queueData = "PendingItem list"

definition loadLocked_Queue :: "queueData codec \<Rightarrow> fs \<Rightarrow> path \<Rightarrow> queueData result" where
  "loadLocked_Queue c s p =
     (case ReadFile s p of
        Inl ErrNotExist \<Rightarrow> Inr []
      | Inl e \<Rightarrow> Inl (Wrap ''queue: read'' e)
      | Inr d \<Rightarrow> wrap ''queue: unmarshal'' (Unmarshal c d))"

definition saveLocked_Queue :: "queueData codec \<Rightarrow> fs \<Rightarrow> path \<Rightarrow> queueData \<Rightarrow> fs \<times> error option" where
  "saveLocked_Queue c s p d =
     (case Marshal c d of
        Inl e \<Rightarrow> (s, Some (Wrap ''queue: marshal'' e))
      | Inr raw \<Rightarrow>
          (case MkdirAll s (butlast p) of
             (s1, Some e) \<Rightarrow> (s1, Some (Wrap ''queue: mkdir'' e))
           | (s1, None) \<Rightarrow> WriteFile s1 p raw))"

definition Enqueue :: "queueData codec \<Rightarrow> fs \<Rightarrow> path \<Rightarrow> string \<Rightarrow> ShardPush \<Rightarrow> fs \<times> error option" where
  "Enqueue c s p peerID push =
     (case loadLocked_Queue c s p of
        Inl e \<Rightarrow> (s, Some e)
      | Inr d \<Rightarrow> saveLocked_Queue c s p (d @ [\<lparr>piPeerID = peerID, piPush = push\<rparr>]))"

text \<open>The loop of \<open>FlushToPeer\<close>: \<open>send\<close> is the outcome of \<open>PushShard\<close> for a push.\<close>

fun flush_loop :: "(ShardPush \<Rightarrow> error option) \<Rightarrow> string \<Rightarrow> queueData \<Rightarrow> queueData" where
  "flush_loop send peer [] = []"
| "flush_loop send peer (item # items) =
     (if piPeerID item \<noteq> peer then item # flush_loop send peer items
      else case send (piPush item) of
             Some e \<Rightarrow> item # flush_loop send peer items
           | None \<Rightarrow> flush_loop send peer items)"

definition FlushToPeer :: "queueData codec \<Rightarrow> (ShardPush \<Rightarrow> error option) \<Rightarrow> fs \<Rightarrow> path \<Rightarrow> string \<Rightarrow> fs" where
  "FlushToPeer c send s p peer =
     (case loadLocked_Queue c s p of
        Inl e \<Rightarrow> s
      | Inr d \<Rightarrow> fst (saveLocked_Queue c s p (flush_loop send peer d)))"

lemma saveLocked_Queue_None:
  assumes "saveLocked_Queue c s p st = (s', None)"
  obtains d s1 where "Marshal c st = Inr d" "MkdirAll s (butlast p) = (s1, None)" "WriteFile s1 p d = (s', None)"
  using assms by (auto simp: saveLocked_Queue_def split: sum.splits prod.splits option.splits)

lemma saveLocked_Queue_faults: "saveLocked_Queue c s p st = (s', e) \<Longrightarrow> same_faults s s'"
  by (auto simp: saveLocked_Queue_def split: sum.splits prod.splits option.splits
      dest!: MkdirAll_faults WriteFile_faults intro: same_faults_trans)

interpretation queue_file: persistent
  "\<lambda>s d. saveLocked_Queue c s p d" "\<lambda>s. loadLocked_Queue c s p"
  "\<lambda>s d. inverts c d \<and> \<not> rfault s p" for c p
proof unfold_locales
  fix s s' st assume sv: "saveLocked_Queue c s p st = (s', None)" and ok: "inverts c st \<and> \<not> rfault s p"
  from sv obtain d s1 where d: "Marshal c st = Inr d" and mk: "MkdirAll s (butlast p) = (s1, None)"
    and w: "WriteFile s1 p d = (s', None)" by (rule saveLocked_Queue_None)
  have "ReadFile s' p = Inr d"
    using ReadFile_WriteFile_same [OF w] MkdirAll_frame [OF mk] ok by simp
  then show "loadLocked_Queue c s' p = Inr st"
    using inverts_Unmarshal [OF _ d] ok by (simp add: loadLocked_Queue_def)
next
  fix s s' e st w assume "saveLocked_Queue c s p st = (s', e)"
  from saveLocked_Queue_faults [OF this]
  show "(inverts c w \<and> \<not> rfault s' p) = (inverts c w \<and> \<not> rfault s p)" by (simp add: same_faults_def)
qed

lemma saveLocked_Queue_total:
  assumes "fault_free s" and "writable s p" and "inverts c st"
  shows "\<exists>s'. saveLocked_Queue c s p st = (s', None) \<and> fault_free s' \<and> writable s' p"
proof -
  obtain d where d: "Marshal c st = Inr d" using inverts_Marshal [OF assms(3)] by blast
  obtain s' where s': "put_file [] [] s p d = (s', None)"
    using put_file_total [OF assms(1,2)] by blast
  then obtain s1 where "MkdirAll s (butlast p) = (s1, None)" "WriteFile s1 p d = (s', None)"
    by (rule put_file_None)
  with d have "saveLocked_Queue c s p st = (s', None)" by (simp add: saveLocked_Queue_def)
  then show ?thesis
    using put_file_keeps_writable [OF s'] put_file_faults [OF s'] assms(1,2) by (simp add: same_faults_fault_free)
qed

lemma Enqueue_rmw:
  "Enqueue c s p peer push = rmw (\<lambda>s. loadLocked_Queue c s p) (\<lambda>s d. saveLocked_Queue c s p d)
     (\<lambda>d. d @ [\<lparr>piPeerID = peer, piPush = push\<rparr>]) s"
  by (simp add: Enqueue_def rmw_def)

lemma flush_loop_eq:
  "flush_loop send peer items = filter (\<lambda>i. piPeerID i \<noteq> peer \<or> send (piPush i) \<noteq> None) items"
  by (induction items) (auto split: option.splits)

subsection \<open>A flush interleaved with enqueues\<close>

datatype flush_pc = Idle | Sending queueData | Finished

inductive queue_step ::
  "queueData codec \<Rightarrow> (ShardPush \<Rightarrow> error option) \<Rightarrow> path \<Rightarrow> string \<Rightarrow> fs \<times> flush_pc \<Rightarrow> fs \<times> flush_pc \<Rightarrow> bool"
  for c send p peer where
  begin_flush: "loadLocked_Queue c s p = Inr d \<Longrightarrow> queue_step c send p peer (s, Idle) (s, Sending d)"
| fail_flush: "loadLocked_Queue c s p = Inl e \<Longrightarrow> queue_step c send p peer (s, Idle) (s, Finished)"
| end_flush: "saveLocked_Queue c s p (flush_loop send peer d) = (s', e)
     \<Longrightarrow> queue_step c send p peer (s, Sending d) (s', Finished)"
| enqueue: "Enqueue c s p q push = (s', e) \<Longrightarrow> queue_step c send p peer (s, pc) (s', pc)"

inductive_cases queue_step_IdleE: "queue_step c send p peer (s, Idle) (s', Sending d)"
inductive_cases queue_step_SendingE: "queue_step c send p peer (s, Sending d) (s', Finished)"

text \<open>The sequential flush is the run without interleaved steps.\<close>

lemma FlushToPeer_runs:
  assumes "loadLocked_Queue c s p = Inr d"
  shows "(queue_step c send p peer)\<^sup>*\<^sup>* (s, Idle) (FlushToPeer c send s p peer, Finished)"
proof -
  obtain s' e where e: "saveLocked_Queue c s p (flush_loop send peer d) = (s', e)" by fastforce
  have "queue_step c send p peer (s, Idle) (s, Sending d)" by (rule begin_flush [OF assms])
  moreover have "queue_step c send p peer (s, Sending d) (s', Finished)" by (rule end_flush [OF e])
  ultimately show ?thesis using assms e by (simp add: FlushToPeer_def)
qed

subsection \<open>Properties\<close>


text \<open>The lock is not held across a flush: a push that another goroutine enqueues, successfully, after
  the flush has read the queue and before it writes it back, is gone when the flush ends, and
  was never sent.\<close>

theorem Enqueue_during_flush_is_lost:
  assumes "loadLocked_Queue c s p = Inr d" and "fault_free s" and "writable s p" 
    and "inverts c (d @ [item])" and "inverts c (flush_loop send peer d)"
    and "item = \<lparr>piPeerID = q, piPush = push\<rparr>" and "item \<notin> set d"
  shows "\<exists>s1 s2. queue_step c send p peer (s, Idle) (s, Sending d)
     \<and> Enqueue c s p q push = (s1, None) \<and> queue_step c send p peer (s, Sending d) (s1, Sending d)
     \<and> loadLocked_Queue c s1 p = Inr (d @ [item])
     \<and> queue_step c send p peer (s1, Sending d) (s2, Finished)
     \<and> (\<exists>d'. loadLocked_Queue c s2 p = Inr d' \<and> item \<notin> set d')"
proof -
  obtain s1 where s1: "saveLocked_Queue c s p (d @ [item]) = (s1, None)" "fault_free s1" "writable s1 p"
    using saveLocked_Queue_total [OF assms(2-4)] by blast
  then have enq: "Enqueue c s p q push = (s1, None)" using assms(1,6) by (simp add: Enqueue_def)
  have ld1: "loadLocked_Queue c s1 p = Inr (d @ [item])"
    using queue_file.load_save [OF s1(1)] assms(2,4) by (simp add: fault_free_def)
  obtain s2 where s2: "saveLocked_Queue c s1 p (flush_loop send peer d) = (s2, None)"
    using saveLocked_Queue_total [OF s1(2,3) assms(5)] by blast
  have "loadLocked_Queue c s2 p = Inr (flush_loop send peer d)"
    using queue_file.load_save [OF s2] s1(2) assms(5) by (simp add: fault_free_def)
  moreover have "item \<notin> set (flush_loop send peer d)" using assms(7) by (simp add: flush_loop_eq)
  ultimately show ?thesis
    using begin_flush [OF assms(1)] enqueue [OF enq] end_flush [OF s2] enq ld1 by blast
qed

definition queue_fmt :: "queueData wirefmt" where
  "queue_fmt = fmt_list (fmt_iso (\<lambda>i. (piPeerID i, piPush i)) (\<lambda>(q, x). \<lparr>piPeerID = q, piPush = x\<rparr>)
     (fmt_pair fmt_string push_fmt))"

lemma queue_fmt_ok: "fmt_ok queue_fmt"
  unfolding queue_fmt_def by (intro fmt_list_ok fmt_iso_ok) (simp_all add: fmt_intros push_fmt_ok)

lemma demo_queue_start:
  "loadLocked_Queue (codec_of queue_fmt) empty_fs [''q''] = Inr []" "fault_free empty_fs" "writable empty_fs [''q'']"
  by (simp_all add: empty_fs_def fault_free_def writable_def is_dir_def is_file_def prefixes_def
      loadLocked_Queue_def ReadFile_def)


theorem Enqueue_during_flush_is_lost_witness:
  "\<exists>s1 s2. Enqueue (codec_of queue_fmt) empty_fs [''q''] ''bob'' demo_push = (s1, None)
     \<and> queue_step (codec_of queue_fmt) (\<lambda>_. None) [''q''] ''carol'' (s1, Sending []) (s2, Finished)
     \<and> (\<exists>d'. loadLocked_Queue (codec_of queue_fmt) s2 [''q''] = Inr d' \<and> \<lparr>piPeerID = ''bob'', piPush = demo_push\<rparr> \<notin> set d')"
  using Enqueue_during_flush_is_lost [OF demo_queue_start codec_of_inverts [OF queue_fmt_ok] codec_of_inverts [OF queue_fmt_ok] refl, of "''bob''" demo_push "\<lambda>_. None" "''carol''"]
  by auto

end
