(* ===== verification/Tray.thy ===== *)
theory Tray
  imports Persist Protocol
begin

text \<open>
  \<open>internal/tray/status.go\<close> and \<open>config.go\<close>: two small JSON files that the command line writes and
  the tray application reads at any moment. Both are written to a temporary file that is then
  renamed, so that a reader sees the old contents or the new ones. The locale \<open>atomic_file\<close> is
  that contract.
\<close>

record Status =
  stLastBackupAt :: time
  stLastFile :: string
  stError :: string

record TrayConfig =
  tcWatchSrc :: string

definition statusFile :: string where "statusFile = ''status.json''"

definition configFile :: string where "configFile = ''tray-config.json''"

definition Write_Status :: "Status codec \<Rightarrow> fs \<Rightarrow> path \<Rightarrow> Status \<Rightarrow> fs \<times> error option" where
  "Write_Status c s dir st =
     (case Marshal c st of
        Inl e \<Rightarrow> (s, Some e)
      | Inr b \<Rightarrow>
          (case MkdirAll s dir of
             (s1, Some e) \<Rightarrow> (s1, Some e)
           | (s1, None) \<Rightarrow>
               (case WriteFile s1 (Join dir [statusFile @ ''.tmp'']) b of
                  (s2, Some e) \<Rightarrow> (s2, Some e)
                | (s2, None) \<Rightarrow> Rename s2 (Join dir [statusFile @ ''.tmp'']) (Join dir [statusFile]))))"

definition Read_Status :: "Status codec \<Rightarrow> fs \<Rightarrow> path \<Rightarrow> Status result" where
  "Read_Status c s dir =
     (case ReadFile s (Join dir [statusFile]) of
        Inl ErrNotExist \<Rightarrow> Inr \<lparr>stLastBackupAt = 0, stLastFile = [], stError = []\<rparr>
      | Inl e \<Rightarrow> Inl e
      | Inr b \<Rightarrow> Unmarshal c b)"

definition WriteConfig :: "TrayConfig codec \<Rightarrow> fs \<Rightarrow> path \<Rightarrow> TrayConfig \<Rightarrow> fs \<times> error option" where
  "WriteConfig c s dir cfg =
     (case Marshal c cfg of
        Inl e \<Rightarrow> (s, Some e)
      | Inr b \<Rightarrow>
          (case MkdirAll s dir of
             (s1, Some e) \<Rightarrow> (s1, Some e)
           | (s1, None) \<Rightarrow>
               (case WriteFile s1 (Join dir [configFile @ ''.tmp'']) b of
                  (s2, Some e) \<Rightarrow> (s2, Some e)
                | (s2, None) \<Rightarrow> Rename s2 (Join dir [configFile @ ''.tmp'']) (Join dir [configFile]))))"

definition ReadConfig :: "TrayConfig codec \<Rightarrow> fs \<Rightarrow> path \<Rightarrow> TrayConfig result" where
  "ReadConfig c s dir =
     (case ReadFile s (Join dir [configFile]) of
        Inl ErrNotExist \<Rightarrow> Inr \<lparr>tcWatchSrc = []\<rparr>
      | Inl e \<Rightarrow> Inl e
      | Inr b \<Rightarrow> Unmarshal c b)"

subsection \<open>The contract\<close>

locale atomic_file =
  fixes put :: "fs \<Rightarrow> 'v \<Rightarrow> fs \<times> error option"
    and get :: "fs \<Rightarrow> 'v result"
    and sound :: "fs \<Rightarrow> 'v \<Rightarrow> bool"
  assumes old_or_new: "put s v = (s', e) \<Longrightarrow> sound s v \<Longrightarrow> get s' = get s \<or> get s' = Inr v"
    and new_if_ok: "put s v = (s', None) \<Longrightarrow> sound s v \<Longrightarrow> get s' = Inr v"
    and sound_put: "put s v = (s', e) \<Longrightarrow> sound s' w = sound s w"
begin

fun put_seq :: "fs \<Rightarrow> 'v list \<Rightarrow> fs" where
  "put_seq s [] = s"
| "put_seq s (v # vs) = put_seq (fst (put s v)) vs"

text \<open>Whatever writes succeed or fail, a reader that could read keeps reading: the first value or one
  that was written.\<close>

lemma reader_never_breaks:
  "get s = Inr v0 \<Longrightarrow> (\<And>v. v \<in> set vs \<Longrightarrow> sound s v) \<Longrightarrow> \<exists>v \<in> insert v0 (set vs). get (put_seq s vs) = Inr v"
proof (induction vs arbitrary: s v0)
  case Nil
  then show ?case by simp
next
  case (Cons v vs)
  obtain s1 e where p: "put s v = (s1, e)" by fastforce
  have snd1: "\<And>w. w \<in> set vs \<Longrightarrow> sound s1 w" using sound_put [OF p] Cons.prems(2) by simp
  have "get s1 = Inr v0 \<or> get s1 = Inr v"
    using old_or_new [OF p] Cons.prems by auto
  then show ?case
  proof
    assume "get s1 = Inr v0"
    then show ?thesis using Cons.IH [of s1 v0] snd1 p by auto
  next
    assume "get s1 = Inr v"
    then show ?thesis using Cons.IH [of s1 v] snd1 p by auto
  qed
qed

end

subsection \<open>Both files meet it\<close>

lemma ReadFile_MkdirAll_eq:
  assumes "MkdirAll s p = (s', e)" and "q \<notin> set (prefixes p)"
  shows "ReadFile s' q = ReadFile s q"
proof -
  have "is_dir s' q = is_dir s q"
    using MkdirAll_dirs [OF assms(1), of q] MkdirAll_mono [OF assms(1), of q] assms(2) by blast
  then show ?thesis using MkdirAll_frame [OF assms(1)] by (simp add: ReadFile_def)
qed

lemma Rename_cases:
  "Rename s p q = (s', e) \<Longrightarrow> s' = s \<and> e \<noteq> None \<or>
     (\<exists>d. map_of (files s) p = Some d \<and> \<not> is_dir s q \<and> e = None
        \<and> s' = s\<lparr>files := AList.update q d (filter (\<lambda>x. fst x \<noteq> p) (files s))\<rparr>)"
  by (auto simp: Rename_def split: option.splits if_splits)

definition replace_file :: "fs \<Rightarrow> path \<Rightarrow> string \<Rightarrow> bytes \<Rightarrow> fs \<times> error option" where
  "replace_file s dir name b =
     (case MkdirAll s dir of
        (s1, Some e) \<Rightarrow> (s1, Some e)
      | (s1, None) \<Rightarrow>
          (case WriteFile s1 (Join dir [name @ ''.tmp'']) b of
             (s2, Some e) \<Rightarrow> (s2, Some e)
           | (s2, None) \<Rightarrow> Rename s2 (Join dir [name @ ''.tmp'']) (Join dir [name])))"

lemma replace_file_atomic:
  assumes r: "replace_file s dir name b = (s', e)"
    and name: "plain_component name" "plain_component (name @ ''.tmp'')"
    and rd: "\<not> rfault s (dir @ [name])"
  shows "(e = None \<longrightarrow> ReadFile s' (dir @ [name]) = Inr b)
    \<and> (e \<noteq> None \<longrightarrow> ReadFile s' (dir @ [name]) = ReadFile s (dir @ [name]))
    \<and> same_faults s s'"
proof -
  let ?t = "dir @ [name @ ''.tmp'']" and ?f = "dir @ [name]"
  have J: "Join dir [name @ ''.tmp''] = ?t" "Join dir [name] = ?f" using name by (simp_all add: Join_plain)
  obtain s1 e1 where m: "MkdirAll s dir = (s1, e1)" by fastforce
  obtain s2 e2 where w: "WriteFile s1 ?t b = (s2, e2)" by fastforce
  obtain s3 e3 where rn: "Rename s2 ?t ?f = (s3, e3)" by fastforce
  have "?f \<notin> set (prefixes dir)" by (auto simp: prefixes_def dest: arg_cong [where f = length])
  then have r1: "ReadFile s1 ?f = ReadFile s ?f" by (rule ReadFile_MkdirAll_eq [OF m])
  have r2: "ReadFile s2 ?f = ReadFile s1 ?f" by (rule ReadFile_WriteFile_other [OF w]) simp
  have ff: "same_faults s s1" "same_faults s s2"
    using MkdirAll_faults [OF m] WriteFile_faults [OF w] by (auto intro: same_faults_trans)
  have c: "(e = e1 \<and> s' = s1 \<and> e1 \<noteq> None) \<or> (e1 = None \<and> e = e2 \<and> s' = s2 \<and> e2 \<noteq> None)
      \<or> (e1 = None \<and> e2 = None \<and> e = e3 \<and> s' = s3)"
    using r by (auto simp: replace_file_def J m w rn split: option.splits)
  have moved: "ReadFile s3 ?f = Inr b \<and> same_faults s s3" if "e3 = None" "e2 = None"
  proof -
    have "map_of (files s2) ?t = Some b" using WriteFile_ok [OF w [unfolded that(2)]] by simp
    with Rename_cases [OF rn] that(1) have nd: "\<not> is_dir s2 ?f"
      and s3: "s3 = s2\<lparr>files := AList.update ?f b (filter (\<lambda>x. fst x \<noteq> ?t) (files s2))\<rparr>" by auto
    moreover have "\<not> rfault s2 ?f" using ff(2) rd by (simp add: same_faults_def)
    ultimately have "ReadFile s3 ?f = Inr b" by (simp add: ReadFile_def is_dir_def)
    moreover have "same_faults s s3" using ff(2) s3 by (simp add: same_faults_def)
    ultimately show ?thesis by simp
  qed
  have kept: "s3 = s2" if "e3 \<noteq> None" using Rename_cases [OF rn] that by auto
  from c r1 r2 ff moved kept show ?thesis by (cases "e3 = None") auto
qed

lemma replace_file_faults: "replace_file s dir name b = (s', e) \<Longrightarrow> same_faults s s'"
  by (auto simp: replace_file_def split: prod.splits option.splits
      dest!: MkdirAll_faults WriteFile_faults Rename_cases) (auto simp: same_faults_def)

lemma plain_names: "plain_component statusFile" "plain_component (statusFile @ ''.tmp'')"
  "plain_component configFile" "plain_component (configFile @ ''.tmp'')"
  by (simp_all add: plain_component_def statusFile_def configFile_def)

lemma Write_Status_replace:
  "Write_Status c s dir st = (case Marshal c st of Inl e \<Rightarrow> (s, Some e) | Inr b \<Rightarrow> replace_file s dir statusFile b)"
  by (cases "Marshal c st") (simp_all add: Write_Status_def replace_file_def)

lemma WriteConfig_replace:
  "WriteConfig c s dir st = (case Marshal c st of Inl e \<Rightarrow> (s, Some e) | Inr b \<Rightarrow> replace_file s dir configFile b)"
  by (cases "Marshal c st") (simp_all add: WriteConfig_def replace_file_def)

interpretation status: atomic_file "\<lambda>s v. Write_Status c s dir v" "\<lambda>s. Read_Status c s dir"
  "\<lambda>s v. inverts c v \<and> \<not> rfault s (dir @ [statusFile])" for c dir
proof unfold_locales
  have J: "Join dir [statusFile] = dir @ [statusFile]" using plain_names by (simp add: Join_plain)
  fix s v s' e assume p: "Write_Status c s dir v = (s', e)" and ok: "inverts c v \<and> \<not> rfault s (dir @ [statusFile])"
  then obtain b where b: "Marshal c v = Inr b" "Unmarshal c b = Inr v" "replace_file s dir statusFile b = (s', e)"
    by (auto simp: Write_Status_replace inverts_def split: sum.splits)
  note at = replace_file_atomic [OF b(3) plain_names(1,2)]
  show "Read_Status c s' dir = Read_Status c s dir \<or> Read_Status c s' dir = Inr v"
    using at ok b(2) by (cases e) (simp_all add: Read_Status_def J)
next
  have J: "Join dir [statusFile] = dir @ [statusFile]" using plain_names by (simp add: Join_plain)
  fix s v s' assume p: "Write_Status c s dir v = (s', None)" and ok: "inverts c v \<and> \<not> rfault s (dir @ [statusFile])"
  then obtain b where b: "Marshal c v = Inr b" "Unmarshal c b = Inr v" "replace_file s dir statusFile b = (s', None)"
    by (auto simp: Write_Status_replace inverts_def split: sum.splits)
  show "Read_Status c s' dir = Inr v"
    using replace_file_atomic [OF b(3) plain_names(1,2)] ok b(2) by (simp add: Read_Status_def J)
next
  fix s v s' e w assume p: "Write_Status c s dir v = (s', e)"
  have "same_faults s s'"
    using p by (auto simp: Write_Status_replace split: sum.splits dest: replace_file_faults)
  then show "(inverts c w \<and> \<not> rfault s' (dir @ [statusFile])) = (inverts c w \<and> \<not> rfault s (dir @ [statusFile]))"
    by (simp add: same_faults_def)
qed

interpretation config: atomic_file "\<lambda>s v. WriteConfig c s dir v" "\<lambda>s. ReadConfig c s dir"
  "\<lambda>s v. inverts c v \<and> \<not> rfault s (dir @ [configFile])" for c dir
proof unfold_locales
  have J: "Join dir [configFile] = dir @ [configFile]" using plain_names by (simp add: Join_plain)
  fix s v s' e assume p: "WriteConfig c s dir v = (s', e)" and ok: "inverts c v \<and> \<not> rfault s (dir @ [configFile])"
  then obtain b where b: "Marshal c v = Inr b" "Unmarshal c b = Inr v" "replace_file s dir configFile b = (s', e)"
    by (auto simp: WriteConfig_replace inverts_def split: sum.splits)
  note at = replace_file_atomic [OF b(3) plain_names(3,4)]
  show "ReadConfig c s' dir = ReadConfig c s dir \<or> ReadConfig c s' dir = Inr v"
    using at ok b(2) by (cases e) (simp_all add: ReadConfig_def J)
next
  have J: "Join dir [configFile] = dir @ [configFile]" using plain_names by (simp add: Join_plain)
  fix s v s' assume p: "WriteConfig c s dir v = (s', None)" and ok: "inverts c v \<and> \<not> rfault s (dir @ [configFile])"
  then obtain b where b: "Marshal c v = Inr b" "Unmarshal c b = Inr v" "replace_file s dir configFile b = (s', None)"
    by (auto simp: WriteConfig_replace inverts_def split: sum.splits)
  show "ReadConfig c s' dir = Inr v"
    using replace_file_atomic [OF b(3) plain_names(3,4)] ok b(2) by (simp add: ReadConfig_def J)
next
  fix s v s' e w assume p: "WriteConfig c s dir v = (s', e)"
  have "same_faults s s'"
    using p by (auto simp: WriteConfig_replace split: sum.splits dest: replace_file_faults)
  then show "(inverts c w \<and> \<not> rfault s' (dir @ [configFile])) = (inverts c w \<and> \<not> rfault s (dir @ [configFile]))"
    by (simp add: same_faults_def)
qed

subsection \<open>Properties\<close>

text \<open>The status file is written atomically: whatever fault interrupts \<open>Write\<close>, a short write of the
  data included, a reader gets either exactly what it would have got before or the complete new
  status; after a successful \<open>Write\<close> it gets the new one.\<close>

theorem status_write_is_atomic:
  assumes "Write_Status c s dir st = (s', e)" and "inverts c st" and "\<not> rfault s (dir @ [statusFile])"
  shows "(Read_Status c s' dir = Read_Status c s dir \<or> Read_Status c s' dir = Inr st)
    \<and> (e = None \<longrightarrow> Read_Status c s' dir = Inr st)"
  using status.old_or_new [OF assms(1)] status.new_if_ok [of c s dir st s'] assms by auto

definition status_fmt :: "Status wirefmt" where
  "status_fmt = fmt_iso (\<lambda>s. (stLastBackupAt s, stLastFile s, stError s))
     (\<lambda>(t, f, e). \<lparr>stLastBackupAt = t, stLastFile = f, stError = e\<rparr>) (fmt_pair fmt_int (fmt_pair fmt_string fmt_string))"

lemma status_fmt_ok: "fmt_ok status_fmt"
  unfolding status_fmt_def by (rule fmt_iso_ok) (simp_all add: fmt_intros)

theorem status_write_is_atomic_witness:
  "\<exists>s'. Write_Status (codec_of status_fmt) (empty_fs\<lparr>wfault := (\<lambda>_. Some (ShortWrite 2))\<rparr>) [''cfg'']
        \<lparr>stLastBackupAt = 9, stLastFile = ''f'', stError = []\<rparr> = (s', Some ErrIO)
     \<and> (Read_Status (codec_of status_fmt) s' [''cfg''] = Inr \<lparr>stLastBackupAt = 0, stLastFile = [], stError = []\<rparr>
         \<or> Read_Status (codec_of status_fmt) s' [''cfg''] = Inr \<lparr>stLastBackupAt = 9, stLastFile = ''f'', stError = []\<rparr>)"
proof -
  let ?s = "empty_fs\<lparr>wfault := (\<lambda>_. Some (ShortWrite 2))\<rparr>"
  have J: "Join [''cfg''] [statusFile] = [''cfg'', statusFile]" "Join [''cfg''] [statusFile @ ''.tmp''] = [''cfg'', statusFile @ ''.tmp'']"
    using plain_names by (simp_all add: Join_plain)
  obtain s' where w: "Write_Status (codec_of status_fmt) ?s [''cfg''] \<lparr>stLastBackupAt = 9, stLastFile = ''f'', stError = []\<rparr> = (s', Some ErrIO)"
    by (simp add: Write_Status_def codec_of_def MkdirAll_def WriteFile_def J empty_fs_def prefixes_def is_file_def is_dir_def)
  have "Read_Status (codec_of status_fmt) ?s [''cfg''] = Inr \<lparr>stLastBackupAt = 0, stLastFile = [], stError = []\<rparr>"
    by (simp add: Read_Status_def J ReadFile_def empty_fs_def is_dir_def)
  with status_write_is_atomic [OF w codec_of_inverts [OF status_fmt_ok]] w show ?thesis
    by (simp add: empty_fs_def)
qed

end
