(* ===== verification/Chunker.thy ===== *)
theory Chunker
  imports Protocol Go_Crypto Go_FS
begin

text \<open>
  \<open>internal/chunker/chunker.go\<close>: a file is cut into chunks of a fixed size, the last one
  zero-padded, each with the SHA-256 of its meaningful bytes; \<open>Reassemble\<close> writes them back.

  An \<open>io.Reader\<close> is the bytes it still delivers and the error it reports after them
  (\<open>None\<close> for end of file). The read loop of \<open>ChunkReader\<close> has no bound of its own, so it is a
  partial function: \<open>None\<close> is a loop that does not end. A writer is the list of outcomes of its
  successive \<open>Write\<close> calls.
\<close>

record reader =
  rdData :: bytes
  rdErr :: "error option"

definition DefaultChunkSize :: int where
  "DefaultChunkSize = 4 * 1024 * 1024"

subsection \<open>Reading\<close>

text \<open>\<open>io.ReadFull(r, buf)\<close> for a buffer of \<open>k\<close> bytes: the bytes read, the error, the rest.\<close>

definition ReadFull :: "nat \<Rightarrow> reader \<Rightarrow> bytes \<times> error option \<times> reader" where
  "ReadFull k r =
     (let n = length (rdData r)
      in if k \<le> n then (take k (rdData r), None, r\<lparr>rdData := drop k (rdData r)\<rparr>)
         else (rdData r,
               Some (case rdErr r of Some e \<Rightarrow> e
                     | None \<Rightarrow> if n = 0 then ErrEOF else ErrUnexpectedEOF),
               r\<lparr>rdData := []\<rparr>))"

definition mk_chunk :: "nat \<Rightarrow> int \<Rightarrow> bytes \<Rightarrow> Chunk" where
  "mk_chunk k index buf =
     \<lparr>chIndex = index, chData = buf @ replicate (k - length buf) 0,
      chHash = Sum256 buf, chSize = int (length buf)\<rparr>"

partial_function (option) chunk_loop ::
  "nat \<Rightarrow> reader \<Rightarrow> int \<Rightarrow> Chunk list \<Rightarrow> Chunk list result option" where
  "chunk_loop k r index chunks =
     (case ReadFull k r of (buf, err, r') \<Rightarrow>
        (let chunks' = (if buf \<noteq> [] then chunks @ [mk_chunk k index buf] else chunks);
             index' = (if buf \<noteq> [] then index + 1 else index)
         in case err of
              None \<Rightarrow> chunk_loop k r' index' chunks'
            | Some e \<Rightarrow>
                if e = ErrEOF \<or> e = ErrUnexpectedEOF then Some (Inr chunks')
                else Some (Inl (Wrap ''chunker: read at index'' e))))"

text \<open>\<open>make([]byte, chunkSize)\<close> panics for a negative size.\<close>

definition ChunkReader :: "reader \<Rightarrow> int \<Rightarrow> Chunk list result option" where
  "ChunkReader r chunkSize =
     (if chunkSize < 0 then Some (Inl (Panic ''makeslice: len out of range''))
      else chunk_loop (nat chunkSize) r 0 [])"

definition ChunkFile :: "fs \<Rightarrow> path \<Rightarrow> int \<Rightarrow> Chunk list result option" where
  "ChunkFile s p chunkSize =
     (let k = (if chunkSize \<le> 0 then DefaultChunkSize else chunkSize)
      in case ReadFile s p of
           Inl e \<Rightarrow> Some (Inl (Wrap ''chunker: open'' e))
         | Inr d \<Rightarrow> ChunkReader \<lparr>rdData = d, rdErr = None\<rparr> k)"

subsection \<open>Writing and verifying\<close>

text \<open>
  \<open>Reassemble\<close>: the data written, and the error of the first \<open>Write\<close> that fails (\<open>w i\<close> is the
  outcome of the \<open>i\<close>-th call). Only the last chunk is trimmed to its recorded size.
\<close>

fun reassemble_from :: "(nat \<Rightarrow> error option) \<Rightarrow> nat \<Rightarrow> Chunk list \<Rightarrow> bytes \<times> error option" where
  "reassemble_from w i [] = ([], None)"
| "reassemble_from w i (c # cs) =
     (let data = (if cs = [] \<and> 0 < chSize c \<and> chSize c < int (length (chData c))
                  then take (nat (chSize c)) (chData c) else chData c)
      in case w i of
           Some e \<Rightarrow> ([], Some (Wrap ''chunker: write chunk'' e))
         | None \<Rightarrow> (case reassemble_from w (Suc i) cs of (out, err) \<Rightarrow> (data @ out, err)))"

definition Reassemble :: "(nat \<Rightarrow> error option) \<Rightarrow> Chunk list \<Rightarrow> bytes \<times> error option" where
  "Reassemble w chunks = reassemble_from w 0 chunks"

definition VerifyChunk :: "Chunk \<Rightarrow> bool result" where
  "VerifyChunk c =
     (let n = int (length (chData c));
          size = (if chSize c = 0 \<or> chSize c > n then n else chSize c)
      in if size < 0 then Inl (Panic ''slice bounds out of range'')
         else Inr (Sum256 (take (nat size) (chData c)) = chHash c))"

subsection \<open>What the loop computes\<close>

text \<open>The reference definition: successive slices of the data, one chunk each.\<close>

function chunks_of :: "nat \<Rightarrow> int \<Rightarrow> bytes \<Rightarrow> Chunk list" where
  "chunks_of k i d =
     (if k = 0 \<or> d = [] then [] else mk_chunk k i (take k d) # chunks_of k (i + 1) (drop k d))"
  by pat_completeness auto
termination
  by (relation "measure (\<lambda>(k, i, d). length d)") auto

declare chunks_of.simps [simp del]

lemma chunks_of_Nil [simp]: "chunks_of k i [] = []"
  by (simp add: chunks_of.simps)

lemma chunks_of_step:
  "0 < k \<Longrightarrow> d \<noteq> [] \<Longrightarrow> chunks_of k i d = mk_chunk k i (take k d) # chunks_of k (i + 1) (drop k d)"
  by (simp add: chunks_of.simps [of k i d])

lemma chunk_loop_reads_all:
  assumes "0 < k"
  shows "chunk_loop k \<lparr>rdData = d, rdErr = None\<rparr> i acc = Some (Inr (acc @ chunks_of k i d))"
  using assms
proof (induction k i d arbitrary: acc rule: chunks_of.induct)
  case (1 k i d)
  consider "d = []" | "d \<noteq> []" "length d < k" | "d \<noteq> []" "k \<le> length d" by linarith
  then show ?case
  proof cases
    case 1
    with \<open>0 < k\<close> show ?thesis
      by (simp add: chunk_loop.simps ReadFull_def Let_def)
  next
    case 2
    then have "chunks_of k i d = [mk_chunk k i d]"
      using \<open>0 < k\<close> by (simp add: chunks_of_step)
    with 2 show ?thesis
      by (simp add: chunk_loop.simps ReadFull_def Let_def)
  next
    case 3
    then have read: "ReadFull k \<lparr>rdData = d, rdErr = None\<rparr>
        = (take k d, None, \<lparr>rdData = drop k d, rdErr = None\<rparr>)" and "take k d \<noteq> []"
      using \<open>0 < k\<close> by (auto simp: ReadFull_def Let_def)
    with 3 \<open>0 < k\<close> "1.IH" [of "acc @ [mk_chunk k i (take k d)]"] show ?thesis
      by (subst chunk_loop.simps) (simp add: chunks_of_step)
  qed
qed

text \<open>A chunk size of zero, which \<open>ChunkFile\<close> excludes, makes the loop run for ever.\<close>

lemma chunk_loop_zero: "chunk_loop 0 r i acc = None"
proof -
  have "chunk_loop 0 r i acc = Some y \<Longrightarrow> False" for y
  proof -
    assume "chunk_loop 0 r i acc = Some y"
    then have "0 < (0::nat)"
      by (rule chunk_loop.raw_induct [where P = "\<lambda>k r i acc y. 0 < k", rotated])
         (auto simp: ReadFull_def Let_def split: option.splits if_splits)
    then show False by simp
  qed
  then show ?thesis by (cases "chunk_loop 0 r i acc") auto
qed

lemma ChunkReader_total:
  "0 < k \<Longrightarrow> ChunkReader \<lparr>rdData = d, rdErr = None\<rparr> k = Some (Inr (chunks_of (nat k) 0 d))"
  by (simp add: ChunkReader_def chunk_loop_reads_all)

subsection \<open>Properties of the chunks\<close>

lemma mk_chunk_sel [simp]:
  "chIndex (mk_chunk k i buf) = i" "chHash (mk_chunk k i buf) = Sum256 buf"
  "chSize (mk_chunk k i buf) = int (length buf)"
  "take (length buf) (chData (mk_chunk k i buf)) = buf"
  by (simp_all add: mk_chunk_def)

lemma length_chData_mk_chunk: "length buf \<le> k \<Longrightarrow> length (chData (mk_chunk k i buf)) = k"
  by (simp add: mk_chunk_def)

lemma chunks_of_data:
  "0 < k \<Longrightarrow> concat (map (\<lambda>c. take (nat (chSize c)) (chData c)) (chunks_of k i d)) = d"
proof (induction k i d rule: chunks_of.induct)
  case (1 k i d)
  then show ?case
    by (cases "d = []") (simp_all add: chunks_of_step del: length_take)
qed

lemma chunks_of_member:
  "c \<in> set (chunks_of k i d) \<Longrightarrow>
     \<exists>buf. c = mk_chunk k (chIndex c) buf \<and> buf \<noteq> [] \<and> length buf \<le> k"
proof (induction k i d rule: chunks_of.induct)
  case (1 k i d)
  show ?case
  proof (cases "k = 0 \<or> d = []")
    case True
    with "1.prems" show ?thesis by (simp add: chunks_of.simps [of k i d])
  next
    case False
    with "1.prems" consider "c = mk_chunk k i (take k d)" | "c \<in> set (chunks_of k (i + 1) (drop k d))"
      by (auto simp: chunks_of_step)
    then show ?thesis
    proof cases
      case 1
      with False show ?thesis by (intro exI [of _ "take k d"]) simp
    next
      case 2
      with False "1.IH" show ?thesis by blast
    qed
  qed
qed

lemma length_chunks_of: "0 < k \<Longrightarrow> length (chunks_of k i d) = (length d + k - 1) div k"
proof (induction k i d rule: chunks_of.induct)
  case (1 k i d)
  show ?case
  proof (cases "d = []")
    case True
    with "1.prems" show ?thesis by simp
  next
    case False
    then have ne: "\<not> (k = 0 \<or> d = [])" using "1.prems" by simp
    have "length d + k - 1 = (length d - 1) + k" using False by (cases d) auto
    moreover have "((length d - 1) + k) div k = Suc ((length d - 1) div k)"
      using "1.prems" by (simp only: div_add_self2)
    ultimately have now: "(length d + k - 1) div k = Suc ((length d - 1) div k)"
      by (simp only:)
    show ?thesis
    proof (cases "length d \<le> k")
      case True
      with False have "length d - 1 < k" by (cases d) auto
      then have "(length d - 1) div k = 0" by (rule div_less)
      moreover have "length (chunks_of k i d) = 1"
        using True "1.prems" False by (simp add: chunks_of_step)
      ultimately show ?thesis by (simp only: now)
    next
      case big: False
      then have "length d - k + k - 1 = length d - 1" by simp
      then have "length (chunks_of k (i + 1) (drop k d)) = (length d - 1) div k"
        using "1.IH" [OF ne] "1.prems" by (simp only: length_drop)
      moreover have "length (chunks_of k i d) = Suc (length (chunks_of k (i + 1) (drop k d)))"
        using "1.prems" False by (simp add: chunks_of_step [of k d i])
      ultimately show ?thesis by (simp only: now)
    qed
  qed
qed

lemma chunks_of_index: "j < length (chunks_of k i d) \<Longrightarrow> chIndex (chunks_of k i d ! j) = i + int j"
proof (induction k i d arbitrary: j rule: chunks_of.induct)
  case (1 k i d)
  then show ?case
    by (cases "k = 0 \<or> d = []"; cases j)
       (auto simp: chunks_of_step chunks_of.simps [of k i d])
qed

lemma VerifyChunk_mk_chunk: "buf \<noteq> [] \<Longrightarrow> VerifyChunk (mk_chunk k i buf) = Inr True"
  by (simp add: VerifyChunk_def mk_chunk_def Let_def)

lemma reassemble_chunks_of:
  "0 < k \<Longrightarrow> reassemble_from (\<lambda>_. None) n (chunks_of k i d) = (d, None)"
proof (induction k i d arbitrary: n rule: chunks_of.induct)
  case (1 k i d)
  show ?case
  proof (cases "d = []")
    case True
    then show ?thesis by simp
  next
    case False
    have rest: "reassemble_from (\<lambda>_. None) (Suc n) (chunks_of k (i + 1) (drop k d)) = (drop k d, None)"
      using "1.IH" "1.prems" False by simp
    show ?thesis
    proof (cases "length d \<le> k")
      case True
      with False "1.prems" show ?thesis by (simp add: chunks_of_step mk_chunk_def)
    next
      case big: False
      then have "drop k d \<noteq> []" by simp
      then have "chunks_of k (i + 1) (drop k d) \<noteq> []"
        using "1.prems" by (simp add: chunks_of_step)
      with rest False big "1.prems" show ?thesis
        by (simp add: chunks_of_step mk_chunk_def)
    qed
  qed
qed

end
