(* ===== verification/Codec.thy ===== *)
theory Codec
  imports External
begin

text \<open>
  \<open>internal/codec/reedsolomon.go\<close>: one chunk is split into data shards, parity is computed,
  and the chunk is merged back from any sufficient subset of the shards. The erasure code itself
  is the library's; an \<open>Encoder\<close> remembers the scheme it was built for.
\<close>

record Encoder =
  encScheme :: RSScheme

definition NewEncoder :: "libs \<Rightarrow> RSScheme \<Rightarrow> Encoder result" where
  "NewEncoder L scheme =
     (case rs_New L (DataShards scheme) (ParityShards scheme) of
        Some e \<Rightarrow> Inl (Wrap ''codec: create RS encoder'' e)
      | None \<Rightarrow> Inr \<lparr>encScheme = scheme\<rparr>)"

definition Scheme :: "Encoder \<Rightarrow> RSScheme" where
  "Scheme e = encScheme e"

text \<open>With no data shard at all, \<open>len(data[0])\<close> is an index out of range.\<close>

definition Encode :: "libs \<Rightarrow> Encoder \<Rightarrow> bytes list \<Rightarrow> bytes list result" where
  "Encode L e data =
     (let d = DataShards (encScheme e); p = ParityShards (encScheme e)
      in if int (length data) \<noteq> d then Inl (Errorf ''codec: Encode expects another number of data shards'')
         else case data of
                [] \<Rightarrow> Inl (Panic ''index out of range'')
              | first # _ \<Rightarrow>
                  wrap ''codec: RS encode''
                    (rs_Encode L d p (data @ replicate (nat p) (replicate (length first) 0))))"

definition Verify :: "libs \<Rightarrow> Encoder \<Rightarrow> bytes option list \<Rightarrow> bool result" where
  "Verify L e shards =
     wrap ''codec: RS verify''
       (rs_Verify L (DataShards (encScheme e)) (ParityShards (encScheme e)) shards)"

definition Reconstruct :: "libs \<Rightarrow> Encoder \<Rightarrow> bytes option list \<Rightarrow> bytes option list result" where
  "Reconstruct L e shards =
     wrap ''codec: RS reconstruct''
       (rs_Reconstruct L (DataShards (encScheme e)) (ParityShards (encScheme e)) shards)"

text \<open>
  \<open>len(chunk) % DataShards\<close> divides by zero, and \<open>make\<close> panics, unless there is a data shard.
\<close>

definition pad_chunk :: "nat \<Rightarrow> bytes \<Rightarrow> bytes" where
  "pad_chunk d chunk =
     (let rem = length chunk mod d in if rem \<noteq> 0 then chunk @ replicate (d - rem) 0 else chunk)"

definition SplitChunkToShards :: "libs \<Rightarrow> Encoder \<Rightarrow> bytes \<Rightarrow> bytes list result" where
  "SplitChunkToShards L e chunk =
     (if DataShards (encScheme e) \<le> 0 then Inl (Panic ''integer divide by zero'')
      else
        (let d = nat (DataShards (encScheme e));
             padded = pad_chunk d chunk;
             shardSize = length padded div d
         in Encode L e (map (\<lambda>i. take shardSize (drop (i * shardSize) padded)) [0..<d])))"

text \<open>Appending a nil slice appends nothing; the index \<open>i\<close> must be in range.\<close>

definition MergeShardToChunk :: "libs \<Rightarrow> Encoder \<Rightarrow> bytes option list \<Rightarrow> bytes result" where
  "MergeShardToChunk L e shards =
     (case Reconstruct L e shards of
        Inl err \<Rightarrow> Inl err
      | Inr full \<Rightarrow>
          (let d = nat (DataShards (encScheme e))
           in if length full < d then Inl (Panic ''index out of range'')
              else Inr (concat (map (\<lambda>s. case s of None \<Rightarrow> [] | Some b \<Rightarrow> b) (take d full)))))"

subsection \<open>Splitting and merging\<close>

lemma length_pad_chunk: "0 < d \<Longrightarrow> \<exists>k. length (pad_chunk d chunk) = d * k"
proof -
  assume "0 < d"
  then have r: "length chunk mod d < d" by simp
  show ?thesis
  proof (cases "length chunk mod d = 0")
    case True
    then have "d dvd length chunk" by (simp add: mod_eq_0_iff_dvd)
    then obtain k where "length chunk = d * k" by (rule dvdE)
    moreover have "pad_chunk d chunk = chunk" using True by (simp add: pad_chunk_def Let_def)
    ultimately show ?thesis by (metis)
  next
    case False
    then have "length (pad_chunk d chunk) = length chunk + (d - length chunk mod d)"
      by (simp add: pad_chunk_def Let_def)
    also have "\<dots> = d * Suc (length chunk div d)"
      using r mult_div_mod_eq [of d "length chunk"] unfolding mult_Suc_right by linarith
    finally show ?thesis by blast
  qed
qed

lemma pad_chunk_prefix: "\<exists>n. pad_chunk d chunk = chunk @ replicate n 0"
  by (auto simp: pad_chunk_def Let_def intro: exI [of _ 0])

lemma SplitChunkToShards_slices:
  assumes law: "rs_lawful L (DataShards s) (ParityShards s)" and ne: "chunk \<noteq> []"
  obtains xs par n where
    "SplitChunkToShards L \<lparr>encScheme = s\<rparr> chunk = Inr (xs @ par)"
    "length xs = nat (DataShards s)" "length par = nat (ParityShards s)"
    "0 < n" "uniform n (xs @ par)" "concat xs = pad_chunk (nat (DataShards s)) chunk"
    "\<And>shards. erased_from (xs @ par) shards \<Longrightarrow> nat (DataShards s) \<le> available shards \<Longrightarrow>
       rs_Reconstruct L (DataShards s) (ParityShards s) shards = Inr (map Some (xs @ par))"
proof -
  define d where "d = nat (DataShards s)"
  define padded where "padded = pad_chunk d chunk"
  have d0: "0 < d" using law by (simp add: rs_lawful_def d_def)
  obtain k where k: "length padded = d * k"
    using length_pad_chunk [OF d0] by (auto simp: padded_def)
  have size: "length padded div d = k" using d0 k by simp
  have k0: "0 < k"
  proof (rule ccontr)
    assume "\<not> 0 < k"
    then have "padded = []" using k by simp
    moreover obtain n where "padded = chunk @ replicate n 0"
      using pad_chunk_prefix [of d chunk] by (auto simp: padded_def)
    ultimately show False using ne by simp
  qed
  define xs where "xs = map (\<lambda>i. take k (drop (i * k) padded)) [0..<d]"
  have lx: "length xs = d" by (simp add: xs_def)
  have ux: "uniform k xs"
    unfolding uniform_def xs_def
  proof
    fix x assume "x \<in> set (map (\<lambda>i. take k (drop (i * k) padded)) [0..<d])"
    then obtain i where i: "i < d" and x: "x = take k (drop (i * k) padded)" by auto
    have "Suc i * k \<le> d * k" using i by (intro mult_le_mono1) simp
    then show "length x = k" using x k by simp
  qed
  have cx: "concat xs = padded"
    unfolding xs_def using k by (rule concat_slices)
  obtain a as where "xs = a # as" using lx d0 by (cases xs) auto
  with ux have hd: "length a = k" and xs: "xs = a # as" by (simp_all add: uniform_def)
  obtain par where enc: "rs_Encode L (DataShards s) (ParityShards s)
        (xs @ replicate (nat (ParityShards s)) (replicate k 0)) = Inr (xs @ par)"
    and lp: "length par = nat (ParityShards s)" and up: "uniform k par"
    and rec: "\<And>shards. erased_from (xs @ par) shards \<Longrightarrow> nat (DataShards s) \<le> available shards \<Longrightarrow>
       rs_Reconstruct L (DataShards s) (ParityShards s) shards = Inr (map Some (xs @ par))"
    using law k0 lx ux unfolding rs_lawful_def d_def by blast
  have "int (length xs) = DataShards s"
    using lx law by (simp add: d_def rs_lawful_def)
  then have "SplitChunkToShards L \<lparr>encScheme = s\<rparr> chunk = Inr (xs @ par)"
    using enc law hd xs
    by (simp add: SplitChunkToShards_def Let_def rs_lawful_def size xs_def [symmetric]
        flip: d_def padded_def) (simp add: Encode_def Let_def)
  moreover have "uniform k (xs @ par)" using ux up by (auto simp: uniform_def)
  ultimately show thesis
    using that [of xs par k] lx lp k0 cx rec by (simp add: d_def padded_def)
qed

lemma MergeShardToChunk_full:
  assumes "rs_Reconstruct L (DataShards s) (ParityShards s) shards = Inr (map Some (xs @ par))"
    and "length xs = nat (DataShards s)"
  shows "MergeShardToChunk L \<lparr>encScheme = s\<rparr> shards = Inr (concat xs)"
  using assms by (simp add: MergeShardToChunk_def Reconstruct_def Let_def comp_def)

end
