(* ===== verification/Compress.thy ===== *)
theory Compress
  imports External
begin

text \<open>
  \<open>internal/compress/compress.go\<close>: zstd frames behind a 4-byte little-endian length, so that
  the zero padding that Reed-Solomon encoding appends is cut off before decoding. The frame
  length is truncated to 32 bits when it is written and widened to \<open>int\<close> when it is read.

  The encoder and decoder are created once and their error, if any, is returned by every call;
  here the outcome of the creation is a field of the library record.
\<close>

definition Compress :: "libs \<Rightarrow> bytes \<Rightarrow> bytes result" where
  "Compress L src =
     (case zstd_NewWriter L of
        Some e \<Rightarrow> Inl (Wrap ''compress: init encoder'' e)
      | None \<Rightarrow>
          (let frame = zstd_EncodeAll L src
           in Inr (PutUint32_LE (word_of_nat (length frame)) @ frame)))"

definition Decompress :: "libs \<Rightarrow> bytes \<Rightarrow> bytes result" where
  "Decompress L src =
     (if length src < 4 then Inl (Errorf ''compress: decode: buffer too short'')
      else
        (let frameLen = unat (Uint32_LE (take 4 src))
         in if 4 + frameLen > length src then Inl (Errorf ''compress: decode: header claims more bytes than the buffer holds'')
            else case zstd_NewReader L of
                   Some e \<Rightarrow> Inl (Wrap ''compress: init decoder'' e)
                 | None \<Rightarrow> wrap ''compress: decode'' (zstd_DecodeAll L (take frameLen (drop 4 src)))))"

definition MaybeDecompress :: "libs \<Rightarrow> bytes \<Rightarrow> bool \<Rightarrow> bytes result" where
  "MaybeDecompress L src compressed = (if \<not> compressed then Inr src else Decompress L src)"

lemma Compress_length: "Compress L src = Inr out \<Longrightarrow> length out = 4 + length (zstd_EncodeAll L src)"
  by (auto simp: Compress_def Let_def split: option.splits)

lemma unat_frame_length: "n < 2 ^ 32 \<Longrightarrow> unat (word_of_nat n :: 32 word) = n"
  by (simp add: unat_of_nat take_bit_nat_eq_self)

lemma Decompress_padded:
  assumes "zstd_lawful L" and "Compress L src = Inr out" and "length (zstd_EncodeAll L src) < 2 ^ 32"
  shows "Decompress L (out @ pad) = Inr src"
proof -
  have out: "out = PutUint32_LE (word_of_nat (length (zstd_EncodeAll L src))) @ zstd_EncodeAll L src"
    using assms(1,2) by (simp add: Compress_def zstd_lawful_def Let_def)
  have hdr: "unat (Uint32_LE (take 4 (out @ pad))) = length (zstd_EncodeAll L src)"
    using assms(3) by (simp add: out unat_frame_length)
  have frame: "take (length (zstd_EncodeAll L src)) (drop 4 (out @ pad)) = zstd_EncodeAll L src"
    by (simp add: out)
  show ?thesis
    using assms(1) unfolding Decompress_def Let_def hdr frame zstd_lawful_def
    by (simp add: out)
qed

lemma Compress_total: "zstd_lawful L \<Longrightarrow> \<exists>out. Compress L src = Inr out \<and> 4 \<le> length out"
  by (auto simp: Compress_def zstd_lawful_def Let_def)

text \<open>A frame of \<open>2 ^ 32\<close> bytes or more is written with a truncated length.\<close>

lemma Compress_truncates:
  "zstd_NewWriter L = None \<Longrightarrow> length (zstd_EncodeAll L src) = 2 ^ 32 \<Longrightarrow>
     \<exists>out. Compress L src = Inr out \<and> Uint32_LE (take 4 out) = 0"
  by (simp add: Compress_def Let_def)

end
