(* ===== verification/Manifdist.thy ===== *)
theory Manifdist
  imports Handlers
begin

text \<open>
  \<open>internal/manifdist/manifdist.go\<close>: the encrypted manifest is pushed to the connected buddies after
  a backup and pulled back during recovery. The stream to a buddy, with the bytes the buddy will
  answer, is an argument.
\<close>

definition PushToBuddy :: "codecs \<Rightarrow> stream result \<Rightarrow> string \<Rightarrow> bytes \<Rightarrow> stream option \<times> error option" where
  "PushToBuddy J newStream ownerID d =
     (case newStream of
        Inl e \<Rightarrow> (None, Some (Wrap ''manifdist: open stream'' e))
      | Inr st \<Rightarrow>
          (case WriteMsg (jManifestPush J) st \<lparr>mpType = TypeManifestPush, mpOwnerID = ownerID, mpData = d\<rparr> of
             (st1, Some e) \<Rightarrow> (Some st1, Some (Wrap ''manifdist: write push'' e))
           | (st1, None) \<Rightarrow>
               (case stream_ReadMsg (jManifestAck J) st1 of
                  (st2, Inl e) \<Rightarrow> (Some st2, Some (Wrap ''manifdist: read ack'' e))
                | (st2, Inr ack) \<Rightarrow>
                    (Some st2, if \<not> maOK ack then Some (Errorf ''manifdist: buddy rejected manifest'') else None))))"

text \<open>\<open>PushToAll\<close>: \<open>streams\<close> gives the stream to each connected peer; the number of accepted pushes.\<close>

definition PushToAll :: "codecs \<Rightarrow> (string \<times> stream result) list \<Rightarrow> string \<Rightarrow> bytes \<Rightarrow> nat" where
  "PushToAll J streams ownerID d =
     foldl (\<lambda>ok ps. if snd (PushToBuddy J (snd ps) ownerID d) = None then ok + 1 else ok) 0 streams"

definition PullFromBuddy :: "codecs \<Rightarrow> stream result \<Rightarrow> string \<Rightarrow> stream option \<times> bytes result" where
  "PullFromBuddy J newStream ownerID =
     (case newStream of
        Inl e \<Rightarrow> (None, Inl (Wrap ''manifdist: open stream'' e))
      | Inr st \<Rightarrow>
          (case WriteMsg (jManifestRequest J) st \<lparr>mqType = TypeManifestRequest, mqOwnerID = ownerID\<rparr> of
             (st1, Some e) \<Rightarrow> (Some st1, Inl (Wrap ''manifdist: write request'' e))
           | (st1, None) \<Rightarrow>
               (case stream_ReadMsg (jManifestResponse J) st1 of
                  (st2, Inl e) \<Rightarrow> (Some st2, Inl (Wrap ''manifdist: read response'' e))
                | (st2, Inr resp) \<Rightarrow>
                    (Some st2, if \<not> mrFound resp then Inl (Errorf ''manifdist: buddy has no manifest'') else Inr (mrData resp)))))"

lemma PushToAll_counts:
  "PushToAll J streams o' d = length (filter (\<lambda>ps. snd (PushToBuddy J (snd ps) o' d) = None) streams)"
proof -
  have "foldl (\<lambda>ok ps. if snd (PushToBuddy J (snd ps) o' d) = None then ok + 1 else ok) k streams
      = k + length (filter (\<lambda>ps. snd (PushToBuddy J (snd ps) o' d) = None) streams)" for k
    by (induction streams arbitrary: k) auto
  then show ?thesis by (simp add: PushToAll_def)
qed

subsection \<open>One exchange\<close>

text \<open>The type field that the handler reads first is the one the sender wrote.\<close>

definition typed :: "codecs \<Rightarrow> 'a codec \<Rightarrow> 'a \<Rightarrow> string \<Rightarrow> bool" where
  "typed J c m t = (case Marshal c m of Inl _ \<Rightarrow> False | Inr p \<Rightarrow> Unmarshal (jEnvelope J) p = Inr t)"

lemma raw_on_net:
  assumes "wire_sendable c m" and "typed J c m t"
  obtains f p where "\<And>b. WriteMsg c (net b) m = (\<lparr>sin = b, sout = f, swfails = False\<rparr>, None)"
    and "ReadRawMsg f = ([], Inr p)" and "Unmarshal c p = Inr m" and "Unmarshal (jEnvelope J) p = Inr t"
proof -
  obtain p where p: "Marshal c m = Inr p" "p \<noteq> []" "length p \<le> maxMsgSize" "Unmarshal c p = Inr m"
    using assms(1) by (auto simp: wire_sendable_def inverts_def split: sum.splits)
  have "WriteMsg c (net b) m = (\<lparr>sin = b, sout = frame p, swfails = False\<rparr>, None)" for b
    using WriteMsg_frame [OF p(1,3), of "net b"] by (simp add: net_def)
  moreover have "ReadRawMsg (frame p) = ([], Inr p)"
    using ReadRawMsg_frame [OF p(2,3), of "[]"] by simp
  ultimately show ?thesis using that p assms(2) by (simp add: typed_def)
qed

lemma GetManifest_after_Put:
  assumes "PutManifest_Buddy s bs owner d = (s', None)" and "fault_free s"
  shows "GetManifest_Buddy s' bs owner = Inr d"
proof -
  have safe: "isSafePathComponent owner"
    using assms(1) by (auto simp: PutManifest_Buddy_def split: if_splits)
  have dir: "Join (bsRoot bs) [''remote'', owner] = owner_dir bs owner"
    using safe_plain [OF safe] by (simp add: Join_plain)
  have p: "Join (owner_dir bs owner) [''manifest.enc''] = owner_dir bs owner @ [''manifest.enc'']"
    "Join (bsRoot bs) [''remote'', owner, ''manifest.enc''] = owner_dir bs owner @ [''manifest.enc'']"
    using safe_plain [OF safe] by (simp_all add: Join_plain)
  obtain s1 where m: "MkdirAll s (owner_dir bs owner) = (s1, None)"
    and w: "WriteFile s1 (owner_dir bs owner @ [''manifest.enc'']) d = (s', None)"
    using assms(1) safe p(1) by (auto simp: PutManifest_Buddy_def Let_def dir split: prod.splits option.splits)
  have "ReadFile s' (owner_dir bs owner @ [''manifest.enc'']) = Inr d"
    using ReadFile_WriteFile_same [OF w] MkdirAll_frame [OF m] assms(2) by (simp add: fault_free_def)
  then show ?thesis using safe by (simp add: GetManifest_Buddy_def p(2))
qed

subsection \<open>Properties\<close>

text \<open>C40. The manifest survives with a buddy: the bytes that \<open>PushToBuddy\<close> writes make the handler of an
  authenticating buddy store the blob and acknowledge it, and a later \<open>PullFromBuddy\<close> by the
  owner returns exactly that blob.\<close>

theorem manifest_push_then_pull:
  assumes "snd (checkBuddyAuth P (jRegistry J) (nFS n) (nReg n) owner)"
    and "wire_sendable (jManifestPush J) \<lparr>mpType = TypeManifestPush, mpOwnerID = owner, mpData = d\<rparr>"
    and "typed J (jManifestPush J) \<lparr>mpType = TypeManifestPush, mpOwnerID = owner, mpData = d\<rparr> TypeManifestPush"
    and "wire_sendable (jManifestAck J) (manifest_ack True [])"
    and "wire_sendable (jManifestRequest J) \<lparr>mqType = TypeManifestRequest, mqOwnerID = owner\<rparr>"
    and "typed J (jManifestRequest J) \<lparr>mqType = TypeManifestRequest, mqOwnerID = owner\<rparr> TypeManifestRequest"
    and "wire_sendable (jManifestResponse J) (manifest_resp owner True d)"
    and "PutManifest_Buddy (nFS n) (nBS n) owner d = (s', None)" and "fault_free (nFS n)"
    and "snd (checkBuddyAuth P (jRegistry J) s' (fst (checkBuddyAuth P (jRegistry J) (nFS n) (nReg n) owner)) owner)"
  shows "\<exists>push ack n1 req ans n2.
       handleManifest P J n owner (net push) = (n1, \<lparr>sin = [], sout = ack, swfails = False\<rparr>)
     \<and> PushToBuddy J (Inr (net ack)) owner d = (Some \<lparr>sin = [], sout = push, swfails = False\<rparr>, None)
     \<and> handleManifest P J n1 owner (net req) = (n2, \<lparr>sin = [], sout = ans, swfails = False\<rparr>)
     \<and> PullFromBuddy J (Inr (net ans)) owner = (Some \<lparr>sin = [], sout = req, swfails = False\<rparr>, Inr d)"
proof -
  let ?push = "\<lparr>mpType = TypeManifestPush, mpOwnerID = owner, mpData = d\<rparr>"
  let ?req = "\<lparr>mqType = TypeManifestRequest, mqOwnerID = owner\<rparr>"
  have ne: "TypeManifestRequest \<noteq> TypeManifestPush" by (simp add: TypeManifestRequest_def TypeManifestPush_def)
  obtain push pp where pu: "\<And>b. WriteMsg (jManifestPush J) (net b) ?push = (\<lparr>sin = b, sout = push, swfails = False\<rparr>, None)"
    "ReadRawMsg push = ([], Inr pp)" "Unmarshal (jManifestPush J) pp = Inr ?push" "Unmarshal (jEnvelope J) pp = Inr TypeManifestPush"
    by (rule raw_on_net [OF assms(2,3)]) blast
  obtain ack where ak: "\<And>b. WriteMsg (jManifestAck J) (net b) (manifest_ack True []) = (\<lparr>sin = b, sout = ack, swfails = False\<rparr>, None)"
    "ReadMsg (jManifestAck J) ack = ([], Inr (manifest_ack True []))"
    by (rule send_on_net [OF assms(4)]) blast
  obtain req qq where rq: "\<And>b. WriteMsg (jManifestRequest J) (net b) ?req = (\<lparr>sin = b, sout = req, swfails = False\<rparr>, None)"
    "ReadRawMsg req = ([], Inr qq)" "Unmarshal (jManifestRequest J) qq = Inr ?req" "Unmarshal (jEnvelope J) qq = Inr TypeManifestRequest"
    by (rule raw_on_net [OF assms(5,6)]) blast
  obtain ans where an: "\<And>b. WriteMsg (jManifestResponse J) (net b) (manifest_resp owner True d) = (\<lparr>sin = b, sout = ans, swfails = False\<rparr>, None)"
    "ReadMsg (jManifestResponse J) ans = ([], Inr (manifest_resp owner True d))"
    by (rule send_on_net [OF assms(7)]) blast
  obtain reg where a: "checkBuddyAuth P (jRegistry J) (nFS n) (nReg n) owner = (reg, True)"
    using assms(1) by (metis prod.collapse)
  then obtain reg2 where a2: "checkBuddyAuth P (jRegistry J) s' reg owner = (reg2, True)"
    using assms(10) by (metis fst_conv prod.collapse)
  let ?n1 = "n\<lparr>nReg := reg, nFS := s'\<rparr>"
  have "handleManifest P J n owner (net push) = (?n1, \<lparr>sin = [], sout = ack, swfails = False\<rparr>)"
    using ak(1) [of "[]"] pu(2-4) assms(8) by (simp add: handleManifest_def a net_def Let_def)
  moreover have "PushToBuddy J (Inr (net ack)) owner d = (Some \<lparr>sin = [], sout = push, swfails = False\<rparr>, None)"
    using pu(1) ak(2) by (simp add: PushToBuddy_def stream_ReadMsg_def manifest_ack_def)
  moreover have "GetManifest_Buddy s' (nBS n) owner = Inr d"
    by (rule GetManifest_after_Put [OF assms(8,9)])
  then have "handleManifest P J ?n1 owner (net req) = (?n1\<lparr>nReg := reg2\<rparr>, \<lparr>sin = [], sout = ans, swfails = False\<rparr>)"
    using an(1) [of "[]"] rq(2-4) ne by (simp add: handleManifest_def a2 net_def Let_def)
  moreover have "PullFromBuddy J (Inr (net ans)) owner = (Some \<lparr>sin = [], sout = req, swfails = False\<rparr>, Inr d)"
    using rq(1) an(2) by (simp add: PullFromBuddy_def stream_ReadMsg_def manifest_resp_def)
  ultimately show ?thesis by blast
qed

subsection \<open>A concrete exchange\<close>

definition mpush_fmt :: "ManifestPush wirefmt" where
  "mpush_fmt = fmt_iso (\<lambda>m. (mpType m, mpOwnerID m, mpData m)) (\<lambda>(t, w, d). \<lparr>mpType = t, mpOwnerID = w, mpData = d\<rparr>)
     (fmt_pair fmt_string (fmt_pair fmt_string fmt_bytes))"

definition mack_fmt :: "ManifestAck wirefmt" where
  "mack_fmt = fmt_iso (\<lambda>m. (maType m, maOK m, maError m)) (\<lambda>(t, k, e). \<lparr>maType = t, maOK = k, maError = e\<rparr>)
     (fmt_pair fmt_string (fmt_pair fmt_bool fmt_string))"

definition mreq_fmt :: "ManifestRequest wirefmt" where
  "mreq_fmt = fmt_iso (\<lambda>m. (mqType m, mqOwnerID m)) (\<lambda>(t, w). \<lparr>mqType = t, mqOwnerID = w\<rparr>)
     (fmt_pair fmt_string fmt_string)"

definition mresp_fmt :: "ManifestResponse wirefmt" where
  "mresp_fmt = fmt_iso (\<lambda>m. (mrType m, mrOwnerID m, mrFound m, mrData m))
     (\<lambda>(t, w, k, d). \<lparr>mrType = t, mrOwnerID = w, mrFound = k, mrData = d\<rparr>)
     (fmt_pair fmt_string (fmt_pair fmt_string (fmt_pair fmt_bool fmt_bytes)))"

lemma manifest_fmts_ok: "fmt_ok mpush_fmt" "fmt_ok mack_fmt" "fmt_ok mreq_fmt" "fmt_ok mresp_fmt"
  unfolding mpush_fmt_def mack_fmt_def mreq_fmt_def mresp_fmt_def
  by (rule fmt_iso_ok; simp add: fmt_intros)+

definition envelope_codec :: "string codec" where
  "envelope_codec = (\<lambda>t. Inr (fst fmt_string t),
     \<lambda>b. case snd fmt_string b of None \<Rightarrow> Inl ErrIO | Some (t, _) \<Rightarrow> Inr t)"

lemmas mfmt_defs = mpush_fmt_def mack_fmt_def mreq_fmt_def mresp_fmt_def TypeManifestPush_def TypeManifestAck_def
  TypeManifestRequest_def TypeManifestResponse_def manifest_ack_def manifest_resp_def

definition demo_mcodecs :: codecs where
  "demo_mcodecs = demo_codecs\<lparr>jManifestPush := codec_of mpush_fmt, jManifestAck := codec_of mack_fmt,
     jManifestRequest := codec_of mreq_fmt, jManifestResponse := codec_of mresp_fmt, jEnvelope := envelope_codec\<rparr>"

lemma envelope_first: "fmt_ok g \<Longrightarrow> (case snd fmt_string (fst (fmt_pair fmt_string g) (t, x)) of None \<Rightarrow> Inl ErrIO | Some (t, _) \<Rightarrow> Inr t) = Inr t"
  using fmt_string_ok by (simp add: fmt_ok_def fmt_pair_def)

lemma demo_manifest_sendable:
  "wire_sendable (codec_of mpush_fmt) \<lparr>mpType = TypeManifestPush, mpOwnerID = ''alice'', mpData = [5]\<rparr>"
  "wire_sendable (codec_of mack_fmt) (manifest_ack True [])"
  "wire_sendable (codec_of mreq_fmt) \<lparr>mqType = TypeManifestRequest, mqOwnerID = ''alice''\<rparr>"
  "wire_sendable (codec_of mresp_fmt) (manifest_resp ''alice'' True [5])"
  by - (rule sendable_codec_of, (simp add: manifest_fmts_ok), (simp add: fmt_defs mfmt_defs), (simp add: fmt_defs mfmt_defs))+

lemma demo_typed:
  "typed demo_mcodecs (codec_of mpush_fmt) \<lparr>mpType = TypeManifestPush, mpOwnerID = ''alice'', mpData = [5]\<rparr> TypeManifestPush"
  "typed demo_mcodecs (codec_of mreq_fmt) \<lparr>mqType = TypeManifestRequest, mqOwnerID = ''alice''\<rparr> TypeManifestRequest"
  by (simp_all add: typed_def demo_mcodecs_def envelope_codec_def codec_of_def mpush_fmt_def mreq_fmt_def fmt_iso_def
      envelope_first fmt_intros)

theorem manifest_push_then_pull_witness:
  "\<exists>push ack n1 req ans n2.
       handleManifest demo_p2p demo_mcodecs (demo_node empty_fs) ''alice'' (net push) = (n1, \<lparr>sin = [], sout = ack, swfails = False\<rparr>)
     \<and> PushToBuddy demo_mcodecs (Inr (net ack)) ''alice'' [5] = (Some \<lparr>sin = [], sout = push, swfails = False\<rparr>, None)
     \<and> handleManifest demo_p2p demo_mcodecs n1 ''alice'' (net req) = (n2, \<lparr>sin = [], sout = ans, swfails = False\<rparr>)
     \<and> PullFromBuddy demo_mcodecs (Inr (net ans)) ''alice'' = (Some \<lparr>sin = [], sout = req, swfails = False\<rparr>, Inr [5])"
proof -
  have J: "jRegistry demo_mcodecs = jRegistry demo_codecs" by (simp add: demo_mcodecs_def)
  define s' where "s' = empty_fs\<lparr>dirs := [[''b''], [''b'', ''remote''], [''b'', ''remote'', ''alice'']],
     files := [([''b'', ''remote'', ''alice'', ''manifest.enc''], [5])]\<rparr>"
  have mk: "MkdirAll empty_fs [''b'', ''remote'', ''alice''] =
      (empty_fs\<lparr>dirs := [[''b''], [''b'', ''remote''], [''b'', ''remote'', ''alice'']]\<rparr>, None)"
    by (simp add: MkdirAll_def empty_fs_def prefixes_def is_file_def is_dir_def upt_rec)
  have wr: "WriteFile (empty_fs\<lparr>dirs := [[''b''], [''b'', ''remote''], [''b'', ''remote'', ''alice'']]\<rparr>)
      [''b'', ''remote'', ''alice'', ''manifest.enc''] [5] = (s', None)"
    by (simp add: WriteFile_def empty_fs_def is_dir_def set_file_def s'_def)
  have jn: "Join [''b''] [''remote'', ''alice''] = [''b'', ''remote'', ''alice'']"
    "Join [''b'', ''remote'', ''alice''] [''manifest.enc''] = [''b'', ''remote'', ''alice'', ''manifest.enc'']"
    by (simp_all add: Join_def path_step_def)
  have s': "PutManifest_Buddy (nFS (demo_node empty_fs)) (nBS (demo_node empty_fs)) ''alice'' [5] = (s', None)"
    "ReadFile s' [''home'', ''buddies.enc''] = Inl ErrNotExist"
    using mk wr jn by (simp_all add: demo_node_def PutManifest_Buddy_def isSafePathComponent_def)
      (simp add: s'_def ReadFile_def empty_fs_def is_dir_def)
  have auth: "checkBuddyAuth demo_p2p (jRegistry demo_mcodecs) (nFS (demo_node empty_fs)) (nReg (demo_node empty_fs)) ''alice''
      = (nReg (demo_node empty_fs), True)"
    using demo_auth(1) [of empty_fs empty_fs] unfolding J by (simp add: demo_no_registry demo_node_def)
  show ?thesis
  proof (rule manifest_push_then_pull [OF _ _ _ _ _ _ _ s'(1)])
    show "snd (checkBuddyAuth demo_p2p (jRegistry demo_mcodecs) (nFS (demo_node empty_fs)) (nReg (demo_node empty_fs)) ''alice'')"
      using auth by simp
    show "snd (checkBuddyAuth demo_p2p (jRegistry demo_mcodecs) s'
       (fst (checkBuddyAuth demo_p2p (jRegistry demo_mcodecs) (nFS (demo_node empty_fs)) (nReg (demo_node empty_fs)) ''alice'')) ''alice'')"
      using auth demo_auth(1) [OF s'(2), of empty_fs] unfolding J by simp
  qed (use demo_manifest_sendable demo_typed in \<open>simp_all add: demo_mcodecs_def demo_node_def empty_fs_def fault_free_def\<close>)
qed

end
