(* ===== verification/Exclude.thy ===== *)
theory Exclude
  imports Go_FS
begin

text \<open>
  \<open>internal/exclude/exclude.go\<close>: glob patterns that exclude files from a backup, and the part of
  Go's \<open>filepath.Match\<close> that they use. A pattern is parsed into tokens first, since \<open>Match\<close>
  reports a malformed pattern whatever the name is; characters are bytes.
\<close>

subsection \<open>Patterns\<close>

datatype glob = Lit char | AnyChar | AnySeq | Class bool "(char \<times> char) list"

text \<open>One character of a range, with its escape; a bare dash or closing bracket is malformed.\<close>

fun get_esc :: "string \<Rightarrow> (char \<times> string) option" where
  "get_esc [] = None"
| "get_esc (c # cs) =
     (if c = CHR ''-'' \<or> c = CHR '']'' then None
      else if c = CHR 0x5C then (case cs of [] \<Rightarrow> None | [d] \<Rightarrow> None | d # ds \<Rightarrow> Some (d, ds))
      else if cs = [] then None else Some (c, cs))"

text \<open>The ranges up to the closing bracket; at least one is needed before it.\<close>

fun parse_class :: "nat \<Rightarrow> (char \<times> char) list \<Rightarrow> string \<Rightarrow> ((char \<times> char) list \<times> string) option" where
  "parse_class 0 acc s = None"
| "parse_class (Suc fuel) acc s =
     (if acc \<noteq> [] \<and> s \<noteq> [] \<and> hd s = CHR '']'' then Some (acc, tl s)
      else case get_esc s of
             None \<Rightarrow> None
           | Some (lo, r) \<Rightarrow>
               if hd r = CHR ''-'' then
                 (case get_esc (tl r) of
                    None \<Rightarrow> None
                  | Some (hi, r') \<Rightarrow> parse_class fuel (acc @ [(lo, hi)]) r')
               else parse_class fuel (acc @ [(lo, lo)]) r)"

fun parse_glob :: "nat \<Rightarrow> string \<Rightarrow> glob list option" where
  "parse_glob 0 s = None"
| "parse_glob (Suc fuel) [] = Some []"
| "parse_glob (Suc fuel) (c # cs) =
     (if c = CHR ''*'' then map_option ((#) AnySeq) (parse_glob fuel cs)
      else if c = CHR ''?'' then map_option ((#) AnyChar) (parse_glob fuel cs)
      else if c = CHR ''['' then
        (let neg = (cs \<noteq> [] \<and> hd cs = CHR ''^''); body = (if neg then tl cs else cs) in
         case parse_class (Suc (length body)) [] body of
           None \<Rightarrow> None
         | Some (rs, r) \<Rightarrow> map_option ((#) (Class neg rs)) (parse_glob fuel r))
      else if c = CHR 0x5C then
        (case cs of [] \<Rightarrow> None | d # ds \<Rightarrow> map_option ((#) (Lit d)) (parse_glob fuel ds))
      else map_option ((#) (Lit c)) (parse_glob fuel cs))"

definition in_ranges :: "(char \<times> char) list \<Rightarrow> char \<Rightarrow> bool" where
  "in_ranges rs c \<longleftrightarrow> (\<exists>(lo, hi) \<in> set rs. (of_char lo :: nat) \<le> of_char c \<and> (of_char c :: nat) \<le> of_char hi)"

text \<open>A star and a question mark do not match a slash.\<close>

fun glob_match :: "glob list \<Rightarrow> string \<Rightarrow> bool" where
  "glob_match [] s = (s = [])"
| "glob_match (AnySeq # ts) [] = glob_match ts []"
| "glob_match (AnySeq # ts) (c # cs) = (glob_match ts (c # cs) \<or> c \<noteq> CHR ''/'' \<and> glob_match (AnySeq # ts) cs)"
| "glob_match (Lit d # ts) [] = False"
| "glob_match (Lit d # ts) (c # cs) = (c = d \<and> glob_match ts cs)"
| "glob_match (AnyChar # ts) [] = False"
| "glob_match (AnyChar # ts) (c # cs) = (c \<noteq> CHR ''/'' \<and> glob_match ts cs)"
| "glob_match (Class neg rs # ts) [] = False"
| "glob_match (Class neg rs # ts) (c # cs) = (in_ranges rs c \<noteq> neg \<and> glob_match ts cs)"

definition filepath_Match :: "string \<Rightarrow> string \<Rightarrow> bool result" where
  "filepath_Match pattern name =
     (case parse_glob (Suc (length pattern)) pattern of
        None \<Rightarrow> Inl (Errorf ''syntax error in pattern'')
      | Some ts \<Rightarrow> Inr (glob_match ts name))"

subsection \<open>The filter\<close>

record Filter =
  flPatterns :: "string list"

definition is_space :: "char \<Rightarrow> bool" where
  "is_space c \<longleftrightarrow> c \<in> {CHR '' '', CHR 0x09, CHR 0x0A, CHR 0x0B, CHR 0x0C, CHR 0x0D}"

definition TrimSpace :: "string \<Rightarrow> string" where
  "TrimSpace s = rev (dropWhile is_space (rev (dropWhile is_space s)))"

fun New_loop :: "string list \<Rightarrow> string list \<Rightarrow> string list result" where
  "New_loop clean [] = Inr clean"
| "New_loop clean (p # ps) =
     (let p' = TrimSpace p in
      if p' = [] then New_loop clean ps
      else case filepath_Match p' ''probe'' of
             Inl e \<Rightarrow> Inl e
           | Inr _ \<Rightarrow> New_loop (clean @ [p']) ps)"

definition New_Filter :: "string list \<Rightarrow> Filter result" where
  "New_Filter patterns =
     (case New_loop [] patterns of Inl e \<Rightarrow> Inl e | Inr clean \<Rightarrow> Inr \<lparr>flPatterns = clean\<rparr>)"

definition Parse_Filter :: "string \<Rightarrow> Filter result" where
  "Parse_Filter csv =
     (if csv = [] then Inr \<lparr>flPatterns = []\<rparr> else New_Filter (split_at (CHR '','') csv))"

text \<open>The string of an absolute cleaned path.\<close>

definition path_string :: "path \<Rightarrow> string" where
  "path_string p = (if p = [] then ''/'' else concat (map (\<lambda>c. CHR ''/'' # c) p))"

definition matches :: "string \<Rightarrow> string \<Rightarrow> bool" where
  "matches pat name = (case filepath_Match pat name of Inl _ \<Rightarrow> False | Inr b \<Rightarrow> b)"

definition Match_Filter :: "Filter \<Rightarrow> path \<Rightarrow> bool" where
  "Match_Filter f p =
     (if flPatterns f = [] then False
      else
        let clean = path_string p; base = (if p = [] then ''/'' else last p) in
        \<exists>pat \<in> set (flPatterns f).
          matches pat base \<or> matches pat clean \<or> (\<exists>c \<in> set (split_at (CHR ''/'') clean). matches pat c))"

definition Empty_Filter :: "Filter \<Rightarrow> bool" where
  "Empty_Filter f \<longleftrightarrow> flPatterns f = []"

subsection \<open>Lemmas\<close>

definition plain_glob :: "string \<Rightarrow> bool" where
  "plain_glob s \<longleftrightarrow> (\<forall>c \<in> set s. c \<noteq> CHR ''*'' \<and> c \<noteq> CHR ''?'' \<and> c \<noteq> CHR ''['' \<and> c \<noteq> CHR 0x5C)"

lemma parse_plain: "plain_glob s \<Longrightarrow> length s < n \<Longrightarrow> parse_glob n s = Some (map Lit s)"
proof (induction s arbitrary: n)
  case Nil
  then show ?case by (cases n) auto
next
  case (Cons c s)
  then obtain m where "n = Suc m" by (cases n) auto
  with Cons show ?case by (simp add: plain_glob_def)
qed

lemma glob_match_lits: "glob_match (map Lit s) t \<longleftrightarrow> t = s"
proof (induction s arbitrary: t)
  case Nil
  then show ?case by simp
next
  case (Cons c s)
  then show ?case by (cases t) auto
qed

lemma matches_plain: "plain_glob s \<Longrightarrow> matches s t \<longleftrightarrow> t = s"
  by (simp add: matches_def filepath_Match_def parse_plain glob_match_lits)

lemma split_path_string:
  "(\<And>c. c \<in> set p \<Longrightarrow> CHR ''/'' \<notin> set c) \<Longrightarrow> p \<noteq> [] \<Longrightarrow> split_at (CHR ''/'') (path_string p) = [] # p"
proof (induction p)
  case Nil
  then show ?case by simp
next
  case (Cons c p)
  show ?case
  proof (cases "p = []")
    case True
    with Cons.prems show ?thesis by (simp add: path_string_def split_at_no_sep)
  next
    case False
    obtain rest where r: "path_string p = CHR ''/'' # rest"
      using False by (cases p) (auto simp: path_string_def)
    have ih: "split_at (CHR ''/'') (path_string p) = [] # p" using Cons False by auto
    have "path_string (c # p) = CHR ''/'' # c @ path_string p"
      using False by (simp add: path_string_def)
    moreover have "split_at (CHR ''/'') (c @ path_string p) = c # p"
      using split_at_append [of "CHR ''/''" c rest] Cons.prems(1) [of c] ih r by simp
    ultimately show ?thesis by simp
  qed
qed

subsection \<open>Properties\<close>

text \<open>A pattern without wildcards excludes by name at any depth: a file is excluded exactly when
  one of its path components is the pattern, or the pattern is the whole path.\<close>

theorem plain_pattern_excludes_by_component:
  assumes "plain_glob pat" and "p \<noteq> []" and "pat \<noteq> []" and "\<forall>c \<in> set p. CHR ''/'' \<notin> set c"
  shows "Match_Filter \<lparr>flPatterns = [pat]\<rparr> p \<longleftrightarrow> pat \<in> set p \<or> pat = path_string p"
  using assms by (auto simp: Match_Filter_def Let_def matches_plain split_path_string)

theorem plain_pattern_excludes_by_component_witness:
  "Match_Filter \<lparr>flPatterns = [''.git'']\<rparr> [''home'', ''.git'', ''config'']"
  using plain_pattern_excludes_by_component [of "''.git''" "[''home'', ''.git'', ''config'']"]
  by (simp add: plain_glob_def)

end
