(* ===== verification/Api_Shared.thy ===== *)
theory Api_Shared
  imports Manifest Storage Identity Handlers Queue Tray Chunker Codec Compress Manifdist Exclude
begin

text \<open>
  \<open>internal/api/shared.go\<close>, with the default paths of the packages it opens, and the environment of
  the operations of \<open>internal/api\<close>: the third-party libraries, the JSON codecs, the process
  environment and what the network answers.
\<close>

subsection \<open>The environment\<close>

text \<open>An environment variable that is unset or empty is \<open>None\<close>.\<close>

record osenv =
  oeConfigDirVar :: "path option"
  oeAppData :: "path option"
  oeHome :: path
  oeUserConfigDir :: "path result"

text \<open>
  The network of one call: the host made from a private key has a peer id; a peer id decodes or
  not, a multiaddress parses or not, a connection succeeds or not, and each stream carries the
  bytes that the peer will answer. \<open>nwConnected\<close> are the peers connected already,
  \<open>nwAddrInfo\<close> splits a \<open>/p2p/\<close> address, \<open>nwHostAddrs\<close> are the addresses of the host itself, and
  \<open>nwPeerAddrs\<close> is what the peerstore holds for a peer.
\<close>

record network =
  nwNewHost :: "bytes \<Rightarrow> string result"
  nwDecode :: "string \<Rightarrow> bool"
  nwMultiaddr :: "string \<Rightarrow> bool"
  nwConnect :: "string \<Rightarrow> string list \<Rightarrow> bool"
  nwPushStream :: "string \<Rightarrow> string \<Rightarrow> int \<Rightarrow> stream result"
  nwPullStream :: "string \<Rightarrow> string \<Rightarrow> int \<Rightarrow> stream result"
  nwPeers :: "(string \<times> stream result) list"
  nwConnected :: "string \<Rightarrow> bool"
  nwAddrInfo :: "string \<Rightarrow> (string \<times> string list) result"
  nwHostAddrs :: "string list"
  nwPubKey :: "bytes \<Rightarrow> bytes result"
  nwPeerAddrs :: "string \<Rightarrow> string list"
  nwInviteStream :: "string \<Rightarrow> stream result"
  nwManifestStream :: "string \<Rightarrow> stream result"

record env =
  eL :: libs
  eI :: idlib
  eJ :: codecs
  eKsJ :: "keystoreJSON codec"
  eMfJ :: "data codec"
  eMetaJ :: "ShardMeta list codec"
  eQueueJ :: "queueData codec"
  eStatusJ :: "Status codec"
  eOS :: osenv
  eNet :: network

subsection \<open>Default paths\<close>

definition DefaultKeystorePath :: "osenv \<Rightarrow> path" where
  "DefaultKeystorePath o' =
     (case oeConfigDirVar o' of
        Some d \<Rightarrow> Join d [''keystore.enc'']
      | None \<Rightarrow>
          (case oeAppData o' of
             Some a \<Rightarrow> Join a [''CerclBackup'', ''keystore.enc'']
           | None \<Rightarrow> Join (oeHome o') [''.config'', ''cerclbackup'', ''keystore.enc'']))"

definition DefaultManifestPath :: "osenv \<Rightarrow> path" where
  "DefaultManifestPath o' =
     (case oeConfigDirVar o' of
        Some d \<Rightarrow> Join d [''manifest.enc'']
      | None \<Rightarrow>
          (case oeAppData o' of
             Some a \<Rightarrow> Join a [''CerclBackup'', ''manifest.enc'']
           | None \<Rightarrow> Join (oeHome o') [''.config'', ''cerclbackup'', ''manifest.enc'']))"

definition DefaultStorePath :: "osenv \<Rightarrow> path" where
  "DefaultStorePath o' =
     (case oeConfigDirVar o' of
        Some d \<Rightarrow> Join d [''store'']
      | None \<Rightarrow>
          (case oeAppData o' of
             Some a \<Rightarrow> Join a [''CerclBackup'', ''store'']
           | None \<Rightarrow> Join (oeHome o') [''.config'', ''cerclbackup'', ''store'']))"

definition ConfigDir :: "osenv \<Rightarrow> path result" where
  "ConfigDir o' =
     (case oeConfigDirVar o' of
        Some d \<Rightarrow> Inr d
      | None \<Rightarrow> rbind (oeUserConfigDir o') (\<lambda>base. Inr (Join base [''cerclbackup''])))"

subsection \<open>Opening the state\<close>

text \<open>An empty directory argument selects the default store.\<close>

definition OpenStore :: "env \<Rightarrow> fs \<Rightarrow> path option \<Rightarrow> fs \<times> Store result" where
  "OpenStore E s dir = New s (case dir of None \<Rightarrow> DefaultStorePath (eOS E) | Some d \<Rightarrow> d)"

definition OpenOrCreateKeystore :: "env \<Rightarrow> entropy \<Rightarrow> entropy \<Rightarrow> fs \<Rightarrow> string \<Rightarrow> fs \<times> Keystore result" where
  "OpenOrCreateKeystore E r1 r2 s password =
     (case ConfigDir (eOS E) of
        Inl e \<Rightarrow> (s, Inl e)
      | Inr cfgDir \<Rightarrow>
          let ksPath = Join cfgDir [''keystore.enc'']; ks = NewKeystore ksPath in
          if Stat s ksPath = Inl ErrNotExist then
            (case Create (eL E) (eKsJ E) r1 r2 s ks password of
               (ks', s', Some e) \<Rightarrow> (s', Inl (Wrap ''keystore create'' e))
             | (ks', s', None) \<Rightarrow> (s', Inr ks'))
          else
            (case Unlock (eL E) (eKsJ E) s ks password of
               (ks', Some e) \<Rightarrow> (s, Inl (Wrap ''keystore unlock'' e))
             | (ks', None) \<Rightarrow> (s, Inr ks')))"

definition OpenKeystore :: "env \<Rightarrow> fs \<Rightarrow> string \<Rightarrow> Keystore result" where
  "OpenKeystore E s password =
     (case ConfigDir (eOS E) of
        Inl e \<Rightarrow> Inl e
      | Inr cfgDir \<Rightarrow>
          (case Unlock (eL E) (eKsJ E) s (NewKeystore (Join cfgDir [''keystore.enc''])) password of
             (ks', Some e) \<Rightarrow> Inl (Wrap ''keystore unlock'' e)
           | (ks', None) \<Rightarrow> Inr ks'))"

definition OpenManifest :: "env \<Rightarrow> fs \<Rightarrow> bytes \<Rightarrow> Manifest result" where
  "OpenManifest E s masterKey =
     (case Load_Manifest (eMfJ E) s (New_Manifest (DefaultManifestPath (eOS E)) masterKey) of
        (m, Some e) \<Rightarrow> Inl (Wrap ''manifest'' e)
      | (m, None) \<Rightarrow> Inr m)"

text \<open>\<open>ks.MasterKey()\<close> panics on a locked key store.\<close>

definition OpenRegistry :: "env \<Rightarrow> fs \<Rightarrow> Keystore \<Rightarrow> Registry result" where
  "OpenRegistry E s ks =
     (case ConfigDir (eOS E) of
        Inl e \<Rightarrow> Inl e
      | Inr cfgDir \<Rightarrow>
          rbind (MasterKey ks) (\<lambda>key. NewRegistry (jRegistry (eJ E)) s (Join cfgDir [''buddies.enc'']) key))"

lemma OpenOrCreateKeystore_unlocked:
  "OpenOrCreateKeystore E r1 r2 s pw = (s', Inr ks) \<Longrightarrow> ksUnlocked ks"
  by (auto simp: OpenOrCreateKeystore_def Create_def Let_def split: sum.splits if_splits prod.splits option.splits
      dest: Unlock_ok_unlocked)

lemma OpenKeystore_unlocked: "OpenKeystore E s pw = Inr ks \<Longrightarrow> ksUnlocked ks"
  by (auto simp: OpenKeystore_def split: sum.splits prod.splits option.splits dest: Unlock_ok_unlocked)

lemma OpenOrCreateKeystore_path:
  "OpenOrCreateKeystore E r1 r2 s pw = (s', Inr ks) \<Longrightarrow>
     \<exists>cfg. ConfigDir (eOS E) = Inr cfg \<and> ksPath ks = Join cfg [''keystore.enc'']"
  by (auto simp: OpenOrCreateKeystore_def Create_def NewKeystore_def Let_def
      split: sum.splits if_splits prod.splits option.splits dest: Unlock_ok_unlocked)

end
