(* ===== verification/Backup.thy ===== *)
theory Backup
  imports Api_Shared
begin

text \<open>
  \<open>internal/api/backup.go\<close>: a file or directory tree is walked; every file is cut into chunks, each chunk
  compressed, split into data and parity shards, each shard encrypted under a key of its own and
  put into the local store; the manifest gets an entry, and the shards go to the buddies or to the
  retry queue.

  What a run draws from its surroundings is an argument: the UUID, the clock, the modification
  time, the nonces and the orders in which maps are ranged over. \<open>None\<close> is a run that does not
  end; the theorems show that there is none. The progress lines of the callers are left out.
\<close>

record BackupParams =
  bpSrc :: "path option"
  bpStoreDir :: "path option"
  bpPassword :: string
  bpBuddies :: int
  bpExclude :: string
  bpAutoPrune :: bool

record BackedUpFile =
  bfPath :: path
  bfFileID :: string
  bfShards :: int
  bfErr :: "error option"

record BackupResult =
  brScheme :: RSScheme
  brFiles :: "BackedUpFile list"
  brPrunedVersions :: int
  brPushedToBuddies :: int

record file_choice =
  fcUuid :: string
  fcNow :: time
  fcModTime :: time
  fcOrd :: "string list"
  fcNonce :: "int \<Rightarrow> entropy"
  fcId1 :: entropy
  fcId2 :: entropy
  fcBuddies :: "string list"

record backup_choice =
  bcKs1 :: entropy
  bcKs2 :: entropy
  bcFile :: "path \<Rightarrow> file_choice"
  bcSave :: entropy
  bcPruneOrd :: "string list"
  bcPrunePaths :: "string list"
  bcPruneNow :: time
  bcSave2 :: entropy
  bcNow :: time
  bcBlob :: entropy
  bcId1 :: entropy
  bcId2 :: entropy

subsection \<open>One file\<close>

definition fileHashFromChunks :: "Chunk list \<Rightarrow> bytes" where
  "fileHashFromChunks chunks = Sum256 (concat (map chHash chunks))"

definition fileIDFromHash :: "bytes \<Rightarrow> string" where
  "fileIDFromHash h = hex_EncodeToString (take 8 h)"

text \<open>The inner loop of \<open>backupOneFile\<close>: the shards of one chunk.\<close>

fun store_shards ::
  "libs \<Rightarrow> ShardMeta list codec \<Rightarrow> (int \<Rightarrow> entropy) \<Rightarrow> Store \<Rightarrow> string \<Rightarrow> bytes \<Rightarrow> int \<Rightarrow> int \<Rightarrow> int \<Rightarrow> int
     \<Rightarrow> fs \<Rightarrow> ShardLocation list \<Rightarrow> bytes list \<Rightarrow> fs \<times> (int \<times> ShardLocation list) result" where
  "store_shards L c rnd st fid fileKey dataShards ci si shardCounter s locs [] = (s, Inr (shardCounter, locs))"
| "store_shards L c rnd st fid fileKey dataShards ci si shardCounter s locs (shard # rest) =
     (let isParity = (si \<ge> dataShards); idx = shardCounter in
      case EncryptShard L (rnd idx) fileKey idx shard of
        Inl e \<Rightarrow> (s, Inl (Wrap ''encrypt shard'' e))
      | Inr ciphertext \<Rightarrow>
          (case Put c s st fid idx isParity ciphertext of
             (s', Some e) \<Rightarrow> (s', Inl (Wrap ''store shard'' e))
           | (s', None) \<Rightarrow>
               store_shards L c rnd st fid fileKey dataShards ci (si + 1) (shardCounter + 1) s'
                 (locs @ [\<lparr>slShardIndex = idx, slIsParity = isParity, slBuddyID = ''local'',
                           slStorageKey = ''chunk'' @ Itoa ci @ ''-shard'' @ Itoa si\<rparr>]) rest))"

text \<open>The outer loop: \<open>chunk.Data[:chunk.Size]\<close> panics when the size is out of range.\<close>

fun store_chunks ::
  "libs \<Rightarrow> ShardMeta list codec \<Rightarrow> (int \<Rightarrow> entropy) \<Rightarrow> Store \<Rightarrow> string \<Rightarrow> bytes \<Rightarrow> Encoder \<Rightarrow> int
     \<Rightarrow> fs \<Rightarrow> ShardLocation list \<Rightarrow> Chunk list \<Rightarrow> fs \<times> ShardLocation list result" where
  "store_chunks L c rnd st fid fileKey enc shardCounter s locs [] = (s, Inr locs)"
| "store_chunks L c rnd st fid fileKey enc shardCounter s locs (chunk # rest) =
     (if chSize chunk < 0 \<or> chSize chunk > int (length (chData chunk))
      then (s, Inl (Panic ''slice bounds out of range''))
      else case Compress L (take (nat (chSize chunk)) (chData chunk)) of
        Inl e \<Rightarrow> (s, Inl (Wrap ''compress chunk'' e))
      | Inr chunkBytes \<Rightarrow>
          (case SplitChunkToShards L enc chunkBytes of
             Inl e \<Rightarrow> (s, Inl (Wrap ''RS encode chunk'' e))
           | Inr rawShards \<Rightarrow>
               (case store_shards L c rnd st fid fileKey (DataShards (encScheme enc)) (chIndex chunk) 0
                       shardCounter s locs rawShards of
                  (s', Inl e) \<Rightarrow> (s', Inl e)
                | (s', Inr (counter', locs')) \<Rightarrow>
                    store_chunks L c rnd st fid fileKey enc counter' s' locs' rest)))"

subsection \<open>Delivery to the buddies\<close>

definition shard_push :: "string \<Rightarrow> string \<Rightarrow> ShardLocation \<Rightarrow> bytes \<Rightarrow> ShardPush" where
  "shard_push ownerID fileID loc ciphertext =
     \<lparr>spType = TypeShardPush, spOwnerID = ownerID, spFileID = fileID, spShardIndex = slShardIndex loc,
      spIsParity = slIsParity loc, spData = ciphertext\<rparr>"

text \<open>The shards for a buddy that cannot be reached are queued; errors of the queue are dropped.\<close>

fun enqueue_all ::
  "env \<Rightarrow> path \<Rightarrow> Store \<Rightarrow> string \<Rightarrow> string \<Rightarrow> string \<Rightarrow> fs \<Rightarrow> ShardLocation list \<Rightarrow> fs" where
  "enqueue_all E q st ownerID fileID peer s [] = s"
| "enqueue_all E q st ownerID fileID peer s (loc # locs) =
     (case Get s st fileID (slShardIndex loc) of
        Inl _ \<Rightarrow> enqueue_all E q st ownerID fileID peer s locs
      | Inr ciphertext \<Rightarrow>
          enqueue_all E q st ownerID fileID peer
            (fst (Enqueue (eQueueJ E) s q peer (shard_push ownerID fileID loc ciphertext))) locs)"

text \<open>
  The shards for a connected buddy are pushed one after the other. A push changes nothing on this
  side: the result is the list of the attempts with their outcomes.
\<close>

fun push_all ::
  "env \<Rightarrow> Store \<Rightarrow> string \<Rightarrow> string \<Rightarrow> string \<Rightarrow> fs \<Rightarrow> ShardLocation list \<Rightarrow> (string \<times> ShardPush \<times> error option) list" where
  "push_all E st ownerID fileID peer s [] = []"
| "push_all E st ownerID fileID peer s (loc # locs) =
     (case Get s st fileID (slShardIndex loc) of
        Inl _ \<Rightarrow> push_all E st ownerID fileID peer s locs
      | Inr ciphertext \<Rightarrow>
          (peer, shard_push ownerID fileID loc ciphertext,
           snd (PushShard (eJ E) (nwPushStream (eNet E) peer fileID (slShardIndex loc)) ownerID fileID
                  (slShardIndex loc) (slIsParity loc) ciphertext))
          # push_all E st ownerID fileID peer s locs)"

fun push_loop ::
  "env \<Rightarrow> path \<Rightarrow> Store \<Rightarrow> string \<Rightarrow> string \<Rightarrow> ShardLocation list \<Rightarrow> fs \<Rightarrow> Entry list
     \<Rightarrow> fs \<times> (string \<times> ShardPush \<times> error option) list" where
  "push_loop E q st ownerID fileID locs s [] = (s, [])"
| "push_loop E q st ownerID fileID locs s (entry # entries) =
     (if \<not> nwDecode (eNet E) (bePeerID entry) then push_loop E q st ownerID fileID locs s entries
      else
        let addrs = filter (nwMultiaddr (eNet E)) (beAddrs entry);
            connected = (addrs \<noteq> [] \<and> nwConnect (eNet E) (bePeerID entry) addrs) in
        if \<not> connected
        then push_loop E q st ownerID fileID locs
               (enqueue_all E q st ownerID fileID (bePeerID entry) s locs) entries
        else (case push_loop E q st ownerID fileID locs s entries of
                (s', sent) \<Rightarrow> (s', push_all E st ownerID fileID (bePeerID entry) s locs @ sent)))"

text \<open>If there is no configuration directory the queue file is relative to the working directory;
  opening the registry has failed before that.\<close>

definition pushToBuddies ::
  "env \<Rightarrow> file_choice \<Rightarrow> fs \<Rightarrow> Keystore \<Rightarrow> string \<Rightarrow> string \<Rightarrow> ShardLocation list \<Rightarrow> Store
     \<Rightarrow> fs \<times> (string \<times> ShardPush \<times> error option) list" where
  "pushToBuddies E fc s ks password fileID locs st =
     (case EnsurePeerIdentity (eL E) (eI E) (eKsJ E) (fcId1 fc) (fcId2 fc) s ks password of
        (ks1, s1, Inl e) \<Rightarrow> (s1, [])
      | (ks1, s1, Inr privKey) \<Rightarrow>
          (case nwNewHost (eNet E) privKey of
             Inl e \<Rightarrow> (s1, [])
           | Inr ownerID \<Rightarrow>
               (case OpenRegistry E s1 ks1 of
                  Inl e \<Rightarrow> (s1, [])
                | Inr reg \<Rightarrow>
                    let buddies = snd (List_Registry (jRegistry (eJ E)) (fcBuddies fc) s1 reg) in
                    if buddies = [] then (s1, [])
                    else
                      let q = Join (case ConfigDir (eOS E) of Inl _ \<Rightarrow> [] | Inr d \<Rightarrow> d) [''queue.json'']
                      in push_loop E q st ownerID fileID locs s1 buddies)))"

text \<open>
  \<open>backupOneFile\<close>. The entry is a pointer into the manifest's map, so setting \<open>Compressed\<close> changes the
  entry stored there. \<open>sz\<close> is what \<open>fi.Size()\<close> said when the walk reached the file.
\<close>

definition backupOneFile ::
  "env \<Rightarrow> file_choice \<Rightarrow> fs \<Rightarrow> path \<Rightarrow> int \<Rightarrow> Store \<Rightarrow> string \<Rightarrow> bytes \<Rightarrow> Manifest \<Rightarrow> RSScheme
     \<Rightarrow> (fs \<times> Manifest \<times> (string \<times> int) result) option" where
  "backupOneFile E fc s src sz st password masterKey mf scheme =
     (case ChunkFile s src DefaultChunkSize of
        None \<Rightarrow> None
      | Some (Inl e) \<Rightarrow> Some (s, mf, Inl (Wrap ''chunk'' e))
      | Some (Inr chunks) \<Rightarrow>
          let fileHash = fileHashFromChunks chunks in
          (case DeriveFileKey (eL E) masterKey fileHash of
             Inl e \<Rightarrow> Some (s, mf, Inl (Wrap ''derive key'' e))
           | Inr fileKey \<Rightarrow>
               (case NewEncoder (eL E) scheme of
                  Inl e \<Rightarrow> Some (s, mf, Inl (Wrap ''encoder'' e))
                | Inr enc \<Rightarrow>
                    let fid = fileIDFromHash fileHash in
                    (case store_chunks (eL E) (eMetaJ E) (fcNonce fc) st fid fileKey enc 0 s [] chunks of
                       (s1, Inl e) \<Rightarrow> Some (s1, mf, Inl e)
                     | (s1, Inr locs) \<Rightarrow>
                         (case Upsert (fcOrd fc) (rbind (Stat s1 src) (\<lambda>_. Inr (fcModTime fc))) (fcUuid fc) (fcNow fc)
                                 mf (path_string src) fileHash sz scheme locs of
                            (mf1, Inl e) \<Rightarrow> Some (s1, mf1, Inl (Wrap ''manifest upsert'' e))
                          | (mf1, Inr entry) \<Rightarrow>
                              let mf2 = set_entries mf1 (AList.update (meFileID entry) (entry\<lparr>meCompressed := True\<rparr>) (entries_of mf1));
                                  s2 = (case OpenKeystore E s1 password of
                                          Inl _ \<Rightarrow> s1
                                        | Inr ks \<Rightarrow> fst (pushToBuddies E fc s1 ks password fid locs st))
                              in Some (s2, mf2, Inr (fid, int (length locs))))))))"

subsection \<open>The whole run\<close>

text \<open>
  \<open>filepath.Walk\<close> visits the files in lexical order until a directory cannot be read: the files visited
  before it, and the error. The tree is the one at the start of the walk.
\<close>

definition walk_visit :: "fs \<Rightarrow> path \<Rightarrow> (path \<times> bytes) list \<times> error option" where
  "walk_visit s root =
     (if \<not> is_file s root \<and> \<not> is_dir s root then ([], Some ErrNotExist)
      else
        let visited = map (\<lambda>q. (q, the (map_of (files s) q)))
              (sort (remdups (filter (beneath root) (map fst (files s)))));
            bad = filter (\<lambda>d. beneath root d \<and> is_dir s d \<and> rfault s d) (root # dirs s)
        in case sort bad of
             [] \<Rightarrow> (visited, None)
           | d # _ \<Rightarrow> (filter (\<lambda>f. fst f < d) visited, Some ErrIO))"

fun backup_files ::
  "env \<Rightarrow> (path \<Rightarrow> file_choice) \<Rightarrow> Filter option \<Rightarrow> Store \<Rightarrow> string \<Rightarrow> bytes \<Rightarrow> RSScheme \<Rightarrow> fs \<Rightarrow> Manifest
     \<Rightarrow> BackedUpFile list \<Rightarrow> path option \<Rightarrow> (path \<times> bytes) list
     \<Rightarrow> (fs \<times> Manifest \<times> BackedUpFile list \<times> path option) option" where
  "backup_files E fcs ef st password masterKey scheme s mf done lastFile [] = Some (s, mf, done, lastFile)"
| "backup_files E fcs ef st password masterKey scheme s mf done lastFile ((p, d) # rest) =
     (if (case ef of None \<Rightarrow> False | Some f \<Rightarrow> Match_Filter f p)
      then backup_files E fcs ef st password masterKey scheme s mf done lastFile rest
      else case backupOneFile E (fcs p) s p (int (length d)) st password masterKey mf scheme of
             None \<Rightarrow> None
           | Some (s', mf', Inl e) \<Rightarrow>
               backup_files E fcs ef st password masterKey scheme s' mf'
                 (done @ [\<lparr>bfPath = p, bfFileID = [], bfShards = 0, bfErr = Some e\<rparr>]) lastFile rest
           | Some (s', mf', Inr (fileID, shards)) \<Rightarrow>
               backup_files E fcs ef st password masterKey scheme s' mf'
                 (done @ [\<lparr>bfPath = p, bfFileID = fileID, bfShards = shards, bfErr = None\<rparr>]) (Some p) rest)"

fun delete_all :: "fs \<Rightarrow> Store \<Rightarrow> string list \<Rightarrow> fs" where
  "delete_all s st [] = s"
| "delete_all s st (fid # fids) = delete_all (fst (Delete s st fid)) st fids"

text \<open>The pruning step: the state, the manifest, and how many versions went, or the error of saving.\<close>

definition auto_prune ::
  "env \<Rightarrow> backup_choice \<Rightarrow> path option \<Rightarrow> fs \<Rightarrow> Manifest \<Rightarrow> fs \<times> Manifest \<times> int result" where
  "auto_prune E bc storeDir s mf =
     (case PruneVersions (bcPruneOrd bc) (bcPrunePaths bc) (bcPruneNow bc) mf DefaultRetentionPolicy of
        (mf1, pruned) \<Rightarrow>
          if pruned = [] then (s, mf1, Inr 0)
          else
            let s1 = (case OpenStore E s storeDir of
                        (s', Inl _) \<Rightarrow> s'
                      | (s', Inr st2) \<Rightarrow> delete_all s' st2 pruned) in
            (case Save_Manifest (eMfJ E) (bcSave2 bc) s1 mf1 of
               (s2, Some e) \<Rightarrow> (s2, mf1, Inl (Wrap ''manifest save after prune'' e))
             | (s2, None) \<Rightarrow> (s2, mf1, Inr (int (length pruned)))))"

definition push_manifest :: "env \<Rightarrow> backup_choice \<Rightarrow> fs \<Rightarrow> Keystore \<Rightarrow> string \<Rightarrow> Manifest \<Rightarrow> fs \<times> int" where
  "push_manifest E bc s ks password mf =
     (case EncryptedBytes (eMfJ E) (bcBlob bc) mf of
        Inl _ \<Rightarrow> (s, 0)
      | Inr blob \<Rightarrow>
          (case EnsurePeerIdentity (eL E) (eI E) (eKsJ E) (bcId1 bc) (bcId2 bc) s ks password of
             (_, s1, Inl _) \<Rightarrow> (s1, 0)
           | (_, s1, Inr priv) \<Rightarrow>
               (case nwNewHost (eNet E) priv of
                  Inl _ \<Rightarrow> (s1, 0)
                | Inr self \<Rightarrow> (s1, int (PushToAll (eJ E) (nwPeers (eNet E)) self blob)))))"

definition write_status :: "env \<Rightarrow> backup_choice \<Rightarrow> fs \<Rightarrow> path option \<Rightarrow> fs" where
  "write_status E bc s lastFile =
     (case lastFile of
        None \<Rightarrow> s
      | Some p \<Rightarrow>
          (case ConfigDir (eOS E) of
             Inl _ \<Rightarrow> s
           | Inr cfgDir \<Rightarrow>
               fst (Write_Status (eStatusJ E) s cfgDir
                 \<lparr>stLastBackupAt = bcNow bc, stLastFile = path_string p, stError = []\<rparr>)))"

text \<open>What follows the walk: save, prune, status, and the manifest to the buddies.\<close>

definition finish_backup ::
  "env \<Rightarrow> backup_choice \<Rightarrow> BackupParams \<Rightarrow> RSScheme \<Rightarrow> Keystore \<Rightarrow> fs \<Rightarrow> Manifest \<Rightarrow> BackedUpFile list
     \<Rightarrow> path option \<Rightarrow> fs \<times> BackupResult result" where
  "finish_backup E bc P scheme ks s mf done lastFile =
     (case Save_Manifest (eMfJ E) (bcSave bc) s mf of
        (s1, Some e) \<Rightarrow> (s1, Inl (Wrap ''manifest save'' e))
      | (s1, None) \<Rightarrow>
          (case (if bpAutoPrune P then auto_prune E bc (bpStoreDir P) s1 mf else (s1, mf, Inr 0)) of
             (s2, mf2, Inl e) \<Rightarrow> (s2, Inl e)
           | (s2, mf2, Inr pruned) \<Rightarrow>
               (case push_manifest E bc (write_status E bc s2 lastFile) ks (bpPassword P) mf2 of
                  (s3, n) \<Rightarrow>
                    (s3, Inr \<lparr>brScheme = scheme, brFiles = done, brPrunedVersions = pruned, brPushedToBuddies = n\<rparr>))))"

text \<open>An empty exclude string gives no filter.\<close>

definition exclude_filter :: "string \<Rightarrow> Filter option result" where
  "exclude_filter ex =
     (if ex = [] then Inr None
      else case Parse_Filter ex of Inl e \<Rightarrow> Inl (Wrap ''exclude'' e) | Inr f \<Rightarrow> Inr (Some f))"

definition Backup :: "env \<Rightarrow> backup_choice \<Rightarrow> fs \<Rightarrow> BackupParams \<Rightarrow> (fs \<times> BackupResult result) option" where
  "Backup E bc s P =
     (case bpSrc P of
        None \<Rightarrow> Some (s, Inl (Errorf ''src and password are required''))
      | Some src \<Rightarrow>
          if bpPassword P = [] then Some (s, Inl (Errorf ''src and password are required''))
          else (case exclude_filter (bpExclude P) of
             Inl e \<Rightarrow> Some (s, Inl e)
           | Inr ef \<Rightarrow>
          (case OpenStore E s (bpStoreDir P) of
             (s1, Inl e) \<Rightarrow> Some (s1, Inl (Wrap ''store'' e))
           | (s1, Inr st) \<Rightarrow>
          (case OpenOrCreateKeystore E (bcKs1 bc) (bcKs2 bc) s1 (bpPassword P) of
             (s2, Inl e) \<Rightarrow> Some (s2, Inl e)
           | (s2, Inr ks) \<Rightarrow>
          (case MasterKey ks of
             Inl e \<Rightarrow> Some (s2, Inl e)
           | Inr masterKey \<Rightarrow>
          (case OpenManifest E s2 masterKey of
             Inl e \<Rightarrow> Some (s2, Inl e)
           | Inr mf \<Rightarrow>
          (case BestScheme (if bpBuddies P \<le> 0 then 5 else bpBuddies P) of
             Inl e \<Rightarrow> Some (s2, Inl (Wrap ''got buddies'' e))
           | Inr scheme \<Rightarrow>
          (case walk_visit s2 src of (visited, walkErr) \<Rightarrow>
          (case backup_files E (bcFile bc) ef st (bpPassword P) masterKey scheme s2 mf [] None visited of
             None \<Rightarrow> None
           | Some (s3, mf1, done, lastFile) \<Rightarrow>
               (case walkErr of
                  Some e \<Rightarrow> Some (s3, Inl (Wrap ''walk'' e))
                | None \<Rightarrow> Some (finish_backup E bc P scheme ks s3 mf1 done lastFile)))))))))))"

end
