(* ===== verification/Restore.thy ===== *)
theory Restore
  imports Backup
begin

text \<open>
  \<open>internal/api/restore.go\<close>: the shards of a version are collected from the local store and from the buddies,
  decrypted, merged chunk by chunk, decompressed and appended to the output file; at the end the
  hash of the chunk hashes is compared with the manifest, and an output that does not match is
  deleted.
\<close>

record RestoreParams =
  rpStoreDir :: "path option"
  rpPassword :: string
  rpOut :: "path option"
  rpFileID :: string
  rpFilePath :: string
  rpVersion :: int

record RestoreResult =
  rrEntry :: ManifestEntry
  rrIntegrityPassed :: bool

text \<open>The orders of the map iterations, the randomness of a fresh key store and of a fresh identity.\<close>

record restore_choice =
  rcKs1 :: entropy
  rcKs2 :: entropy
  rcOrd :: "string list"
  rcId1 :: entropy
  rcId2 :: entropy
  rcBuddies :: "int \<Rightarrow> string list"

subsection \<open>Output file\<close>

text \<open>
  \<open>os.Create\<close> truncates the file or makes an empty one; \<open>Write\<close> appends, and on a full disk only
  a prefix arrives.
\<close>

definition os_Create :: "fs \<Rightarrow> path \<Rightarrow> fs \<times> error option" where
  "os_Create s p =
     (if \<not> is_dir s (butlast p) then (s, Some ErrNotExist)
      else if is_dir s p \<or> wfault s p = Some OpenFault then (s, Some ErrIO)
      else (set_file s p [], None))"

definition file_Write :: "fs \<Rightarrow> path \<Rightarrow> bytes \<Rightarrow> fs \<times> error option" where
  "file_Write s p d =
     (let cur = (case map_of (files s) p of None \<Rightarrow> [] | Some c \<Rightarrow> c) in
      case wfault s p of
        Some (ShortWrite n) \<Rightarrow>
          if length (cur @ d) \<le> n then (set_file s p (cur @ d), None)
          else (set_file s p (take n (cur @ d)), Some ErrIO)
      | _ \<Rightarrow> (set_file s p (cur @ d), None))"

subsection \<open>Operations\<close>

definition hexToHash :: "string \<Rightarrow> bytes result" where
  "hexToHash s =
     (case hex_DecodeString s of
        Inl e \<Rightarrow> Inl (Wrap ''hexToHash'' e)
      | Inr b \<Rightarrow> if length b \<noteq> 32 then Inl (Errorf ''hexToHash: expected 32 bytes'') else Inr b)"

text \<open>The host of a restore: its peer id, and the registry if it could be opened.\<close>

fun fetch_loop :: "env \<Rightarrow> string \<Rightarrow> string \<Rightarrow> int \<Rightarrow> Entry list \<Rightarrow> bytes option" where
  "fetch_loop E ownerID fileID idx [] = None"
| "fetch_loop E ownerID fileID idx (entry # entries) =
     (if \<not> nwDecode (eNet E) (bePeerID entry) then fetch_loop E ownerID fileID idx entries
      else case snd (FetchShard (eJ E) (nwPullStream (eNet E) (bePeerID entry) fileID idx) ownerID fileID idx) of
             Inr d \<Rightarrow> Some d
           | Inl _ \<Rightarrow> fetch_loop E ownerID fileID idx entries)"

definition tryFetchFromBuddies ::
  "env \<Rightarrow> (int \<Rightarrow> string list) \<Rightarrow> fs \<Rightarrow> Registry \<Rightarrow> string \<Rightarrow> string \<Rightarrow> int \<Rightarrow> bytes option" where
  "tryFetchFromBuddies E ord s reg ownerID fileID idx =
     fetch_loop E ownerID fileID idx (snd (List_Registry (jRegistry (eJ E)) (ord idx) s reg))"

definition restore_host ::
  "env \<Rightarrow> restore_choice \<Rightarrow> fs \<Rightarrow> Keystore \<Rightarrow> string \<Rightarrow> fs \<times> string option \<times> Registry option" where
  "restore_host E rc s ks password =
     (case EnsurePeerIdentity (eL E) (eI E) (eKsJ E) (rcId1 rc) (rcId2 rc) s ks password of
        (_, s1, Inl _) \<Rightarrow> (s1, None, None)
      | (ks1, s1, Inr priv) \<Rightarrow>
          (case nwNewHost (eNet E) priv of
             Inl _ \<Rightarrow> (s1, None, None)
           | Inr self \<Rightarrow>
               (s1, Some self, (case OpenRegistry E s1 ks1 of Inl _ \<Rightarrow> None | Inr reg \<Rightarrow> Some reg))))"

text \<open>One shard: from the store, else from a buddy; what does not decrypt counts as missing.\<close>

definition gather_shard ::
  "env \<Rightarrow> restore_choice \<Rightarrow> fs \<Rightarrow> Store \<Rightarrow> string option \<Rightarrow> Registry option \<Rightarrow> string \<Rightarrow> bytes
     \<Rightarrow> ShardLocation \<Rightarrow> bytes option" where
  "gather_shard E rc s st self reg fileID fileKey loc =
     (let idx = slShardIndex loc;
          ciphertext =
            (case Get s st fileID idx of
               Inr d \<Rightarrow> Some d
             | Inl _ \<Rightarrow>
                 (case (self, reg) of
                    (Some o', Some r) \<Rightarrow> tryFetchFromBuddies E (rcBuddies rc) s r o' fileID idx
                  | _ \<Rightarrow> None))
      in case ciphertext of
           None \<Rightarrow> None
         | Some d \<Rightarrow> (case DecryptShard (eL E) fileKey idx d of Inl _ \<Rightarrow> None | Inr p \<Rightarrow> Some p))"

text \<open>
  The size of a chunk of an uncompressed version. Go's remainder keeps the sign of the dividend, so
  a negative size would slice with a negative bound.
\<close>

definition trim_chunk :: "int \<Rightarrow> bool \<Rightarrow> bytes \<Rightarrow> bytes result" where
  "trim_chunk sz is_last chunkData =
     (let rem = (if sz < 0 then - ((- sz) mod DefaultChunkSize) else sz mod DefaultChunkSize);
          expected = (if is_last \<and> rem \<noteq> 0 then rem else DefaultChunkSize)
      in if expected < int (length chunkData)
         then (if expected < 0 then Inl (Panic ''slice bounds out of range'')
               else Inr (take (nat expected) chunkData))
         else Inr chunkData)"

definition restore_chunk ::
  "env \<Rightarrow> ManifestEntry \<Rightarrow> Encoder \<Rightarrow> bool \<Rightarrow> bytes option list \<Rightarrow> bytes result" where
  "restore_chunk E entry enc is_last rawShards =
     (case MergeShardToChunk (eL E) enc rawShards of
        Inl e \<Rightarrow> Inl e
      | Inr chunkData \<Rightarrow>
          if meCompressed entry then wrap ''decompress chunk'' (Decompress (eL E) chunkData)
          else trim_chunk (meSize entry) is_last chunkData)"

text \<open>
  The loop over the chunks, on the locations grouped by chunk: the state, and the bytes fed to the
  hasher.
\<close>

fun restore_loop ::
  "env \<Rightarrow> restore_choice \<Rightarrow> Store \<Rightarrow> string option \<Rightarrow> Registry option \<Rightarrow> string \<Rightarrow> bytes \<Rightarrow> ManifestEntry
     \<Rightarrow> Encoder \<Rightarrow> path \<Rightarrow> fs \<Rightarrow> bytes \<Rightarrow> ShardLocation list list \<Rightarrow> fs \<times> bytes result" where
  "restore_loop E rc st self reg fileID fileKey entry enc out s hashed [] = (s, Inr hashed)"
| "restore_loop E rc st self reg fileID fileKey entry enc out s hashed (locs # rest) =
     (case restore_chunk E entry enc (rest = []) (map (gather_shard E rc s st self reg fileID fileKey) locs) of
        Inl e \<Rightarrow> (s, Inl e)
      | Inr chunkData \<Rightarrow>
          (case file_Write s out chunkData of
             (s', Some e) \<Rightarrow> (s', Inl (Wrap ''write chunk'' e))
           | (s', None) \<Rightarrow>
               restore_loop E rc st self reg fileID fileKey entry enc out s' (hashed @ Sum256 chunkData) rest))"

definition chunk_groups :: "nat \<Rightarrow> 'a list \<Rightarrow> 'a list list" where
  "chunk_groups k xs = map (\<lambda>ci. take k (drop (ci * k) xs)) [0..<length xs div k]"

definition finish_restore ::
  "fs \<Rightarrow> path \<Rightarrow> ManifestEntry \<Rightarrow> bytes \<Rightarrow> fs \<times> RestoreResult result" where
  "finish_restore s out entry hashed =
     (if meHash entry \<noteq> [] then
        if hex_EncodeToString (Sum256 hashed) \<noteq> meHash entry
        then (fst (Remove s out), Inl (Errorf ''INTEGRITY CHECK FAILED: hash mismatch''))
        else (s, Inr \<lparr>rrEntry = entry, rrIntegrityPassed = True\<rparr>)
      else (s, Inr \<lparr>rrEntry = entry, rrIntegrityPassed = False\<rparr>))"

text \<open>
  From the chosen entry on. The library rejects schemes without data shards, so the division by
  the number of shards per chunk is guarded by the encoder.
\<close>

definition restore_entry ::
  "env \<Rightarrow> restore_choice \<Rightarrow> fs \<Rightarrow> Store \<Rightarrow> Keystore \<Rightarrow> string \<Rightarrow> bytes \<Rightarrow> path \<Rightarrow> ManifestEntry
     \<Rightarrow> fs \<times> RestoreResult result" where
  "restore_entry E rc s st ks password masterKey out entry =
     (case hexToHash (meHash entry) of
        Inl e \<Rightarrow> (s, Inl e)
      | Inr hash \<Rightarrow>
          (case DeriveFileKey (eL E) masterKey hash of
             Inl e \<Rightarrow> (s, Inl e)
           | Inr fileKey \<Rightarrow>
               (case restore_host E rc s ks password of (s1, self, reg) \<Rightarrow>
               (case NewEncoder (eL E) (meScheme entry) of
                  Inl e \<Rightarrow> (s1, Inl e)
                | Inr enc \<Rightarrow>
                    let k = TotalShards (meScheme entry); n = length (meShards entry) in
                    if k \<le> 0 then (s1, Inl (Panic ''integer divide by zero''))
                    else if int n mod k \<noteq> 0 then (s1, Inl (Errorf ''shard count not divisible''))
                    else (case os_Create s1 out of
                       (s2, Some e) \<Rightarrow> (s2, Inl e)
                     | (s2, None) \<Rightarrow>
                         (case restore_loop E rc st self reg (fileIDFromHash hash) fileKey entry enc out s2 []
                                 (chunk_groups (nat k) (meShards entry)) of
                            (s3, Inl e) \<Rightarrow> (s3, Inl e)
                          | (s3, Inr hashed) \<Rightarrow> finish_restore s3 out entry hashed))))))"

definition choose_entry :: "string list \<Rightarrow> Manifest \<Rightarrow> RestoreParams \<Rightarrow> ManifestEntry result" where
  "choose_entry ord mf P =
     (if rpFileID P \<noteq> [] then
        (case Get_Manifest mf (rpFileID P) of
           None \<Rightarrow> Inl (Errorf ''file-id not found in manifest'') | Some e \<Rightarrow> Inr e)
      else if rpVersion P > 0 then
        (case find (\<lambda>e. meVersion e = rpVersion P) (ListVersions ord mf (rpFilePath P)) of
           None \<Rightarrow> Inl (Errorf ''version not found in manifest'') | Some e \<Rightarrow> Inr e)
      else
        (case Latest ord mf (rpFilePath P) of
           None \<Rightarrow> Inl (Errorf ''not found in manifest'') | Some e \<Rightarrow> Inr e))"

definition Restore :: "env \<Rightarrow> restore_choice \<Rightarrow> fs \<Rightarrow> RestoreParams \<Rightarrow> fs \<times> RestoreResult result" where
  "Restore E rc s P =
     (case rpOut P of
        None \<Rightarrow> (s, Inl (Errorf ''out and password are required''))
      | Some out \<Rightarrow>
          if rpPassword P = [] then (s, Inl (Errorf ''out and password are required''))
          else if rpFileID P = [] \<and> rpFilePath P = [] then (s, Inl (Errorf ''one of FileID or FilePath is required''))
          else (case OpenStore E s (rpStoreDir P) of
             (s1, Inl e) \<Rightarrow> (s1, Inl (Wrap ''store'' e))
           | (s1, Inr st) \<Rightarrow>
          (case OpenOrCreateKeystore E (rcKs1 rc) (rcKs2 rc) s1 (rpPassword P) of
             (s2, Inl e) \<Rightarrow> (s2, Inl e)
           | (s2, Inr ks) \<Rightarrow>
          (case MasterKey ks of
             Inl e \<Rightarrow> (s2, Inl e)
           | Inr masterKey \<Rightarrow>
          (case OpenManifest E s2 masterKey of
             Inl e \<Rightarrow> (s2, Inl e)
           | Inr mf \<Rightarrow>
          (case choose_entry (rcOrd rc) mf P of
             Inl e \<Rightarrow> (s2, Inl e)
           | Inr entry \<Rightarrow> restore_entry E rc s2 st ks (rpPassword P) masterKey out entry))))))"

end
