(* ===== verification/Pipeline.thy ===== *)
theory Pipeline
  imports Restore
begin

text \<open>
  Backup and restore together. \<open>chunk_code\<close> says that a list of shards stands for a chunk: any
  sufficient part of them merges and decompresses to it. The lemmas follow the two loops of
  \<open>backupOneFile\<close> and the loop of \<open>Restore\<close>; the theorems at the end are the round trip of one file
  and the integrity of what a restore reports as restored.
\<close>

subsection \<open>One chunk\<close>

text \<open>A compressed chunk stays far below the 32-bit limit of its length field.\<close>

definition zstd_bounded :: "libs \<Rightarrow> bool" where
  "zstd_bounded L \<longleftrightarrow> (\<forall>src. int (length src) \<le> DefaultChunkSize \<longrightarrow> length (zstd_EncodeAll L src) < 2 ^ 32)"

definition lawful :: "libs \<Rightarrow> RSScheme \<Rightarrow> bool" where
  "lawful L scheme \<longleftrightarrow> rs_lawful L (DataShards scheme) (ParityShards scheme) \<and> zstd_lawful L \<and> zstd_bounded L \<and> hkdf_lawful L"

definition chunk_code :: "libs \<Rightarrow> RSScheme \<Rightarrow> bytes list \<Rightarrow> bytes \<Rightarrow> bool" where
  "chunk_code L scheme raws d \<longleftrightarrow>
     int (length raws) = TotalShards scheme \<and>
     (\<forall>shards. erased_from raws shards \<longrightarrow> nat (DataShards scheme) \<le> available shards \<longrightarrow>
        (\<exists>m. MergeShardToChunk L \<lparr>encScheme = scheme\<rparr> shards = Inr m \<and> Decompress L m = Inr d))"

lemma encode_chunk:
  assumes "lawful L scheme" and "int (length d) \<le> DefaultChunkSize"
  shows "\<exists>cb raws. Compress L d = Inr cb \<and> SplitChunkToShards L \<lparr>encScheme = scheme\<rparr> cb = Inr raws
     \<and> chunk_code L scheme raws d"
proof -
  have rs: "rs_lawful L (DataShards scheme) (ParityShards scheme)" and z: "zstd_lawful L"
    and small: "length (zstd_EncodeAll L d) < 2 ^ 32"
    using assms by (auto simp: lawful_def zstd_bounded_def)
  obtain cb where cb: "Compress L d = Inr cb" "4 \<le> length cb" using Compress_total [OF z] by blast
  then have "cb \<noteq> []" by auto
  then obtain xs par n where split: "SplitChunkToShards L \<lparr>encScheme = scheme\<rparr> cb = Inr (xs @ par)"
    and len: "length xs = nat (DataShards scheme)" "length par = nat (ParityShards scheme)"
    and cat: "concat xs = pad_chunk (nat (DataShards scheme)) cb"
    and rec: "\<And>shards. erased_from (xs @ par) shards \<Longrightarrow> nat (DataShards scheme) \<le> available shards \<Longrightarrow>
       rs_Reconstruct L (DataShards scheme) (ParityShards scheme) shards = Inr (map Some (xs @ par))"
    by (rule SplitChunkToShards_slices [OF rs]) blast
  obtain m where "pad_chunk (nat (DataShards scheme)) cb = cb @ replicate m 0"
    using pad_chunk_prefix by blast
  then have "Decompress L (concat xs) = Inr d"
    using Decompress_padded [OF z cb(1) small] cat by simp
  moreover have "int (length (xs @ par)) = TotalShards scheme"
    using rs len by (simp add: TotalShards_def rs_lawful_def)
  ultimately have "chunk_code L scheme (xs @ par) d"
    using MergeShardToChunk_full [OF rec len(1)] unfolding chunk_code_def by blast
  with cb split show ?thesis by blast
qed

text \<open>The shards of a chunk.\<close>

definition chunk_shards :: "libs \<Rightarrow> RSScheme \<Rightarrow> bytes \<Rightarrow> bytes list" where
  "chunk_shards L scheme d =
     (case rbind (Compress L d) (SplitChunkToShards L \<lparr>encScheme = scheme\<rparr>) of Inl _ \<Rightarrow> [] | Inr raws \<Rightarrow> raws)"

lemma encode_chunk_shards:
  assumes "lawful L scheme" and "int (length d) \<le> DefaultChunkSize"
  shows "\<exists>cb. Compress L d = Inr cb \<and> SplitChunkToShards L \<lparr>encScheme = scheme\<rparr> cb = Inr (chunk_shards L scheme d)"
    and "chunk_code L scheme (chunk_shards L scheme d) d"
  using encode_chunk [OF assms] by (auto simp: chunk_shards_def)

subsection \<open>The loop over shards\<close>

text \<open>A stored shard: the ciphertext in the store decrypts to it.\<close>

definition holds :: "libs \<Rightarrow> fs \<Rightarrow> Store \<Rightarrow> string \<Rightarrow> bytes \<Rightarrow> int \<Rightarrow> bytes \<Rightarrow> bool" where
  "holds L s st fid key i p \<longleftrightarrow> (\<exists>ct. Get s st fid i = Inr ct \<and> DecryptShard L key i ct = Inr p)"

definition holds_from :: "libs \<Rightarrow> fs \<Rightarrow> Store \<Rightarrow> string \<Rightarrow> bytes \<Rightarrow> int \<Rightarrow> bytes list \<Rightarrow> bool" where
  "holds_from L s st fid key i ps \<longleftrightarrow> (\<forall>j < length ps. holds L s st fid key (i + int j) (ps ! j))"

text \<open>The state in which shards can be stored.\<close>

definition ready :: "ShardMeta list codec \<Rightarrow> fs \<Rightarrow> Store \<Rightarrow> bool" where
  "ready c s st \<longleftrightarrow> marshals c \<and> store_ok s (stRoot st) \<and> fault_free s"

lemma holds_from_Cons:
  "holds_from L s st fid key i (p # ps) \<longleftrightarrow> holds L s st fid key i p \<and> holds_from L s st fid key (i + 1) ps"
proof -
  have "(\<forall>j < Suc n. P j) \<longleftrightarrow> P 0 \<and> (\<forall>j < n. P (Suc j))" for P and n :: nat
    using All_less_Suc2 by blast
  then show ?thesis by (simp add: holds_from_def algebra_simps)
qed

lemma holds_from_append:
  "holds_from L s st fid key i (ps @ qs) \<longleftrightarrow>
     holds_from L s st fid key i ps \<and> holds_from L s st fid key (i + int (length ps)) qs"
  by (induction ps arbitrary: i) (simp_all add: holds_from_Cons algebra_simps holds_from_def [of _ _ _ _ _ _ "[]"])

lemma holds_from_cong:
  assumes "\<And>j. i \<le> j \<Longrightarrow> j < i + int (length ps) \<Longrightarrow> Get s' st fid j = Get s st fid j"
  shows "holds_from L s' st fid key i ps \<longleftrightarrow> holds_from L s st fid key i ps"
  using assms by (auto simp: holds_from_def holds_def)

text \<open>
  What an operation leaves alone: the files outside a set of paths, the faults, and the shape of a
  shard store away from those paths.
\<close>

definition apart :: "(path \<Rightarrow> bool) \<Rightarrow> path \<Rightarrow> bool" where
  "apart A root \<longleftrightarrow> (\<forall>q. A q \<longrightarrow> \<not> beneath root q \<and> \<not> beneath q root)"

definition only_in :: "(path \<Rightarrow> bool) \<Rightarrow> fs \<Rightarrow> fs \<Rightarrow> bool" where
  "only_in A s s' \<longleftrightarrow> (\<forall>q x. \<not> A q \<longrightarrow> ReadFile s' q = Inr x \<longleftrightarrow> ReadFile s q = Inr x) \<and> same_faults s s'
     \<and> (\<forall>root. apart A root \<longrightarrow> store_ok s root \<longrightarrow> store_ok s' root)"

lemma only_in_refl [simp]: "only_in A s s"
  by (simp add: only_in_def)

lemma only_in_trans: "only_in A s t \<Longrightarrow> only_in A t u \<Longrightarrow> only_in A s u"
  by (auto simp: only_in_def intro: same_faults_trans)

lemma only_in_mono: "only_in A s t \<Longrightarrow> (\<And>q. A q \<Longrightarrow> B q) \<Longrightarrow> only_in B s t"
  unfolding only_in_def apart_def by blast

lemma only_in_store_ok: "only_in A s s' \<Longrightarrow> apart A root \<Longrightarrow> store_ok s root \<Longrightarrow> store_ok s' root"
  by (simp add: only_in_def)

lemma beneath_prefix: "r \<in> set (prefixes p) \<Longrightarrow> beneath root r \<Longrightarrow> beneath root p"
  by (auto simp: prefixes_def beneath_def min_def split: if_splits)

lemma beneath_trans: "beneath a b \<Longrightarrow> beneath b c \<Longrightarrow> beneath a c"
  by (auto simp: beneath_iff)

lemma MkdirAll_only_in:
  assumes "MkdirAll s p = (s', e)" and "A q" and "beneath p q"
  shows "only_in A s s'"
proof -
  have "store_ok s' root" if "apart A root" "store_ok s root" for root
  proof -
    have "\<not> beneath root r" if "r \<in> set (prefixes p)" for r
      using beneath_prefix [OF that] beneath_trans [OF _ assms(3)] \<open>apart A root\<close> assms(2) by (auto simp: apart_def)
    then show ?thesis
      using that(2) assms(1) by (auto simp: store_ok_def MkdirAll_def split: if_splits)
  qed
  then show ?thesis
    using ReadFile_MkdirAll [OF assms(1)] MkdirAll_faults [OF assms(1)] by (simp add: only_in_def)
qed

lemma store_ok_set_file:
  "store_ok s root \<Longrightarrow> \<not> beneath root p \<Longrightarrow> \<not> beneath p root \<Longrightarrow> store_ok (set_file s p d) root"
  unfolding store_ok_def set_file_keys set_file_simps by simp

lemma WriteFile_only_in:
  assumes "WriteFile s p d = (s', e)"
  shows "only_in (\<lambda>q. q = p) s s'"
proof -
  have "store_ok s' root" if "apart (\<lambda>q. q = p) root" "store_ok s root" for root
    using WriteFile_cases [OF assms] that store_ok_set_file by (auto simp: apart_def)
  then show ?thesis
    using ReadFile_WriteFile_other [OF assms] WriteFile_faults [OF assms] by (simp add: only_in_def)
qed

lemma put_file_only_in:
  assumes "put_file m1 m2 s p d = (s', e)"
  shows "only_in (\<lambda>q. q = p) s s'"
proof -
  obtain s1 e1 where m: "MkdirAll s (butlast p) = (s1, e1)" by fastforce
  obtain s2 e2 where w: "WriteFile s1 p d = (s2, e2)" by fastforce
  have "beneath (butlast p) p" by (simp add: beneath_def butlast_conv_take)
  from MkdirAll_only_in [OF m, of "\<lambda>q. q = p", OF refl this] have a: "only_in (\<lambda>q. q = p) s s1" .
  have "s' = s1 \<or> s' = s2" using assms by (auto simp: put_file_def m w split: option.splits)
  with a only_in_trans [OF a WriteFile_only_in [OF w]] show ?thesis by auto
qed

lemma only_in_ReadFile: "only_in A s s' \<Longrightarrow> \<not> A q \<Longrightarrow> ReadFile s' q = Inr x \<longleftrightarrow> ReadFile s q = Inr x"
  by (simp add: only_in_def)

lemma only_in_fault_free: "only_in A s s' \<Longrightarrow> fault_free s' = fault_free s"
  by (simp add: only_in_def same_faults_fault_free)

lemma Put_only_in:
  assumes "Put c s st fid i par d = (s', e)" and "plain_component fid"
  shows "only_in (beneath (stRoot st)) s s'"
proof -
  let ?A = "beneath (stRoot st)"
  obtain s1 e1 where m: "MkdirAll s (Join (stRoot st) [fid]) = (s1, e1)" by fastforce
  obtain s2 e2 where w: "WriteFile s1 (shardPath st fid i) d = (s2, e2)" by fastforce
  obtain s3 e3 where wm: "writeMeta c s2 st fid (upsert_meta fid i par (int (length d))
       (case readMeta c s2 st fid of Inl _ \<Rightarrow> [] | Inr m \<Rightarrow> m)) = (s3, e3)" by fastforce
  have a: "only_in ?A s s1"
    by (rule MkdirAll_only_in [OF m, of _ "stRoot st @ [fid]"]) (use assms(2) in \<open>simp_all add: Join_plain\<close>)
  have b: "only_in ?A s1 s2"
    by (rule only_in_mono [OF WriteFile_only_in [OF w]]) (use assms(2) in \<open>simp add: path_simps\<close>)
  have "only_in (\<lambda>q. q = metaPath st fid) s2 s3"
    using wm by (auto simp: writeMeta_def split: sum.splits dest: WriteFile_only_in)
  then have c: "only_in ?A s2 s3"
    by (rule only_in_mono) (use assms(2) in \<open>simp add: path_simps\<close>)
  have "s' \<in> {s1, s2, s3}"
    using assms(1) by (auto simp: Put_def Let_def m w wm split: option.splits)
  with a only_in_trans [OF a b] only_in_trans [OF only_in_trans [OF a b] c] show ?thesis by auto
qed

text \<open>The shards of other files stay.\<close>

definition other_ids :: "Store \<Rightarrow> string \<Rightarrow> fs \<Rightarrow> fs \<Rightarrow> bool" where
  "other_ids st fid s s' \<longleftrightarrow>
     (\<forall>f j x. plain_component f \<longrightarrow> f \<noteq> fid \<longrightarrow> Get s' st f j = Inr x \<longleftrightarrow> Get s st f j = Inr x)"

lemma other_ids_refl [simp]: "other_ids st fid s s"
  by (simp add: other_ids_def)

lemma other_ids_trans: "other_ids st fid s t \<Longrightarrow> other_ids st fid t u \<Longrightarrow> other_ids st fid s u"
  by (simp add: other_ids_def)

lemma Put_other_ids:
  assumes "Put c s st fid i par d = (s', e)" and "plain_component fid"
  shows "other_ids st fid s s'"
  unfolding other_ids_def
proof (intro allI impI)
  fix f j x assume "plain_component f" "f \<noteq> fid"
  then show "Get s' st f j = Inr x \<longleftrightarrow> Get s st f j = Inr x"
    using lstore.get_put_other [where k = "(fid, i)" and k' = "(f, j)" and par = "\<lambda>_. par"] assms by simp
qed

lemma nonce_total: "hkdf_lawful L \<Longrightarrow> r \<noteq> None \<Longrightarrow> \<exists>ct. EncryptShard L r key i p = Inr ct"
  using shard.enc_total [where L = L and k = "(key, i)" and p = p] by auto

lemma store_shards_ok:
  assumes "hkdf_lawful L" and "\<forall>i. rnd i \<noteq> None" and "plain_component fid" and "ready c s st"
  shows "\<exists>s' new. store_shards L c rnd st fid key ds ci si i s locs raws
        = (s', Inr (i + int (length raws), locs @ new))
     \<and> ready c s' st \<and> map slShardIndex new = map (\<lambda>j. i + int j) [0..<length raws]
     \<and> holds_from L s' st fid key i raws
     \<and> (\<forall>j x. j < i \<longrightarrow> Get s st fid j = Inr x \<longrightarrow> Get s' st fid j = Inr x)
     \<and> only_in (beneath (stRoot st)) s s' \<and> other_ids st fid s s'"
  using assms(4)
proof (induction raws arbitrary: si i s locs)
  case Nil
  then show ?case by (simp add: holds_from_def)
next
  case (Cons p raws)
  obtain ct where ct: "EncryptShard L (rnd i) key i p = Inr ct"
    using nonce_total [OF assms(1) assms(2) [rule_format]] by blast
  obtain s1 where s1: "Put c s st fid i (si \<ge> ds) ct = (s1, None)" and r1: "ready c s1 st"
    using lstore_total.put_total [of c s st "(fid, i)" "\<lambda>_. si \<ge> ds" ct] Cons.prems assms(3)
    by (auto simp: ready_def)
  have put_same: "Get s1 st fid i = Inr ct"
    using Get_Put_same [OF s1 assms(3)] Cons.prems by (simp add: ready_def fault_free_def)
  have keep: "Get s1 st fid j = Inr x \<longleftrightarrow> Get s st fid j = Inr x" if "j \<noteq> i" for j x
    using lstore.get_put_other [where k = "(fid, i)" and k' = "(fid, j)" and par = "\<lambda>_. si \<ge> ds"] s1 assms(3) that by simp
  let ?loc = "\<lparr>slShardIndex = i, slIsParity = si \<ge> ds, slBuddyID = ''local'',
      slStorageKey = ''chunk'' @ Itoa ci @ ''-shard'' @ Itoa si\<rparr>"
  from Cons.IH [OF r1, of "si + 1" "i + 1" "locs @ [?loc]"] obtain s' new where
    run: "store_shards L c rnd st fid key ds ci (si + 1) (i + 1) s1 (locs @ [?loc]) raws
        = (s', Inr (i + 1 + int (length raws), (locs @ [?loc]) @ new))"
    and r': "ready c s' st" and idx: "map slShardIndex new = map (\<lambda>j. i + 1 + int j) [0..<length raws]"
    and h: "holds_from L s' st fid key (i + 1) raws"
    and old: "\<And>j x. j < i + 1 \<Longrightarrow> Get s1 st fid j = Inr x \<Longrightarrow> Get s' st fid j = Inr x"
    and fr: "only_in (beneath (stRoot st)) s1 s'" "other_ids st fid s1 s'"
    by blast
  have "DecryptShard L key i ct = Inr p"
    using shard.dec_enc [of L "rnd i" "(key, i)" p ct] ct by simp
  moreover have "Get s' st fid i = Inr ct" using old [of i] put_same by simp
  ultimately have "holds_from L s' st fid key i (p # raws)"
    using h by (auto simp: holds_from_Cons holds_def)
  moreover have "map slShardIndex (?loc # new) = map (\<lambda>j. i + int j) [0..<length (p # raws)]"
    using idx by (simp add: upt_conv_Cons map_Suc_upt [symmetric] comp_def algebra_simps del: upt_Suc)
  moreover have "store_shards L c rnd st fid key ds ci si i s locs (p # raws)
      = (s', Inr (i + int (length (p # raws)), locs @ ?loc # new))"
    using run ct s1 by (simp add: Let_def algebra_simps)
  moreover have "\<forall>j x. j < i \<longrightarrow> Get s st fid j = Inr x \<longrightarrow> Get s' st fid j = Inr x"
    using old keep by (metis less_irrefl zless_add1_eq)
  ultimately show ?case
    using r' only_in_trans [OF Put_only_in [OF s1 assms(3)] fr(1)] other_ids_trans [OF Put_other_ids [OF s1 assms(3)] fr(2)] by blast
qed

subsection \<open>The loop over chunks\<close>

definition chunk_bytes :: "Chunk \<Rightarrow> bytes" where
  "chunk_bytes c = take (nat (chSize c)) (chData c)"

definition chunk_wf :: "Chunk \<Rightarrow> bool" where
  "chunk_wf c \<longleftrightarrow> 0 \<le> chSize c \<and> chSize c \<le> int (length (chData c)) \<and> chSize c \<le> DefaultChunkSize
     \<and> chHash c = Sum256 (chunk_bytes c)"

definition chunks_shards :: "libs \<Rightarrow> RSScheme \<Rightarrow> Chunk list \<Rightarrow> bytes list list" where
  "chunks_shards L scheme chunks = map (\<lambda>ch. chunk_shards L scheme (chunk_bytes ch)) chunks"

lemma chunks_shards_simps [simp]:
  "chunks_shards L scheme [] = []"
  "chunks_shards L scheme (ch # chunks) = chunk_shards L scheme (chunk_bytes ch) # chunks_shards L scheme chunks"
  by (simp_all add: chunks_shards_def)

lemma chunk_wf_length: "chunk_wf ch \<Longrightarrow> int (length (chunk_bytes ch)) \<le> DefaultChunkSize"
  by (auto simp: chunk_wf_def chunk_bytes_def min_def)

lemma chunks_shards_code:
  "lawful L scheme \<Longrightarrow> \<forall>ch \<in> set chunks. chunk_wf ch \<Longrightarrow>
     list_all2 (chunk_code L scheme) (chunks_shards L scheme chunks) (map chunk_bytes chunks)"
  by (induction chunks) (simp_all add: encode_chunk_shards(2) chunk_wf_length)

lemma map_upt_add: "map f [0..<a + b] = map f [0..<a] @ map (\<lambda>j. f (a + j)) [0..<b]"
  by (rule nth_equalityI) (auto simp: nth_append)

lemma store_chunks_ok:
  assumes "lawful L scheme" and "\<forall>i. rnd i \<noteq> None" and "plain_component fid" and "ready c s st"
    and "\<forall>ch \<in> set chunks. chunk_wf ch"
  shows "\<exists>s' new. store_chunks L c rnd st fid key \<lparr>encScheme = scheme\<rparr> i s locs chunks = (s', Inr (locs @ new))
     \<and> ready c s' st
     \<and> map slShardIndex new = map (\<lambda>j. i + int j) [0..<length (concat (chunks_shards L scheme chunks))]
     \<and> holds_from L s' st fid key i (concat (chunks_shards L scheme chunks))
     \<and> (\<forall>j x. j < i \<longrightarrow> Get s st fid j = Inr x \<longrightarrow> Get s' st fid j = Inr x)
     \<and> only_in (beneath (stRoot st)) s s' \<and> other_ids st fid s s'"
  using assms(4,5)
proof (induction chunks arbitrary: i s locs)
  case Nil
  then show ?case by (simp add: holds_from_def)
next
  case (Cons ch chunks)
  have wf: "chunk_wf ch" using Cons.prems(2) by simp
  from chunk_wf_length [OF this] obtain cb raws where cb: "Compress L (chunk_bytes ch) = Inr cb"
    and sp: "SplitChunkToShards L \<lparr>encScheme = scheme\<rparr> cb = Inr raws" and raws: "raws = chunk_shards L scheme (chunk_bytes ch)"
    using encode_chunk_shards [OF assms(1)] by blast
  have hk: "hkdf_lawful L" using assms(1) by (simp add: lawful_def)
  obtain s1 new1 where sh: "store_shards L c rnd st fid key (DataShards scheme) (chIndex ch) 0 i s locs raws
        = (s1, Inr (i + int (length raws), locs @ new1))"
    and r1: "ready c s1 st" and idx1: "map slShardIndex new1 = map (\<lambda>j. i + int j) [0..<length raws]"
    and h1: "holds_from L s1 st fid key i raws"
    and old1: "\<And>j x. j < i \<Longrightarrow> Get s st fid j = Inr x \<Longrightarrow> Get s1 st fid j = Inr x"
    and fr1: "only_in (beneath (stRoot st)) s s1" "other_ids st fid s s1"
    using store_shards_ok [OF hk assms(2,3) Cons.prems(1)] by blast
  define rawss where "rawss = chunks_shards L scheme chunks"
  from Cons.IH [OF r1, of "i + int (length raws)" "locs @ new1"] Cons.prems(2) obtain s' new where
    run: "store_chunks L c rnd st fid key \<lparr>encScheme = scheme\<rparr> (i + int (length raws)) s1 (locs @ new1) chunks
        = (s', Inr ((locs @ new1) @ new))"
    and r': "ready c s' st"
    and idx: "map slShardIndex new = map (\<lambda>j. i + int (length raws) + int j) [0..<length (concat rawss)]"
    and h: "holds_from L s' st fid key (i + int (length raws)) (concat rawss)"
    and old: "\<And>j x. j < i + int (length raws) \<Longrightarrow> Get s1 st fid j = Inr x \<Longrightarrow> Get s' st fid j = Inr x"
    and fr: "only_in (beneath (stRoot st)) s1 s'" "other_ids st fid s1 s'"
    unfolding rawss_def by auto
  have "holds_from L s' st fid key i raws"
    unfolding holds_from_def holds_def
  proof (intro allI impI)
    fix j assume j: "j < length raws"
    then have "i + int j < i + int (length raws)" by simp
    with j h1 old [of "i + int j"] show "\<exists>ct. Get s' st fid (i + int j) = Inr ct \<and> DecryptShard L key (i + int j) ct = Inr (raws ! j)"
      unfolding holds_from_def holds_def by blast
  qed
  moreover have "map slShardIndex (new1 @ new) = map (\<lambda>j. i + int j) [0..<length (raws @ concat rawss)]"
    by (simp only: map_append idx1 idx length_append map_upt_add of_nat_add add.assoc)
  moreover have "store_chunks L c rnd st fid key \<lparr>encScheme = scheme\<rparr> i s locs (ch # chunks) = (s', Inr (locs @ new1 @ new))"
    using run sh cb sp wf by (simp add: chunk_wf_def chunk_bytes_def)
  moreover have "\<forall>j x. j < i \<longrightarrow> Get s st fid j = Inr x \<longrightarrow> Get s' st fid j = Inr x"
    using old old1 by (smt (verit, best) of_nat_0_le_iff)
  ultimately show ?case
    using r' h only_in_trans [OF fr1(1) fr(1)] other_ids_trans [OF fr1(2) fr(2)]
    unfolding raws rawss_def
    by (intro exI [of _ s'] exI [of _ "new1 @ new"]) (simp add: holds_from_append)
qed

subsection \<open>The loop of a restore\<close>

text \<open>The output file is neither a shard of the file nor the registry.\<close>

definition clear_of :: "path \<Rightarrow> Store \<Rightarrow> string \<Rightarrow> Registry option \<Rightarrow> ShardLocation list \<Rightarrow> bool" where
  "clear_of out st fid reg locs \<longleftrightarrow>
     (\<forall>loc \<in> set locs. shardPath st fid (slShardIndex loc) \<noteq> out) \<and> (\<forall>r. reg = Some r \<longrightarrow> rgPath r \<noteq> out)"

lemma List_Registry_set_file:
  "rgPath r \<noteq> out \<Longrightarrow> List_Registry c ord (set_file s out x) r = List_Registry c ord s r"
  by (simp add: List_Registry_def load_Registry_def ReadFile_set_file)

lemma gather_shard_set_file:
  assumes "clear_of out st fid reg locs" and "loc \<in> set locs"
  shows "gather_shard E rc (set_file s out x) st self reg fid key loc = gather_shard E rc s st self reg fid key loc"
proof -
  have "Get (set_file s out x) st fid (slShardIndex loc) = Get s st fid (slShardIndex loc)"
    using assms by (auto simp: clear_of_def Get_def ReadFile_set_file)
  moreover have "tryFetchFromBuddies E b (set_file s out x) r o' fid i = tryFetchFromBuddies E b s r o' fid i" if "reg = Some r" for b r o' i
    using assms(1) that by (simp add: clear_of_def tryFetchFromBuddies_def List_Registry_set_file)
  ultimately show ?thesis
    by (auto simp: gather_shard_def Let_def split: sum.splits option.splits)
qed

text \<open>What was found of a chunk is enough to rebuild it: only true shards, and as many as the scheme needs.\<close>

definition enough :: "RSScheme \<Rightarrow> bytes option list \<Rightarrow> bytes list \<Rightarrow> bool" where
  "enough scheme shards raws \<longleftrightarrow> erased_from raws shards \<and> nat (DataShards scheme) \<le> available shards"

lemma restore_chunk_ok:
  assumes "chunk_code L scheme raws d" and "enough scheme shards raws" and "meCompressed entry" and "eL E = L"
  shows "restore_chunk E entry \<lparr>encScheme = scheme\<rparr> is_last shards = Inr d"
proof -
  obtain m where "MergeShardToChunk L \<lparr>encScheme = scheme\<rparr> shards = Inr m" "Decompress L m = Inr d"
    using assms(1,2) by (auto simp: chunk_code_def enough_def)
  then show ?thesis using assms(3,4) by (simp add: restore_chunk_def)
qed

lemma restore_loop_ok:
  assumes "list_all2 (chunk_code (eL E) scheme) rawss datas"
    and "list_all2 (\<lambda>locs. enough scheme (map (gather_shard E rc s st self reg fid key) locs)) groups rawss"
    and "meCompressed entry" and "wfault s out = None" and "clear_of out st fid reg (concat groups)"
    and "map_of (files s) out = Some cur"
  shows "\<exists>s'. restore_loop E rc st self reg fid key entry \<lparr>encScheme = scheme\<rparr> out s hashed groups
       = (s', Inr (hashed @ concat (map Sum256 datas)))
     \<and> map_of (files s') out = Some (cur @ concat datas) \<and> dirs s' = dirs s \<and> same_faults s s'"
  using assms
proof (induction groups arbitrary: s rawss datas hashed cur)
  case Nil
  then show ?case by simp
next
  case (Cons locs groups)
  obtain raws rawss' where raws: "rawss = raws # rawss'"
    and now: "enough scheme (map (gather_shard E rc s st self reg fid key) locs) raws"
    and later: "list_all2 (\<lambda>locs. enough scheme (map (gather_shard E rc s st self reg fid key) locs)) groups rawss'"
    using Cons.prems(2) by (auto simp: list_all2_Cons1)
  obtain d ds where datas: "datas = d # ds" and code: "chunk_code (eL E) scheme raws d"
    and codes: "list_all2 (chunk_code (eL E) scheme) rawss' ds"
    using Cons.prems(1) raws by (auto simp: list_all2_Cons1)
  let ?s = "set_file s out (cur @ d)"
  have w: "file_Write s out d = (?s, None)"
    using Cons.prems(4,6) by (simp add: file_Write_def)
  have same: "map (gather_shard E rc ?s st self reg fid key) ls = map (gather_shard E rc s st self reg fid key) ls"
    if "ls \<in> set groups" for ls
    using Cons.prems(5) that by (intro map_cong [OF refl] gather_shard_set_file [where locs = "concat (locs # groups)"]) auto
  have "list_all2 (\<lambda>locs. enough scheme (map (gather_shard E rc ?s st self reg fid key) locs)) groups rawss'"
    using later by (rule list.rel_mono_strong) (simp add: same)
  moreover have "clear_of out st fid reg (concat groups)"
    using Cons.prems(5) by (simp add: clear_of_def)
  ultimately obtain s' where s': "restore_loop E rc st self reg fid key entry \<lparr>encScheme = scheme\<rparr> out ?s (hashed @ Sum256 d) groups
       = (s', Inr ((hashed @ Sum256 d) @ concat (map Sum256 ds)))"
    "map_of (files s') out = Some ((cur @ d) @ concat ds)" "dirs s' = dirs s" "same_faults ?s s'"
    using Cons.IH [OF codes, of ?s "cur @ d" "hashed @ Sum256 d"] Cons.prems(3,4) by auto
  have "same_faults s s'" using s'(4) by (simp add: same_faults_def)
  with s' show ?case
    using restore_chunk_ok [OF code now Cons.prems(3) refl] w by (simp add: datas)
qed

text \<open>The groups of locations line up with the lists of shards.\<close>

lemma chunk_groups_Nil [simp]: "chunk_groups k [] = []"
  by (simp add: chunk_groups_def)

lemma chunk_groups_append:
  assumes "length xs = k" and "0 < k"
  shows "chunk_groups k (xs @ ys) = xs # chunk_groups k ys"
proof -
  have n: "length (xs @ ys) div k = Suc (length ys div k)" using assms by (simp add: div_add_self1)
  show ?thesis
    unfolding chunk_groups_def n
    by (subst upt_conv_Cons) (use assms in \<open>simp_all add: map_Suc_upt [symmetric] comp_def del: upt_Suc\<close>)
qed

lemma chunk_groups_concat:
  assumes "\<forall>xs \<in> set xss. length xs = k" and "0 < k"
  shows "chunk_groups k (concat xss) = xss"
  using assms by (induction xss) (simp_all add: chunk_groups_append)

lemma chunk_groups_match:
  assumes "map G locs = map Some (concat rawss)" and "\<forall>raws \<in> set rawss. length raws = k" and "0 < k"
  shows "list_all2 (\<lambda>ls raws. map G ls = map Some raws) (chunk_groups k locs) rawss"
  using assms
proof (induction rawss arbitrary: locs)
  case Nil
  then show ?case by simp
next
  case (Cons raws rawss)
  then obtain as bs where locs: "locs = as @ bs" and a: "map G as = map Some raws" and b: "map G bs = map Some (concat rawss)"
    by (auto simp: map_eq_append_conv)
  have "length as = k" using arg_cong [OF a, of length] Cons.prems(2) by simp
  then have "chunk_groups k locs = as # chunk_groups k bs"
    using locs Cons.prems(3) by (simp add: chunk_groups_append)
  with a Cons.IH [OF b] Cons.prems show ?case by simp
qed

lemma enough_if_found:
  assumes "map G ls = map Some raws" and "\<forall>loc \<in> set ls. F loc = None \<or> F loc = G loc"
    and "nat (DataShards scheme) \<le> available (map F ls)"
  shows "enough scheme (map F ls) raws"
proof -
  have len: "length ls = length raws" using arg_cong [OF assms(1), of length] by simp
  have "F (ls ! j) = None \<or> F (ls ! j) = Some (raws ! j)" if "j < length raws" for j
  proof -
    have "G (ls ! j) = Some (raws ! j)"
      using arg_cong [OF assms(1), of "\<lambda>xs. xs ! j"] that len by simp
    then show ?thesis using assms(2) that len by (metis nth_mem)
  qed
  with assms(3) len show ?thesis by (simp add: enough_def erased_from_def)
qed

subsection \<open>What the other steps of a backup touch\<close>

lemma ks_save_only_in: "ks_save L c r s k pw = (s', e) \<Longrightarrow> only_in (\<lambda>q. q = ksPath k) s s'"
  by (auto simp: ks_save_def Let_def split: sum.splits dest: put_file_only_in)

lemma StoreExtra_only_in:
  "StoreExtra L c r s ks n d pw = (ks', s', e) \<Longrightarrow> only_in (\<lambda>q. q = ksPath ks) s s' \<and> ksPath ks' = ksPath ks
     \<and> ksMasterKey ks' = ksMasterKey ks \<and> ksUnlocked ks' = ksUnlocked ks"
  by (auto simp: StoreExtra_def Let_def split: if_splits dest: ks_save_only_in)

lemma EnsurePeerIdentity_only_in:
  assumes "EnsurePeerIdentity L I c r1 r2 s ks pw = (ks', s', x)"
  shows "only_in (\<lambda>q. q = ksPath ks) s s' \<and> ksPath ks' = ksPath ks \<and> ksMasterKey ks' = ksMasterKey ks
     \<and> ksUnlocked ks' = ksUnlocked ks"
  using assms
  by (auto simp: EnsurePeerIdentity_def Let_def split: if_splits sum.splits prod.splits option.splits
      dest!: StoreExtra_only_in intro: only_in_trans)

lemma saveLocked_Queue_put: "saveLocked_Queue c s p d = (s', e) \<Longrightarrow> only_in (\<lambda>q. q = p) s s'"
proof -
  assume "saveLocked_Queue c s p d = (s', e)"
  then have "s' = s \<or> (\<exists>raw. s' = fst (put_file [] [] s p raw))"
    by (auto simp: saveLocked_Queue_def put_file_def split: sum.splits prod.splits option.splits) (metis fst_conv)
  then show ?thesis using put_file_only_in [OF prod.collapse [symmetric]] by auto
qed

lemma Enqueue_only_in: "Enqueue c s p peer push = (s', e) \<Longrightarrow> only_in (\<lambda>q. q = p) s s'"
  by (auto simp: Enqueue_def split: sum.splits dest: saveLocked_Queue_put)

lemma enqueue_all_only_in: "only_in (\<lambda>x. x = q) s (enqueue_all E q st o' fid peer s locs)"
proof (induction locs arbitrary: s)
  case Nil
  then show ?case by simp
next
  case (Cons loc locs)
  show ?case
    by (cases "Get s st fid (slShardIndex loc)")
       (simp_all add: Cons.IH only_in_trans [OF Enqueue_only_in Cons.IH, OF prod.collapse [symmetric]])
qed

lemma push_loop_only_in: "only_in (\<lambda>x. x = q) s (fst (push_loop E q st o' fid locs s entries))"
proof (induction entries arbitrary: s)
  case Nil
  then show ?case by simp
next
  case (Cons e entries)
  then show ?case
    by (auto simp: Let_def split: prod.splits intro: only_in_trans [OF enqueue_all_only_in])
       (metis fst_conv)+
qed

definition queue_path :: "env \<Rightarrow> path" where
  "queue_path E = Join (case ConfigDir (eOS E) of Inl _ \<Rightarrow> [] | Inr d \<Rightarrow> d) [''queue.json'']"

lemma pushToBuddies_only_in:
  "only_in (\<lambda>q. q = ksPath ks \<or> q = queue_path E) s (fst (pushToBuddies E fc s ks pw fid locs st))"
proof -
  obtain ks1 s1 x where id: "EnsurePeerIdentity (eL E) (eI E) (eKsJ E) (fcId1 fc) (fcId2 fc) s ks pw = (ks1, s1, x)"
    by (metis surj_pair)
  have a: "only_in (\<lambda>q. q = ksPath ks \<or> q = queue_path E) s s1"
    using EnsurePeerIdentity_only_in [OF id] by (auto intro: only_in_mono)
  have b: "only_in (\<lambda>q. q = ksPath ks \<or> q = queue_path E) s1 (fst (push_loop E (queue_path E) st o' fid locs s1 es))" for o' es
    by (rule only_in_mono [OF push_loop_only_in]) simp
  show ?thesis
    unfolding pushToBuddies_def id queue_path_def [symmetric]
    using a only_in_trans [OF a b] by (auto simp: Let_def split: sum.splits)
qed

subsection \<open>Backing up one file\<close>

lemma hex_chars: "c \<in> set (hex_EncodeToString bs) \<Longrightarrow> from_hex c \<noteq> None"
  by (auto simp: hex_EncodeToString_def hex_halves)

lemma hex_plain: "bs \<noteq> [] \<Longrightarrow> plain_component (hex_EncodeToString bs)"
proof -
  assume "bs \<noteq> []"
  then have "hex_EncodeToString bs \<noteq> []" by (auto simp: hex_EncodeToString_def neq_Nil_conv)
  moreover have "CHR ''/'' \<notin> set (hex_EncodeToString bs)" "CHR ''.'' \<notin> set (hex_EncodeToString bs)"
    using hex_chars [of "CHR ''/''" bs] hex_chars [of "CHR ''.''" bs] by (auto simp: from_hex_def)
  ultimately show ?thesis by (auto simp: plain_component_def)
qed

lemma fileID_plain: "length h = 32 \<Longrightarrow> plain_component (fileIDFromHash h)"
  unfolding fileIDFromHash_def by (rule hex_plain) auto

text \<open>The chunks of a file, and the hash of their hashes.\<close>

abbreviation file_chunks :: "bytes \<Rightarrow> Chunk list" where
  "file_chunks d \<equiv> chunks_of (nat DefaultChunkSize) 0 d"

definition content_hash :: "bytes list \<Rightarrow> bytes" where
  "content_hash ds = Sum256 (concat (map Sum256 ds))"

lemma DefaultChunkSize_pos: "0 < DefaultChunkSize" "0 < nat DefaultChunkSize"
  by (simp_all add: DefaultChunkSize_def)

lemma ChunkFile_total: "ReadFile s p = Inr d \<Longrightarrow> ChunkFile s p DefaultChunkSize = Some (Inr (file_chunks d))"
  using ChunkReader_total [OF DefaultChunkSize_pos(1)] DefaultChunkSize_pos by (simp add: ChunkFile_def Let_def)

lemma file_chunks_wf: "ch \<in> set (file_chunks d) \<Longrightarrow> chunk_wf ch"
proof -
  assume "ch \<in> set (file_chunks d)"
  then obtain buf where ch: "ch = mk_chunk (nat DefaultChunkSize) (chIndex ch) buf" and len: "length buf \<le> nat DefaultChunkSize"
    using chunks_of_member by blast
  from len have "chunk_wf (mk_chunk (nat DefaultChunkSize) (chIndex ch) buf)"
    by (simp add: chunk_wf_def chunk_bytes_def mk_chunk_def) (simp add: DefaultChunkSize_def)
  with ch show ?thesis by (simp only:)
qed

lemma file_chunks_data: "concat (map chunk_bytes (file_chunks d)) = d"
  using chunks_of_data [OF DefaultChunkSize_pos(2), of 0 d] by (simp add: chunk_bytes_def [abs_def])

lemma file_chunks_hash: "fileHashFromChunks (file_chunks d) = content_hash (map chunk_bytes (file_chunks d))"
proof -
  have "map chHash (file_chunks d) = map Sum256 (map chunk_bytes (file_chunks d))"
    using file_chunks_wf by (auto simp: chunk_wf_def)
  then show ?thesis by (simp only: fileHashFromChunks_def content_hash_def)
qed

text \<open>The files of the program's own state lie outside the shard store.\<close>

definition state_files :: "env \<Rightarrow> path \<Rightarrow> bool" where
  "state_files E q \<longleftrightarrow> q = queue_path E \<or> (\<exists>cfg. ConfigDir (eOS E) = Inr cfg \<and> q = Join cfg [''keystore.enc''])"

definition separate :: "env \<Rightarrow> Store \<Rightarrow> bool" where
  "separate E st \<longleftrightarrow> apart (state_files E) (stRoot st)"

lemma OpenKeystore_path: "OpenKeystore E s pw = Inr ks \<Longrightarrow> \<exists>cfg. ConfigDir (eOS E) = Inr cfg \<and> ksPath ks = Join cfg [''keystore.enc'']"
  by (auto simp: OpenKeystore_def NewKeystore_def split: sum.splits prod.splits option.splits dest: Unlock_ok_unlocked)

lemma push_step_only_in:
  "only_in (state_files E) s (case OpenKeystore E s pw of Inl _ \<Rightarrow> s | Inr ks \<Rightarrow> fst (pushToBuddies E fc s ks pw fid locs st))"
  by (cases "OpenKeystore E s pw")
     (auto intro!: only_in_mono [OF pushToBuddies_only_in] dest: OpenKeystore_path simp: state_files_def)

lemma Get_only_in:
  assumes "only_in A s s'" and "plain_component fid" and "\<And>q. A q \<Longrightarrow> \<not> beneath (stRoot st) q"
  shows "Get s' st fid i = Inr x \<longleftrightarrow> Get s st fid i = Inr x"
proof -
  have "\<not> A (shardPath st fid i)" using assms(3) [of "shardPath st fid i"] assms(2) by (auto simp: path_simps)
  then show ?thesis using only_in_ReadFile [OF assms(1)] by (simp add: Get_def)
qed

lemma holds_from_only_in:
  assumes "only_in A s s'" and "plain_component fid" and "\<And>q. A q \<Longrightarrow> \<not> beneath (stRoot st) q"
  shows "holds_from L s' st fid key i ps \<longleftrightarrow> holds_from L s st fid key i ps"
  unfolding holds_from_def holds_def using Get_only_in [OF assms] by simp

text \<open>The shards of a file.\<close>

abbreviation file_shards :: "env \<Rightarrow> RSScheme \<Rightarrow> bytes \<Rightarrow> bytes list list" where
  "file_shards E scheme d \<equiv> chunks_shards (eL E) scheme (file_chunks d)"

text \<open>What \<open>backupOneFile\<close> achieves: the entry it makes, and the shards behind it.\<close>

lemma backupOneFile_ok:
  assumes law: "lawful (eL E) scheme" and nonces: "\<forall>i. fcNonce fc i \<noteq> None" and ready: "ready (eMetaJ E) s st"
    and sep: "separate E st" and src: "ReadFile s src = Inr d" "\<not> beneath (stRoot st) src"
  obtains s' entry key where
    "backupOneFile E fc s src sz st pw mk mf scheme
       = Some (s', set_entries mf (AList.update (fcUuid fc) entry (AList.update (fcUuid fc) (entry\<lparr>meCompressed := False\<rparr>) (entries_of mf))),
               Inr (fileIDFromHash (content_hash (map chunk_bytes (file_chunks d))), int (length (concat (file_shards E scheme d)))))"
    "meHash entry = hex_EncodeToString (content_hash (map chunk_bytes (file_chunks d)))"
    "mePath entry = path_string src" "meSize entry = sz" "meScheme entry = scheme" "meCompressed entry" "meFileID entry = fcUuid fc"
    "meVersion entry = next_version (path_string src) (range_vals (fcOrd fc) (entries_of mf))"
    "map slShardIndex (meShards entry) = map int [0..<length (concat (file_shards E scheme d))]"
    "DeriveFileKey (eL E) mk (content_hash (map chunk_bytes (file_chunks d))) = Inr key"
    "holds_from (eL E) s' st (fileIDFromHash (content_hash (map chunk_bytes (file_chunks d)))) key 0 (concat (file_shards E scheme d))"
    "only_in (\<lambda>q. beneath (stRoot st) q \<or> state_files E q) s s'"
    "other_ids st (fileIDFromHash (content_hash (map chunk_bytes (file_chunks d)))) s s'"
    "ready (eMetaJ E) s' st"
proof -
  let ?h = "content_hash (map chunk_bytes (file_chunks d))"
  let ?fid = "fileIDFromHash ?h"
  have hk: "hkdf_lawful (eL E)" and rs: "rs_lawful (eL E) (DataShards scheme) (ParityShards scheme)"
    using law by (simp_all add: lawful_def)
  obtain key where key: "DeriveFileKey (eL E) mk ?h = Inr key" using DeriveFileKey_total [OF hk] by blast
  have plain: "plain_component ?fid" by (rule fileID_plain) (simp add: content_hash_def)
  have enc: "NewEncoder (eL E) scheme = Inr \<lparr>encScheme = scheme\<rparr>" using rs by (simp add: NewEncoder_def rs_lawful_def)
  obtain s1 locs where run: "store_chunks (eL E) (eMetaJ E) (fcNonce fc) st ?fid key \<lparr>encScheme = scheme\<rparr> 0 s [] (file_chunks d) = (s1, Inr locs)"
    and r1: "ready (eMetaJ E) s1 st"
    and idx: "map slShardIndex locs = map int [0..<length (concat (file_shards E scheme d))]"
    and h1: "holds_from (eL E) s1 st ?fid key 0 (concat (file_shards E scheme d))" and fr1: "only_in (beneath (stRoot st)) s s1"
    and oth1: "other_ids st ?fid s s1"
    using store_chunks_ok [OF law nonces plain ready, of "file_chunks d" key 0 "[]"] file_chunks_wf
    by auto
  have len: "length locs = length (concat (file_shards E scheme d))" using arg_cong [OF idx, of length] by simp
  have "ReadFile s1 src = Inr d" using only_in_ReadFile [OF fr1 src(2)] src(1) by simp
  then have stat: "Stat s1 src = Inr ()" by (auto simp: Stat_def ReadFile_eq_Inr is_file_def)
  define entry where "entry = \<lparr>meFileID = fcUuid fc, mePath = path_string src, meHash = hex_EncodeToString ?h,
     meSize = sz, meModified = fcModTime fc, meScheme = scheme, meShards = locs,
     meVersion = next_version (path_string src) (range_vals (fcOrd fc) (entries_of mf)),
     meBackedAt = fcNow fc, meCompressed = True\<rparr>"
  define s' where "s' = (case OpenKeystore E s1 pw of Inl _ \<Rightarrow> s1 | Inr ks \<Rightarrow> fst (pushToBuddies E fc s1 ks pw ?fid locs st))"
  have fr2: "only_in (state_files E) s1 s'" unfolding s'_def by (rule push_step_only_in)
  have "backupOneFile E fc s src sz st pw mk mf scheme
       = Some (s', set_entries mf (AList.update (fcUuid fc) entry (AList.update (fcUuid fc) (entry\<lparr>meCompressed := False\<rparr>) (entries_of mf))),
               Inr (?fid, int (length (concat (file_shards E scheme d)))))"
    using ChunkFile_total [OF src(1)] key enc run stat len
    by (simp add: backupOneFile_def file_chunks_hash Let_def Upsert_def entry_def s'_def set_entries_def)
  moreover have "holds_from (eL E) s' st ?fid key 0 (concat (file_shards E scheme d))"
    using h1 holds_from_only_in [OF fr2 plain] sep by (simp add: separate_def apart_def)
  moreover have "ready (eMetaJ E) s' st"
    using r1 only_in_store_ok [OF fr2] only_in_fault_free [OF fr2] sep by (simp add: ready_def separate_def)
  moreover have "other_ids st ?fid s s'"
    using oth1 Get_only_in [OF fr2] sep by (simp add: other_ids_def separate_def apart_def)
  moreover have "only_in (\<lambda>q. beneath (stRoot st) q \<or> state_files E q) s s'"
    by (rule only_in_trans [OF only_in_mono [OF fr1] only_in_mono [OF fr2]]) simp_all
  ultimately show thesis
    using that [of s' entry key] key idx by (simp add: entry_def)
qed

subsection \<open>Restoring a version\<close>

text \<open>The store id and the file key of a version.\<close>

definition version_keys :: "env \<Rightarrow> bytes \<Rightarrow> ManifestEntry \<Rightarrow> (string \<times> bytes) result" where
  "version_keys E mk entry =
     rbind (hexToHash (meHash entry)) (\<lambda>h. rbind (DeriveFileKey (eL E) mk h) (\<lambda>k. Inr (fileIDFromHash h, k)))"

text \<open>
  A version that can still be restored in the state \<open>s2\<close>, given the state \<open>s1\<close> that its backup left:
  the output file can be created; of every chunk at least as many shards as the scheme has data
  shards are found, in the store or at a buddy; and a shard that is found and decrypts is the one
  that was stored. Shards may be missing, and damaged ones that fail to authenticate count as missing.
\<close>

definition recoverable ::
  "env \<Rightarrow> restore_choice \<Rightarrow> fs \<Rightarrow> fs \<Rightarrow> Store \<Rightarrow> Keystore \<Rightarrow> string \<Rightarrow> bytes \<Rightarrow> path \<Rightarrow> ManifestEntry \<Rightarrow> bool" where
  "recoverable E rc s1 s2 st ks pw mk out entry \<longleftrightarrow>
     (case (version_keys E mk entry, restore_host E rc s2 ks pw) of
        (Inl _, _) \<Rightarrow> False
      | (Inr (fid, key), (s3, self, reg)) \<Rightarrow>
          is_dir s3 (butlast out) \<and> \<not> is_dir s3 out \<and> wfault s3 out = None \<and> \<not> rfault s3 out
          \<and> clear_of out st fid reg (meShards entry)
          \<and> (\<forall>loc \<in> set (meShards entry). gather_shard E rc s3 st self reg fid key loc = None
               \<or> gather_shard E rc s3 st self reg fid key loc = gather_shard E rc s1 st None None fid key loc)
          \<and> (\<forall>locs \<in> set (chunk_groups (nat (TotalShards (meScheme entry))) (meShards entry)).
               nat (DataShards (meScheme entry)) \<le> available (map (gather_shard E rc s3 st self reg fid key) locs)))"

lemma set_chunk_groups: "ls \<in> set (chunk_groups k xs) \<Longrightarrow> set ls \<subseteq> set xs"
  by (auto simp: chunk_groups_def dest: in_set_takeD in_set_dropD)

lemma gather_stored:
  assumes "holds_from (eL E) s st fid key 0 ps" and "map slShardIndex locs = map int [0..<length ps]"
  shows "map (gather_shard E rc s st None None fid key) locs = map Some ps"
proof (rule nth_equalityI)
  have len: "length locs = length ps" using arg_cong [OF assms(2), of length] by simp
  then show "length (map (gather_shard E rc s st None None fid key) locs) = length (map Some ps)" by simp
  fix j assume "j < length (map (gather_shard E rc s st None None fid key) locs)"
  then have j: "j < length ps" using len by simp
  have "slShardIndex (locs ! j) = int j"
    using arg_cong [OF assms(2), of "\<lambda>xs. xs ! j"] j len by simp
  moreover obtain ct where "Get s st fid (int j) = Inr ct" "DecryptShard (eL E) key (int j) ct = Inr (ps ! j)"
    using assms(1) j by (auto simp: holds_from_def holds_def)
  ultimately show "map (gather_shard E rc s st None None fid key) locs ! j = map Some ps ! j"
    using j len by (simp add: gather_shard_def)
qed

lemma hexToHash_nonempty: "hexToHash h = Inr b \<Longrightarrow> h \<noteq> []"
  by (auto simp: hexToHash_def)

lemma chunk_code_length: "chunk_code L scheme raws d \<Longrightarrow> length raws = nat (TotalShards scheme)"
  unfolding chunk_code_def by (metis nat_int)

lemma codes_lengths: "list_all2 (chunk_code L scheme) rawss ds \<Longrightarrow> \<forall>raws \<in> set rawss. length raws = nat (TotalShards scheme)"
  by (induction rule: list_all2_induct) (auto dest: chunk_code_length)

lemma restore_entry_ok:
  assumes law: "lawful (eL E) (meScheme entry)" and hash: "meHash entry = hex_EncodeToString (content_hash ds)"
    and comp: "meCompressed entry" and idx: "map slShardIndex (meShards entry) = map int [0..<length (concat rawss)]"
    and key: "DeriveFileKey (eL E) mk (content_hash ds) = Inr key"
    and codes: "list_all2 (chunk_code (eL E) (meScheme entry)) rawss ds"
    and held: "holds_from (eL E) s1 st (fileIDFromHash (content_hash ds)) key 0 (concat rawss)"
    and rec: "recoverable E rc s1 s2 st ks pw mk out entry"
  shows "\<exists>s'. restore_entry E rc s2 st ks pw mk out entry = (s', Inr \<lparr>rrEntry = entry, rrIntegrityPassed = True\<rparr>)
     \<and> ReadFile s' out = Inr (concat ds)"
proof -
  let ?fid = "fileIDFromHash (content_hash ds)" and ?T = "TotalShards (meScheme entry)"
  have rs: "rs_lawful (eL E) (DataShards (meScheme entry)) (ParityShards (meScheme entry))"
    using law by (simp add: lawful_def)
  then have T: "0 < ?T" and enc: "NewEncoder (eL E) (meScheme entry) = Inr \<lparr>encScheme = meScheme entry\<rparr>"
    by (simp_all add: rs_lawful_def TotalShards_def NewEncoder_def)
  have lens: "\<forall>raws \<in> set rawss. length raws = nat ?T"
    by (rule codes_lengths [OF codes])
  have hx: "hexToHash (meHash entry) = Inr (content_hash ds)"
    by (simp add: hexToHash_def hash content_hash_def)
  obtain s3 self reg where host: "restore_host E rc s2 ks pw = (s3, self, reg)" by (metis surj_pair)
  have vk: "version_keys E mk entry = Inr (?fid, key)" by (simp add: version_keys_def hx key)
  let ?G = "gather_shard E rc s1 st None None ?fid key" and ?F = "gather_shard E rc s3 st self reg ?fid key"
  let ?groups = "chunk_groups (nat ?T) (meShards entry)"
  have dir: "is_dir s3 (butlast out)" "\<not> is_dir s3 out" "wfault s3 out = None" "\<not> rfault s3 out"
    and clear: "clear_of out st ?fid reg (meShards entry)"
    and true: "\<forall>loc \<in> set (meShards entry). ?F loc = None \<or> ?F loc = ?G loc"
    and many: "\<forall>locs \<in> set ?groups. nat (DataShards (meScheme entry)) \<le> available (map ?F locs)"
    using rec by (simp_all add: recoverable_def vk host)
  have match: "list_all2 (\<lambda>ls raws. map ?G ls = map Some raws) ?groups rawss"
    by (rule chunk_groups_match [OF gather_stored [OF held idx] lens]) (use T in simp)
  have grp: "concat ?groups = meShards entry" and n: "length (meShards entry) = length rawss * nat ?T"
  proof -
    have "length (concat rawss) = length rawss * nat ?T"
      using lens by (induction rawss) simp_all
    then show n: "length (meShards entry) = length rawss * nat ?T" using arg_cong [OF idx, of length] by simp
    then show "concat ?groups = meShards entry"
      using T concat_slices [of "meShards entry" "length rawss" "nat ?T"] by (simp add: chunk_groups_def)
  qed
  have s2: "os_Create s3 out = (set_file s3 out [], None)" using dir by (simp add: os_Create_def)
  have same: "gather_shard E rc (set_file s3 out []) st self reg ?fid key loc = ?F loc" if "loc \<in> set (meShards entry)" for loc
    by (rule gather_shard_set_file [OF clear that])
  have "list_all2 (\<lambda>ls. enough (meScheme entry) (map (gather_shard E rc (set_file s3 out []) st self reg ?fid key) ls)) ?groups rawss"
  proof (rule list.rel_mono_strong [OF match])
    fix ls raws assume ls: "ls \<in> set ?groups" and "map ?G ls = map Some raws"
    then have "enough (meScheme entry) (map ?F ls) raws"
      using true many set_chunk_groups [OF ls] by (intro enough_if_found) auto
    moreover have "map (gather_shard E rc (set_file s3 out []) st self reg ?fid key) ls = map ?F ls"
      using set_chunk_groups [OF ls] same by auto
    ultimately show "enough (meScheme entry) (map (gather_shard E rc (set_file s3 out []) st self reg ?fid key) ls) raws" by (simp only:)
  qed
  from restore_loop_ok [OF codes this comp, of out "[]" "[]"] obtain s' where
    s': "restore_loop E rc st self reg ?fid key entry \<lparr>encScheme = meScheme entry\<rparr> out (set_file s3 out []) [] ?groups
       = (s', Inr (concat (map Sum256 ds)))" "map_of (files s') out = Some (concat ds)" "dirs s' = dirs s3" "same_faults (set_file s3 out []) s'"
    using clear dir by (auto simp: grp)
  have "ReadFile s' out = Inr (concat ds)"
    using s'(2-4) dir by (simp add: ReadFile_eq_Inr is_dir_def same_faults_def)
  moreover have "finish_restore s' out entry (concat (map Sum256 ds)) = (s', Inr \<lparr>rrEntry = entry, rrIntegrityPassed = True\<rparr>)"
    using hexToHash_nonempty [OF hx] by (simp add: finish_restore_def) (simp add: hash content_hash_def)
  moreover have "int (length (meShards entry)) mod ?T = 0" using n T by simp
  ultimately show ?thesis
    using T by (simp add: restore_entry_def hx key host enc s2 s'(1) Let_def)
qed

subsection \<open>What a restore reports\<close>

lemma restore_loop_hashes:
  "restore_loop E rc st self reg fid key entry enc out s hashed groups = (s', Inr h) \<Longrightarrow>
     map_of (files s) out = Some cur \<Longrightarrow>
     \<exists>ds. h = hashed @ concat (map Sum256 ds) \<and> map_of (files s') out = Some (cur @ concat ds)"
proof (induction groups arbitrary: s hashed cur)
  case Nil
  then show ?case by (intro exI [of _ "[]"]) simp
next
  case (Cons locs groups)
  from Cons.prems(1) obtain d s1 where w: "file_Write s out d = (s1, None)"
    and rest: "restore_loop E rc st self reg fid key entry enc out s1 (hashed @ Sum256 d) groups = (s', Inr h)"
    by (auto split: sum.splits prod.splits option.splits)
  have "map_of (files s1) out = Some (cur @ d)"
    using w Cons.prems(2) by (auto simp: file_Write_def Let_def split: option.splits write_fault.splits if_splits)
  from Cons.IH [OF rest this] obtain ds where "h = (hashed @ Sum256 d) @ concat (map Sum256 ds)"
    "map_of (files s') out = Some ((cur @ d) @ concat ds)" by blast
  then show ?case by (intro exI [of _ "d # ds"]) simp
qed

lemma restore_entry_sound:
  assumes "restore_entry E rc s st ks pw mk out entry = (s', Inr r)"
  shows "\<exists>ds. map_of (files s') out = Some (concat ds) \<and> hex_EncodeToString (content_hash ds) = meHash entry
     \<and> rrEntry r = entry \<and> rrIntegrityPassed r"
proof -
  from assms obtain hash s2 key s3 self reg enc h s1 where hx: "hexToHash (meHash entry) = Inr hash"
    and cr: "os_Create s1 out = (s2, None)"
    and loop: "restore_loop E rc st self reg (fileIDFromHash hash) key entry enc out s2 []
        (chunk_groups (nat (TotalShards (meScheme entry))) (meShards entry)) = (s3, Inr h)"
    and fin: "finish_restore s3 out entry h = (s', Inr r)"
    by (auto simp: restore_entry_def Let_def split: sum.splits prod.splits option.splits if_splits)
  have "map_of (files s2) out = Some []" using cr by (auto simp: os_Create_def split: if_splits)
  from restore_loop_hashes [OF loop this] obtain ds where
    ds: "h = concat (map Sum256 ds)" "map_of (files s3) out = Some (concat ds)" by auto
  then show ?thesis
    using fin hexToHash_nonempty [OF hx] by (auto simp: finish_restore_def content_hash_def split: if_splits)
qed

subsection \<open>A concrete environment\<close>

definition demo_os :: osenv where
  "demo_os = \<lparr>oeConfigDirVar = Some [''cfg''], oeAppData = None, oeHome = [''home''], oeUserConfigDir = Inl ErrIO\<rparr>"

definition demo_net :: network where
  "demo_net = \<lparr>nwNewHost = (\<lambda>_. Inl ErrIO), nwDecode = (\<lambda>_. True), nwMultiaddr = (\<lambda>_. True), nwConnect = (\<lambda>_ _. False),
     nwPushStream = (\<lambda>_ _ _. Inl ErrIO), nwPullStream = (\<lambda>_ _ _. Inl ErrIO), nwPeers = [],
     nwConnected = (\<lambda>_. False), nwAddrInfo = (\<lambda>_. Inl ErrIO), nwHostAddrs = [], nwPubKey = (\<lambda>k. Inr k),
     nwPeerAddrs = (\<lambda>_. []), nwInviteStream = (\<lambda>_. Inl ErrIO), nwManifestStream = (\<lambda>_. Inl ErrIO)\<rparr>"

definition demo_env :: env where
  "demo_env = \<lparr>eL = demo_libs, eI = demo_id, eJ = demo_mcodecs, eKsJ = codec_of ks_fmt, eMfJ = codec_of manifest_fmt,
     eMetaJ = codec_of meta_fmt, eQueueJ = codec_of queue_fmt, eStatusJ = codec_of status_fmt, eOS = demo_os, eNet = demo_net\<rparr>"

definition demo_scheme :: RSScheme where
  "demo_scheme = \<lparr>DataShards = 2, ParityShards = 1\<rparr>"

definition demo_fc :: file_choice where
  "demo_fc = \<lparr>fcUuid = ''u1'', fcNow = 5, fcModTime = 4, fcOrd = [], fcNonce = (\<lambda>i. Some (\<lambda>_. 7)),
     fcId1 = None, fcId2 = None, fcBuddies = []\<rparr>"

definition demo_rc :: restore_choice where
  "demo_rc = \<lparr>rcKs1 = None, rcKs2 = None, rcOrd = [], rcId1 = None, rcId2 = None, rcBuddies = (\<lambda>_. [])\<rparr>"

definition demo_fs :: fs where
  "demo_fs = empty_fs\<lparr>files := [([''src'', ''f''], [1, 2, 3]), ([''out''], [])], dirs := [[''src'']]\<rparr>"

abbreviation demo_st :: Store where
  "demo_st \<equiv> \<lparr>stRoot = [''cfg'', ''store'']\<rparr>"

lemma demo_env_sel [simp]:
  "eL demo_env = demo_libs" "eMetaJ demo_env = codec_of meta_fmt" "eOS demo_env = demo_os" "eNet demo_env = demo_net"
  "eMfJ demo_env = codec_of manifest_fmt" "eKsJ demo_env = codec_of ks_fmt" "eI demo_env = demo_id" "eStatusJ demo_env = codec_of status_fmt"
  by (simp_all add: demo_env_def)

lemma demo_lawful: "lawful demo_libs demo_scheme"
  by (simp add: lawful_def demo_scheme_def demo_rs_lawful demo_zstd_lawful demo_hkdf_lawful zstd_bounded_def)
     (simp add: demo_libs_def DefaultChunkSize_def)

lemma demo_paths: "ConfigDir demo_os = Inr [''cfg'']" "Join [''cfg''] [''keystore.enc''] = [''cfg'', ''keystore.enc'']"
  "Join [''cfg''] [''queue.json''] = [''cfg'', ''queue.json'']"
  by (simp_all add: ConfigDir_def demo_os_def Join_def path_step_def)

lemma demo_state_files: "state_files demo_env q \<longleftrightarrow> q = [''cfg'', ''queue.json''] \<or> q = [''cfg'', ''keystore.enc'']"
  by (auto simp: state_files_def queue_path_def demo_paths)

lemma demo_separate: "separate demo_env demo_st"
  by (auto simp: separate_def apart_def demo_state_files beneath_def)

lemma demo_ready: "ready (codec_of meta_fmt) demo_fs demo_st"
  by (simp add: ready_def codec_of_marshals store_ok_def demo_fs_def empty_fs_def fault_free_def beneath_def)

lemma demo_reads: "ReadFile demo_fs [''src'', ''f''] = Inr [1, 2, 3]" "ReadFile demo_fs [''out''] = Inr []"
  by (simp_all add: ReadFile_def demo_fs_def empty_fs_def is_dir_def)

text \<open>A key store that is still locked yields no host, so only the local store is used.\<close>

lemma locked_restore_host: "\<not> ksUnlocked ks \<Longrightarrow> LoadExtra ks peerKeyName = [] \<Longrightarrow> restore_host E rc s ks pw = (s, None, None)"
  by (auto simp: restore_host_def EnsurePeerIdentity_def StoreExtra_def Let_def split: sum.splits prod.splits)

definition demo_opened :: fs where
  "demo_opened = demo_fs\<lparr>dirs := [[''cfg''], [''cfg'', ''store''], [''src'']]\<rparr>"

lemma demo_OpenStore: "OpenStore demo_env demo_fs (Some [''cfg'', ''store'']) = (demo_opened, Inr demo_st)"
  by (simp add: OpenStore_def New_def MkdirAll_def demo_fs_def demo_opened_def empty_fs_def prefixes_def is_file_def is_dir_def upt_rec)

lemma demo_OpenKeystore:
  assumes "files s = files demo_opened @ extra" and "fst ` set extra \<subseteq> {[''cfg'', ''manifest.enc'']}" and "dirs s = dirs demo_opened" and "fault_free s"
  shows "\<exists>payload ks. OpenOrCreateKeystore demo_env (Some (\<lambda>_. 1)) (Some (\<lambda>_. 2)) s ''pw''
       = (set_file s [''cfg'', ''keystore.enc''] payload, Inr ks) \<and> ksUnlocked ks
         \<and> ksMasterKey ks = DeriveKey demo_libs ''pw'' (map (\<lambda>_. 1) [0..<16])"
proof -
  let ?p = "[''cfg'', ''keystore.enc'']"
  have extra: "q \<noteq> [''cfg'', ''manifest.enc''] \<Longrightarrow> map_of extra q = None" for q
    using assms(2) by (auto simp: map_of_eq_None_iff)
  have stat: "Stat s ?p = Inl ErrNotExist"
    using assms extra by (simp add: Stat_def demo_opened_def demo_fs_def empty_fs_def is_file_def is_dir_def fault_free_def map_add_def)
  have put: "put_file m1 m2 s ?p b = (set_file s ?p b, None)" for m1 m2 b
  proof -
    have "is_dir s [''cfg'']" "\<not> is_dir s ?p" "\<not> is_file s [''cfg'']"
      using assms(1,3) extra by (simp_all add: demo_opened_def demo_fs_def empty_fs_def is_file_def is_dir_def map_add_def)
    moreover have "MkdirAll s [''cfg''] = (s, None)"
      using calculation assms(4) by (simp add: MkdirAll_def prefixes_def fault_free_def)
    ultimately show ?thesis using assms(4) by (simp add: put_file_def WriteFile_def fault_free_def)
  qed
  define salt :: bytes where "salt = map (\<lambda>_. 1) [0..<16]"
  have salt: "NewSalt (Some (\<lambda>_. 1)) = Inr salt" by (simp add: NewSalt_def rand_read_def SaltSize_def salt_def)
  define ks where "ks = (NewKeystore ?p)\<lparr>ksSalt := salt, ksMasterKey := DeriveKey demo_libs ''pw'' salt, ksUnlocked := True\<rparr>"
  obtain pt where pt: "Marshal (codec_of ks_fmt) (keystore_json ks) = Inr pt" by (simp add: codec_of_def)
  have "valid_key (DeriveKey demo_libs ''pw'' salt)" by (simp add: length_DeriveKey demo_argon2_lawful)
  from aes.enc_total [OF this] obtain enc where enc: "Encrypt (Some (\<lambda>_. 2)) (DeriveKey demo_libs ''pw'' salt) pt = Inr enc"
    by blast
  have "ks_save demo_libs (codec_of ks_fmt) (Some (\<lambda>_. 2)) s ks ''pw'' = (set_file s ?p (salt @ enc), None)"
    using pt enc put by (simp add: ks_save_def ks_def NewKeystore_def)
  then have "OpenOrCreateKeystore demo_env (Some (\<lambda>_. 1)) (Some (\<lambda>_. 2)) s ''pw''
       = (set_file s ?p (salt @ enc), Inr ks)"
    using stat salt by (simp add: OpenOrCreateKeystore_def demo_paths Create_def ks_def [symmetric])
  then show ?thesis by (auto simp: ks_def salt_def)
qed

text \<open>Right after the backup every version is recoverable from the local store alone.\<close>

lemma recoverable_locally:
  assumes "restore_host E rc s1 ks pw = (s1, None, None)" and "version_keys E mk entry = Inr (fid, key)"
    and "holds_from (eL E) s1 st fid key 0 (concat rawss)" and "map slShardIndex (meShards entry) = map int [0..<length (concat rawss)]"
    and "\<forall>raws \<in> set rawss. length raws = nat (TotalShards (meScheme entry))" and "0 < TotalShards (meScheme entry)"
    and "0 \<le> ParityShards (meScheme entry)" and "plain_component fid"
    and "is_dir s1 (butlast out)" and "ReadFile s1 out = Inr x" and "wfault s1 out = None" and "\<not> beneath (stRoot st) out"
  shows "recoverable E rc s1 s1 st ks pw mk out entry"
proof -
  let ?T = "TotalShards (meScheme entry)"
  have match: "list_all2 (\<lambda>ls raws. map (gather_shard E rc s1 st None None fid key) ls = map Some raws)
      (chunk_groups (nat ?T) (meShards entry)) rawss"
    by (rule chunk_groups_match [OF gather_stored [OF assms(3,4)] assms(5)]) (use assms(6) in simp)
  have "nat (DataShards (meScheme entry)) \<le> available (map (gather_shard E rc s1 st None None fid key) ls)"
    if ls: "ls \<in> set (chunk_groups (nat ?T) (meShards entry))" for ls
  proof -
    obtain raws where "raws \<in> set rawss" "map (gather_shard E rc s1 st None None fid key) ls = map Some raws"
      using ls list_all2_nthD [OF match] list_all2_lengthD [OF match] by (metis in_set_conv_nth)
    then show ?thesis using assms(5,7) by (simp add: available_all TotalShards_def nat_le_iff)
  qed
  moreover have "clear_of out st fid None (meShards entry)"
    using assms(8,12) by (auto simp: clear_of_def path_simps)
  ultimately show ?thesis
    using assms(9-11) by (simp add: recoverable_def assms(1,2) ReadFile_eq_Inr)
qed

subsection \<open>Properties\<close>

text \<open>C2. The round trip of a file. On a fault-free disk backing up a readable file succeeds and adds an
  entry for it to the manifest; and from any later state in which, for every chunk, at least as many
  of its shards as the scheme has data shards can still be found (in the local store or at a buddy,
  the others being missing or failing to authenticate), restoring that entry succeeds, reports that the
  integrity check passed, and writes exactly the bytes of the original file. In particular the loss
  of up to as many shards per chunk as the scheme has parity shards is harmless.\<close>

theorem backup_then_restore:
  assumes "lawful (eL E) scheme" and "\<forall>i. fcNonce fc i \<noteq> None" and "ready (eMetaJ E) s st" and "separate E st"
    and "ReadFile s src = Inr d" and "\<not> beneath (stRoot st) src"
  shows "\<exists>s1 mf1 fid n entry. backupOneFile E fc s src sz st pw mk mf scheme = Some (s1, mf1, Inr (fid, n))
     \<and> Get_Manifest mf1 (fcUuid fc) = Some entry \<and> mePath entry = path_string src \<and> meSize entry = sz
     \<and> (\<forall>rc s2 ks pw2 out. recoverable E rc s1 s2 st ks pw2 mk out entry \<longrightarrow>
          (\<exists>s3. restore_entry E rc s2 st ks pw2 mk out entry = (s3, Inr \<lparr>rrEntry = entry, rrIntegrityPassed = True\<rparr>)
             \<and> ReadFile s3 out = Inr d))"
proof -
  obtain s1 entry key where b: "backupOneFile E fc s src sz st pw mk mf scheme
       = Some (s1, set_entries mf (AList.update (fcUuid fc) entry (AList.update (fcUuid fc) (entry\<lparr>meCompressed := False\<rparr>) (entries_of mf))),
               Inr (fileIDFromHash (content_hash (map chunk_bytes (file_chunks d))), int (length (concat (file_shards E scheme d)))))"
    and e: "meHash entry = hex_EncodeToString (content_hash (map chunk_bytes (file_chunks d)))"
      "mePath entry = path_string src" "meSize entry = sz" "meScheme entry = scheme" "meCompressed entry"
      "map slShardIndex (meShards entry) = map int [0..<length (concat (file_shards E scheme d))]"
    and k: "DeriveFileKey (eL E) mk (content_hash (map chunk_bytes (file_chunks d))) = Inr key"
    and h: "holds_from (eL E) s1 st (fileIDFromHash (content_hash (map chunk_bytes (file_chunks d)))) key 0 (concat (file_shards E scheme d))"
    by (rule backupOneFile_ok [OF assms])
  have c: "list_all2 (chunk_code (eL E) scheme) (file_shards E scheme d) (map chunk_bytes (file_chunks d))"
    using chunks_shards_code [OF assms(1)] file_chunks_wf by blast
  have law: "lawful (eL E) (meScheme entry)" and c': "list_all2 (chunk_code (eL E) (meScheme entry)) (file_shards E scheme d) (map chunk_bytes (file_chunks d))"
    using assms(1) c e(4) by simp_all
  have "\<exists>s3. restore_entry E rc s2 st ks pw2 mk out entry = (s3, Inr \<lparr>rrEntry = entry, rrIntegrityPassed = True\<rparr>)
      \<and> ReadFile s3 out = Inr d" if "recoverable E rc s1 s2 st ks pw2 mk out entry" for rc s2 ks pw2 out
    using restore_entry_ok [OF law e(1,5,6) k c' h that] by (simp add: file_chunks_data)
  then show ?thesis
    using b e(2,3) by (auto simp: Get_Manifest_def set_entries_def)
qed

theorem backup_then_restore_witness:
  "\<exists>s1 mf1 fid n entry s3. backupOneFile demo_env demo_fc demo_fs [''src'', ''f''] 3 demo_st ''pw'' [9] (New_Manifest [''m''] [9]) demo_scheme
       = Some (s1, mf1, Inr (fid, n))
     \<and> restore_entry demo_env demo_rc s1 demo_st (NewKeystore [''k'']) ''pw'' [9] [''out''] entry
       = (s3, Inr \<lparr>rrEntry = entry, rrIntegrityPassed = True\<rparr>)
     \<and> ReadFile s3 [''out''] = Inr [1, 2, 3]"
proof -
  have hyp: "lawful (eL demo_env) demo_scheme" "\<forall>i. fcNonce demo_fc i \<noteq> None" "ready (eMetaJ demo_env) demo_fs demo_st"
    "separate demo_env demo_st" "ReadFile demo_fs [''src'', ''f''] = Inr [1, 2, 3]" "\<not> beneath (stRoot demo_st) [''src'', ''f'']"
    by (simp_all add: demo_lawful demo_ready demo_separate demo_reads demo_fc_def beneath_def)
  let ?mf = "New_Manifest [''m''] [9]" and ?ks = "NewKeystore [''k'']"
  let ?d = "[1, 2, 3] :: bytes"
  obtain s1 entry key where b: "backupOneFile demo_env demo_fc demo_fs [''src'', ''f''] 3 demo_st ''pw'' [9] ?mf demo_scheme
       = Some (s1, set_entries ?mf (AList.update (fcUuid demo_fc) entry (AList.update (fcUuid demo_fc) (entry\<lparr>meCompressed := False\<rparr>) (entries_of ?mf))),
               Inr (fileIDFromHash (content_hash (map chunk_bytes (file_chunks ?d))), int (length (concat (file_shards demo_env demo_scheme ?d)))))"
    and e: "meHash entry = hex_EncodeToString (content_hash (map chunk_bytes (file_chunks ?d)))" "meScheme entry = demo_scheme"
      "map slShardIndex (meShards entry) = map int [0..<length (concat (file_shards demo_env demo_scheme ?d))]"
    and k: "DeriveFileKey (eL demo_env) [9] (content_hash (map chunk_bytes (file_chunks ?d))) = Inr key"
    and h: "holds_from (eL demo_env) s1 demo_st (fileIDFromHash (content_hash (map chunk_bytes (file_chunks ?d)))) key 0 (concat (file_shards demo_env demo_scheme ?d))"
    and fr: "only_in (\<lambda>q. beneath (stRoot demo_st) q \<or> state_files demo_env q) demo_fs s1"
    by (rule backupOneFile_ok [OF hyp])
  have out: "\<not> (beneath (stRoot demo_st) [''out''] \<or> state_files demo_env [''out''])"
    by (simp add: beneath_def demo_state_files)
  have ff: "fault_free s1" using only_in_fault_free [OF fr] demo_ready by (simp add: ready_def)
  have rd: "ReadFile s1 [''out''] = Inr []" using only_in_ReadFile [OF fr out] demo_reads by simp
  have vk: "version_keys demo_env [9] entry = Inr (fileIDFromHash (content_hash (map chunk_bytes (file_chunks ?d))), key)"
    using e(1) k by (simp add: version_keys_def hexToHash_def content_hash_def)
  have "recoverable demo_env demo_rc s1 s1 demo_st ?ks ''pw'' [9] [''out''] entry"
  proof (rule recoverable_locally [OF locked_restore_host vk h e(3)])
    show "\<forall>raws \<in> set (file_shards demo_env demo_scheme ?d). length raws = nat (TotalShards (meScheme entry))"
      unfolding e(2) by (rule codes_lengths [OF chunks_shards_code]) (use hyp(1) file_chunks_wf in blast)+
    show "plain_component (fileIDFromHash (content_hash (map chunk_bytes (file_chunks ?d))))"
      by (rule fileID_plain) (simp add: content_hash_def)
  qed (use rd ff out e(2) in \<open>simp_all add: NewKeystore_def LoadExtra_def is_dir_def fault_free_def demo_scheme_def TotalShards_def\<close>)
  moreover obtain t1 mf1 fid n entry1 where t: "backupOneFile demo_env demo_fc demo_fs [''src'', ''f''] 3 demo_st ''pw'' [9] ?mf demo_scheme
       = Some (t1, mf1, Inr (fid, n))" "Get_Manifest mf1 (fcUuid demo_fc) = Some entry1"
    and again: "\<And>rc s2 ks pw2 out. recoverable demo_env rc t1 s2 demo_st ks pw2 [9] out entry1 \<Longrightarrow>
          \<exists>s3. restore_entry demo_env rc s2 demo_st ks pw2 [9] out entry1 = (s3, Inr \<lparr>rrEntry = entry1, rrIntegrityPassed = True\<rparr>)
             \<and> ReadFile s3 out = Inr ?d"
    using backup_then_restore [OF hyp, of 3 "''pw''" "[9]" ?mf] by blast
  moreover have "t1 = s1" "entry1 = entry"
    using t b by (auto simp: Get_Manifest_def set_entries_def)
  ultimately show ?thesis by blast
qed

text \<open>A version without chunks, recorded with a given hash.\<close>

definition empty_version :: "bytes \<Rightarrow> ManifestEntry" where
  "empty_version h = \<lparr>meFileID = ''u1'', mePath = ''/src/f'', meHash = hex_EncodeToString h, meSize = 0, meModified = 0,
     meScheme = demo_scheme, meShards = [], meVersion = 1, meBackedAt = 0, meCompressed = True\<rparr>"

lemma empty_version_restore:
  assumes "length h = 32" and "restore_host demo_env rc s ks pw = (s, None, None)" and "\<not> is_dir s [''out'']" and "wfault s [''out''] = None"
  shows "restore_entry demo_env rc s st ks pw mk [''out''] (empty_version h)
     = finish_restore (set_file s [''out''] []) [''out''] (empty_version h) []"
proof -
  obtain key where "DeriveFileKey demo_libs mk h = Inr key" using DeriveFileKey_total [OF demo_hkdf_lawful] by blast
  moreover have "NewEncoder demo_libs demo_scheme = Inr \<lparr>encScheme = demo_scheme\<rparr>"
    by (simp add: NewEncoder_def demo_libs_def demo_scheme_def)
  ultimately show ?thesis
    using assms by (simp add: restore_entry_def empty_version_def hexToHash_def os_Create_def is_dir_def TotalShards_def demo_scheme_def)
qed

lemma finish_empty_version:
  "length h = 32 \<Longrightarrow> finish_restore s out (empty_version h) [] =
     (if h = Sum256 [] then (s, Inr \<lparr>rrEntry = empty_version h, rrIntegrityPassed = True\<rparr>)
      else (fst (Remove s out), Inl (Errorf ''INTEGRITY CHECK FAILED: hash mismatch'')))"
proof -
  assume "length h = 32"
  then have "hex_EncodeToString h \<noteq> []" using length_hex_EncodeToString [of h] by auto
  then show ?thesis
    by (auto simp: finish_restore_def empty_version_def dest: hex_EncodeToString_inj)
qed

text \<open>C3. A restore never passes damaged data off as restored: whenever \<open>Restore\<close> returns a result, the
  output file is a sequence of chunks whose hash of hashes is the hash recorded in the manifest entry
  that was chosen, and the result says that the integrity check passed.\<close>

theorem Restore_returns_only_verified_files:
  assumes "Restore E rc s P = (s', Inr r)" and "rpOut P = Some out"
  shows "(\<exists>ds. map_of (files s') out = Some (concat ds) \<and> hex_EncodeToString (content_hash ds) = meHash (rrEntry r))
     \<and> rrIntegrityPassed r"
proof -
  obtain s2 st ks mk entry where "restore_entry E rc s2 st ks (rpPassword P) mk out entry = (s', Inr r)"
    using assms by (auto simp: Restore_def split: sum.splits prod.splits if_splits)
  from restore_entry_sound [OF this] show ?thesis by auto
qed

theorem Restore_returns_only_verified_files_witness:
  "\<exists>s s' r ds. Restore demo_env (demo_rc\<lparr>rcKs1 := Some (\<lambda>_. 1), rcKs2 := Some (\<lambda>_. 2)\<rparr>) s
       \<lparr>rpStoreDir = Some [''cfg'', ''store''], rpPassword = ''pw'', rpOut = Some [''out''], rpFileID = ''u1'', rpFilePath = [], rpVersion = 0\<rparr> = (s', Inr r)
     \<and> map_of (files s') [''out''] = Some (concat ds) \<and> hex_EncodeToString (content_hash ds) = meHash (rrEntry r) \<and> rrIntegrityPassed r"
proof -
  define mk where "mk = DeriveKey demo_libs ''pw'' (map (\<lambda>_. 1) [0..<16])"
  let ?man = "[''cfg'', ''manifest.enc'']" and ?e = "empty_version (Sum256 [])"
  let ?d = "\<lparr>mdVersion = 1, mdEntries = [(''u1'', ?e)]\<rparr>"
  let ?rc = "demo_rc\<lparr>rcKs1 := Some (\<lambda>_. 1), rcKs2 := Some (\<lambda>_. 2)\<rparr>"
  let ?P = "\<lparr>rpStoreDir = Some [''cfg'', ''store''], rpPassword = ''pw'', rpOut = Some [''out''], rpFileID = ''u1'', rpFilePath = [], rpVersion = 0\<rparr>"
  have "valid_key mk" by (simp add: mk_def length_DeriveKey demo_argon2_lawful)
  then obtain enc where enc: "Encrypt (Some (\<lambda>_. 4)) mk (fst manifest_fmt ?d) = Inr enc" using aes.enc_total by blast
  define s where "s = demo_opened\<lparr>files := files demo_opened @ [(?man, enc)]\<rparr>"
  have s: "files s = files demo_opened @ [(?man, enc)]" "dirs s = dirs demo_opened" "fault_free s"
    by (simp_all add: s_def demo_opened_def demo_fs_def empty_fs_def fault_free_def)
  obtain payload ks where ks: "OpenOrCreateKeystore demo_env (Some (\<lambda>_. 1)) (Some (\<lambda>_. 2)) s ''pw''
       = (set_file s [''cfg'', ''keystore.enc''] payload, Inr ks)" "ksUnlocked ks" "ksMasterKey ks = mk"
    using demo_OpenKeystore [OF s(1) _ s(2,3)] by (auto simp: mk_def)
  let ?s2 = "set_file s [''cfg'', ''keystore.enc''] payload"
  have "MkdirAll s [''cfg'', ''store''] = (s, None)"
    by (simp add: MkdirAll_def s_def demo_opened_def demo_fs_def empty_fs_def prefixes_def is_file_def is_dir_def upt_rec)
  then have st: "OpenStore demo_env s (Some [''cfg'', ''store'']) = (s, Inr demo_st)" by (simp add: OpenStore_def New_def)
  have "ReadFile ?s2 ?man = Inr enc"
    using s(3) by (simp add: ReadFile_set_file) (simp add: ReadFile_def s_def demo_opened_def demo_fs_def empty_fs_def is_dir_def)
  moreover have "DefaultManifestPath demo_os = ?man" by (simp add: DefaultManifestPath_def demo_os_def Join_def path_step_def)
  moreover have "Unmarshal (codec_of manifest_fmt) (fst manifest_fmt ?d) = Inr ?d"
    using inverts_Unmarshal [OF codec_of_inverts [OF manifest_fmt_ok], of ?d] by (simp add: codec_of_def)
  ultimately have man: "OpenManifest demo_env ?s2 mk = Inr \<lparr>mfPath = ?man, mfMasterKey = mk, mfData = ?d\<rparr>"
    using aes.dec_enc [OF enc] by (simp add: OpenManifest_def Load_Manifest_def New_Manifest_def)
  have "restore_host demo_env ?rc ?s2 ks ''pw'' = (?s2, None, None)"
    by (auto simp: restore_host_def EnsurePeerIdentity_def StoreExtra_def ks_save_def Encrypt_def NewCipher_def rand_read_def demo_rc_def
        demo_net_def Let_def codec_of_def split: sum.splits prod.splits)
  then have r: "Restore demo_env ?rc s ?P = (set_file ?s2 [''out''] [], Inr \<lparr>rrEntry = ?e, rrIntegrityPassed = True\<rparr>)"
    using st ks man s(3)
    by (simp add: Restore_def MasterKey_def choose_entry_def Get_Manifest_def empty_version_restore finish_empty_version demo_rc_def
        is_dir_def s_def demo_opened_def demo_fs_def empty_fs_def)
  obtain ds where "map_of (files (set_file ?s2 [''out''] [])) [''out''] = Some (concat ds)" "hex_EncodeToString (content_hash ds) = meHash ?e"
    using Restore_returns_only_verified_files [OF r, of "[''out'']"] by auto
  with r show ?thesis by (intro exI conjI) (assumption | simp)+
qed

text \<open>C4. When the integrity check fails, no output is left behind: the file is removed unless the disk refuses.\<close>

theorem failed_integrity_check_leaves_no_output:
  assumes "restore_entry E rc s st ks pw mk out entry = (s', Inl (Errorf ''INTEGRITY CHECK FAILED: hash mismatch''))"
    and "\<not> mfault s' out"
  shows "\<not> is_file s' out"
proof -
  have no_chunk: "restore_chunk E entry enc l shards \<noteq> Inl (Errorf ''INTEGRITY CHECK FAILED: hash mismatch'')" for enc l shards
    by (auto simp: restore_chunk_def MergeShardToChunk_def Reconstruct_def trim_chunk_def Let_def wrap_def split: sum.splits if_splits)
  have no_loop: "snd (restore_loop E rc st self reg fid key entry enc out t hashed groups) \<noteq> Inl (Errorf ''INTEGRITY CHECK FAILED: hash mismatch'')"
    for self reg fid key enc t hashed groups
    by (induction groups arbitrary: t hashed) (auto simp: no_chunk split: sum.splits prod.splits option.splits)
  from assms(1) obtain s3 h where "finish_restore s3 out entry h = (s', Inl (Errorf ''INTEGRITY CHECK FAILED: hash mismatch''))"
    using no_loop
    by (auto simp: restore_entry_def hexToHash_def DeriveFileKey_def deriveSubKey_def NewEncoder_def os_Create_def Let_def wrap_def
        split: sum.splits prod.splits option.splits if_splits) (metis snd_conv)+
  then have "s' = fst (Remove s3 out)" by (auto simp: finish_restore_def split: if_splits)
  then show ?thesis
    using assms(2) by (auto simp: Remove_def is_file_def map_of_filter_pred [of "\<lambda>k. k \<noteq> out"] split: if_splits)
qed

theorem failed_integrity_check_leaves_no_output_witness:
  "\<exists>h s'. restore_entry demo_env demo_rc demo_fs demo_st (NewKeystore [''k'']) ''pw'' [9] [''out''] (empty_version h)
       = (s', Inl (Errorf ''INTEGRITY CHECK FAILED: hash mismatch'')) \<and> \<not> is_file s' [''out'']"
proof -
  obtain h :: bytes where h: "length h = 32" "h \<noteq> Sum256 []"
    by (metis length_replicate nth_replicate zero_less_numeral zero_neq_one)
  let ?s = "set_file demo_fs [''out''] []"
  have "restore_host demo_env demo_rc demo_fs (NewKeystore [''k'']) ''pw'' = (demo_fs, None, None)"
    by (rule locked_restore_host) (simp_all add: NewKeystore_def LoadExtra_def)
  then have r: "restore_entry demo_env demo_rc demo_fs demo_st (NewKeystore [''k'']) ''pw'' [9] [''out''] (empty_version h)
      = (fst (Remove ?s [''out'']), Inl (Errorf ''INTEGRITY CHECK FAILED: hash mismatch''))"
    using h by (simp add: empty_version_restore finish_empty_version demo_fs_def empty_fs_def is_dir_def)
  moreover have "\<not> mfault (fst (Remove ?s [''out''])) [''out'']" by (simp add: Remove_def demo_fs_def empty_fs_def)
  ultimately show ?thesis using failed_integrity_check_leaves_no_output [OF r] by blast
qed

end
