(* ===== verification/Backup_Run.thy ===== *)
theory Backup_Run
  imports Pipeline
begin

text \<open>
  A whole run of \<open>Backup\<close> over a directory tree: it ends, and after a run that reports success every
  file of the tree that was not excluded has an entry in the saved manifest from which it can
  be restored. The loop over the files is followed with the predicate \<open>backed_up\<close>, which each
  further file keeps for the files before it.
\<close>

subsection \<open>Termination\<close>

lemma ChunkFile_ends: "\<exists>r. ChunkFile s p DefaultChunkSize = Some r"
  using ChunkFile_total [of s p] DefaultChunkSize_pos
  by (cases "ReadFile s p") (auto simp: ChunkFile_def Let_def)

lemma backupOneFile_ends: "\<exists>x. backupOneFile E fc s src sz st pw mk mf scheme = Some x"
  using ChunkFile_ends [of s src]
  by (auto simp: backupOneFile_def Let_def split: sum.splits prod.splits)

lemma backup_files_ends: "\<exists>x. backup_files E fcs ef st pw mk scheme s mf acc lst todo = Some x"
proof (induction todo arbitrary: s mf acc lst)
  case Nil
  then show ?case by simp
next
  case (Cons pd todo)
  obtain p d where pd: "pd = (p, d)" by (cases pd)
  obtain s1 mf1 r where b: "backupOneFile E (fcs p) s p (int (length d)) st pw mk mf scheme = Some (s1, mf1, r)"
    using backupOneFile_ends by (metis prod_cases3)
  show ?case
    using Cons.IH by (cases r) (auto simp: pd b split: option.splits prod.splits)
qed

subsection \<open>The loop over the files\<close>

abbreviation file_hash :: "bytes \<Rightarrow> bytes" where
  "file_hash d \<equiv> content_hash (map chunk_bytes (file_chunks d))"

abbreviation file_id :: "bytes \<Rightarrow> string" where
  "file_id d \<equiv> fileIDFromHash (file_hash d)"

definition backed_up ::
  "env \<Rightarrow> fs \<Rightarrow> Store \<Rightarrow> bytes \<Rightarrow> Manifest \<Rightarrow> RSScheme \<Rightarrow> string \<Rightarrow> path \<Rightarrow> bytes \<Rightarrow> bool" where
  "backed_up E s st mk mf scheme uuid src d \<longleftrightarrow>
     (\<exists>entry key. Get_Manifest mf uuid = Some entry \<and> meHash entry = hex_EncodeToString (file_hash d)
        \<and> mePath entry = path_string src \<and> meSize entry = int (length d) \<and> meScheme entry = scheme \<and> meCompressed entry
        \<and> map slShardIndex (meShards entry) = map int [0..<length (concat (file_shards E scheme d))]
        \<and> DeriveFileKey (eL E) mk (file_hash d) = Inr key
        \<and> holds_from (eL E) s st (file_id d) key 0 (concat (file_shards E scheme d)))"

lemma holds_from_other:
  assumes "other_ids st fid s s'" and "f \<noteq> fid" and "plain_component f"
  shows "holds_from L s' st f key i ps \<longleftrightarrow> holds_from L s st f key i ps"
  using assms by (simp add: other_ids_def holds_from_def holds_def)

lemma file_id_plain: "plain_component (file_id d)"
  by (rule fileID_plain) (simp add: content_hash_def)

text \<open>Two files that share an id have the same contents: no collision in the first eight bytes of the hash.\<close>

definition collision_free :: "bytes list \<Rightarrow> bool" where
  "collision_free ds \<longleftrightarrow> (\<forall>a \<in> set ds. \<forall>b \<in> set ds. file_id a = file_id b \<longrightarrow> a = b)"

text \<open>What one file needs.\<close>

definition backup_hyps :: "env \<Rightarrow> (path \<Rightarrow> file_choice) \<Rightarrow> Store \<Rightarrow> RSScheme \<Rightarrow> bool" where
  "backup_hyps E fcs st scheme \<longleftrightarrow> lawful (eL E) scheme \<and> (\<forall>p i. fcNonce (fcs p) i \<noteq> None) \<and> separate E st"

definition source_ok :: "env \<Rightarrow> fs \<Rightarrow> Store \<Rightarrow> path \<times> bytes \<Rightarrow> bool" where
  "source_ok E s st pd \<longleftrightarrow> ReadFile s (fst pd) = Inr (snd pd) \<and> \<not> beneath (stRoot st) (fst pd) \<and> \<not> state_files E (fst pd)"

lemma backup_one_step:
  assumes "backup_hyps E fcs st scheme" and "ready (eMetaJ E) s st" and "source_ok E s st (p, d)"
  obtains s' mf' where "backupOneFile E (fcs p) s p (int (length d)) st pw mk mf scheme
      = Some (s', mf', Inr (file_id d, int (length (concat (file_shards E scheme d)))))"
    "ready (eMetaJ E) s' st" "only_in (\<lambda>q. beneath (stRoot st) q \<or> state_files E q) s s'"
    "backed_up E s' st mk mf' scheme (fcUuid (fcs p)) p d"
    "\<And>uuid src d'. backed_up E s st mk mf scheme uuid src d' \<Longrightarrow> uuid \<noteq> fcUuid (fcs p) \<Longrightarrow> (file_id d' = file_id d \<Longrightarrow> d' = d)
       \<Longrightarrow> backed_up E s' st mk mf' scheme uuid src d'"
    "mfPath mf' = mfPath mf" "mfMasterKey mf' = mfMasterKey mf"
proof -
  have hyp: "lawful (eL E) scheme" "\<forall>i. fcNonce (fcs p) i \<noteq> None" "separate E st" "ReadFile s p = Inr d" "\<not> beneath (stRoot st) p"
    using assms by (simp_all add: backup_hyps_def source_ok_def)
  obtain s' entry key where b: "backupOneFile E (fcs p) s p (int (length d)) st pw mk mf scheme
       = Some (s', set_entries mf (AList.update (fcUuid (fcs p)) entry (AList.update (fcUuid (fcs p)) (entry\<lparr>meCompressed := False\<rparr>) (entries_of mf))),
               Inr (file_id d, int (length (concat (file_shards E scheme d)))))"
    and e: "meHash entry = hex_EncodeToString (file_hash d)" "mePath entry = path_string p" "meSize entry = int (length d)"
      "meScheme entry = scheme" "meCompressed entry"
      "map slShardIndex (meShards entry) = map int [0..<length (concat (file_shards E scheme d))]"
    and k: "DeriveFileKey (eL E) mk (file_hash d) = Inr key"
    and h: "holds_from (eL E) s' st (file_id d) key 0 (concat (file_shards E scheme d))"
    and fr: "only_in (\<lambda>q. beneath (stRoot st) q \<or> state_files E q) s s'" "other_ids st (file_id d) s s'" "ready (eMetaJ E) s' st"
    by (rule backupOneFile_ok [OF hyp(1,2) assms(2) hyp(3-5)])
  let ?mf = "set_entries mf (AList.update (fcUuid (fcs p)) entry (AList.update (fcUuid (fcs p)) (entry\<lparr>meCompressed := False\<rparr>) (entries_of mf)))"
  have get: "Get_Manifest ?mf u = (if u = fcUuid (fcs p) then Some entry else Get_Manifest mf u)" for u
    by (simp add: Get_Manifest_def set_entries_def)
  have "backed_up E s' st mk ?mf scheme (fcUuid (fcs p)) p d"
    unfolding backed_up_def get by (intro exI [of _ entry] exI [of _ key]) (use e k h in simp)
  moreover have "backed_up E s' st mk ?mf scheme uuid src d'"
    if old: "backed_up E s st mk mf scheme uuid src d'" and u: "uuid \<noteq> fcUuid (fcs p)" and col: "file_id d' = file_id d \<Longrightarrow> d' = d" for uuid src d'
  proof -
    obtain entry' key' where o': "Get_Manifest mf uuid = Some entry'" "meHash entry' = hex_EncodeToString (file_hash d')"
      "mePath entry' = path_string src" "meSize entry' = int (length d')" "meScheme entry' = scheme" "meCompressed entry'"
      "map slShardIndex (meShards entry') = map int [0..<length (concat (file_shards E scheme d'))]"
      "DeriveFileKey (eL E) mk (file_hash d') = Inr key'" "holds_from (eL E) s st (file_id d') key' 0 (concat (file_shards E scheme d'))"
      using old by (auto simp: backed_up_def)
    have "holds_from (eL E) s' st (file_id d') key' 0 (concat (file_shards E scheme d'))"
    proof (cases "file_id d' = file_id d")
      case True
      from col [OF True] h k o'(8) show ?thesis by simp
    next
      case False
      from holds_from_other [OF fr(2) False file_id_plain] o'(9) show ?thesis by simp
    qed
    with o' u show ?thesis unfolding backed_up_def get by (intro exI [of _ entry'] exI [of _ key']) simp
  qed
  ultimately show thesis
    using that [of s' ?mf] b fr by (simp add: set_entries_def)
qed

definition excluded :: "Filter option \<Rightarrow> path \<Rightarrow> bool" where
  "excluded ef p = (case ef of None \<Rightarrow> False | Some f \<Rightarrow> Match_Filter f p)"

lemma backup_files_Cons:
  "backup_files E fcs ef st pw mk scheme s mf acc lst ((p, d) # rest) =
     (if excluded ef p then backup_files E fcs ef st pw mk scheme s mf acc lst rest
      else case backupOneFile E (fcs p) s p (int (length d)) st pw mk mf scheme of
             None \<Rightarrow> None
           | Some (s', mf', Inl e) \<Rightarrow>
               backup_files E fcs ef st pw mk scheme s' mf'
                 (acc @ [\<lparr>bfPath = p, bfFileID = [], bfShards = 0, bfErr = Some e\<rparr>]) lst rest
           | Some (s', mf', Inr (fileID, shards)) \<Rightarrow>
               backup_files E fcs ef st pw mk scheme s' mf'
                 (acc @ [\<lparr>bfPath = p, bfFileID = fileID, bfShards = shards, bfErr = None\<rparr>]) (Some p) rest)"
  by (simp add: excluded_def)

lemma source_ok_step:
  assumes "only_in (\<lambda>q. beneath (stRoot st) q \<or> state_files E q) s s'" and "source_ok E s st pd"
  shows "source_ok E s' st pd"
  using only_in_ReadFile [OF assms(1), of "fst pd"] assms(2) by (simp add: source_ok_def)

lemma backup_files_ok:
  assumes "backup_hyps E fcs st scheme" and "ready (eMetaJ E) s st" and "\<forall>pd \<in> set todo. source_ok E s st pd"
    and "collision_free (ds @ map snd todo)" and "distinct (us @ map (\<lambda>pd. fcUuid (fcs (fst pd))) todo)"
    and "\<forall>(u, p, d) \<in> set old. backed_up E s st mk mf scheme u p d \<and> u \<in> set us \<and> d \<in> set ds"
  shows "\<exists>s' mf' lst'. backup_files E fcs ef st pw mk scheme s mf acc lst todo
       = Some (s', mf', acc @ map (\<lambda>(p, d). \<lparr>bfPath = p, bfFileID = file_id d, bfShards = int (length (concat (file_shards E scheme d))), bfErr = None\<rparr>)
            (filter (\<lambda>pd. \<not> excluded ef (fst pd)) todo), lst')
     \<and> ready (eMetaJ E) s' st \<and> only_in (\<lambda>q. beneath (stRoot st) q \<or> state_files E q) s s'
     \<and> mfPath mf' = mfPath mf \<and> mfMasterKey mf' = mfMasterKey mf
     \<and> (\<forall>(u, p, d) \<in> set old. backed_up E s' st mk mf' scheme u p d)
     \<and> (\<forall>(p, d) \<in> set todo. \<not> excluded ef p \<longrightarrow> backed_up E s' st mk mf' scheme (fcUuid (fcs p)) p d)"
  using assms(2-)
proof (induction todo arbitrary: s mf acc lst old us ds)
  case Nil
  then show ?case by auto
next
  case (Cons pd todo)
  obtain p d where pd: "pd = (p, d)" by (cases pd)
  show ?case
  proof (cases "excluded ef p")
    case True
    have "collision_free (ds @ map snd todo)" using Cons.prems(3) by (auto simp: collision_free_def)
    moreover have "backup_files E fcs ef st pw mk scheme s mf acc lst (pd # todo) = backup_files E fcs ef st pw mk scheme s mf acc lst todo"
      using True by (simp add: pd backup_files_Cons del: backup_files.simps)
    ultimately show ?thesis
      using Cons.IH [of s ds us old mf acc lst] Cons.prems True by (simp add: pd)
  next
    case False
    obtain s1 mf1 where b: "backupOneFile E (fcs p) s p (int (length d)) st pw mk mf scheme
        = Some (s1, mf1, Inr (file_id d, int (length (concat (file_shards E scheme d)))))"
      and r1: "ready (eMetaJ E) s1 st" and fr1: "only_in (\<lambda>q. beneath (stRoot st) q \<or> state_files E q) s s1"
      and new: "backed_up E s1 st mk mf1 scheme (fcUuid (fcs p)) p d"
      and keep: "\<And>uuid src d'. backed_up E s st mk mf scheme uuid src d' \<Longrightarrow> uuid \<noteq> fcUuid (fcs p) \<Longrightarrow> (file_id d' = file_id d \<Longrightarrow> d' = d)
         \<Longrightarrow> backed_up E s1 st mk mf1 scheme uuid src d'"
      and mfs: "mfPath mf1 = mfPath mf" "mfMasterKey mf1 = mfMasterKey mf"
      by (rule backup_one_step [OF assms(1) Cons.prems(1)]) (use Cons.prems(2) pd in auto)
    let ?done = "acc @ [\<lparr>bfPath = p, bfFileID = file_id d, bfShards = int (length (concat (file_shards E scheme d))), bfErr = None\<rparr>]"
    have src: "\<forall>pd \<in> set todo. source_ok E s1 st pd"
      using Cons.prems(2) source_ok_step [OF fr1] by simp
    have col: "collision_free ((d # ds) @ map snd todo)" and dist: "distinct ((fcUuid (fcs p) # us) @ map (\<lambda>pd. fcUuid (fcs (fst pd))) todo)"
      using Cons.prems(3,4) by (auto simp: collision_free_def pd)
    have old: "\<forall>(u, q, d') \<in> set ((fcUuid (fcs p), p, d) # old).
        backed_up E s1 st mk mf1 scheme u q d' \<and> u \<in> set (fcUuid (fcs p) # us) \<and> d' \<in> set (d # ds)"
    proof -
      have "backed_up E s1 st mk mf1 scheme u q d' \<and> u \<in> set us \<and> d' \<in> set ds" if m: "(u, q, d') \<in> set old" for u q d'
      proof -
        have o': "backed_up E s st mk mf scheme u q d'" "u \<in> set us" "d' \<in> set ds" using Cons.prems(5) m by auto
        moreover have "u \<noteq> fcUuid (fcs p)" using o'(2) Cons.prems(4) pd by auto
        moreover have "file_id d' = file_id d \<Longrightarrow> d' = d" using o'(3) col by (auto simp: collision_free_def)
        ultimately show ?thesis using keep by blast
      qed
      with new show ?thesis by auto
    qed
    from Cons.IH [OF r1 src col dist old, of ?done "Some p"] obtain s' mf' lst' where
      run: "backup_files E fcs ef st pw mk scheme s1 mf1 ?done (Some p) todo
       = Some (s', mf', ?done @ map (\<lambda>(p, d). \<lparr>bfPath = p, bfFileID = file_id d, bfShards = int (length (concat (file_shards E scheme d))), bfErr = None\<rparr>)
            (filter (\<lambda>pd. \<not> excluded ef (fst pd)) todo), lst')"
      and r': "ready (eMetaJ E) s' st" "only_in (\<lambda>q. beneath (stRoot st) q \<or> state_files E q) s1 s'"
        "mfPath mf' = mfPath mf1" "mfMasterKey mf' = mfMasterKey mf1"
      and all: "\<forall>(u, q, d') \<in> set ((fcUuid (fcs p), p, d) # old). backed_up E s' st mk mf' scheme u q d'"
        "\<forall>(q, d') \<in> set todo. \<not> excluded ef q \<longrightarrow> backed_up E s' st mk mf' scheme (fcUuid (fcs q)) q d'"
      by blast
    have "backup_files E fcs ef st pw mk scheme s mf acc lst (pd # todo)
       = Some (s', mf', acc @ map (\<lambda>(p, d). \<lparr>bfPath = p, bfFileID = file_id d, bfShards = int (length (concat (file_shards E scheme d))), bfErr = None\<rparr>)
            (filter (\<lambda>pd. \<not> excluded ef (fst pd)) (pd # todo)), lst')"
      using run b False by (simp add: pd backup_files_Cons del: backup_files.simps)
    with r' mfs all only_in_trans [OF fr1 r'(2)] show ?thesis by (intro exI conjI) (assumption | simp add: pd)+
  qed
qed

subsection \<open>After the walk\<close>

lemma Rename_only_in:
  assumes "Rename s p q = (s', e)"
  shows "only_in (\<lambda>x. x = p \<or> x = q) s s'"
proof -
  consider "s' = s" | d where "s' = s\<lparr>files := AList.update q d (filter (\<lambda>x. fst x \<noteq> p) (files s))\<rparr>"
    using Rename_cases [OF assms] by blast
  then show ?thesis
  proof cases
    case 2
    have "store_ok s' root" if "apart (\<lambda>x. x = p \<or> x = q) root" "store_ok s root" for root
    proof -
      have "fst ` set (files s') \<subseteq> insert q (fst ` set (files s))"
        unfolding dom_map_of_conv_image_fst [symmetric] 2
        by (auto simp: map_of_filter_pred [of "\<lambda>k. k \<noteq> p"] split: if_splits)
      then have "\<forall>r \<in> fst ` set (files s'). \<not> beneath r root \<and> \<not> (beneath root r \<and> length r = Suc (length root))"
        using that unfolding store_ok_def apart_def by blast
      moreover have "dirs s' = dirs s" using 2 by simp
      ultimately show ?thesis using that(2) unfolding store_ok_def by simp
    qed
    moreover have "ReadFile s' r = ReadFile s r" if "r \<noteq> p" "r \<noteq> q" for r
      using 2 that by (simp add: ReadFile_def is_dir_def map_of_filter_pred [of "\<lambda>k. k \<noteq> p"])
    ultimately show ?thesis using 2 by (simp add: only_in_def same_faults_def)
  qed simp
qed

definition status_files :: "env \<Rightarrow> path \<Rightarrow> bool" where
  "status_files E q \<longleftrightarrow>
     (\<exists>cfg. ConfigDir (eOS E) = Inr cfg \<and> (q = Join cfg [statusFile @ ''.tmp''] \<or> q = Join cfg [statusFile]))"

lemma write_status_only_in: "only_in (status_files E) s (write_status E bc s lst)"
proof (cases "lst = None \<or> (\<exists>e. ConfigDir (eOS E) = Inl e)")
  case True
  then show ?thesis by (auto simp: write_status_def split: option.splits)
next
  case False
  then obtain p cfg where p: "lst = Some p" and cfg: "ConfigDir (eOS E) = Inr cfg"
    by (cases "ConfigDir (eOS E)") auto
  let ?tmp = "Join cfg [statusFile @ ''.tmp'']" and ?to = "Join cfg [statusFile]"
  have A: "status_files E ?tmp" "status_files E ?to" using cfg by (auto simp: status_files_def)
  have up: "beneath cfg ?to" by (simp add: statusFile_def Join_def path_step_def)
  have m: "only_in (status_files E) s s1" if "MkdirAll s cfg = (s1, e)" for s1 e
    by (rule MkdirAll_only_in [where A = "status_files E", OF that A(2) up])
  have w: "only_in (status_files E) s1 s2" if "WriteFile s1 ?tmp b = (s2, e)" for s1 s2 b e
    by (rule only_in_mono [OF WriteFile_only_in [OF that]]) (use A in simp)
  have r: "only_in (status_files E) s1 (fst (Rename s1 ?tmp ?to))" for s1
    by (rule only_in_mono [OF Rename_only_in [OF prod.collapse [symmetric]]]) (use A in auto)
  show ?thesis
    by (auto simp: write_status_def p cfg Write_Status_def split: sum.splits prod.splits option.splits
        dest!: m w intro: only_in_trans only_in_trans [OF _ r])
qed

lemma push_manifest_only_in:
  assumes "push_manifest E bc s ks pw mf = (s', n)"
  shows "only_in (\<lambda>q. q = ksPath ks) s s'"
  using assms by (auto simp: push_manifest_def split: sum.splits prod.splits dest: EnsurePeerIdentity_only_in)

text \<open>The files the program writes outside the shard store, after the manifest is saved.\<close>

definition own_files :: "env \<Rightarrow> path \<Rightarrow> bool" where
  "own_files E q \<longleftrightarrow> state_files E q \<or> status_files E q"

lemma finish_only_in:
  assumes "ConfigDir (eOS E) = Inr cfg" and "ksPath ks = Join cfg [''keystore.enc'']"
    and "push_manifest E bc (write_status E bc s lst) ks pw mf = (s', n)"
  shows "only_in (own_files E) s s'"
proof -
  have "only_in (own_files E) s (write_status E bc s lst)"
    by (rule only_in_mono [OF write_status_only_in]) (simp add: own_files_def)
  moreover have "only_in (own_files E) (write_status E bc s lst) s'"
    by (rule only_in_mono [OF push_manifest_only_in [OF assms(3)]]) (use assms(1,2) in \<open>auto simp: own_files_def state_files_def\<close>)
  ultimately show ?thesis by (rule only_in_trans)
qed

lemma backed_up_only_in:
  assumes "only_in A s s'" and "\<And>q. A q \<Longrightarrow> \<not> beneath (stRoot st) q" and "backed_up E s st mk mf scheme u p d"
  shows "backed_up E s' st mk mf scheme u p d"
  using assms(3) holds_from_only_in [OF assms(1) file_id_plain assms(2)] by (auto simp: backed_up_def)

lemma Save_Manifest_only_in: "Save_Manifest c r s m = (s', e) \<Longrightarrow> only_in (\<lambda>q. q = mfPath m) s s'"
  by (auto simp: Save_Manifest_def split: sum.splits dest: put_file_only_in)

lemma OpenManifest_Inr: "OpenManifest E s mk = Inr mf \<Longrightarrow> mfPath mf = DefaultManifestPath (eOS E) \<and> mfMasterKey mf = mk"
  by (auto simp: OpenManifest_def Load_Manifest_def New_Manifest_def split: prod.splits option.splits sum.splits error.splits)

lemma OpenManifest_cong: "ReadFile s (DefaultManifestPath (eOS E)) = Inr b \<Longrightarrow> ReadFile s' (DefaultManifestPath (eOS E)) = Inr b
    \<Longrightarrow> OpenManifest E s' mk = OpenManifest E s mk"
  by (simp add: OpenManifest_def Load_Manifest_def New_Manifest_def)

subsection \<open>A restore by file id\<close>

text \<open>
  A later restore: the store, the key store and the manifest open in the state \<open>s2\<close> as the backup left
  them, and the version is recoverable.
\<close>

definition can_restore ::
  "env \<Rightarrow> restore_choice \<Rightarrow> fs \<Rightarrow> fs \<Rightarrow> Store \<Rightarrow> bytes \<Rightarrow> Manifest \<Rightarrow> ManifestEntry \<Rightarrow> RestoreParams \<Rightarrow> path \<Rightarrow> bool" where
  "can_restore E rc s1 s2 st mk mf entry RP out \<longleftrightarrow>
     rpOut RP = Some out \<and> rpPassword RP \<noteq> [] \<and> rpFileID RP \<noteq> [] \<and>
     (case OpenStore E s2 (rpStoreDir RP) of
        (_, Inl _) \<Rightarrow> False
      | (s3, Inr st') \<Rightarrow> st' = st \<and>
          (case OpenOrCreateKeystore E (rcKs1 rc) (rcKs2 rc) s3 (rpPassword RP) of
             (_, Inl _) \<Rightarrow> False
           | (s4, Inr ks) \<Rightarrow> MasterKey ks = Inr mk \<and> OpenManifest E s4 mk = Inr mf
               \<and> recoverable E rc s1 s4 st ks (rpPassword RP) mk out entry))"

text \<open>
  The file \<open>p\<close> with the bytes \<open>d\<close> can be had back under the file id \<open>uuid\<close>: it has an entry, and any later
  restore by that id that finds enough shards returns \<open>d\<close>.
\<close>

definition restorable :: "env \<Rightarrow> fs \<Rightarrow> Store \<Rightarrow> bytes \<Rightarrow> Manifest \<Rightarrow> string \<Rightarrow> path \<Rightarrow> bytes \<Rightarrow> bool" where
  "restorable E s st mk mf uuid p d \<longleftrightarrow>
     (\<exists>entry. Get_Manifest mf uuid = Some entry \<and> mePath entry = path_string p
        \<and> (\<forall>rc s2 RP out. rpFileID RP = uuid \<longrightarrow> can_restore E rc s s2 st mk mf entry RP out \<longrightarrow>
             (\<exists>s3. Restore E rc s2 RP = (s3, Inr \<lparr>rrEntry = entry, rrIntegrityPassed = True\<rparr>) \<and> ReadFile s3 out = Inr d)))"

lemma backed_up_restores:
  assumes law: "lawful (eL E) scheme" and b: "backed_up E s st mk mf scheme uuid src d"
  shows "restorable E s st mk mf uuid src d"
proof -
  obtain entry key where e: "Get_Manifest mf uuid = Some entry" "mePath entry = path_string src"
    and h: "meHash entry = hex_EncodeToString (file_hash d)" "meScheme entry = scheme" "meCompressed entry"
      "map slShardIndex (meShards entry) = map int [0..<length (concat (file_shards E scheme d))]"
      "DeriveFileKey (eL E) mk (file_hash d) = Inr key"
      "holds_from (eL E) s st (file_id d) key 0 (concat (file_shards E scheme d))"
    using b by (auto simp: backed_up_def)
  have code: "list_all2 (chunk_code (eL E) (meScheme entry)) (file_shards E scheme d) (map chunk_bytes (file_chunks d))"
    unfolding h(2) using chunks_shards_code [OF law] file_chunks_wf by blast
  have law': "lawful (eL E) (meScheme entry)" using law h(2) by simp
  have "\<exists>s3. Restore E rc s2 RP = (s3, Inr \<lparr>rrEntry = entry, rrIntegrityPassed = True\<rparr>) \<and> ReadFile s3 out = Inr d"
    if u: "rpFileID RP = uuid" and c: "can_restore E rc s s2 st mk mf entry RP out" for rc s2 RP out
  proof -
    obtain s3 s4 ks where p: "rpOut RP = Some out" "rpPassword RP \<noteq> []" "rpFileID RP \<noteq> []"
      and o': "OpenStore E s2 (rpStoreDir RP) = (s3, Inr st)" "OpenOrCreateKeystore E (rcKs1 rc) (rcKs2 rc) s3 (rpPassword RP) = (s4, Inr ks)"
        "MasterKey ks = Inr mk" "OpenManifest E s4 mk = Inr mf"
      and rec: "recoverable E rc s s4 st ks (rpPassword RP) mk out entry"
      using c by (auto simp: can_restore_def split: prod.splits sum.splits)
    have "choose_entry (rcOrd rc) mf RP = Inr entry" using e(1) u p(3) by (simp add: choose_entry_def)
    then have "Restore E rc s2 RP = restore_entry E rc s4 st ks (rpPassword RP) mk out entry"
      using p o' by (simp add: Restore_def)
    with restore_entry_ok [OF law' h(1,3,4,5) code h(6) rec] show ?thesis by (simp add: file_chunks_data)
  qed
  with e show ?thesis by (auto simp: restorable_def)
qed

subsection \<open>Properties\<close>


lemma Backup_run_protects:
  assumes "bpSrc P = Some src" and "bpPassword P \<noteq> []" and "\<not> bpAutoPrune P"
    and "exclude_filter (bpExclude P) = Inr ef" and "OpenStore E s (bpStoreDir P) = (s1, Inr st)"
    and "OpenOrCreateKeystore E (bcKs1 bc) (bcKs2 bc) s1 (bpPassword P) = (s2, Inr ks)" and "MasterKey ks = Inr mk"
    and "OpenManifest E s2 mk = Inr mf" and "BestScheme (if bpBuddies P \<le> 0 then 5 else bpBuddies P) = Inr scheme"
    and "walk_visit s2 src = (visited, None)" and "ready (eMetaJ E) s2 st" and "backup_hyps E (bcFile bc) st scheme"
    and "\<forall>pd \<in> set visited. source_ok E s2 st pd" and "collision_free (map snd visited)"
    and "distinct (map (\<lambda>pd. fcUuid (bcFile bc (fst pd))) visited)"
    and "apart (own_files E) (stRoot st)" and "\<not> beneath (stRoot st) (DefaultManifestPath (eOS E))"
    and "\<not> own_files E (DefaultManifestPath (eOS E))"
  shows "\<exists>s' r. Backup E bc s P = Some (s', r) \<and>
     ((\<exists>e. r = Inl (Wrap ''manifest save'' e)) \<or>
      (\<exists>res mf'. r = Inr res \<and> brScheme res = scheme
         \<and> map (\<lambda>f. (bfPath f, bfErr f)) (brFiles res) = map (\<lambda>(p, d). (p, None)) (filter (\<lambda>pd. \<not> excluded ef (fst pd)) visited)
         \<and> (inverts (eMfJ E) (mfData mf') \<longrightarrow> OpenManifest E s' mk = Inr mf')
         \<and> (\<forall>(p, d) \<in> set visited. excluded ef p \<or> restorable E s' st mk mf' (fcUuid (bcFile bc p)) p d)))"
proof -
  let ?fcs = "bcFile bc"
  let ?done = "map (\<lambda>(p, d). \<lparr>bfPath = p, bfFileID = file_id d, bfShards = int (length (concat (file_shards E scheme d))), bfErr = None\<rparr>)
            (filter (\<lambda>pd. \<not> excluded ef (fst pd)) visited)"
  obtain s3 mf' lst where run: "backup_files E ?fcs ef st (bpPassword P) mk scheme s2 mf [] None visited = Some (s3, mf', ?done, lst)"
    and r3: "ready (eMetaJ E) s3 st" and mf': "mfPath mf' = mfPath mf" "mfMasterKey mf' = mfMasterKey mf"
    and all: "\<forall>(p, d) \<in> set visited. \<not> excluded ef p \<longrightarrow> backed_up E s3 st mk mf' scheme (fcUuid (?fcs p)) p d"
    using backup_files_ok [OF assms(12,11,13), of "[]" "[]" "[]" mk mf ef "bpPassword P" "[]" None] assms(14,15) by auto
  have B: "Backup E bc s P = Some (finish_backup E bc P scheme ks s3 mf' ?done lst)"
    using assms(1-2,4-10) run by (simp add: Backup_def)
  obtain s4 e where save: "Save_Manifest (eMfJ E) (bcSave bc) s3 mf' = (s4, e)" by fastforce
  show ?thesis
  proof (cases e)
    case (Some err)
    with B save show ?thesis by (simp add: finish_backup_def)
  next
    case None
    obtain s' n where push: "push_manifest E bc (write_status E bc s4 lst) ks (bpPassword P) mf' = (s', n)" by fastforce
    have fin: "finish_backup E bc P scheme ks s3 mf' ?done lst
        = (s', Inr \<lparr>brScheme = scheme, brFiles = ?done, brPrunedVersions = 0, brPushedToBuddies = n\<rparr>)"
      using save None push assms(3) by (simp add: finish_backup_def)
    obtain cfg where cfg: "ConfigDir (eOS E) = Inr cfg" "ksPath ks = Join cfg [''keystore.enc'']"
      using OpenOrCreateKeystore_path [OF assms(6)] by blast
    have path: "mfPath mf' = DefaultManifestPath (eOS E)" "mfMasterKey mf' = mk"
      using OpenManifest_Inr [OF assms(8)] mf' by simp_all
    have fr4: "only_in (\<lambda>q. q = DefaultManifestPath (eOS E)) s3 s4" using Save_Manifest_only_in [OF save] path by simp
    have fr': "only_in (own_files E) s4 s'" by (rule finish_only_in [OF cfg push])
    have kept: "backed_up E s' st mk mf' scheme u p d" if "backed_up E s3 st mk mf' scheme u p d" for u p d
      by (rule backed_up_only_in [OF fr' _ backed_up_only_in [OF fr4 _ that]]) (use assms(16,17) in \<open>auto simp: apart_def\<close>)
    have man: "OpenManifest E s' mk = Inr mf'" if "inverts (eMfJ E) (mfData mf')"
    proof -
      have ff: "fault_free s3" using r3 by (simp add: ready_def)
      have "OpenManifest E s4 mk = Inr mf'"
        using Load_after_Save [of "eMfJ E" "bcSave bc" s3 mf' s4 "New_Manifest (DefaultManifestPath (eOS E)) mk"] save None that ff path
        by (simp add: OpenManifest_def New_Manifest_def fault_free_def)
      moreover obtain b where b: "ReadFile s4 (DefaultManifestPath (eOS E)) = Inr b"
        using save None ff path ReadFile_put_file_same
        by (fastforce simp: Save_Manifest_def fault_free_def split: sum.splits)
      moreover have "ReadFile s' (DefaultManifestPath (eOS E)) = Inr b"
        using only_in_ReadFile [OF fr' assms(18), of b] b by (rule iffD2)
      ultimately show ?thesis using OpenManifest_cong [OF b, of s' mk] by simp
    qed
    have res: "restorable E s' st mk mf' (fcUuid (?fcs p)) p d" if "(p, d) \<in> set visited" "\<not> excluded ef p" for p d
    proof -
      have "backed_up E s3 st mk mf' scheme (fcUuid (?fcs p)) p d" using all that by blast
      moreover have "lawful (eL E) scheme" using assms(12) by (simp add: backup_hyps_def)
      ultimately show ?thesis using backed_up_restores kept by blast
    qed
    let ?res = "\<lparr>brScheme = scheme, brFiles = ?done, brPrunedVersions = 0, brPushedToBuddies = n\<rparr>"
    have files: "map (\<lambda>f. (bfPath f, bfErr f)) (brFiles ?res) = map (\<lambda>(p, d). (p, None)) (filter (\<lambda>pd. \<not> excluded ef (fst pd)) visited)"
      by (simp add: comp_def split_def)
    show ?thesis
    proof (intro exI [of _ s'] exI [of _ "Inr ?res"] conjI disjI2 exI [of _ ?res] exI [of _ mf'])
      show "Backup E bc s P = Some (s', Inr ?res)" by (simp only: B fin)
      show "map (\<lambda>f. (bfPath f, bfErr f)) (brFiles ?res) = map (\<lambda>(p, d). (p, None)) (filter (\<lambda>pd. \<not> excluded ef (fst pd)) visited)"
        by (rule files)
      show "inverts (eMfJ E) (mfData mf') \<longrightarrow> OpenManifest E s' mk = Inr mf'" using man by (rule impI)
      show "\<forall>(p, d) \<in> set visited. excluded ef p \<or> restorable E s' st mk mf' (fcUuid (?fcs p)) p d"
        using res by blast
    qed simp_all
  qed
qed


definition demo_bc :: backup_choice where
  "demo_bc = \<lparr>bcKs1 = Some (\<lambda>_. 1), bcKs2 = Some (\<lambda>_. 2), bcFile = (\<lambda>_. demo_fc), bcSave = Some (\<lambda>_. 3), bcPruneOrd = [],
     bcPrunePaths = [], bcPruneNow = 0, bcSave2 = None, bcNow = 5, bcBlob = None, bcId1 = None, bcId2 = None\<rparr>"

definition demo_params :: BackupParams where
  "demo_params = \<lparr>bpSrc = Some [''src''], bpStoreDir = Some [''cfg'', ''store''], bpPassword = ''pw'', bpBuddies = 3, bpExclude = [],
     bpAutoPrune = False\<rparr>"

lemma demo_DefaultManifestPath: "DefaultManifestPath demo_os = [''cfg'', ''manifest.enc'']"
  by (simp add: DefaultManifestPath_def demo_os_def Join_def path_step_def)

lemma demo_backup_hyps: "backup_hyps demo_env (bcFile demo_bc) demo_st demo_scheme"
  by (simp add: backup_hyps_def demo_lawful demo_bc_def demo_fc_def demo_separate)

lemma demo_own_files: "own_files demo_env q
    \<Longrightarrow> q \<in> {[''cfg'', ''queue.json''], [''cfg'', ''keystore.enc''], [''cfg'', ''status.json.tmp''], [''cfg'', ''status.json'']}"
  by (auto simp: own_files_def demo_state_files status_files_def demo_paths statusFile_def Join_def path_step_def)

lemma demo_own_apart: "apart (own_files demo_env) (stRoot demo_st)" "\<not> own_files demo_env [''cfg'', ''manifest.enc'']"
  by (auto simp: apart_def beneath_def dest!: demo_own_files)

text \<open>The key store and the manifest of a first run, and the source tree with its one file.\<close>

lemma demo_backup_world:
  obtains s2 ks where "OpenOrCreateKeystore demo_env (Some (\<lambda>_. 1)) (Some (\<lambda>_. 2)) demo_opened ''pw'' = (s2, Inr ks)"
    and "ksUnlocked ks"
    and "OpenManifest demo_env s2 (ksMasterKey ks) = Inr (New_Manifest [''cfg'', ''manifest.enc''] (ksMasterKey ks))"
    and "walk_visit s2 [''src''] = ([([''src'', ''f''], [1, 2, 3])], None)"
    and "walk_visit s2 [''src'', ''f''] = ([([''src'', ''f''], [1, 2, 3])], None)"
    and "ready (codec_of meta_fmt) s2 demo_st" and "source_ok demo_env s2 demo_st ([''src'', ''f''], [1, 2, 3])"
proof -
  obtain payload ks where open': "OpenOrCreateKeystore demo_env (Some (\<lambda>_. 1)) (Some (\<lambda>_. 2)) demo_opened ''pw''
       = (set_file demo_opened [''cfg'', ''keystore.enc''] payload, Inr ks)" "ksUnlocked ks"
    using demo_OpenKeystore [of demo_opened "[]"] by (auto simp: demo_opened_def demo_fs_def empty_fs_def fault_free_def)
  define s2 where "s2 = set_file demo_opened [''cfg'', ''keystore.enc''] payload"
  have files: "files s2 = [([''src'', ''f''], [1, 2, 3]), ([''out''], []), ([''cfg'', ''keystore.enc''], payload)]"
    "dirs s2 = [[''cfg''], [''cfg'', ''store''], [''src'']]" "fault_free s2"
    by (simp_all add: s2_def set_file_def demo_opened_def demo_fs_def empty_fs_def fault_free_def)
  have "OpenManifest demo_env s2 (ksMasterKey ks) = Inr (New_Manifest [''cfg'', ''manifest.enc''] (ksMasterKey ks))"
    using files(3)
    by (simp add: OpenManifest_def demo_DefaultManifestPath Load_Manifest_def New_Manifest_def ReadFile_def files is_dir_def fault_free_def)
  moreover have "walk_visit s2 [''src''] = ([([''src'', ''f''], [1, 2, 3])], None)"
      "walk_visit s2 [''src'', ''f''] = ([([''src'', ''f''], [1, 2, 3])], None)"
    using files(3) by (simp_all add: walk_visit_def files is_file_def is_dir_def beneath_def fault_free_def)
  moreover have "ready (codec_of meta_fmt) s2 demo_st"
    using files by (simp add: ready_def codec_of_marshals store_ok_def beneath_def)
  moreover have "source_ok demo_env s2 demo_st ([''src'', ''f''], [1, 2, 3])"
    using files(3) by (simp add: source_ok_def ReadFile_def files is_dir_def fault_free_def beneath_def demo_state_files)
  ultimately show thesis using open' that unfolding s2_def [symmetric] by blast
qed


end
