(* ===== verification/Rebalancer.thy ===== *)
theory Rebalancer
  imports Api_Shared
begin

text \<open>
  \<open>internal/rebalance/rebalance.go\<close>: every shard of the given files is read from the local store and
  pushed to every registered buddy. A push changes nothing on this side, so the file system is an
  argument only; the log lines are left out.

  \<open>expired\<close> tells whether the context is done when the loop reaches the files that remain.
\<close>

record RebalanceResult =
  rbFilesProcessed :: int
  rbShardsAttempted :: int
  rbShardsOK :: int
  rbErrors :: "error list"

record Rebalancer =
  rbOwnerID :: string
  rbLocalStore :: Store
  rbReg :: Registry

definition New_Rebalancer :: "string \<Rightarrow> Store \<Rightarrow> Registry \<Rightarrow> Rebalancer" where
  "New_Rebalancer ownerID localStore reg = \<lparr>rbOwnerID = ownerID, rbLocalStore = localStore, rbReg = reg\<rparr>"

subsection \<open>The loops\<close>

text \<open>One shard to one buddy: connect when there is no connection, then push.\<close>

definition rb_push :: "env \<Rightarrow> string \<Rightarrow> string \<Rightarrow> ShardMeta \<Rightarrow> bytes \<Rightarrow> string \<Rightarrow> error option" where
  "rb_push E ownerID fileID meta d peer =
     (if \<not> nwConnected (eNet E) peer \<and> \<not> nwConnect (eNet E) peer [] then Some (Errorf ''connect'')
      else ewrap ''push shard''
             (snd (PushShard (eJ E) (nwPushStream (eNet E) peer fileID (smShardIndex meta)) ownerID fileID
                (smShardIndex meta) (smIsParity meta) d)))"

fun rb_conns :: "env \<Rightarrow> string \<Rightarrow> string \<Rightarrow> ShardMeta \<Rightarrow> bytes \<Rightarrow> RebalanceResult \<Rightarrow> string list \<Rightarrow> RebalanceResult" where
  "rb_conns E ownerID fileID meta d res [] = res"
| "rb_conns E ownerID fileID meta d res (peer # peers) =
     (let res = res\<lparr>rbShardsAttempted := rbShardsAttempted res + 1\<rparr> in
      rb_conns E ownerID fileID meta d
        (case rb_push E ownerID fileID meta d peer of
           Some e \<Rightarrow> res\<lparr>rbErrors := rbErrors res @ [e]\<rparr>
         | None \<Rightarrow> res\<lparr>rbShardsOK := rbShardsOK res + 1\<rparr>) peers)"

fun rb_metas :: "env \<Rightarrow> fs \<Rightarrow> Rebalancer \<Rightarrow> string list \<Rightarrow> string \<Rightarrow> RebalanceResult \<Rightarrow> ShardMeta list \<Rightarrow> RebalanceResult" where
  "rb_metas E s r conns fileID res [] = res"
| "rb_metas E s r conns fileID res (meta # metas) =
     rb_metas E s r conns fileID
       (case Get s (rbLocalStore r) fileID (smShardIndex meta) of
          Inl e \<Rightarrow> res\<lparr>rbErrors := rbErrors res @ [Wrap ''read shard'' e]\<rparr>
        | Inr d \<Rightarrow> rb_conns E (rbOwnerID r) fileID meta d res conns) metas"

fun rb_files ::
  "env \<Rightarrow> (string list \<Rightarrow> bool) \<Rightarrow> fs \<Rightarrow> Rebalancer \<Rightarrow> string list \<Rightarrow> RebalanceResult \<Rightarrow> string list \<Rightarrow> RebalanceResult" where
  "rb_files E expired s r conns res [] = res"
| "rb_files E expired s r conns res (fileID # fileIDs) =
     (if expired (fileID # fileIDs) then res
      else case Meta (eMetaJ E) s (rbLocalStore r) fileID of
             Inl _ \<Rightarrow> rb_files E expired s r conns res fileIDs
           | Inr metas \<Rightarrow>
               if metas = [] then rb_files E expired s r conns res fileIDs
               else rb_files E expired s r conns
                      (rb_metas E s r conns fileID (res\<lparr>rbFilesProcessed := rbFilesProcessed res + 1\<rparr>) metas) fileIDs)"

definition rb_none :: RebalanceResult where
  "rb_none = \<lparr>rbFilesProcessed = 0, rbShardsAttempted = 0, rbShardsOK = 0, rbErrors = []\<rparr>"

definition Run_Rebalancer ::
  "env \<Rightarrow> (string list \<Rightarrow> bool) \<Rightarrow> string list \<Rightarrow> fs \<Rightarrow> Rebalancer \<Rightarrow> string list \<Rightarrow> RebalanceResult" where
  "Run_Rebalancer E expired ord s r fileIDs =
     (let buddies = snd (List_Registry (jRegistry (eJ E)) ord s (rbReg r)) in
      if buddies = [] then rb_none
      else rb_files E expired s r (filter (nwDecode (eNet E)) (map bePeerID buddies)) rb_none fileIDs)"

subsection \<open>What a run attempts\<close>

text \<open>
  The specification: the files with shards in the store, their readable and unreadable shards, and the
  product of the readable ones with the buddies.
\<close>

definition local_metas :: "env \<Rightarrow> fs \<Rightarrow> Store \<Rightarrow> string \<Rightarrow> ShardMeta list" where
  "local_metas E s st fileID = (case Meta (eMetaJ E) s st fileID of Inl _ \<Rightarrow> [] | Inr ms \<Rightarrow> ms)"

definition shard_items :: "env \<Rightarrow> fs \<Rightarrow> Store \<Rightarrow> string list \<Rightarrow> (string \<times> ShardMeta \<times> bytes result) list" where
  "shard_items E s st fileIDs =
     concat (map (\<lambda>f. map (\<lambda>m. (f, m, Get s st f (smShardIndex m))) (local_metas E s st f)) fileIDs)"

definition item_outcomes ::
  "env \<Rightarrow> string \<Rightarrow> string list \<Rightarrow> string \<times> ShardMeta \<times> bytes result \<Rightarrow> error option list" where
  "item_outcomes E ownerID conns it =
     (case it of
        (f, m, Inl e) \<Rightarrow> []
      | (f, m, Inr d) \<Rightarrow> map (rb_push E ownerID f m d) conns)"

definition item_errors ::
  "env \<Rightarrow> string \<Rightarrow> string list \<Rightarrow> string \<times> ShardMeta \<times> bytes result \<Rightarrow> error list" where
  "item_errors E ownerID conns it =
     (case it of
        (f, m, Inl e) \<Rightarrow> [Wrap ''read shard'' e]
      | (f, m, Inr d) \<Rightarrow> List.map_filter (rb_push E ownerID f m d) conns)"

definition add_outcomes :: "RebalanceResult \<Rightarrow> int \<Rightarrow> error option list \<Rightarrow> error list \<Rightarrow> RebalanceResult" where
  "add_outcomes res n outs errs =
     \<lparr>rbFilesProcessed = rbFilesProcessed res + n,
      rbShardsAttempted = rbShardsAttempted res + int (length outs),
      rbShardsOK = rbShardsOK res + int (length (filter (\<lambda>x. x = None) outs)),
      rbErrors = rbErrors res @ errs\<rparr>"

lemma add_outcomes_zero [simp]: "add_outcomes res 0 [] [] = res"
  by (simp add: add_outcomes_def)

lemma add_outcomes_add [simp]:
  "add_outcomes (add_outcomes res n outs errs) n' outs' errs' = add_outcomes res (n + n') (outs @ outs') (errs @ errs')"
  by (simp add: add_outcomes_def)

lemma rb_conns_outcomes:
  "rb_conns E o' f m d res ps =
     add_outcomes res 0 (map (rb_push E o' f m d) ps) (List.map_filter (rb_push E o' f m d) ps)"
proof (induction ps arbitrary: res)
  case Nil
  then show ?case by (simp add: List.map_filter_simps)
next
  case (Cons p ps)
  show ?case
    by (cases "rb_push E o' f m d p") (simp_all add: Cons.IH Let_def add_outcomes_def List.map_filter_simps)
qed

lemma rb_metas_outcomes:
  "rb_metas E s r conns f res ms =
     (let its = map (\<lambda>m. (f, m, Get s (rbLocalStore r) f (smShardIndex m))) ms in
      add_outcomes res 0 (concat (map (item_outcomes E (rbOwnerID r) conns) its))
        (concat (map (item_errors E (rbOwnerID r) conns) its)))"
proof (induction ms arbitrary: res)
  case Nil
  then show ?case by simp
next
  case (Cons m ms)
  show ?case
    by (cases "Get s (rbLocalStore r) f (smShardIndex m)")
       (simp_all add: Cons.IH Let_def rb_conns_outcomes item_outcomes_def item_errors_def add_outcomes_def)
qed

lemma rb_files_outcomes:
  "rb_files E (\<lambda>_. False) s r conns res fs =
     (let its = shard_items E s (rbLocalStore r) fs in
      add_outcomes res (int (length (filter (\<lambda>f. local_metas E s (rbLocalStore r) f \<noteq> []) fs)))
        (concat (map (item_outcomes E (rbOwnerID r) conns) its))
        (concat (map (item_errors E (rbOwnerID r) conns) its)))"
proof (induction fs arbitrary: res)
  case Nil
  then show ?case by (simp add: shard_items_def)
next
  case (Cons f fs)
  have one: "res\<lparr>rbFilesProcessed := rbFilesProcessed res + 1\<rparr> = add_outcomes res 1 [] []" for res
    by (simp add: add_outcomes_def)
  show ?case
    by (cases "Meta (eMetaJ E) s (rbLocalStore r) f")
       (simp_all add: Cons.IH Let_def one rb_metas_outcomes shard_items_def local_metas_def)
qed

subsection \<open>Properties\<close>


end
