(* ===== verification/Scrubber.thy ===== *)
theory Scrubber
  imports Pipeline
begin

text \<open>
  \<open>internal/scrub/scrub.go\<close>: every shard that is stored for other peers is checked against its hash file;
  a damaged one is fetched from its owner and stored again. The ticker of \<open>Start\<close> only repeats
  \<open>RunOnce\<close>; the log lines are left out. \<open>expired\<close> tells whether the context is done when the loop
  reaches the references that remain.
\<close>

record Report =
  rpChecked :: int
  rpOK :: int
  rpCorrupted :: int
  rpRevived :: int
  rpFailed :: int

record ScrubManager =
  smgBS :: BuddyStore
  smgReg :: Registry

definition New_Scrubber :: "BuddyStore \<Rightarrow> Registry \<Rightarrow> ScrubManager" where
  "New_Scrubber bs reg = \<lparr>smgBS = bs, smgReg = reg\<rparr>"

text \<open>The addresses of the entry are not used: \<open>Connect\<close> gets the peer id only.\<close>

definition revive :: "env \<Rightarrow> fs \<Rightarrow> ScrubManager \<Rightarrow> ShardRef \<Rightarrow> ScrubManager \<times> fs \<times> bool" where
  "revive E s m ref =
     (let owner = srOwnerPeerID ref in
      if \<not> nwDecode (eNet E) owner then (m, s, False)
      else case (if nwConnected (eNet E) owner then (smgReg m, True)
                 else case Get_Registry (jRegistry (eJ E)) s (smgReg m) owner of
                        (reg, None) \<Rightarrow> (reg, False)
                      | (reg, Some _) \<Rightarrow> (reg, nwConnect (eNet E) owner [])) of
             (reg, connected) \<Rightarrow>
               let m = m\<lparr>smgReg := reg\<rparr> in
               if \<not> connected then (m, s, False)
               else case snd (FetchShard (eJ E) (nwPullStream (eNet E) owner (srFileID ref) (srShardIndex ref))
                             owner (srFileID ref) (srShardIndex ref)) of
                      Inl _ \<Rightarrow> (m, s, False)
                    | Inr d \<Rightarrow>
                        (case PutWithHash s (smgBS m) owner (srFileID ref) (srShardIndex ref) d of
                           (s', Some e) \<Rightarrow> (m, s', False)
                         | (s', None) \<Rightarrow> (m, s', True)))"

fun scrub_loop ::
  "env \<Rightarrow> (ShardRef list \<Rightarrow> bool) \<Rightarrow> fs \<Rightarrow> ScrubManager \<Rightarrow> Report \<Rightarrow> ShardRef list \<Rightarrow> ScrubManager \<times> fs \<times> Report" where
  "scrub_loop E expired s m r [] = (m, s, r)"
| "scrub_loop E expired s m r (ref # refs) =
     (if expired (ref # refs) then (m, s, r)
      else if Verify_Buddy s (smgBS m) (srOwnerPeerID ref) (srFileID ref) (srShardIndex ref)
      then scrub_loop E expired s m (r\<lparr>rpOK := rpOK r + 1\<rparr>) refs
      else
        let r = r\<lparr>rpCorrupted := rpCorrupted r + 1\<rparr> in
        case revive E s m ref of
          (m', s', True) \<Rightarrow> scrub_loop E expired s' m' (r\<lparr>rpRevived := rpRevived r + 1\<rparr>) refs
        | (m', s', False) \<Rightarrow> scrub_loop E expired s' m' (r\<lparr>rpFailed := rpFailed r + 1\<rparr>) refs)"

definition RunOnce ::
  "env \<Rightarrow> (ShardRef list \<Rightarrow> bool) \<Rightarrow> fs \<Rightarrow> ScrubManager \<Rightarrow> ScrubManager \<times> fs \<times> Report result" where
  "RunOnce E expired s m =
     (case ListAll s (smgBS m) of
        Inl e \<Rightarrow> (m, s, Inl e)
      | Inr refs \<Rightarrow>
          (case scrub_loop E expired s m
                 \<lparr>rpChecked = int (length refs), rpOK = 0, rpCorrupted = 0, rpRevived = 0, rpFailed = 0\<rparr> refs of
             (m', s', r) \<Rightarrow> (m', s', Inr r)))"

subsection \<open>A stored shard and its neighbours\<close>

abbreviation verifies :: "fs \<Rightarrow> BuddyStore \<Rightarrow> ShardRef \<Rightarrow> bool" where
  "verifies s bs ref \<equiv> Verify_Buddy s bs (srOwnerPeerID ref) (srFileID ref) (srShardIndex ref)"

abbreviation shard_bytes :: "fs \<Rightarrow> BuddyStore \<Rightarrow> ShardRef \<Rightarrow> bytes result" where
  "shard_bytes s bs ref \<equiv> Get_Buddy s bs (srOwnerPeerID ref) (srFileID ref) (srShardIndex ref)"

lemma Verify_iff:
  "Verify_Buddy s bs o' f i \<longleftrightarrow>
     (\<exists>d hp. Get_Buddy s bs o' f i = Inr d \<and> hashPath bs o' f i = Inr hp \<and> ReadFile s hp = Inr (Sum256 d))"
  by (auto simp: Verify_Buddy_def split: sum.splits)

lemma PutWithHash_frame:
  assumes "PutWithHash s bs o' f i d = (s', e)"
    and "\<And>p. shardPath_Buddy bs o' f i = Inr p \<Longrightarrow> q \<noteq> p" and "\<And>p. hashPath bs o' f i = Inr p \<Longrightarrow> q \<noteq> p"
  shows "ReadFile s' q = Inr x \<longleftrightarrow> ReadFile s q = Inr x"
proof -
  obtain s1 e1 where p: "Put_Buddy s bs o' f i d = (s1, e1)" by (cases "Put_Buddy s bs o' f i d")
  have a: "ReadFile s1 q = Inr x \<longleftrightarrow> ReadFile s q = Inr x"
  proof (cases "shardPath_Buddy bs o' f i")
    case (Inr b)
    then have "put_file ''buddystore: mkdir'' ''buddystore: write'' s b d = (s1, e1)" using p by (simp add: Put_Buddy_def)
    from ReadFile_put_file_other [OF this assms(2) [OF Inr]] show ?thesis .
  qed (use p in \<open>simp add: Put_Buddy_def\<close>)
  show ?thesis
  proof (cases e1)
    case None
    show ?thesis
    proof (cases "hashPath bs o' f i")
      case (Inr hp)
      then have "WriteFile s1 hp (Sum256 d) = (s', e)" using assms(1) p None by (simp add: PutWithHash_def)
      from ReadFile_WriteFile_other [OF this, of q] a assms(3) [OF Inr] show ?thesis by metis
    qed (use assms(1) p None a in \<open>simp add: PutWithHash_def\<close>)
  qed (use assms(1) p a in \<open>simp add: PutWithHash_def\<close>)
qed

text \<open>Storing a shard leaves every other shard and its hash as they were.\<close>

lemma PutWithHash_neighbour:
  assumes "PutWithHash s bs o' f i d = (s', e)" and "(o2, f2, i2) \<noteq> (o', f, i)"
  shows "Get_Buddy s' bs o2 f2 i2 = Inr x \<longleftrightarrow> Get_Buddy s bs o2 f2 i2 = Inr x"
    and "Verify_Buddy s' bs o2 f2 i2 = Verify_Buddy s bs o2 f2 i2"
proof -
  have g: "Get_Buddy s' bs o2 f2 i2 = Inr x \<longleftrightarrow> Get_Buddy s bs o2 f2 i2 = Inr x" for x
  proof (cases "shardPath_Buddy bs o2 f2 i2")
    case (Inr p2)
    have "ReadFile s' p2 = Inr x \<longleftrightarrow> ReadFile s p2 = Inr x"
      using assms(2) Inr hash_suffix_differs
      by (intro PutWithHash_frame [OF assms(1)]) (auto simp: shardPath_Buddy_Inr hashPath_Inr dest: Itoa_inj sym)
    with Inr show ?thesis by (simp add: Get_Buddy_def)
  qed (simp add: Get_Buddy_def)
  show "Get_Buddy s' bs o2 f2 i2 = Inr x \<longleftrightarrow> Get_Buddy s bs o2 f2 i2 = Inr x" by (rule g)
  have h: "ReadFile s' hp = Inr x \<longleftrightarrow> ReadFile s hp = Inr x" if "hashPath bs o2 f2 i2 = Inr hp" for hp x
    using assms(2) that hash_suffix_differs
    by (intro PutWithHash_frame [OF assms(1)]) (auto simp: shardPath_Buddy_Inr hashPath_Inr dest: Itoa_inj sym)
  show "Verify_Buddy s' bs o2 f2 i2 = Verify_Buddy s bs o2 f2 i2"
    unfolding Verify_iff using g h by blast
qed

lemma PutWithHash_faults: "PutWithHash s bs o' f i d = (s', e) \<Longrightarrow> same_faults s s'"
  by (auto simp: PutWithHash_def split: prod.splits option.splits sum.splits
      dest!: Put_Buddy_faults WriteFile_faults intro: same_faults_trans)

lemma revive_cases:
  assumes "revive E s m ref = (m', s', ok)"
  shows "smgBS m' = smgBS m \<and>
    ((s' = s \<and> \<not> ok) \<or>
     (\<exists>d e. PutWithHash s (smgBS m) (srOwnerPeerID ref) (srFileID ref) (srShardIndex ref) d = (s', e) \<and> ok = (e = None)))"
  using assms by (auto simp: revive_def Let_def split: if_splits prod.splits option.splits sum.splits)

text \<open>
  One attempt to revive: what verified before still verifies with the same bytes, and a successful
  attempt makes its own shard verify.
\<close>

lemma revive_effect:
  assumes "revive E s m ref = (m', s', ok)" and "fault_free s" and "\<not> verifies s (smgBS m) ref"
  shows "smgBS m' = smgBS m" and "fault_free s'" and "ok \<longrightarrow> verifies s' (smgBS m) ref"
    and "verifies s (smgBS m) r2 \<Longrightarrow> verifies s' (smgBS m) r2 \<and> (\<forall>x. shard_bytes s (smgBS m) r2 = Inr x \<longrightarrow> shard_bytes s' (smgBS m) r2 = Inr x)"
proof -
  from revive_cases [OF assms(1)]
  consider "s' = s" "\<not> ok" | d e where "PutWithHash s (smgBS m) (srOwnerPeerID ref) (srFileID ref) (srShardIndex ref) d = (s', e)" "ok = (e = None)"
    by auto
  note c = this
  show "smgBS m' = smgBS m" using revive_cases [OF assms(1)] by simp
  show "fault_free s'"
    by (rule c) (use assms(2) same_faults_fault_free PutWithHash_faults in metis)+
  show "ok \<longrightarrow> verifies s' (smgBS m) ref"
    by (rule c) (use buddy_put_verifies assms(2) in auto)
  assume v: "verifies s (smgBS m) r2"
  then have ne: "(srOwnerPeerID r2, srFileID r2, srShardIndex r2) \<noteq> (srOwnerPeerID ref, srFileID ref, srShardIndex ref)"
    using assms(3) by auto
  show "verifies s' (smgBS m) r2 \<and> (\<forall>x. shard_bytes s (smgBS m) r2 = Inr x \<longrightarrow> shard_bytes s' (smgBS m) r2 = Inr x)"
    by (rule c) (use v PutWithHash_neighbour [OF _ ne] in auto)
qed

lemma scrub_loop_keeps:
  assumes "scrub_loop E expired s m r refs = (m', s', r')" and "fault_free s" and "verifies s (smgBS m) r2"
  shows "verifies s' (smgBS m) r2 \<and> (\<forall>x. shard_bytes s (smgBS m) r2 = Inr x \<longrightarrow> shard_bytes s' (smgBS m) r2 = Inr x)"
  using assms
proof (induction refs arbitrary: s m r)
  case Nil
  then show ?case by simp
next
  case (Cons ref refs)
  consider "expired (ref # refs)" | "\<not> expired (ref # refs)" "verifies s (smgBS m) ref"
    | "\<not> expired (ref # refs)" "\<not> verifies s (smgBS m) ref" by blast
  then show ?case
  proof cases
    case 3
    obtain m1 s1 ok where rv: "revive E s m ref = (m1, s1, ok)" by (metis surj_pair)
    note eff = revive_effect [OF rv Cons.prems(2) 3(2)]
    obtain r1 where run: "scrub_loop E expired s1 m1 r1 refs = (m', s', r')"
      using Cons.prems(1) 3 rv by (cases ok) (auto simp: Let_def)
    show ?thesis
      using Cons.IH [OF run eff(2)] eff(1) eff(4) [OF Cons.prems(3)] by simp
  qed (use Cons in auto)
qed

lemma scrub_loop_counts:
  assumes "scrub_loop E (\<lambda>_. False) s m r refs = (m', s', r')" and "fault_free s"
  shows "rpChecked r' = rpChecked r \<and> rpOK r' + rpCorrupted r' = rpOK r + rpCorrupted r + int (length refs)
     \<and> rpRevived r' + rpFailed r' - rpCorrupted r' = rpRevived r + rpFailed r - rpCorrupted r
     \<and> rpFailed r \<le> rpFailed r'
     \<and> (rpFailed r' = rpFailed r \<longrightarrow> (\<forall>ref \<in> set refs. verifies s' (smgBS m) ref))"
  using assms
proof (induction refs arbitrary: s m r)
  case Nil
  then show ?case by simp
next
  case (Cons ref refs)
  show ?case
  proof (cases "verifies s (smgBS m) ref")
    case True
    then have run: "scrub_loop E (\<lambda>_. False) s m (r\<lparr>rpOK := rpOK r + 1\<rparr>) refs = (m', s', r')"
      using Cons.prems(1) by simp
    from Cons.IH [OF run Cons.prems(2)] scrub_loop_keeps [OF run Cons.prems(2) True] show ?thesis by auto
  next
    case False
    obtain m1 s1 ok where rv: "revive E s m ref = (m1, s1, ok)" by (metis surj_pair)
    note eff = revive_effect [OF rv Cons.prems(2) False]
    let ?r = "if ok then r\<lparr>rpCorrupted := rpCorrupted r + 1, rpRevived := rpRevived r + 1\<rparr>
      else r\<lparr>rpCorrupted := rpCorrupted r + 1, rpFailed := rpFailed r + 1\<rparr>"
    have run: "scrub_loop E (\<lambda>_. False) s1 m1 ?r refs = (m', s', r')"
      using Cons.prems(1) False rv by (cases ok) (simp_all add: Let_def)
    show ?thesis
      using Cons.IH [OF run eff(2)] scrub_loop_keeps [OF run eff(2), of ref] eff(1,3) by (cases ok) auto
  qed
qed

subsection \<open>Properties\<close>

text \<open>C13. A scrub that runs to its end accounts for every shard once (examined = healthy + damaged, damaged =
  revived + failed), leaves every shard that verified as it was, byte for byte, and when no revival
  failed every shard of the store verifies afterwards.\<close>

theorem scrub_repairs:
  assumes "RunOnce E (\<lambda>_. False) s m = (m', s', Inr r)" and "ListAll s (smgBS m) = Inr refs" and "fault_free s"
  shows "rpChecked r = int (length refs) \<and> rpChecked r = rpOK r + rpCorrupted r \<and> rpCorrupted r = rpRevived r + rpFailed r
     \<and> (\<forall>ref x. verifies s (smgBS m) ref \<and> shard_bytes s (smgBS m) ref = Inr x \<longrightarrow>
          verifies s' (smgBS m) ref \<and> shard_bytes s' (smgBS m) ref = Inr x)
     \<and> (rpFailed r = 0 \<longrightarrow> (\<forall>ref \<in> set refs. verifies s' (smgBS m) ref))"
proof -
  have run: "scrub_loop E (\<lambda>_. False) s m \<lparr>rpChecked = int (length refs), rpOK = 0, rpCorrupted = 0, rpRevived = 0, rpFailed = 0\<rparr> refs = (m', s', r)"
    using assms(1,2) by (auto simp: RunOnce_def split: prod.splits)
  show ?thesis
    using scrub_loop_counts [OF run assms(3)] scrub_loop_keeps [OF run assms(3)] by auto
qed

text \<open>A damaged shard, and a peer that answers with a good copy.\<close>

definition demo_answering :: "bytes \<Rightarrow> env" where
  "demo_answering a = demo_env\<lparr>eJ := demo_codecs,
     eNet := demo_net\<lparr>nwConnected := (\<lambda>_. True), nwPullStream := (\<lambda>_ _ _. Inr (net a))\<rparr>\<rparr>"

abbreviation demo_ref :: ShardRef where
  "demo_ref \<equiv> \<lparr>srOwnerPeerID = ''alice'', srFileID = ''f'', srShardIndex = 0\<rparr>"

abbreviation demo_scrubber :: ScrubManager where
  "demo_scrubber \<equiv> New_Scrubber \<lparr>bsRoot = [''b'']\<rparr> (nReg (demo_node empty_fs))"

lemma Itoa_0: "Itoa 0 = ''0''" by code_simp

lemma demo_damaged:
  "ListAll demo_shard_fs \<lparr>bsRoot = [''b'']\<rparr> = Inr [demo_ref]"
  "Verify_Buddy demo_shard_fs \<lparr>bsRoot = [''b'']\<rparr> ''alice'' ''f'' 0 = False"
  "\<exists>s'. PutWithHash demo_shard_fs \<lparr>bsRoot = [''b'']\<rparr> ''alice'' ''f'' 0 [1] = (s', None)"
proof -
  have ref: "shard_ref [''b'', ''remote''] [''b'', ''remote'', ''alice'', ''f'', ''0.shard''] = Some demo_ref" by code_simp
  show "ListAll demo_shard_fs \<lparr>bsRoot = [''b'']\<rparr> = Inr [demo_ref]"
    by (simp add: ListAll_def Join_plain Stat_def walk_files_def is_dir_def is_file_def demo_shard_fs_def empty_fs_def Let_def
        beneath_def List.map_filter_simps ref)
  show "Verify_Buddy demo_shard_fs \<lparr>bsRoot = [''b'']\<rparr> ''alice'' ''f'' 0 = False"
    by (simp add: Verify_Buddy_def Get_Buddy_def hashPath_def shardPath_Buddy_def isSafePathComponent_def Join_def path_step_def
        Itoa_0 ReadFile_def is_dir_def demo_shard_fs_def empty_fs_def)
  show "\<exists>s'. PutWithHash demo_shard_fs \<lparr>bsRoot = [''b'']\<rparr> ''alice'' ''f'' 0 [1] = (s', None)"
    by (simp add: PutWithHash_def Put_Buddy_def hashPath_def shardPath_Buddy_def isSafePathComponent_def Itoa_0
        Join_def path_step_def put_file_def MkdirAll_def empty_fs_def demo_shard_fs_def prefixes_def is_file_def is_dir_def
        WriteFile_def set_file_def upt_rec)
qed

theorem scrub_repairs_witness:
  "\<exists>a m' s' r. RunOnce (demo_answering a) (\<lambda>_. False) demo_shard_fs demo_scrubber = (m', s', Inr r)
     \<and> rpRevived r = 1 \<and> rpFailed r = 0 \<and> verifies s' \<lparr>bsRoot = [''b'']\<rparr> demo_ref"
proof -
  have J: "jShardResponse demo_codecs = codec_of resp_fmt" "jShardRequest demo_codecs = codec_of req_fmt" by (simp_all add: demo_codecs_def)
  obtain rq where rq: "\<And>b. WriteMsg (codec_of req_fmt) (net b) \<lparr>sqType = TypeShardRequest, sqOwnerID = ''alice'', sqFileID = ''f'', sqShardIndex = 0\<rparr>
      = (\<lparr>sin = b, sout = rq, swfails = False\<rparr>, None)"
    by (rule send_on_net [OF demo_sendable(3)]) blast
  obtain a where a: "ReadMsg (codec_of resp_fmt) a = ([], Inr \<lparr>ssType = TypeShardResponse, ssFileID = ''f'', ssShardIndex = 0, ssData = [1], ssFound = True\<rparr>)"
    by (rule send_on_net [OF demo_sendable(4)]) blast
  have fetch: "snd (FetchShard demo_codecs (Inr (net a)) ''alice'' ''f'' 0) = Inr [1]"
    by (simp add: FetchShard_def J rq stream_ReadMsg_def a)
  obtain s' where s': "PutWithHash demo_shard_fs \<lparr>bsRoot = [''b'']\<rparr> ''alice'' ''f'' 0 [1] = (s', None)"
    using demo_damaged(3) by blast
  have rv: "revive (demo_answering a) demo_shard_fs demo_scrubber demo_ref = (demo_scrubber, s', True)"
    using fetch s' by (simp add: revive_def demo_answering_def New_Scrubber_def demo_net_def)
  have run: "RunOnce (demo_answering a) (\<lambda>_. False) demo_shard_fs demo_scrubber = (demo_scrubber, s',
      Inr \<lparr>rpChecked = 1, rpOK = 0, rpCorrupted = 1, rpRevived = 1, rpFailed = 0\<rparr>)"
    using demo_damaged(1,2) rv by (simp add: RunOnce_def) (simp add: New_Scrubber_def)
  have "ListAll demo_shard_fs (smgBS demo_scrubber) = Inr [demo_ref]" using demo_damaged(1) by (simp add: New_Scrubber_def)
  moreover have "fault_free demo_shard_fs" by (simp add: demo_shard_fs_def empty_fs_def fault_free_def)
  ultimately show ?thesis
    using scrub_repairs [OF run] run by (fastforce simp: New_Scrubber_def)
qed

text \<open>A shard cannot be revived from its owner. The owner answers a request for its own shard from the
  store of shards it keeps for other peers, where its own shards are not: whatever its local store
  holds, its pull handler says "not found", and the scrubber gives up without changing anything.\<close>

theorem owner_cannot_revive_its_shard:
  assumes "snd (checkBuddyAuth P (jRegistry (eJ E)) (nFS n) (nReg n) me)" and "nSelf n = owner"
    and "Get_Buddy (nFS n) (nBS n) owner f i = Inl err"
    and "wire_sendable (jShardRequest (eJ E)) \<lparr>sqType = TypeShardRequest, sqOwnerID = owner, sqFileID = f, sqShardIndex = i\<rparr>"
    and "wire_sendable (jShardResponse (eJ E)) \<lparr>ssType = TypeShardResponse, ssFileID = f, ssShardIndex = i, ssData = [], ssFound = False\<rparr>"
  shows "\<exists>request answer n'. handlePull P (eJ E) n me (net request) = (n', \<lparr>sin = [], sout = answer, swfails = False\<rparr>)
     \<and> fst (FetchShard (eJ E) (Inr (net answer)) owner f i) = Some \<lparr>sin = [], sout = request, swfails = False\<rparr>
     \<and> (\<forall>N. nwPullStream N owner f i = Inr (net answer) \<longrightarrow>
          (\<exists>m'. revive (E\<lparr>eNet := N\<rparr>) s m \<lparr>srOwnerPeerID = owner, srFileID = f, srShardIndex = i\<rparr> = (m', s, False)))"
proof -
  let ?req = "\<lparr>sqType = TypeShardRequest, sqOwnerID = owner, sqFileID = f, sqShardIndex = i\<rparr>"
  let ?resp = "\<lparr>ssType = TypeShardResponse, ssFileID = f, ssShardIndex = i, ssData = [], ssFound = False\<rparr>"
  obtain request where rq: "\<And>b. WriteMsg (jShardRequest (eJ E)) (net b) ?req = (\<lparr>sin = b, sout = request, swfails = False\<rparr>, None)"
    "ReadMsg (jShardRequest (eJ E)) request = ([], Inr ?req)"
    by (rule send_on_net [OF assms(4)]) blast
  obtain answer where an: "\<And>b. WriteMsg (jShardResponse (eJ E)) (net b) ?resp = (\<lparr>sin = b, sout = answer, swfails = False\<rparr>, None)"
    "ReadMsg (jShardResponse (eJ E)) answer = ([], Inr ?resp)"
    by (rule send_on_net [OF assms(5)]) blast
  obtain reg where a: "checkBuddyAuth P (jRegistry (eJ E)) (nFS n) (nReg n) me = (reg, True)"
    using assms(1) by (metis prod.collapse)
  have resp: "pull_answer (nFS n) (nBS n) owner f i = ?resp" using assms(3) by (simp add: pull_answer_def)
  have "handlePull P (eJ E) n me (net request) = (n\<lparr>nReg := reg\<rparr>, \<lparr>sin = [], sout = answer, swfails = False\<rparr>)"
    using an(1) [of "[]"] rq(2) assms(2) resp by (simp add: handlePull_def a stream_ReadMsg_def net_def)
  moreover have fetch: "FetchShard (eJ E) (Inr (net answer)) owner f i
      = (Some \<lparr>sin = [], sout = request, swfails = False\<rparr>, Inl (Errorf ''p2p: shard not found''))"
    using rq(1) an(2) by (simp add: FetchShard_def stream_ReadMsg_def)
  moreover have "\<forall>N. nwPullStream N owner f i = Inr (net answer) \<longrightarrow>
      (\<exists>m'. revive (E\<lparr>eNet := N\<rparr>) s m \<lparr>srOwnerPeerID = owner, srFileID = f, srShardIndex = i\<rparr> = (m', s, False))"
    using fetch by (auto simp: revive_def Let_def split: prod.splits option.splits)
  ultimately show ?thesis by (metis fst_conv)
qed

theorem owner_cannot_revive_its_shard_witness:
  "\<exists>request answer n'. handlePull demo_p2p demo_codecs ((demo_node empty_fs)\<lparr>nSelf := ''owner''\<rparr>) ''alice'' (net request)
       = (n', \<lparr>sin = [], sout = answer, swfails = False\<rparr>)
     \<and> (\<exists>m'. revive (demo_answering answer) empty_fs demo_scrubber
           \<lparr>srOwnerPeerID = ''owner'', srFileID = ''f'', srShardIndex = 0\<rparr> = (m', empty_fs, False))"
proof -
  let ?n = "(demo_node empty_fs)\<lparr>nSelf := ''owner''\<rparr>"
  have auth: "snd (checkBuddyAuth demo_p2p (jRegistry demo_codecs) (nFS ?n) (nReg ?n) ''alice'')"
    using demo_auth(1) [of empty_fs empty_fs] by (simp add: demo_no_registry demo_node_def)
  have get: "Get_Buddy (nFS ?n) (nBS ?n) ''owner'' ''f'' 0 = Inl (Wrap ''buddystore: read'' ErrNotExist)"
    by (simp add: demo_node_def Get_Buddy_def shardPath_Buddy_def isSafePathComponent_def Join_def path_step_def Itoa_0 demo_no_registry)
  have snd: "wire_sendable (codec_of req_fmt) \<lparr>sqType = TypeShardRequest, sqOwnerID = ''owner'', sqFileID = ''f'', sqShardIndex = 0\<rparr>"
    "wire_sendable (codec_of resp_fmt) \<lparr>ssType = TypeShardResponse, ssFileID = ''f'', ssShardIndex = 0, ssData = [], ssFound = False\<rparr>"
    by - (rule sendable_codec_of, (simp add: push_fmt_ok message_fmts_ok), (simp add: fmt_defs), (simp add: fmt_defs))+
  have ex: "\<exists>request answer n'. handlePull demo_p2p (eJ (demo_answering [])) ?n ''alice'' (net request) = (n', \<lparr>sin = [], sout = answer, swfails = False\<rparr>)
     \<and> fst (FetchShard (eJ (demo_answering [])) (Inr (net answer)) ''owner'' ''f'' 0) = Some \<lparr>sin = [], sout = request, swfails = False\<rparr>
     \<and> (\<forall>N. nwPullStream N ''owner'' ''f'' 0 = Inr (net answer) \<longrightarrow>
          (\<exists>m'. revive ((demo_answering [])\<lparr>eNet := N\<rparr>) empty_fs demo_scrubber \<lparr>srOwnerPeerID = ''owner'', srFileID = ''f'', srShardIndex = 0\<rparr> = (m', empty_fs, False)))"
    by (rule owner_cannot_revive_its_shard [where err = "Wrap ''buddystore: read'' ErrNotExist"])
       (use auth get snd in \<open>simp_all add: demo_answering_def demo_codecs_def demo_node_def\<close>)
  then obtain request answer n' where h: "handlePull demo_p2p demo_codecs ?n ''alice'' (net request) = (n', \<lparr>sin = [], sout = answer, swfails = False\<rparr>)"
    and r: "\<forall>N. nwPullStream N ''owner'' ''f'' 0 = Inr (net answer) \<longrightarrow>
      (\<exists>m'. revive ((demo_answering [])\<lparr>eNet := N\<rparr>) empty_fs demo_scrubber \<lparr>srOwnerPeerID = ''owner'', srFileID = ''f'', srShardIndex = 0\<rparr> = (m', empty_fs, False))"
    by (auto simp: demo_answering_def)
  have "(demo_answering [])\<lparr>eNet := demo_net\<lparr>nwConnected := (\<lambda>_. True), nwPullStream := (\<lambda>_ _ _. Inr (net answer))\<rparr>\<rparr> = demo_answering answer"
    by (simp add: demo_answering_def)
  with r [rule_format, of "demo_net\<lparr>nwConnected := (\<lambda>_. True), nwPullStream := (\<lambda>_ _ _. Inr (net answer))\<rparr>"] h
  show ?thesis by auto
qed

end
