(* ===== verification/Demo_World.thy ===== *)
theory Demo_World
  imports Pipeline
begin

text \<open>
  A concrete state of a machine that has been set up: a key store with given extras under the password
  \<open>pw\<close>, a saved manifest with given contents, and any further files and directories. The witnesses of
  the operations that open both start from it.
\<close>

abbreviation demo_ks_path :: path where
  "demo_ks_path \<equiv> [''cfg'', ''keystore.enc'']"

abbreviation demo_mf_path :: path where
  "demo_mf_path \<equiv> [''cfg'', ''manifest.enc'']"

definition demo_salt :: bytes where
  "demo_salt = replicate 16 1"

definition demo_keystore :: "(string \<times> bytes) list \<Rightarrow> Keystore" where
  "demo_keystore extras = \<lparr>ksPath = demo_ks_path, ksMasterKey = DeriveKey demo_libs ''pw'' demo_salt, ksSalt = demo_salt,
     ksExtras = extras, ksUnlocked = True\<rparr>"

definition demo_ks_blob :: "(string \<times> bytes) list \<Rightarrow> bytes" where
  "demo_ks_blob extras = (case Marshal (codec_of ks_fmt) (keystore_json (demo_keystore extras)) of
     Inl _ \<Rightarrow> [] | Inr pt \<Rightarrow> (case Encrypt (Some (\<lambda>_. 2)) (DeriveKey demo_libs ''pw'' demo_salt) pt of
       Inl _ \<Rightarrow> [] | Inr enc \<Rightarrow> demo_salt @ enc))"

definition demo_mf_blob :: "data \<Rightarrow> bytes" where
  "demo_mf_blob D = (case Marshal (codec_of manifest_fmt) D of
     Inl _ \<Rightarrow> [] | Inr pt \<Rightarrow> (case Encrypt (Some (\<lambda>_. 3)) (DeriveKey demo_libs ''pw'' demo_salt) pt of
       Inl _ \<Rightarrow> [] | Inr enc \<Rightarrow> enc))"

definition demo_world :: "(string \<times> bytes) list \<Rightarrow> data \<Rightarrow> (path \<times> bytes) list \<Rightarrow> path list \<Rightarrow> fs" where
  "demo_world extras D fs ds = empty_fs\<lparr>
     files := [(demo_ks_path, demo_ks_blob extras), (demo_mf_path, demo_mf_blob D)] @ fs, dirs := [''cfg''] # ds\<rparr>"

lemma demo_world_fault_free [simp]: "fault_free (demo_world extras D fs ds)"
  by (simp add: demo_world_def empty_fs_def fault_free_def)

lemma demo_manifest_path: "DefaultManifestPath demo_os = demo_mf_path"
  by (simp add: DefaultManifestPath_def demo_os_def Join_def path_step_def)

lemma demo_key_valid: "valid_key (DeriveKey demo_libs ''pw'' demo_salt)"
  by (simp add: length_DeriveKey demo_argon2_lawful)

lemma demo_world_reads:
  assumes "demo_ks_path \<notin> set ds" and "demo_mf_path \<notin> set ds"
  shows "ReadFile (demo_world extras D fs ds) demo_ks_path = Inr (demo_ks_blob extras)"
    and "ReadFile (demo_world extras D fs ds) demo_mf_path = Inr (demo_mf_blob D)"
    and "Stat (demo_world extras D fs ds) demo_ks_path = Inr ()"
  using assms by (simp_all add: ReadFile_def Stat_def demo_world_def empty_fs_def is_dir_def is_file_def)

lemma demo_world_Unlock:
  assumes "demo_ks_path \<notin> set ds" and "demo_mf_path \<notin> set ds"
  shows "Unlock demo_libs (codec_of ks_fmt) (demo_world extras D fs ds) (NewKeystore demo_ks_path) ''pw'' = (demo_keystore extras, None)"
proof -
  obtain pt where pt: "Marshal (codec_of ks_fmt) (keystore_json (demo_keystore extras)) = Inr pt"
    "Unmarshal (codec_of ks_fmt) pt = Inr (keystore_json (demo_keystore extras))"
    by (metis inverts_Marshal inverts_Unmarshal codec_of_inverts ks_fmt_ok)
  obtain enc where enc: "Encrypt (Some (\<lambda>_. 2)) (DeriveKey demo_libs ''pw'' demo_salt) pt = Inr enc"
    using aes.enc_total [OF demo_key_valid] by blast
  have blob: "demo_ks_blob extras = demo_salt @ enc" by (simp add: demo_ks_blob_def pt enc)
  have "length demo_salt = SaltSize" by (simp add: demo_salt_def SaltSize_def)
  then show ?thesis
    using pt(2) aes.dec_enc [OF enc]
    by (simp add: Unlock_def NewKeystore_def demo_world_reads(1) [OF assms] blob)
       (simp add: demo_keystore_def keystore_json_def)
qed

lemma demo_MasterKey [simp]: "MasterKey (demo_keystore extras) = Inr (ksMasterKey (demo_keystore extras))"
  by (simp add: MasterKey_def demo_keystore_def)

lemma demo_world_opens:
  assumes "demo_ks_path \<notin> set ds" and "demo_mf_path \<notin> set ds"
  shows "OpenKeystore demo_env (demo_world extras D fs ds) ''pw'' = Inr (demo_keystore extras)"
    and "OpenOrCreateKeystore demo_env r1 r2 (demo_world extras D fs ds) ''pw'' = (demo_world extras D fs ds, Inr (demo_keystore extras))"
    and "OpenManifest demo_env (demo_world extras D fs ds) (ksMasterKey (demo_keystore extras))
      = Inr \<lparr>mfPath = demo_mf_path, mfMasterKey = ksMasterKey (demo_keystore extras), mfData = D\<rparr>"
proof -
  show "OpenKeystore demo_env (demo_world extras D fs ds) ''pw'' = Inr (demo_keystore extras)"
    by (simp add: OpenKeystore_def demo_paths demo_world_Unlock [OF assms])
  show "OpenOrCreateKeystore demo_env r1 r2 (demo_world extras D fs ds) ''pw'' = (demo_world extras D fs ds, Inr (demo_keystore extras))"
    by (simp add: OpenOrCreateKeystore_def demo_paths demo_world_Unlock [OF assms] demo_world_reads(3) [OF assms])
  obtain pt where pt: "Marshal (codec_of manifest_fmt) D = Inr pt" "Unmarshal (codec_of manifest_fmt) pt = Inr D"
    by (metis inverts_Marshal inverts_Unmarshal codec_of_inverts manifest_fmt_ok)
  obtain enc where enc: "Encrypt (Some (\<lambda>_. 3)) (DeriveKey demo_libs ''pw'' demo_salt) pt = Inr enc"
    using aes.enc_total [OF demo_key_valid] by blast
  have "demo_mf_blob D = enc" by (simp add: demo_mf_blob_def pt enc)
  then show "OpenManifest demo_env (demo_world extras D fs ds) (ksMasterKey (demo_keystore extras))
      = Inr \<lparr>mfPath = demo_mf_path, mfMasterKey = ksMasterKey (demo_keystore extras), mfData = D\<rparr>"
    using pt(2) aes.dec_enc [OF enc]
    by (simp add: OpenManifest_def demo_manifest_path Load_Manifest_def New_Manifest_def demo_world_reads(2) [OF assms])
       (simp add: demo_keystore_def)
qed

text \<open>Two versions of one file.\<close>

definition demo_version :: "string \<Rightarrow> string \<Rightarrow> int \<Rightarrow> ManifestEntry" where
  "demo_version fid p v = \<lparr>meFileID = fid, mePath = p, meHash = [], meSize = 3, meModified = v, meScheme = demo_scheme,
     meShards = [], meVersion = v, meBackedAt = v, meCompressed = True\<rparr>"

definition demo_versions :: data where
  "demo_versions = \<lparr>mdVersion = 1, mdEntries =
     [(''u1'', demo_version ''u1'' ''/f'' 1), (''u2'', demo_version ''u2'' ''/f'' 2), (''u3'', demo_version ''u3'' ''/a'' 1)]\<rparr>"

end
