(* ===== verification/Maintenance.thy ===== *)
theory Maintenance
  imports Backup_Run Rebalancer Scrubber Demo_World
begin

text \<open>
  \<open>internal/api/maintenance.go\<close>: rebalancing, the audit of the local store, pruning, storage statistics,
  scrubbing, the list of changes and fetching the manifest from a buddy. What a run draws from its
  surroundings (key store salt and nonces, the orders of map iterations, the clock) is the record
  \<open>maint_choice\<close>.
\<close>

record maint_choice =
  mcKs1 :: entropy
  mcKs2 :: entropy
  mcId1 :: entropy
  mcId2 :: entropy
  mcOrd :: "string list"
  mcPaths :: "string list"
  mcBuddies :: "string list"
  mcNow :: time
  mcSave :: entropy

text \<open>Every operation but two opens the key store, or makes one, and loads the manifest.\<close>

definition open_ks_manifest ::
  "env \<Rightarrow> maint_choice \<Rightarrow> fs \<Rightarrow> string \<Rightarrow> fs \<times> (bytes \<times> Manifest) result" where
  "open_ks_manifest E mc s password =
     (case OpenOrCreateKeystore E (mcKs1 mc) (mcKs2 mc) s password of
        (s1, Inl e) \<Rightarrow> (s1, Inl e)
      | (s1, Inr ks) \<Rightarrow> (s1, rbind (MasterKey ks) (\<lambda>k. rbind (OpenManifest E s1 k) (\<lambda>mf. Inr (k, mf)))))"

subsection \<open>Rebalancing\<close>

definition Rebalance ::
  "env \<Rightarrow> (string list \<Rightarrow> bool) \<Rightarrow> maint_choice \<Rightarrow> fs \<Rightarrow> string \<Rightarrow> path option \<Rightarrow> fs \<times> RebalanceResult result" where
  "Rebalance E expired mc s password storeDir =
     (if password = [] then (s, Inl (Errorf ''password is required''))
      else case OpenKeystore E s password of
        Inl e \<Rightarrow> (s, Inl e)
      | Inr ks \<Rightarrow>
     (case EnsurePeerIdentity (eL E) (eI E) (eKsJ E) (mcId1 mc) (mcId2 mc) s ks password of
        (ks1, s1, Inl e) \<Rightarrow> (s1, Inl (Wrap ''peer identity'' e))
      | (ks1, s1, Inr privKey) \<Rightarrow>
     (case nwNewHost (eNet E) privKey of
        Inl e \<Rightarrow> (s1, Inl (Wrap ''host'' e))
      | Inr ownerID \<Rightarrow>
     (case OpenRegistry E s1 ks1 of
        Inl e \<Rightarrow> (s1, Inl (Wrap ''registry'' e))
      | Inr reg \<Rightarrow>
     (case OpenStore E s1 storeDir of
        (s2, Inl e) \<Rightarrow> (s2, Inl (Wrap ''open local store'' e))
      | (s2, Inr st) \<Rightarrow>
     (s2, rbind (MasterKey ks1) (\<lambda>k. rbind (OpenManifest E s2 k) (\<lambda>mf.
        Inr (Run_Rebalancer E expired (mcBuddies mc) s2 (New_Rebalancer ownerID st reg)
               (map meFileID (All (mcOrd mc) mf))))))))))) "

subsection \<open>Audit\<close>

record AuditResult =
  arChecked :: int
  arValid :: int
  arCorrupted :: int
  arOrphaned :: int

text \<open>One shard that was read: an orphan, damaged, or valid.\<close>

definition audit_shard :: "env \<Rightarrow> bytes \<Rightarrow> ManifestEntry option \<Rightarrow> int \<Rightarrow> bytes \<Rightarrow> AuditResult \<Rightarrow> AuditResult" where
  "audit_shard E masterKey entry idx blob res =
     (let res = res\<lparr>arChecked := arChecked res + 1\<rparr>;
          corrupted = res\<lparr>arCorrupted := arCorrupted res + 1\<rparr> in
      case entry of
        None \<Rightarrow> res\<lparr>arOrphaned := arOrphaned res + 1\<rparr>
      | Some e \<Rightarrow>
          (case hexToHash (meHash e) of
             Inl _ \<Rightarrow> corrupted
           | Inr hashBytes \<Rightarrow>
               (case DeriveFileKey (eL E) masterKey hashBytes of
                  Inl _ \<Rightarrow> corrupted
                | Inr fileKey \<Rightarrow>
                    (case DecryptShard (eL E) fileKey idx blob of
                       Inl _ \<Rightarrow> corrupted
                     | Inr _ \<Rightarrow> res\<lparr>arValid := arValid res + 1\<rparr>))))"

text \<open>The inner loop stops at the first shard that cannot be read.\<close>

fun audit_indices ::
  "env \<Rightarrow> fs \<Rightarrow> Store \<Rightarrow> bytes \<Rightarrow> string \<Rightarrow> ManifestEntry option \<Rightarrow> int list \<Rightarrow> AuditResult \<Rightarrow> AuditResult" where
  "audit_indices E s st masterKey fileID entry [] res = res"
| "audit_indices E s st masterKey fileID entry (idx # idxs) res =
     (case Get s st fileID idx of
        Inl _ \<Rightarrow> res
      | Inr blob \<Rightarrow> audit_indices E s st masterKey fileID entry idxs (audit_shard E masterKey entry idx blob res))"

definition audit_max :: "ManifestEntry option \<Rightarrow> int" where
  "audit_max entry = (case entry of None \<Rightarrow> 8 | Some e \<Rightarrow> DataShards (meScheme e) + ParityShards (meScheme e))"

fun audit_files :: "env \<Rightarrow> fs \<Rightarrow> Store \<Rightarrow> bytes \<Rightarrow> Manifest \<Rightarrow> string list \<Rightarrow> AuditResult \<Rightarrow> AuditResult" where
  "audit_files E s st masterKey mf [] res = res"
| "audit_files E s st masterKey mf (fileID # fileIDs) res =
     (let entry = Get_Manifest mf fileID in
      audit_files E s st masterKey mf fileIDs
        (audit_indices E s st masterKey fileID entry (map int [0..<nat (audit_max entry)]) res))"

definition Audit :: "env \<Rightarrow> maint_choice \<Rightarrow> fs \<Rightarrow> string \<Rightarrow> path option \<Rightarrow> fs \<times> AuditResult result" where
  "Audit E mc s password storeDir =
     (if password = [] then (s, Inl (Errorf ''password is required''))
      else let dir = (case storeDir of None \<Rightarrow> DefaultStorePath (eOS E) | Some d \<Rightarrow> d) in
      case OpenOrCreateKeystore E (mcKs1 mc) (mcKs2 mc) s password of
        (s1, Inl e) \<Rightarrow> (s1, Inl e)
      | (s1, Inr ks) \<Rightarrow>
     (case MasterKey ks of
        Inl e \<Rightarrow> (s1, Inl e)
      | Inr masterKey \<Rightarrow>
     (case New s1 dir of
        (s2, Inl e) \<Rightarrow> (s2, Inl (Wrap ''open store'' e))
      | (s2, Inr st) \<Rightarrow>
     (s2, rbind (wrap ''list files'' (ListFiles s2 st)) (\<lambda>fileIDs.
        rbind (OpenManifest E s2 masterKey) (\<lambda>mf.
          Inr (audit_files E s2 st masterKey mf fileIDs
                 \<lparr>arChecked = 0, arValid = 0, arCorrupted = 0, arOrphaned = 0\<rparr>)))))))"

subsection \<open>Pruning\<close>

record PruneParams =
  ppPassword :: string
  ppKeepAllDays :: int
  ppKeepWeeklyDays :: int
  ppMaxVersions :: int
  ppDryRun :: bool
  ppStoreDir :: "path option"

record PruneResult =
  prPrunedIDs :: "string list"
  prDeleted :: int

text \<open>\<open>os.IsNotExist\<close> does not look inside a wrapped error.\<close>

fun prune_deletes :: "fs \<Rightarrow> Store \<Rightarrow> int \<Rightarrow> string list \<Rightarrow> fs \<times> int" where
  "prune_deletes s st n [] = (s, n)"
| "prune_deletes s st n (fileID # fileIDs) =
     (case Delete s st fileID of
        (s', e) \<Rightarrow> prune_deletes s' st (if e \<noteq> None \<and> e \<noteq> Some ErrNotExist then n else n + 1) fileIDs)"

definition Prune :: "env \<Rightarrow> maint_choice \<Rightarrow> fs \<Rightarrow> PruneParams \<Rightarrow> fs \<times> PruneResult result" where
  "Prune E mc s P =
     (if ppPassword P = [] then (s, Inl (Errorf ''password is required''))
      else let dir = (case ppStoreDir P of None \<Rightarrow> DefaultStorePath (eOS E) | Some d \<Rightarrow> d) in
      case open_ks_manifest E mc s (ppPassword P) of
        (s1, Inl e) \<Rightarrow> (s1, Inl e)
      | (s1, Inr (k, mf)) \<Rightarrow>
     (case PruneVersions (mcOrd mc) (mcPaths mc) (mcNow mc) mf
             \<lparr>KeepAllDays = ppKeepAllDays P, KeepWeeklyDays = ppKeepWeeklyDays P, MaxVersions = ppMaxVersions P\<rparr> of
        (mf1, pruned) \<Rightarrow>
          if pruned = [] \<or> ppDryRun P then (s1, Inr \<lparr>prPrunedIDs = pruned, prDeleted = 0\<rparr>)
          else (case New s1 dir of
             (s2, Inl e) \<Rightarrow> (s2, Inl (Wrap ''open store'' e))
           | (s2, Inr st) \<Rightarrow>
               (case prune_deletes s2 st 0 pruned of
                  (s3, n) \<Rightarrow>
                    (case Save_Manifest (eMfJ E) (mcSave mc) s3 mf1 of
                       (s4, Some e) \<Rightarrow> (s4, Inl (Wrap ''save manifest'' e))
                     | (s4, None) \<Rightarrow> (s4, Inr \<lparr>prPrunedIDs = pruned, prDeleted = n\<rparr>))))))"

subsection \<open>Statistics\<close>

record StorageStats =
  ssUniquePaths :: int
  ssTotalVersions :: int
  ssMultiVersion :: int
  ssLogicalBytes :: int
  ssDiskBytes :: int

text \<open>
  The callback drops errors, so \<open>filepath.WalkDir\<close> goes on: the files beneath the root with no
  unreadable directory above them, less those whose \<open>Info\<close> fails.
\<close>

definition lenient_walk :: "fs \<Rightarrow> path \<Rightarrow> (path \<times> bytes) list" where
  "lenient_walk s root =
     map (\<lambda>q. (q, the (map_of (files s) q)))
       (filter (\<lambda>q. \<not> rfault s q \<and> (\<forall>d \<in> set (prefixes (butlast q)). beneath root d \<longrightarrow> \<not> rfault s d))
         (sort (remdups (filter (beneath root) (map fst (files s))))))"

definition count_version :: "(string \<times> int) list \<Rightarrow> ManifestEntry \<Rightarrow> (string \<times> int) list" where
  "count_version byPath e =
     AList.update (mePath e) ((case map_of byPath (mePath e) of None \<Rightarrow> 0 | Some n \<Rightarrow> n) + 1) byPath"

definition is_latest :: "string list \<Rightarrow> Manifest \<Rightarrow> ManifestEntry \<Rightarrow> bool" where
  "is_latest ord mf e = (case Latest ord mf (mePath e) of None \<Rightarrow> False | Some lat \<Rightarrow> meFileID lat = meFileID e)"

definition Storage :: "env \<Rightarrow> maint_choice \<Rightarrow> fs \<Rightarrow> string \<Rightarrow> path option \<Rightarrow> fs \<times> StorageStats result" where
  "Storage E mc s password storeDir =
     (if password = [] then (s, Inl (Errorf ''password is required''))
      else let dir = (case storeDir of None \<Rightarrow> DefaultStorePath (eOS E) | Some d \<Rightarrow> d) in
      case open_ks_manifest E mc s password of
        (s1, Inl e) \<Rightarrow> (s1, Inl e)
      | (s1, Inr (k, mf)) \<Rightarrow>
          let entries = All (mcOrd mc) mf; byPath = foldl count_version [] entries in
          (s1, Inr
            \<lparr>ssUniquePaths = int (length byPath),
             ssTotalVersions = int (length entries),
             ssMultiVersion = int (length (filter (\<lambda>kn. 1 < snd kn) byPath)),
             ssLogicalBytes = foldl (\<lambda>t e. if is_latest (mcOrd mc) mf e then wrap64 (t + meSize e) else t) 0 entries,
             ssDiskBytes = foldl (\<lambda>t f. wrap64 (t + int (length (snd f)))) 0 (lenient_walk s1 dir)\<rparr>))"

subsection \<open>Scrubbing\<close>

definition Scrub :: "env \<Rightarrow> maint_choice \<Rightarrow> fs \<Rightarrow> string \<Rightarrow> fs \<times> Report result" where
  "Scrub E mc s password =
     (if password = [] then (s, Inl (Errorf ''password is required''))
      else case OpenOrCreateKeystore E (mcKs1 mc) (mcKs2 mc) s password of
        (s1, Inl e) \<Rightarrow> (s1, Inl e)
      | (s1, Inr ks) \<Rightarrow>
     (case ConfigDir (eOS E) of
        Inl e \<Rightarrow> (s1, Inl e)
      | Inr cfgDir \<Rightarrow>
     (case EnsurePeerIdentity (eL E) (eI E) (eKsJ E) (mcId1 mc) (mcId2 mc) s1 ks password of
        (ks1, s2, Inl e) \<Rightarrow> (s2, Inl (Wrap ''peer identity'' e))
      | (ks1, s2, Inr privKey) \<Rightarrow>
     (case nwNewHost (eNet E) privKey of
        Inl e \<Rightarrow> (s2, Inl (Wrap ''host'' e))
      | Inr self \<Rightarrow>
     (case OpenRegistry E s2 ks1 of
        Inl e \<Rightarrow> (s2, Inl e)
      | Inr reg \<Rightarrow>
          (case RunOnce E (\<lambda>_. False) s2 (New_Scrubber (NewStore (Join cfgDir [''shards''])) reg) of
             (m, s3, r) \<Rightarrow> (s3, r)))))))"

subsection \<open>Changes since a point in time\<close>

record DiffChange =
  dcPath :: string
  dcVersion :: int
  dcBackedAt :: time
  dcFileID :: string
  dcSize :: int
  dcKind :: string

definition before_step :: "time \<Rightarrow> (string \<times> int) list \<Rightarrow> ManifestEntry \<Rightarrow> (string \<times> int) list" where
  "before_step since latest e =
     (if backed_time e < since \<and> meVersion e > (case map_of latest (mePath e) of None \<Rightarrow> 0 | Some v \<Rightarrow> v)
      then AList.update (mePath e) (meVersion e) latest else latest)"

definition change_of :: "time \<Rightarrow> (string \<times> int) list \<Rightarrow> ManifestEntry \<Rightarrow> DiffChange option" where
  "change_of since latestBefore e =
     (if \<not> backed_time e > since then None
      else Some \<lparr>dcPath = mePath e, dcVersion = meVersion e, dcBackedAt = backed_time e, dcFileID = meFileID e,
        dcSize = meSize e,
        dcKind = (if (case map_of latestBefore (mePath e) of None \<Rightarrow> 0 | Some v \<Rightarrow> v) = 0 then ''new'' else ''updated'')\<rparr>)"

definition Diff :: "env \<Rightarrow> maint_choice \<Rightarrow> fs \<Rightarrow> string \<Rightarrow> time \<Rightarrow> fs \<times> DiffChange list result" where
  "Diff E mc s password since =
     (if password = [] then (s, Inl (Errorf ''password is required''))
      else case open_ks_manifest E mc s password of
        (s1, Inl e) \<Rightarrow> (s1, Inl e)
      | (s1, Inr (k, mf)) \<Rightarrow>
          let entries = All (mcOrd mc) mf in
          (s1, Inr (List.map_filter (change_of since (foldl (before_step since) [] entries)) entries)))"

subsection \<open>Fetching the manifest\<close>

definition ManifestPull :: "env \<Rightarrow> maint_choice \<Rightarrow> fs \<Rightarrow> string \<Rightarrow> string \<Rightarrow> path option \<Rightarrow> fs \<times> (path \<times> int) result" where
  "ManifestPull E mc s password addr out =
     (if password = [] \<or> addr = [] then (s, Inl (Errorf ''password and addr are required''))
      else let out = (case out of None \<Rightarrow> DefaultManifestPath (eOS E) | Some p \<Rightarrow> p) in
      case OpenKeystore E s password of
        Inl e \<Rightarrow> (s, Inl e)
      | Inr ks \<Rightarrow>
     (case EnsurePeerIdentity (eL E) (eI E) (eKsJ E) (mcId1 mc) (mcId2 mc) s ks password of
        (ks1, s1, Inl e) \<Rightarrow> (s1, Inl (Wrap ''peer identity'' e))
      | (ks1, s1, Inr priv) \<Rightarrow>
     (case nwNewHost (eNet E) priv of
        Inl e \<Rightarrow> (s1, Inl (Wrap ''host'' e))
      | Inr self \<Rightarrow>
     (case nwAddrInfo (eNet E) addr of
        Inl e \<Rightarrow> (s1, Inl e)
      | Inr (peer, addrs) \<Rightarrow>
          if \<not> nwConnect (eNet E) peer addrs then (s1, Inl (Errorf ''connect to buddy''))
          else (case snd (PullFromBuddy (eJ E) (nwManifestStream (eNet E) peer) self) of
             Inl e \<Rightarrow> (s1, Inl e)
           | Inr blob \<Rightarrow>
               (case put_file ''mkdir'' ''write'' s1 out blob of
                  (s2, Some e) \<Rightarrow> (s2, Inl e)
                | (s2, None) \<Rightarrow> (s2, Inr (out, int (length blob)))))))))"

subsection \<open>The audit as a classification\<close>

datatype verdict = Valid | Damaged | Orphan

definition verdict_of :: "env \<Rightarrow> bytes \<Rightarrow> ManifestEntry option \<times> int \<times> bytes \<Rightarrow> verdict" where
  "verdict_of E masterKey it =
     (case it of
        (None, idx, blob) \<Rightarrow> Orphan
      | (Some e, idx, blob) \<Rightarrow>
          if is_ok (rbind (hexToHash (meHash e)) (\<lambda>h. rbind (DeriveFileKey (eL E) masterKey h) (\<lambda>key.
               DecryptShard (eL E) key idx blob))) then Valid else Damaged)"

text \<open>The shards that an audit reads: of every file id those before the first gap, up to the bound.\<close>

definition readable_prefix :: "fs \<Rightarrow> Store \<Rightarrow> string \<Rightarrow> int list \<Rightarrow> (int \<times> bytes) list" where
  "readable_prefix s st fid idxs =
     List.map_filter (\<lambda>i. case Get s st fid i of Inl _ \<Rightarrow> None | Inr b \<Rightarrow> Some (i, b))
       (takeWhile (\<lambda>i. is_ok (Get s st fid i)) idxs)"

definition audit_items ::
  "fs \<Rightarrow> Store \<Rightarrow> Manifest \<Rightarrow> string list \<Rightarrow> (ManifestEntry option \<times> int \<times> bytes) list" where
  "audit_items s st mf fids =
     concat (map (\<lambda>f. let e = Get_Manifest mf f in
       map (\<lambda>ib. (e, ib)) (readable_prefix s st f (map int [0..<nat (audit_max e)]))) fids)"

definition tally :: "AuditResult \<Rightarrow> verdict list \<Rightarrow> AuditResult" where
  "tally res vs = res
     \<lparr>arChecked := arChecked res + int (length vs),
      arValid := arValid res + int (count_list vs Valid),
      arCorrupted := arCorrupted res + int (count_list vs Damaged),
      arOrphaned := arOrphaned res + int (count_list vs Orphan)\<rparr>"

lemma tally_Nil [simp]: "tally res [] = res"
  by (simp add: tally_def)

lemma tally_tally [simp]: "tally (tally res vs) ws = tally res (vs @ ws)"
  by (simp add: tally_def)

lemma audit_shard_tally: "audit_shard E k e i b res = tally res [verdict_of E k (e, i, b)]"
  by (auto simp: audit_shard_def verdict_of_def tally_def Let_def split: option.splits sum.splits)

lemma audit_indices_tally:
  "audit_indices E s st k f e idxs res = tally res (map (\<lambda>ib. verdict_of E k (e, ib)) (readable_prefix s st f idxs))"
  by (induction idxs arbitrary: res)
     (auto simp: readable_prefix_def List.map_filter_simps audit_shard_tally split: sum.splits)

lemma audit_files_tally:
  "audit_files E s st k mf fids res = tally res (map (verdict_of E k) (audit_items s st mf fids))"
  by (induction fids arbitrary: res) (simp_all add: audit_items_def Let_def audit_indices_tally comp_def)


subsection \<open>Shards and manifest entries have different ids\<close>

lemma readable_prefix_append:
  assumes "\<And>i. i \<in> set xs \<Longrightarrow> is_ok (Get s st f i)"
  shows "readable_prefix s st f (xs @ ys) = readable_prefix s st f xs @ readable_prefix s st f ys"
    and "length (readable_prefix s st f xs) = length xs"
proof -
  have t: "takeWhile (\<lambda>i. is_ok (Get s st f i)) xs = xs" using assms by (simp add: takeWhile_eq_all_conv)
  then show "readable_prefix s st f (xs @ ys) = readable_prefix s st f xs @ readable_prefix s st f ys"
    unfolding readable_prefix_def t using assms by (simp add: takeWhile_append2 map_filter_def)
  have "\<forall>i \<in> set xs. \<exists>x. Get s st f i = Inr x" using assms by (simp add: is_ok_iff)
  then show "length (readable_prefix s st f xs) = length xs"
    unfolding readable_prefix_def t by (induction xs) (auto simp: List.map_filter_simps)
qed

lemma Delete_other_id:
  assumes "Delete s st f = (s', e)" and "plain_component f" and "plain_component g" and "f \<noteq> g"
  shows "Get s' st g i = Inr x \<longleftrightarrow> Get s st g i = Inr x"
proof -
  obtain e' where r: "RemoveAll s (stRoot st @ [f]) = (s', e')"
    using assms(1,2) by (auto simp: Delete_def Join_plain split: prod.splits)
  show ?thesis
  proof (cases e')
    case None
    with ReadFile_RemoveAll [of s "stRoot st @ [f]" s'] r assms show ?thesis by (simp add: Get_def path_simps beneath_def)
  next
    case (Some err)
    then have "s' = s" using r by (auto simp: RemoveAll_def split: if_splits)
    then show ?thesis by simp
  qed
qed

lemma count_list_replicate_all: "(\<And>v. v \<in> set vs \<Longrightarrow> v = w) \<Longrightarrow> count_list vs w = length vs \<and> (w' \<noteq> w \<longrightarrow> count_list vs w' = 0)"
  by (induction vs) auto



subsection \<open>What pruning leaves behind\<close>

lemma RemoveAll_faults: "RemoveAll s p = (s', e) \<Longrightarrow> same_faults s s'"
  by (auto simp: RemoveAll_def same_faults_def split: if_splits)

lemma prune_deletes_fault_free:
  assumes "fault_free s"
  shows "\<exists>s'. prune_deletes s st n fids = (s', n + int (length fids)) \<and> fault_free s'"
  using assms
proof (induction fids arbitrary: s n)
  case Nil
  then show ?case by simp
next
  case (Cons f fids)
  obtain s1 where r: "RemoveAll s (Join (stRoot st) [f]) = (s1, None)"
    using Cons.prems by (simp add: RemoveAll_def fault_free_def)
  have "fault_free s1" using same_faults_fault_free [OF RemoveAll_faults [OF r]] Cons.prems by simp
  from Cons.IH [OF this, of "n + 1"] r show ?case by (simp add: Delete_def add.assoc)
qed

lemma PruneVersions_handle:
  "PruneVersions ord pord now m policy = (m1, pruned) \<Longrightarrow> mfPath m1 = mfPath m \<and> mfMasterKey m1 = mfMasterKey m"
  by (auto simp: PruneVersions_def Let_def set_entries_def split: prod.splits)

lemma open_ks_manifest_Inr:
  "open_ks_manifest E mc s pw = (s1, Inr (k, mf)) \<Longrightarrow> OpenManifest E s1 k = Inr mf"
  by (auto simp: open_ks_manifest_def rbind_eq_Inr split: prod.splits sum.splits)

lemma OpenManifest_after_Save:
  assumes "Save_Manifest (eMfJ E) r s m = (s', None)" and "inverts (eMfJ E) (mfData m)" and "fault_free s"
    and "mfPath m = DefaultManifestPath (eOS E)"
  shows "OpenManifest E s' (mfMasterKey m) = Inr m"
  using Load_after_Save [OF assms(1,2), of "New_Manifest (mfPath m) (mfMasterKey m)"] assms(3,4)
  by (simp add: OpenManifest_def fault_free_def New_Manifest_def)

lemma New_faults: "New s p = (s', r) \<Longrightarrow> same_faults s s'"
  by (auto simp: New_def split: prod.splits option.splits dest: MkdirAll_faults)

text \<open>C15. Pruning reports exactly the versions that the policy drops. A dry run, or a run that drops nothing,
  leaves the disk as opening the key store left it. Any other run that succeeds saves the manifest without
  those versions, as a later load shows, and on a fault-free disk counts a deletion for each of them.\<close>

theorem Prune_saves_what_it_keeps:
  assumes "Prune E mc s P = (s', Inr r)" and "open_ks_manifest E mc s (ppPassword P) = (s1, Inr (k, mf))"
    and "PruneVersions (mcOrd mc) (mcPaths mc) (mcNow mc) mf
           \<lparr>KeepAllDays = ppKeepAllDays P, KeepWeeklyDays = ppKeepWeeklyDays P, MaxVersions = ppMaxVersions P\<rparr> = (mf1, pruned)"
    and "fault_free s1" and "inverts (eMfJ E) (mfData mf1)"
  shows "prPrunedIDs r = pruned \<and>
    (if pruned = [] \<or> ppDryRun P then s' = s1 \<and> prDeleted r = 0
     else OpenManifest E s' k = Inr mf1 \<and> prDeleted r = int (length pruned))"
proof (cases "pruned = [] \<or> ppDryRun P")
  case True
  then show ?thesis using assms(1-3) by (auto simp: Prune_def Let_def split: if_splits)
next
  case False
  let ?dir = "case ppStoreDir P of None \<Rightarrow> DefaultStorePath (eOS E) | Some d \<Rightarrow> d"
  obtain s2 st where new: "New s1 ?dir = (s2, Inr st)"
    using assms(1-3) False by (auto simp: Prune_def Let_def split: if_splits sum.splits prod.splits)
  have "fault_free s2" using New_faults [OF new] same_faults_fault_free assms(4) by blast
  then obtain s3 where del: "prune_deletes s2 st 0 pruned = (s3, int (length pruned))" and ff: "fault_free s3"
    using prune_deletes_fault_free [of s2 st 0 pruned] by auto
  have save: "Save_Manifest (eMfJ E) (mcSave mc) s3 mf1 = (s', None)" and r: "r = \<lparr>prPrunedIDs = pruned, prDeleted = int (length pruned)\<rparr>"
    using assms(1-3) False new del by (auto simp: Prune_def Let_def split: if_splits prod.splits option.splits)
  have "mfPath mf1 = DefaultManifestPath (eOS E)" "mfMasterKey mf1 = k"
    using PruneVersions_handle [OF assms(3)] OpenManifest_Inr [OF open_ks_manifest_Inr [OF assms(2)]] by simp_all
  with OpenManifest_after_Save [OF save assms(5) ff] False r show ?thesis by auto
qed

definition demo_mc :: maint_choice where
  "demo_mc = \<lparr>mcKs1 = None, mcKs2 = None, mcId1 = None, mcId2 = None, mcOrd = [''u1'', ''u2'', ''u3''], mcPaths = [''/f'', ''/a''],
     mcBuddies = [], mcNow = 6, mcSave = Some (\<lambda>_. 4)\<rparr>"

abbreviation demo_opened_mf :: Manifest where
  "demo_opened_mf \<equiv> \<lparr>mfPath = demo_mf_path, mfMasterKey = ksMasterKey (demo_keystore []), mfData = demo_versions\<rparr>"

lemma demo_open_ks_manifest:
  "open_ks_manifest demo_env demo_mc (demo_world [] demo_versions [] []) ''pw''
     = (demo_world [] demo_versions [] [], Inr (ksMasterKey (demo_keystore []), demo_opened_mf))"
  using demo_world_opens [where ds = "[]" and extras = "[]" and D = demo_versions and fs = "[]"]
  by (simp add: open_ks_manifest_def)

theorem Prune_saves_what_it_keeps_witness:
  "\<exists>r pruned. Prune demo_env demo_mc (demo_world [] demo_versions [] [])
       \<lparr>ppPassword = ''pw'', ppKeepAllDays = 0, ppKeepWeeklyDays = 0, ppMaxVersions = 1, ppDryRun = True, ppStoreDir = None\<rparr>
     = (demo_world [] demo_versions [] [], Inr r) \<and> prPrunedIDs r = pruned \<and> prDeleted r = 0"
proof -
  let ?P = "\<lparr>ppPassword = ''pw'', ppKeepAllDays = 0, ppKeepWeeklyDays = 0, ppMaxVersions = 1, ppDryRun = True, ppStoreDir = None\<rparr>"
  obtain mf1 pruned where pr: "PruneVersions (mcOrd demo_mc) (mcPaths demo_mc) (mcNow demo_mc) demo_opened_mf
      \<lparr>KeepAllDays = ppKeepAllDays ?P, KeepWeeklyDays = ppKeepWeeklyDays ?P, MaxVersions = ppMaxVersions ?P\<rparr> = (mf1, pruned)"
    by fastforce
  then have run: "Prune demo_env demo_mc (demo_world [] demo_versions [] []) ?P
      = (demo_world [] demo_versions [] [], Inr \<lparr>prPrunedIDs = pruned, prDeleted = 0\<rparr>)"
    using demo_open_ks_manifest by (simp add: Prune_def)
  have "inverts (eMfJ demo_env) (mfData mf1)" by (simp add: codec_of_inverts manifest_fmt_ok)
  with Prune_saves_what_it_keeps [OF run _ pr] demo_open_ks_manifest run show ?thesis by fastforce
qed

subsection \<open>Changes and statistics\<close>

abbreviation value_at :: "(string \<times> int) list \<Rightarrow> string \<Rightarrow> int" where
  "value_at m p \<equiv> (case map_of m p of None \<Rightarrow> 0 | Some v \<Rightarrow> v)"

lemma before_steps:
  "0 \<le> value_at (foldl (before_step since) [] es) p
   \<and> (value_at (foldl (before_step since) [] es) p = 0 \<longleftrightarrow>
        \<not> (\<exists>e \<in> set es. mePath e = p \<and> backed_time e < since \<and> 0 < meVersion e))"
proof (induction es rule: rev_induct)
  case Nil
  then show ?case by simp
next
  case (snoc e es)
  then show ?case by (auto simp: before_step_def split: option.splits)
qed

text \<open>The list of changes holds exactly the entries backed up after the given time, in the order of the
  manifest, and calls one "updated" exactly when the same path has a version from before that time.\<close>

theorem Diff_lists_the_changes:
  assumes "Diff E mc s pw since = (s', Inr cs)" and "open_ks_manifest E mc s pw = (s1, Inr (k, mf))"
  shows "map dcFileID cs = map meFileID (filter (\<lambda>e. since < backed_time e) (All (mcOrd mc) mf))
    \<and> (\<forall>c \<in> set cs. dcKind c = ''updated'' \<longleftrightarrow>
         (\<exists>e \<in> set (All (mcOrd mc) mf). mePath e = dcPath c \<and> backed_time e < since \<and> 0 < meVersion e))"
proof -
  let ?es = "All (mcOrd mc) mf"
  let ?m = "foldl (before_step since) [] ?es"
  have cs: "cs = List.map_filter (change_of since ?m) ?es"
    using assms by (auto simp: Diff_def Let_def split: if_splits)
  have "map dcFileID (List.map_filter (change_of since m) es) = map meFileID (filter (\<lambda>e. since < backed_time e) es)" for m es
    by (induction es) (simp_all add: List.map_filter_simps change_of_def)
  moreover have "dcKind c = ''updated'' \<longleftrightarrow> value_at ?m (dcPath c) \<noteq> 0" if "c \<in> set cs" for c
    using that by (auto simp: cs map_filter_def change_of_def split: if_splits)
  ultimately show ?thesis using before_steps [of since ?es] unfolding cs by metis
qed

theorem Diff_lists_the_changes_witness:
  "\<exists>cs. Diff demo_env demo_mc (demo_world [] demo_versions [] []) ''pw'' 1 = (demo_world [] demo_versions [] [], Inr cs)
     \<and> map dcFileID cs = [''u2'']"
proof -
  have es: "All (mcOrd demo_mc) demo_opened_mf = [demo_version ''u1'' ''/f'' 1, demo_version ''u2'' ''/f'' 2, demo_version ''u3'' ''/a'' 1]"
    by (simp add: All_def demo_versions_def demo_mc_def)
  obtain cs where "Diff demo_env demo_mc (demo_world [] demo_versions [] []) ''pw'' 1 = (demo_world [] demo_versions [] [], Inr cs)"
    using demo_open_ks_manifest by (simp add: Diff_def Let_def)
  with Diff_lists_the_changes [OF this demo_open_ks_manifest] show ?thesis
    unfolding es by (simp add: demo_version_def backed_time_def)
qed

lemma count_versions:
  "distinct (map fst (foldl count_version [] es)) \<and> set (map fst (foldl count_version [] es)) = mePath ` set es
   \<and> (\<forall>p n. map_of (foldl count_version [] es) p = Some n \<longrightarrow> n = int (length (filter (\<lambda>e. mePath e = p) es)))"
proof (induction es rule: rev_induct)
  case Nil
  then show ?case by simp
next
  case (snoc e es)
  define m where "m = foldl count_version [] es"
  have step: "foldl count_version [] (es @ [e]) = count_version m e" by (simp add: m_def)
  note IH = snoc [folded m_def]
  have none: "filter (\<lambda>e'. mePath e' = mePath e) es = []" if "map_of m (mePath e) = None"
  proof -
    have "mePath e \<notin> mePath ` set es" using IH that by (metis map_of_eq_None_iff set_map)
    then show ?thesis by (auto simp: filter_empty_conv) (metis imageI)
  qed
  show ?case unfolding step
    using IH none by (auto simp: count_version_def distinct_update dom_update split: option.splits if_splits)
qed

text \<open>The statistics count the paths of the manifest, the versions, and the paths with more than one
  version.\<close>

theorem Storage_counts_paths_and_versions:
  assumes "Storage E mc s pw dir = (s', Inr stats)" and "open_ks_manifest E mc s pw = (s1, Inr (k, mf))"
  shows "ssUniquePaths stats = int (card (mePath ` set (All (mcOrd mc) mf)))
    \<and> ssTotalVersions stats = int (length (All (mcOrd mc) mf))
    \<and> ssMultiVersion stats = int (card {p. 1 < length (filter (\<lambda>e. mePath e = p) (All (mcOrd mc) mf))})"
proof -
  let ?es = "All (mcOrd mc) mf"
  let ?m = "foldl count_version [] ?es"
  have d: "distinct (map fst ?m)" and keys: "set (map fst ?m) = mePath ` set ?es"
    and val: "\<And>p n. (p, n) \<in> set ?m \<Longrightarrow> n = int (length (filter (\<lambda>e. mePath e = p) ?es))"
    using count_versions [of ?es] by (auto dest: map_of_is_SomeI)
  have "length ?m = card (mePath ` set ?es)" using distinct_card [OF d] keys by simp
  moreover have "fst ` set (filter (\<lambda>kn. 1 < snd kn) ?m) = {p. 1 < length (filter (\<lambda>e. mePath e = p) ?es)}"
  proof (intro set_eqI iffI; clarsimp)
    fix p assume "Suc 0 < length (filter (\<lambda>e. mePath e = p) ?es)"
    then have "p \<in> set (map fst ?m)" unfolding keys
      by (metis (mono_tags, lifting) Suc_lessD length_greater_0_conv filter_empty_conv imageI)
    then obtain n where "(p, n) \<in> set ?m" by auto
    with val [OF this] \<open>Suc 0 < _\<close> show "p \<in> fst ` {x \<in> set ?m. 1 < snd x}" by force
  next
    fix p n assume "(p, n) \<in> set ?m" and "1 < n"
    with val show "Suc 0 < length (filter (\<lambda>e. mePath e = p) ?es)" by fastforce
  qed
  then have "length (filter (\<lambda>kn. 1 < snd kn) ?m) = card {p. 1 < length (filter (\<lambda>e. mePath e = p) ?es)}"
    using distinct_card [of "map fst (filter (\<lambda>kn. 1 < snd kn) ?m)"] d by (simp add: distinct_map_filter)
  ultimately show ?thesis
    using assms by (auto simp: Storage_def Let_def split: if_splits)
qed

theorem Storage_counts_paths_and_versions_witness:
  "\<exists>stats. Storage demo_env demo_mc (demo_world [] demo_versions [] []) ''pw'' None = (demo_world [] demo_versions [] [], Inr stats)
     \<and> ssUniquePaths stats = 2 \<and> ssTotalVersions stats = 3"
proof -
  have es: "All (mcOrd demo_mc) demo_opened_mf = [demo_version ''u1'' ''/f'' 1, demo_version ''u2'' ''/f'' 2, demo_version ''u3'' ''/a'' 1]"
    by (simp add: All_def demo_versions_def demo_mc_def)
  obtain stats where "Storage demo_env demo_mc (demo_world [] demo_versions [] []) ''pw'' None = (demo_world [] demo_versions [] [], Inr stats)"
    using demo_open_ks_manifest by (simp add: Storage_def Let_def)
  with Storage_counts_paths_and_versions [OF this demo_open_ks_manifest] show ?thesis
    unfolding es by (simp add: demo_version_def)
qed

end
