(* ===== verification/Archive.thy ===== *)
theory Archive
  imports Maintenance
begin

text \<open>
  \<open>internal/archive/archive.go\<close> and \<open>internal/api/data.go\<close>: a version as a portable archive, and back. The
  container, a gzip stream with a comment around a tar file, is a parameter: one function makes it
  from its comment and its entries, another yields the comment and the entries that \<open>tr.Next\<close> and
  \<open>io.ReadAll\<close> give, the last of which may be an error. A nil shard is \<open>None\<close>.
\<close>

datatype tar_item = TarEntry string bytes | TarError error

record arclib =
  al_Encode :: "string \<Rightarrow> (string \<times> bytes) list \<Rightarrow> bytes result"
  al_Decode :: "bytes \<Rightarrow> (string \<times> tar_item list) result"
  al_Json :: "ManifestEntry codec"
  al_MarshalIndent :: "ManifestEntry \<Rightarrow> bytes result"

definition manifestEntryName :: string where "manifestEntryName = ''manifest.json''"
definition shardPrefix :: string where "shardPrefix = ''shard-''"
definition shardSuffix :: string where "shardSuffix = ''.enc''"
definition magicComment :: string where "magicComment = ''cerclbackup-archive-v1''"

definition shard_entry :: "nat \<Rightarrow> bytes option \<Rightarrow> string \<times> bytes" where
  "shard_entry i d = (shardPrefix @ Itoa (int i) @ shardSuffix, case d of None \<Rightarrow> [] | Some b \<Rightarrow> b)"

definition Write_Archive :: "arclib \<Rightarrow> ManifestEntry \<Rightarrow> bytes option list \<Rightarrow> bytes result" where
  "Write_Archive A entry shards =
     rbind (wrap ''archive: marshal manifest'' (al_MarshalIndent A entry)) (\<lambda>mjson.
       al_Encode A magicComment ((manifestEntryName, mjson) # map (\<lambda>(i, d). shard_entry i d) (enumerate 0 shards)))"

fun read_items ::
  "arclib \<Rightarrow> ManifestEntry option \<Rightarrow> (int \<times> bytes) list \<Rightarrow> tar_item list \<Rightarrow> (ManifestEntry option \<times> (int \<times> bytes) list) result" where
  "read_items A entry shardMap [] = Inr (entry, shardMap)"
| "read_items A entry shardMap (TarError e # _) = Inl (Wrap ''archive: read tar'' e)"
| "read_items A entry shardMap (TarEntry name d # items) =
     (if name = manifestEntryName then
        (case Unmarshal (al_Json A) d of
           Inl e \<Rightarrow> Inl (Wrap ''archive: parse manifest'' e)
         | Inr m \<Rightarrow> read_items A (Some m) shardMap items)
      else if HasPrefix name shardPrefix \<and> HasSuffix name shardSuffix then
        (case Atoi (TrimSuffix (TrimPrefix name shardPrefix) shardSuffix) of
           None \<Rightarrow> Inl (Errorf ''archive: bad shard name'')
         | Some idx \<Rightarrow> read_items A entry (AList.update idx d shardMap) items)
      else read_items A entry shardMap items)"

text \<open>\<open>make\<close> panics on a negative length.\<close>

definition Read_Archive :: "arclib \<Rightarrow> bytes \<Rightarrow> (ManifestEntry \<times> bytes option list) result" where
  "Read_Archive A r =
     (case al_Decode A r of
        Inl e \<Rightarrow> Inl (Wrap ''archive: not a gzip stream'' e)
      | Inr (comment, items) \<Rightarrow>
          if comment \<noteq> magicComment then Inl (Errorf ''archive: not a cerclbackup archive (wrong magic)'')
          else
     (case read_items A None [] items of
        Inl e \<Rightarrow> Inl e
      | Inr (None, _) \<Rightarrow> Inl (Errorf ''archive: manifest.json not found'')
      | Inr (Some entry, shardMap) \<Rightarrow>
          if TotalShards (meScheme entry) < 0 then Inl (Panic ''makeslice: len out of range'')
          else Inr (entry, map (\<lambda>i. map_of shardMap (int i)) [0..<nat (TotalShards (meScheme entry))])))"

subsection \<open>The default name\<close>

fun day_in_month :: "int \<Rightarrow> int list \<Rightarrow> int" where
  "day_in_month yday [] = yday + 1"
| "day_in_month yday (n # ns) = (if yday < n then yday + 1 else day_in_month (yday - n) ns)"

definition time_Day :: "time \<Rightarrow> int" where
  "time_Day t =
     (case civil (day_of t) of (y, yday) \<Rightarrow>
        day_in_month yday [31, if is_leap y then 29 else 28, 31, 30, 31, 30, 31, 31, 30, 31, 30])"

definition pad4 :: "int \<Rightarrow> string" where
  "pad4 i = (let t = Itoa i in replicate (4 - length t) (CHR ''0'') @ t)"

definition safe_char :: "char \<Rightarrow> char" where
  "safe_char c = (if c \<in> {CHR ''/'', CHR 0x5C, CHR '':'', CHR '' ''} then CHR ''_'' else c)"

definition Filename :: "time \<Rightarrow> ManifestEntry \<Rightarrow> string" where
  "Filename now entry =
     (let safe = map safe_char (mePath entry);
          safe = (if safe = [] then meFileID entry else safe);
          ts = (if meBackedAt entry = 0 then now else meBackedAt entry)
      in TrimPrefix safe ''_'' @ ''_v'' @ Itoa (meVersion entry) @ ''_'' @ pad4 (time_Year ts) @ pad2 (time_Month ts) @ pad2 (time_Day ts) @ ''.cbk'')"

subsection \<open>Export and import\<close>

record ExportResult =
  xrOutPath :: path
  xrEntry :: ManifestEntry

definition export_entry :: "string list \<Rightarrow> Manifest \<Rightarrow> string \<Rightarrow> int \<Rightarrow> ManifestEntry option" where
  "export_entry ord mf filePath version =
     (if version > 0 then List.find (\<lambda>e. meVersion e = version) (ListVersions ord mf filePath) else Latest ord mf filePath)"

definition export_shards :: "fs \<Rightarrow> Store \<Rightarrow> ManifestEntry \<Rightarrow> bytes option list result" where
  "export_shards s st entry =
     (if TotalShards (meScheme entry) < 0 then Inl (Panic ''makeslice: len out of range'')
      else Inr (map (\<lambda>i. case Get s st (meFileID entry) (int i) of Inl _ \<Rightarrow> None | Inr d \<Rightarrow> Some d)
        [0..<nat (TotalShards (meScheme entry))]))"

text \<open>\<open>cwd\<close> is the working directory, where the default name is put; creating a file truncates it.\<close>

definition Export ::
  "env \<Rightarrow> arclib \<Rightarrow> maint_choice \<Rightarrow> path \<Rightarrow> fs \<Rightarrow> string \<Rightarrow> string \<Rightarrow> int \<Rightarrow> path option \<Rightarrow> path option \<Rightarrow> fs \<times> ExportResult result" where
  "Export E A mc cwd s password filePath version outPath storeDir =
     (if password = [] \<or> filePath = [] then (s, Inl (Errorf ''password and file path are required''))
      else let dir = (case storeDir of None \<Rightarrow> DefaultStorePath (eOS E) | Some d \<Rightarrow> d) in
      case open_ks_manifest E mc s password of
        (s1, Inl e) \<Rightarrow> (s1, Inl e)
      | (s1, Inr (k, mf)) \<Rightarrow>
     (case export_entry (mcOrd mc) mf filePath version of
        None \<Rightarrow> (s1, Inl (Errorf ''not found in manifest''))
      | Some entry \<Rightarrow>
     (case OpenStore E s1 (Some dir) of
        (s2, Inl e) \<Rightarrow> (s2, Inl (Wrap ''open store'' e))
      | (s2, Inr st) \<Rightarrow>
     (case export_shards s2 st entry of
        Inl e \<Rightarrow> (s2, Inl e)
      | Inr shards \<Rightarrow>
          let out = (case outPath of None \<Rightarrow> Join cwd [Filename (mcNow mc) entry] | Some p \<Rightarrow> p) in
     (case WriteFile s2 out [] of
        (s3, Some e) \<Rightarrow> (s3, Inl (Wrap ''create'' e))
      | (s3, None) \<Rightarrow>
     (case Write_Archive A entry shards of
        Inl e \<Rightarrow> (s3, Inl (Wrap ''write archive'' e))
      | Inr b \<Rightarrow>
     (case WriteFile s3 out b of
        (s4, Some e) \<Rightarrow> (s4, Inl (Wrap ''write archive'' e))
      | (s4, None) \<Rightarrow> (s4, Inr \<lparr>xrOutPath = out, xrEntry = entry\<rparr>))))))))"

text \<open>A shard with no bytes is left out.\<close>

fun import_shards ::
  "ShardMeta list codec \<Rightarrow> fs \<Rightarrow> Store \<Rightarrow> ManifestEntry \<Rightarrow> int \<Rightarrow> bytes option list \<Rightarrow> fs \<times> error option" where
  "import_shards c s st entry i [] = (s, None)"
| "import_shards c s st entry i (None # shards) = import_shards c s st entry (i + 1) shards"
| "import_shards c s st entry i (Some d # shards) =
     (if d = [] then import_shards c s st entry (i + 1) shards
      else case Put c s st (meFileID entry) i (i \<ge> DataShards (meScheme entry)) d of
             (s', Some e) \<Rightarrow> (s', Some (Wrap ''store shard'' e))
           | (s', None) \<Rightarrow> import_shards c s' st entry (i + 1) shards)"

definition Import ::
  "env \<Rightarrow> arclib \<Rightarrow> maint_choice \<Rightarrow> fs \<Rightarrow> string \<Rightarrow> path option \<Rightarrow> path option \<Rightarrow> fs \<times> ManifestEntry result" where
  "Import E A mc s password cbkPath storeDir =
     (if password = [] then (s, Inl (Errorf ''password and file path are required''))
      else case cbkPath of None \<Rightarrow> (s, Inl (Errorf ''password and file path are required''))
      | Some p \<Rightarrow>
     (let dir = (case storeDir of None \<Rightarrow> DefaultStorePath (eOS E) | Some d \<Rightarrow> d) in
      case ReadFile s p of
        Inl e \<Rightarrow> (s, Inl (Wrap ''open'' e))
      | Inr blob \<Rightarrow>
     (case Read_Archive A blob of
        Inl (Panic m) \<Rightarrow> (s, Inl (Panic m))
      | Inl e \<Rightarrow> (s, Inl (Wrap ''read archive'' e))
      | Inr (entry, shards) \<Rightarrow>
     (case OpenStore E s (Some dir) of
        (s1, Inl e) \<Rightarrow> (s1, Inl (Wrap ''open store'' e))
      | (s1, Inr st) \<Rightarrow>
     (case import_shards (eMetaJ E) s1 st entry 0 shards of
        (s2, Some e) \<Rightarrow> (s2, Inl e)
      | (s2, None) \<Rightarrow>
     (case open_ks_manifest E mc s2 password of
        (s3, Inl e) \<Rightarrow> (s3, Inl e)
      | (s3, Inr (k, mf)) \<Rightarrow>
          if Get_Manifest mf (meFileID entry) \<noteq> None then (s3, Inr entry)
          else (case Save_Manifest (eMfJ E) (mcSave mc) s3 (ImportEntry mf entry) of
                  (s4, Some e) \<Rightarrow> (s4, Inl (Wrap ''save manifest'' e))
                | (s4, None) \<Rightarrow> (s4, Inr entry))))))))"

subsection \<open>Reading what was written\<close>

text \<open>The container gives back its comment and entries, and the indented JSON of an entry reads back.\<close>

definition arc_lawful :: "arclib \<Rightarrow> bool" where
  "arc_lawful A \<longleftrightarrow>
     (\<forall>c es b. al_Encode A c es = Inr b \<longrightarrow> al_Decode A b = Inr (c, map (\<lambda>(n, d). TarEntry n d) es)) \<and>
     (\<forall>e b. al_MarshalIndent A e = Inr b \<longrightarrow> Unmarshal (al_Json A) b = Inr e)"

lemma shard_name_parts:
  assumes "in_int64 (int i)"
  shows "shardPrefix @ Itoa (int i) @ shardSuffix \<noteq> manifestEntryName"
    and "HasPrefix (shardPrefix @ Itoa (int i) @ shardSuffix) shardPrefix"
    and "HasSuffix (shardPrefix @ Itoa (int i) @ shardSuffix) shardSuffix"
    and "Atoi (TrimSuffix (TrimPrefix (shardPrefix @ Itoa (int i) @ shardSuffix) shardPrefix) shardSuffix) = Some (int i)"
proof -
  show "shardPrefix @ Itoa (int i) @ shardSuffix \<noteq> manifestEntryName"
    by (simp add: shardPrefix_def manifestEntryName_def)
  show "HasPrefix (shardPrefix @ Itoa (int i) @ shardSuffix) shardPrefix" by simp
  show "HasSuffix (shardPrefix @ Itoa (int i) @ shardSuffix) shardSuffix"
    using HasSuffix_append [of "shardPrefix @ Itoa (int i)" shardSuffix] by simp
  show "Atoi (TrimSuffix (TrimPrefix (shardPrefix @ Itoa (int i) @ shardSuffix) shardPrefix) shardSuffix) = Some (int i)"
    by (simp add: Atoi_Itoa [OF assms])
qed

lemma read_items_shards:
  assumes "in_int64 (int (n + length shards))"
  shows "\<exists>m'. read_items A entry m (map (\<lambda>(n, d). TarEntry n d) (map (\<lambda>(i, d). shard_entry i d) (enumerate n shards))) = Inr (entry, m')
    \<and> (\<forall>i. map_of m' i = (if int n \<le> i \<and> i < int (n + length shards)
          then Some (case shards ! nat (i - int n) of None \<Rightarrow> [] | Some b \<Rightarrow> b) else map_of m i))"
  using assms
proof (induction shards arbitrary: n m)
  case Nil
  then show ?case by auto
next
  case (Cons d shards)
  have b: "in_int64 (int n)" "in_int64 (int (Suc n + length shards))" using Cons.prems by (auto simp: in_int64_def)
  let ?v = "case d of None \<Rightarrow> [] | Some b \<Rightarrow> b"
  obtain m' where m': "read_items A entry (AList.update (int n) ?v m)
      (map (\<lambda>(n, d). TarEntry n d) (map (\<lambda>(i, d). shard_entry i d) (enumerate (Suc n) shards))) = Inr (entry, m')"
    "\<forall>i. map_of m' i = (if int (Suc n) \<le> i \<and> i < int (Suc n + length shards)
          then Some (case shards ! nat (i - int (Suc n)) of None \<Rightarrow> [] | Some b \<Rightarrow> b) else map_of (AList.update (int n) ?v m) i)"
    using Cons.IH [OF b(2)] by blast
  have "nat (i - int n) = Suc (nat (i - int (Suc n)))" if "int (Suc n) \<le> i" for i using that by simp
  then have "map_of m' i = (if int n \<le> i \<and> i < int (n + length (d # shards))
        then Some (case (d # shards) ! nat (i - int n) of None \<Rightarrow> [] | Some b \<Rightarrow> b) else map_of m i)" for i
    using m'(2) by (cases "i = int n") (auto simp: update_conv)
  moreover have "read_items A entry m (map (\<lambda>(n, d). TarEntry n d) (map (\<lambda>(i, d). shard_entry i d) (enumerate n (d # shards)))) = Inr (entry, m')"
    using m'(1) shard_name_parts [OF b(1)] by (simp add: shard_entry_def)
  ultimately show ?case by blast
qed

text \<open>An archive reads back: what \<open>Write\<close> made from an entry and its shards, \<open>Read\<close> turns into the same
  entry and the same shards, a shard that was missing being empty.\<close>

lemma archive_reads_back:
  assumes "arc_lawful A" and "Write_Archive A entry shards = Inr b" and "int (length shards) = TotalShards (meScheme entry)"
    and "in_int64 (TotalShards (meScheme entry))"
  shows "Read_Archive A b = Inr (entry, map (\<lambda>d. Some (case d of None \<Rightarrow> [] | Some x \<Rightarrow> x)) shards)"
proof -
  let ?es = "map (\<lambda>(i, d). shard_entry i d) (enumerate 0 shards)"
  obtain j where j: "al_MarshalIndent A entry = Inr j" and e: "al_Encode A magicComment ((manifestEntryName, j) # ?es) = Inr b"
    using assms(2) by (auto simp: Write_Archive_def rbind_eq_Inr wrap_def split: sum.splits)
  have d: "al_Decode A b = Inr (magicComment, TarEntry manifestEntryName j # map (\<lambda>(n, d). TarEntry n d) ?es)"
    using assms(1) e by (simp add: arc_lawful_def)
  have u: "Unmarshal (al_Json A) j = Inr entry" using assms(1) j by (simp add: arc_lawful_def)
  have "in_int64 (int (0 + length shards))" using assms(3,4) by simp
  from read_items_shards [OF this, of A "Some entry" "[]"] obtain m' where
    m': "read_items A (Some entry) [] (map (\<lambda>(n, d). TarEntry n d) ?es) = Inr (Some entry, m')"
    "\<forall>i. map_of m' i = (if 0 \<le> i \<and> i < int (length shards) then Some (case shards ! nat i of None \<Rightarrow> [] | Some b \<Rightarrow> b) else None)"
    by auto
  have n: "nat (TotalShards (meScheme entry)) = length shards" "\<not> TotalShards (meScheme entry) < 0" using assms(3) by simp_all
  have "map (\<lambda>i. map_of m' (int i)) [0..<length shards] = map (\<lambda>d. Some (case d of None \<Rightarrow> [] | Some x \<Rightarrow> x)) shards"
    using m'(2) by (auto intro!: nth_equalityI)
  then show ?thesis using d u m'(1) n by (simp add: Read_Archive_def)
qed

subsection \<open>Importing as a batch of the shard store\<close>

fun import_batch :: "string \<Rightarrow> int \<Rightarrow> bytes option list \<Rightarrow> ((string \<times> int) \<times> bytes) list" where
  "import_batch fid i [] = []"
| "import_batch fid i (None # shards) = import_batch fid (i + 1) shards"
| "import_batch fid i (Some d # shards) =
     (if d = [] then import_batch fid (i + 1) shards else ((fid, i), d) # import_batch fid (i + 1) shards)"

lemma import_batch_keys: "((f, j), d) \<in> set (import_batch fid i shards) \<Longrightarrow> f = fid \<and> i \<le> j"
  by (induction fid i shards rule: import_batch.induct) (auto split: if_splits)

lemma import_batch_distinct: "distinct (map fst (import_batch fid i shards))"
  by (induction fid i shards rule: import_batch.induct) (auto dest: import_batch_keys)

lemma import_batch_mem:
  "j < length shards \<Longrightarrow> shards ! j = Some d \<Longrightarrow> d \<noteq> [] \<Longrightarrow> ((fid, i + int j), d) \<in> set (import_batch fid i shards)"
proof (induction fid i shards arbitrary: j rule: import_batch.induct)
  case (2 fid i shards)
  then show ?case by (cases j) (auto simp: algebra_simps)
next
  case (3 fid i x shards)
  then show ?case by (cases j) (auto simp: algebra_simps)
qed simp

lemma import_shards_batch:
  assumes "put_all (\<lambda>s k d. Put c s st (fst k) (snd k) (snd k \<ge> DataShards (meScheme entry)) d) s
      (import_batch (meFileID entry) i shards) = (s', None)"
  shows "import_shards c s st entry i shards = (s', None)"
  using assms
  by (induction c s st entry i shards rule: import_shards.induct) (auto split: if_splits prod.splits option.splits)

lemma import_shards_stores:
  assumes "ready c s st" and "plain_component (meFileID entry)"
  shows "\<exists>s'. import_shards c s st entry i shards = (s', None) \<and> ready c s' st
    \<and> (\<forall>j < length shards. \<forall>d. shards ! j = Some d \<and> d \<noteq> [] \<longrightarrow> Get s' st (meFileID entry) (i + int j) = Inr d)"
proof -
  let ?par = "\<lambda>j. j \<ge> DataShards (meScheme entry)"
  let ?put = "\<lambda>s k d. Put c s st (fst k) (snd k) (?par (snd k)) d" and ?b = "import_batch (meFileID entry) i shards"
  have keys: "plain_component (fst k)" if "(k, d) \<in> set ?b" for k d
    using that assms(2) import_batch_keys [of "fst k" "snd k" d "meFileID entry" i shards] by simp
  have inv: "marshals c \<and> store_ok s (stRoot st) \<and> fault_free s" using assms(1) by (simp add: ready_def)
  obtain s' where s': "put_all ?put s ?b = (s', None)" "marshals c \<and> store_ok s' (stRoot st) \<and> fault_free s'"
    using lstore_total.put_all_total [OF inv, of ?b ?par] keys by blast
  have "Get s' st (meFileID entry) (i + int j) = Inr d" if "j < length shards" "shards ! j = Some d" "d \<noteq> []" for j d
    using lstore.put_all_gets [OF s'(1) import_batch_distinct _ import_batch_mem [OF that]] keys inv
    by (auto simp: fault_free_def)
  then show ?thesis using import_shards_batch [OF s'(1)] s'(2) by (auto simp: ready_def)
qed

lemma import_nothing: "(\<And>d. d \<in> set shards \<Longrightarrow> d = None \<or> d = Some []) \<Longrightarrow> import_shards c s st entry i shards = (s, None)"
proof (induction shards arbitrary: i)
  case (Cons d shards)
  then have "import_shards c s st entry (i + 1) shards = (s, None)" by simp
  with Cons.prems [of d] show ?case by auto
qed simp

subsection \<open>Properties\<close>

text \<open>A damaged or forged archive stops the program: when the manifest entry of an archive announces a negative number
  of shards, \<open>Import\<close> panics.\<close>

theorem negative_scheme_panics:
  assumes "arc_lawful A" and "Write_Archive A entry [] = Inr b" and "TotalShards (meScheme entry) < 0"
    and "ReadFile s p = Inr b" and "password \<noteq> []"
  shows "Import E A mc s password (Some p) dir = (s, Inl (Panic ''makeslice: len out of range''))"
proof -
  obtain j where j: "al_MarshalIndent A entry = Inr j" and e: "al_Encode A magicComment [(manifestEntryName, j)] = Inr b"
    using assms(2) by (auto simp: Write_Archive_def rbind_eq_Inr wrap_def split: sum.splits)
  have "al_Decode A b = Inr (magicComment, [TarEntry manifestEntryName j])" "Unmarshal (al_Json A) j = Inr entry"
    using assms(1) e j by (simp_all add: arc_lawful_def)
  then have "Read_Archive A b = Inl (Panic ''makeslice: len out of range'')"
    using assms(3) by (simp add: Read_Archive_def)
  then show ?thesis using assms(4,5) by (simp add: Import_def)
qed


text \<open>The archive of a version that \<open>Backup\<close> made carries no data. \<open>Export\<close> looks for the shards under the
  UUID of the manifest entry while \<open>Backup\<close> stored them under the id derived from the content: every shard
  of the archive is missing, and importing it stores nothing.\<close>

theorem export_of_a_backup_is_empty:
  assumes "lawful (eL E) scheme" and "\<forall>i. fcNonce fc i \<noteq> None" and "ready (eMetaJ E) s st" and "separate E st"
    and "ReadFile s src = Inr d" and "\<not> beneath (stRoot st) src"
    and "plain_component (fcUuid fc)" and "fcUuid fc \<noteq> file_id d"
    and "\<forall>i x. Get s st (fcUuid fc) i \<noteq> Inr x" and "0 \<le> TotalShards scheme"
  shows "\<exists>s1 mf1 n entry. backupOneFile E fc s src sz st pw mk mf scheme = Some (s1, mf1, Inr (file_id d, n))
    \<and> Get_Manifest mf1 (fcUuid fc) = Some entry \<and> mePath entry = path_string src
    \<and> export_shards s1 st entry = Inr (replicate (nat (TotalShards scheme)) None)
    \<and> (\<forall>A b c t st2. arc_lawful A \<and> in_int64 (TotalShards scheme)
          \<and> Write_Archive A entry (replicate (nat (TotalShards scheme)) None) = Inr b \<longrightarrow>
          (\<exists>shards. Read_Archive A b = Inr (entry, shards) \<and> import_shards c t st2 entry 0 shards = (t, None)))"
proof -
  obtain s1 entry key where b: "backupOneFile E fc s src sz st pw mk mf scheme
       = Some (s1, set_entries mf (AList.update (fcUuid fc) entry (AList.update (fcUuid fc) (entry\<lparr>meCompressed := False\<rparr>) (entries_of mf))),
               Inr (file_id d, int (length (concat (file_shards E scheme d)))))"
    and e: "mePath entry = path_string src" "meScheme entry = scheme" "meFileID entry = fcUuid fc"
    and oth: "other_ids st (file_id d) s s1"
    by (rule backupOneFile_ok [OF assms(1-6)]) blast
  define mf1 where "mf1 = set_entries mf (AList.update (fcUuid fc) entry (AList.update (fcUuid fc) (entry\<lparr>meCompressed := False\<rparr>) (entries_of mf)))"
  have none: "Get s1 st (fcUuid fc) i \<noteq> Inr x" for i x
    using oth assms(7-9) by (simp add: other_ids_def)
  have "(case Get s1 st (fcUuid fc) (int i) of Inl _ \<Rightarrow> None | Inr d \<Rightarrow> Some d) = None" for i
    using none by (auto split: sum.split)
  then have ex: "export_shards s1 st entry = Inr (replicate (nat (TotalShards scheme)) None)"
    using assms(10) e(2,3) by (simp add: export_shards_def map_replicate_const)
  have "Get_Manifest mf1 (fcUuid fc) = Some entry" by (simp add: mf1_def Get_Manifest_def set_entries_def)
  moreover have "\<exists>shards. Read_Archive A b = Inr (entry, shards) \<and> import_shards c t st2 entry 0 shards = (t, None)"
    if "arc_lawful A" "in_int64 (TotalShards scheme)" "Write_Archive A entry (replicate (nat (TotalShards scheme)) None) = Inr b" for A b c t st2
    using archive_reads_back [OF that(1,3)] that(2) e(2) assms(10) by (auto intro!: exI import_nothing)
  ultimately show ?thesis using b [folded mf1_def] e(1) ex by (intro exI conjI) (assumption | blast)+
qed

subsection \<open>A concrete container\<close>

definition arc_fmt :: "(string \<times> (string \<times> bytes) list) wirefmt" where
  "arc_fmt = fmt_pair fmt_string (fmt_list (fmt_pair fmt_string fmt_bytes))"

lemma arc_fmt_ok: "fmt_ok arc_fmt"
  by (simp add: arc_fmt_def fmt_intros)

definition demo_arc :: arclib where
  "demo_arc = \<lparr>al_Encode = (\<lambda>c es. Marshal (codec_of arc_fmt) (c, es)),
     al_Decode = (\<lambda>b. rbind (Unmarshal (codec_of arc_fmt) b) (\<lambda>(c, es). Inr (c, map (\<lambda>(n, d). TarEntry n d) es))),
     al_Json = codec_of entry_fmt, al_MarshalIndent = Marshal (codec_of entry_fmt)\<rparr>"

lemma demo_arc_lawful: "arc_lawful demo_arc"
  using inverts_Unmarshal [OF codec_of_inverts [OF arc_fmt_ok]] inverts_Unmarshal [OF codec_of_inverts [OF entry_fmt_ok]]
  by (simp add: arc_lawful_def demo_arc_def)

lemma demo_arc_writes: "\<exists>b. Write_Archive demo_arc entry shards = Inr b"
proof -
  obtain j where "Marshal (codec_of entry_fmt) entry = Inr j"
    using inverts_Marshal [OF codec_of_inverts [OF entry_fmt_ok]] by blast
  moreover have "\<exists>b. Marshal (codec_of arc_fmt) (c, es) = Inr b" for c es
    using inverts_Marshal [OF codec_of_inverts [OF arc_fmt_ok]] by blast
  ultimately show ?thesis by (simp add: Write_Archive_def demo_arc_def)
qed

lemma demo_uuid: "plain_component ''u1''" "''u1'' \<noteq> file_id [1, 2, 3]"
proof -
  have len: "length (file_id [1, 2, 3]) = 16" by (simp add: fileIDFromHash_def len_simps content_hash_def)
  show "''u1'' \<noteq> file_id [1, 2, 3]"
  proof
    assume eq: "''u1'' = file_id [1, 2, 3]"
    have "length ''u1'' = 16" unfolding eq by (rule len)
    then show False by simp
  qed
qed (simp add: plain_component_def)

theorem negative_scheme_panics_witness:
  "\<exists>s. Import demo_env demo_arc demo_mc s ''pw'' (Some [''x.cbk'']) None = (s, Inl (Panic ''makeslice: len out of range''))"
proof -
  let ?e = "(demo_version ''u1'' ''/f'' 1)\<lparr>meScheme := \<lparr>DataShards = -1, ParityShards = 0\<rparr>\<rparr>"
  obtain b where b: "Write_Archive demo_arc ?e [] = Inr b" using demo_arc_writes by blast
  have "ReadFile (empty_fs\<lparr>files := [([''x.cbk''], b)]\<rparr>) [''x.cbk''] = Inr b"
    by (simp add: ReadFile_def empty_fs_def is_dir_def)
  from negative_scheme_panics [OF demo_arc_lawful b _ this, of "''pw''"] show ?thesis
    by (intro exI) (simp add: TotalShards_def)
qed


theorem export_of_a_backup_is_empty_witness:
  "\<exists>s1 mf1 n entry. backupOneFile demo_env demo_fc demo_fs [''src'', ''f''] 3 demo_st ''pw'' (replicate 32 1)
       (New_Manifest [''cfg'', ''manifest.enc''] (replicate 32 1)) demo_scheme = Some (s1, mf1, Inr (file_id [1, 2, 3], n))
     \<and> Get_Manifest mf1 ''u1'' = Some entry \<and> export_shards s1 demo_st entry = Inr [None, None, None]"
proof -
  let ?mf = "New_Manifest [''cfg'', ''manifest.enc''] (replicate 32 1)"
  have hy: "lawful (eL demo_env) demo_scheme" "\<forall>i. fcNonce demo_fc i \<noteq> None" "ready (eMetaJ demo_env) demo_fs demo_st"
    "separate demo_env demo_st" "\<not> beneath (stRoot demo_st) [''src'', ''f'']" "fcUuid demo_fc = ''u1''"
    by (simp_all add: demo_lawful demo_fc_def demo_ready demo_separate beneath_def)
  have tot: "TotalShards demo_scheme = 3" by (simp add: demo_scheme_def TotalShards_def)
  note u = demo_uuid
  have get: "\<forall>i x. Get demo_fs demo_st (fcUuid demo_fc) i \<noteq> Inr x"
    using u(1) by (simp add: hy(6) Get_def path_simps ReadFile_def demo_fs_def empty_fs_def is_dir_def)
  have three: "replicate (nat 3) None = [None, None, None]" by (simp add: numeral_3_eq_3)
  show ?thesis
    using export_of_a_backup_is_empty [OF hy(1-4) demo_reads(1) hy(5) _ _ get, where pw = "''pw''" and mk = "replicate 32 1" and mf = ?mf and sz = 3] u
    unfolding hy(6) tot three by fastforce
qed

end
