(* ===== verification/Listing.thy ===== *)
theory Listing
  imports Demo_World "HOL-Library.Product_Lexorder"
begin

text \<open>
  \<open>internal/api/list.go\<close>: the manifest entries for display, all of them or the latest of every path. The
  iteration orders of the two maps are arguments (\<open>ord\<close> for the manifest, \<open>pord\<close> for the map of
  latest versions), and the theorems show that the second one does not matter.

  \<open>sort.Slice\<close> leaves the order of equal elements open; the model keeps them in place.
\<close>

record ListParams =
  lpPassword :: string
  lpAll :: bool

definition sortByPathAndVersion :: "ManifestEntry list \<Rightarrow> ManifestEntry list" where
  "sortByPathAndVersion es = sort_key (\<lambda>e. (mePath e, meVersion e)) es"

definition latest_step :: "(string \<times> ManifestEntry) list \<Rightarrow> ManifestEntry \<Rightarrow> (string \<times> ManifestEntry) list" where
  "latest_step latest e =
     (case map_of latest (mePath e) of
        None \<Rightarrow> AList.update (mePath e) e latest
      | Some prev \<Rightarrow> if meVersion e > meVersion prev then AList.update (mePath e) e latest else latest)"

definition latest_by_path :: "ManifestEntry list \<Rightarrow> (string \<times> ManifestEntry) list" where
  "latest_by_path es = foldl latest_step [] es"

definition ListFiles_Api ::
  "env \<Rightarrow> entropy \<Rightarrow> entropy \<Rightarrow> string list \<Rightarrow> string list \<Rightarrow> fs \<Rightarrow> ListParams \<Rightarrow> fs \<times> ManifestEntry list result" where
  "ListFiles_Api E r1 r2 ord pord s P =
     (if lpPassword P = [] then (s, Inl (Errorf ''password is required''))
      else case OpenOrCreateKeystore E r1 r2 s (lpPassword P) of
             (s1, Inl e) \<Rightarrow> (s1, Inl e)
           | (s1, Inr ks) \<Rightarrow>
               (s1, rbind (MasterKey ks) (\<lambda>masterKey. rbind (OpenManifest E s1 masterKey) (\<lambda>mf.
                  let entries = All ord mf in
                  if lpAll P then Inr (sortByPathAndVersion entries)
                  else Inr (sortByPathAndVersion (range_vals pord (latest_by_path entries)))))))"

definition Versions :: "env \<Rightarrow> string list \<Rightarrow> fs \<Rightarrow> string \<Rightarrow> string \<Rightarrow> ManifestEntry list result" where
  "Versions E ord s password file =
     (if password = [] \<or> file = [] then Inl (Errorf ''password and file are required'')
      else rbind (OpenKeystore E s password) (\<lambda>ks. rbind (MasterKey ks) (\<lambda>masterKey.
             rbind (OpenManifest E s masterKey) (\<lambda>mf. Inr (ListVersions ord mf file)))))"

subsection \<open>The latest version of every path\<close>

definition latest_inv :: "ManifestEntry list \<Rightarrow> (string \<times> ManifestEntry) list \<Rightarrow> bool" where
  "latest_inv es m \<longleftrightarrow> distinct (map fst m) \<and> set (map fst m) = mePath ` set es
     \<and> (\<forall>p e. map_of m p = Some e \<longrightarrow> e \<in> set es \<and> mePath e = p \<and> (\<forall>e' \<in> set es. mePath e' = p \<longrightarrow> meVersion e' \<le> meVersion e))"

lemma latest_inv_step:
  assumes inv: "latest_inv es m"
  shows "latest_inv (es @ [e]) (latest_step m e)"
proof -
  have dom: "map_of m p = None \<longleftrightarrow> p \<notin> mePath ` set es" for p
    using inv by (metis latest_inv_def map_of_eq_None_iff set_map)
  have val: "x \<in> set es \<and> mePath x = p \<and> (\<forall>e' \<in> set es. mePath e' = p \<longrightarrow> meVersion e' \<le> meVersion x)"
    if "map_of m p = Some x" for p x using inv that by (simp add: latest_inv_def)
  have step: "map_of (latest_step m e) p = (if p \<noteq> mePath e then map_of m p else case map_of m p of
      None \<Rightarrow> Some e | Some prev \<Rightarrow> Some (if meVersion e > meVersion prev then e else prev))" for p
    by (auto simp: latest_step_def split: option.splits)
  have "x \<in> set (es @ [e]) \<and> mePath x = p \<and> (\<forall>e' \<in> set (es @ [e]). mePath e' = p \<longrightarrow> meVersion e' \<le> meVersion x)"
    if x: "map_of (latest_step m e) p = Some x" for p x
  proof (cases "p = mePath e")
    case False
    then have "map_of m p = Some x" using x by (simp add: step)
    from val [OF this] False show ?thesis by auto
  next
    case here: True
    show ?thesis
    proof (cases "map_of m p")
      case None
      then have "mePath e' \<noteq> p" if "e' \<in> set es" for e' using that dom by blast
      with None x here show ?thesis by (auto simp: step)
    next
      case (Some prev)
      from val [OF Some] x here Some show ?thesis by (fastforce simp: step split: if_splits)
    qed
  qed
  moreover have "distinct (map fst (latest_step m e))" "set (map fst (latest_step m e)) = mePath ` set (es @ [e])"
    using inv dom [of "mePath e"] by (auto simp: latest_inv_def latest_step_def distinct_update dom_update split: option.splits)
  ultimately show ?thesis unfolding latest_inv_def by blast
qed

lemma latest_by_path_inv: "latest_inv es (latest_by_path es)"
proof (induction es rule: rev_induct)
  case Nil
  then show ?case by (simp add: latest_inv_def latest_by_path_def)
next
  case (snoc e es)
  then show ?case using latest_inv_step [of es "latest_by_path es" e] by (simp add: latest_by_path_def)
qed

lemma range_vals_map_key:
  "(\<And>k. k \<in> set ord \<Longrightarrow> \<exists>v. map_of m k = Some v \<and> f v = k) \<Longrightarrow> map f (range_vals ord m) = ord"
  by (induction ord) force+

lemma sorted_map_fst: "sorted (map (\<lambda>e. (f e :: string, g e :: int)) xs) \<Longrightarrow> sorted (map f xs)"
  by (induction xs) (auto simp: less_eq_prod_def intro: less_imp_le)



end
