(* ===== verification/Inviting.thy ===== *)
theory Inviting
  imports Maintenance
begin

text \<open>
  \<open>internal/api/invite.go\<close> and \<open>internal/api/buddy.go\<close>: generating an invite with the addresses of this
  machine, joining an inviter, and listing, probing and removing buddies. The operating system's choice of
  an outgoing address (\<open>preferredOutboundIP\<close>) is an argument; it is empty when the look-up fails.
\<close>

subsection \<open>Strings\<close>

text \<open>\<open>strings.Contains\<close>, \<open>strings.Split\<close> for a separator that is not empty, \<open>strings.Join\<close> with a
  space, and \<open>strings.Fields\<close> for ASCII text.\<close>

fun Contains :: "string \<Rightarrow> string \<Rightarrow> bool" where
  "Contains [] p \<longleftrightarrow> p = []"
| "Contains (c # s) p \<longleftrightarrow> HasPrefix (c # s) p \<or> Contains s p"

function split_seps :: "string \<Rightarrow> string \<Rightarrow> string \<Rightarrow> string list" where
  "split_seps sep acc s =
     (if s = [] \<or> sep = [] then [acc @ s]
      else if HasPrefix s sep then acc # split_seps sep [] (drop (length sep) s)
      else split_seps sep (acc @ [hd s]) (tl s))"
  by pat_completeness auto
termination
  by (relation "measure (\<lambda>(sep, acc, s). length s)") auto

declare split_seps.simps [simp del]

definition Split :: "string \<Rightarrow> string \<Rightarrow> string list" where
  "Split s sep = split_seps sep [] s"

fun fields_from :: "string \<Rightarrow> string \<Rightarrow> string list" where
  "fields_from w [] = (if w = [] then [] else [w])"
| "fields_from w (c # s) =
     (if is_space c then (if w = [] then fields_from [] s else w # fields_from [] s) else fields_from (w @ [c]) s)"

definition Fields :: "string \<Rightarrow> string list" where
  "Fields s = fields_from [] s"

fun join_space :: "string list \<Rightarrow> string" where
  "join_space [] = []"
| "join_space [w] = w"
| "join_space (w # ws) = w @ '' '' @ join_space ws"

subsection \<open>Inviting\<close>

text \<open>The error of \<open>ConfigDir\<close> is dropped, which leaves an empty directory.\<close>

definition OpenInviteManager :: "osenv \<Rightarrow> Manager" where
  "OpenInviteManager o' =
     NewManager (Join (case ConfigDir o' of Inl _ \<Rightarrow> [] | Inr d \<Rightarrow> d) [''invites.json''])"

record InviteResult =
  vrWords :: string
  vrVerbalWords :: string
  vrAddrs :: "string list"
  vrJoinAddr :: string
  vrPeerID :: string

fun self_addrs :: "string \<Rightarrow> int \<Rightarrow> string list \<Rightarrow> string list" where
  "self_addrs peerID servePort [] = []"
| "self_addrs peerID servePort (ma # mas) =
     (if Contains ma ''/udp/'' then self_addrs peerID servePort mas
      else let parts = Split ma ''/tcp/'';
               a = (if length parts = 2 then hd parts @ ''/tcp/'' @ Itoa servePort else ma)
           in (a @ ''/p2p/'' @ peerID) # self_addrs peerID servePort mas)"

definition selfAddrs :: "env \<Rightarrow> bytes \<Rightarrow> int \<Rightarrow> (string \<times> string list) result" where
  "selfAddrs E privKey servePort =
     rbind (nwNewHost (eNet E) privKey) (\<lambda>peerID. Inr (peerID, self_addrs peerID servePort (nwHostAddrs (eNet E))))"

text \<open>The first address that satisfies a condition, empty if there is none.\<close>

definition first_addr :: "(string \<Rightarrow> bool) \<Rightarrow> string list \<Rightarrow> string" where
  "first_addr f addrs = (case List.find f addrs of None \<Rightarrow> [] | Some a \<Rightarrow> a)"

definition not_routable :: "string \<Rightarrow> bool" where
  "not_routable a \<longleftrightarrow> Contains a ''/169.254.'' \<or> Contains a ''/127.0.0.1/'' \<or> Contains a ''/::1/''"

definition join_addr :: "string \<Rightarrow> string list \<Rightarrow> string" where
  "join_addr preferred addrs =
     (let a = (if preferred \<noteq> [] \<and> preferred \<noteq> ''127.0.0.1'' \<and> preferred \<noteq> ''::1'' \<and> \<not> HasPrefix preferred ''169.254.''
               then first_addr (\<lambda>a. Contains a (''/'' @ preferred @ ''/'')) addrs else []);
          a = (if a = [] then first_addr (\<lambda>a. \<not> not_routable a) addrs else a);
          a = (if a = [] then first_addr (\<lambda>a. Contains a ''/127.0.0.1/tcp/'') addrs else a)
      in if a = [] \<and> addrs \<noteq> [] then hd addrs else a)"

record invite_choice =
  icId1 :: entropy
  icId2 :: entropy
  icToken :: entropy
  icNow1 :: time
  icNow2 :: time
  icPreferred :: string
  icOrd :: "string list"
  icRnd :: entropy

definition Invite_Api ::
  "env \<Rightarrow> (bytes \<Rightarrow> string result) \<Rightarrow> invite_choice \<Rightarrow> fs \<Rightarrow> string \<Rightarrow> int \<Rightarrow> fs \<times> InviteResult result" where
  "Invite_Api E NewMnemonic ic s password servePort =
     (if password = [] then (s, Inl (Errorf ''password is required''))
      else case OpenKeystore E s password of
        Inl e \<Rightarrow> (s, Inl e)
      | Inr ks \<Rightarrow>
     (case EnsurePeerIdentity (eL E) (eI E) (eKsJ E) (icId1 ic) (icId2 ic) s ks password of
        (ks1, s1, Inl e) \<Rightarrow> (s1, Inl e)
      | (ks1, s1, Inr privKey) \<Rightarrow>
     (case selfAddrs E privKey servePort of
        Inl e \<Rightarrow> (s1, Inl e)
      | Inr (peerID, addrs) \<Rightarrow>
     (case Generate_Invite (jInvites (eJ E)) NewMnemonic (icToken ic) (icNow1 ic) (icNow2 ic) s1 (OpenInviteManager (eOS E)) of
        (s2, Inl e) \<Rightarrow> (s2, Inl e)
      | (s2, Inr code) \<Rightarrow>
          let wlist = Fields (cdWords code);
              verbally = (if 3 \<le> length wlist then join_space (drop (length wlist - 3) wlist) else [])
          in (s2, Inr \<lparr>vrWords = cdWords code, vrVerbalWords = verbally, vrAddrs = addrs,
                vrJoinAddr = join_addr (icPreferred ic) addrs, vrPeerID = peerID\<rparr>)))))"

text \<open>The requesting side of an invitation uses the registry, the peer id and the public key of a node.\<close>

definition client_node :: "env \<Rightarrow> fs \<Rightarrow> Registry \<Rightarrow> bytes \<Rightarrow> string \<Rightarrow> node" where
  "client_node E s reg privKey self = \<lparr>nFS = s, nReg = reg, nBS = \<lparr>bsRoot = []\<rparr>, nInv = OpenInviteManager (eOS E),
     nSelf = self, nPubKey = nwPubKey (eNet E) privKey\<rparr>"

definition Join_Api ::
  "env \<Rightarrow> (string \<Rightarrow> bytes result) \<Rightarrow> invite_choice \<Rightarrow> fs \<Rightarrow> string \<Rightarrow> string \<Rightarrow> string \<Rightarrow> string \<Rightarrow> int \<Rightarrow> fs \<times> string result" where
  "Join_Api E MnemonicToByteArray ic s password addr words name servePort =
     (if password = [] \<or> addr = [] \<or> words = [] then (s, Inl (Errorf ''password, addr and words are required''))
      else case OpenKeystore E s password of
        Inl e \<Rightarrow> (s, Inl e)
      | Inr ks \<Rightarrow>
     (case EnsurePeerIdentity (eL E) (eI E) (eKsJ E) (icId1 ic) (icId2 ic) s ks password of
        (ks1, s1, Inl e) \<Rightarrow> (s1, Inl e)
      | (ks1, s1, Inr privKey) \<Rightarrow>
     (case selfAddrs E privKey servePort of
        Inl e \<Rightarrow> (s1, Inl e)
      | Inr (_, myAddrs) \<Rightarrow>
     (case nwNewHost (eNet E) privKey of
        Inl e \<Rightarrow> (s1, Inl e)
      | Inr self \<Rightarrow>
     (case TokenFromMnemonic MnemonicToByteArray words of
        Inl e \<Rightarrow> (s1, Inl e)
      | Inr token \<Rightarrow>
     (case nwAddrInfo (eNet E) addr of
        Inl e \<Rightarrow> (s1, Inl e)
      | Inr (peer, addrs) \<Rightarrow>
          if \<not> nwConnect (eNet E) peer addrs then (s1, Inl (Errorf ''connect''))
          else (case OpenRegistry E s1 ks1 of
                  Inl e \<Rightarrow> (s1, Inl e)
                | Inr reg \<Rightarrow>
                    (case SendInviteRequest (eJ E) (icOrd ic) (icRnd ic) (icNow1 ic) (client_node E s1 reg privKey self)
                            (nwInviteStream (eNet E) peer) peer (nwPeerAddrs (eNet E) peer) token name myAddrs of
                       (n, Some e) \<Rightarrow> (nFS n, Inl (Wrap ''invite'' e))
                     | (n, None) \<Rightarrow> (nFS n, Inr peer)))))))))"

subsection \<open>Buddies\<close>

definition BuddyList :: "env \<Rightarrow> string list \<Rightarrow> fs \<Rightarrow> string \<Rightarrow> Entry list result" where
  "BuddyList E ord s password =
     (if password = [] then Inl (Errorf ''password is required'')
      else rbind (OpenKeystore E s password) (\<lambda>ks. rbind (OpenRegistry E s ks) (\<lambda>reg.
        Inr (snd (List_Registry (jRegistry (eJ E)) ord s reg)))))"

record BuddyStatusEntry =
  bsEntry :: Entry
  bsOnline :: bool
  bsLatency :: duration

text \<open>One probe. \<open>latency\<close> is what the clock measures for the connection attempt, and \<open>nwConnect\<close> answers
  within the time-out. The probes run concurrently and each writes its own slot of the result.\<close>

definition probe_buddy :: "env \<Rightarrow> (Entry \<Rightarrow> duration) \<Rightarrow> Entry \<Rightarrow> BuddyStatusEntry" where
  "probe_buddy E latency entry =
     (if \<not> nwDecode (eNet E) (bePeerID entry) then \<lparr>bsEntry = entry, bsOnline = False, bsLatency = 0\<rparr>
      else \<lparr>bsEntry = entry, bsOnline = nwConnect (eNet E) (bePeerID entry) (filter (nwMultiaddr (eNet E)) (beAddrs entry)),
             bsLatency = latency entry\<rparr>)"

definition BuddyStatus ::
  "env \<Rightarrow> invite_choice \<Rightarrow> (Entry \<Rightarrow> duration) \<Rightarrow> fs \<Rightarrow> string \<Rightarrow> fs \<times> BuddyStatusEntry list result" where
  "BuddyStatus E ic latency s password =
     (if password = [] then (s, Inl (Errorf ''password is required''))
      else case OpenKeystore E s password of
        Inl e \<Rightarrow> (s, Inl e)
      | Inr ks \<Rightarrow>
     (case OpenRegistry E s ks of
        Inl e \<Rightarrow> (s, Inl e)
      | Inr reg \<Rightarrow>
          let buddies = snd (List_Registry (jRegistry (eJ E)) (icOrd ic) s reg) in
          if buddies = [] then (s, Inr [])
          else
     (case EnsurePeerIdentity (eL E) (eI E) (eKsJ E) (icId1 ic) (icId2 ic) s ks password of
        (ks1, s1, Inl e) \<Rightarrow> (s1, Inl (Wrap ''peer identity'' e))
      | (ks1, s1, Inr privKey) \<Rightarrow>
     (case nwNewHost (eNet E) privKey of
        Inl e \<Rightarrow> (s1, Inl (Wrap ''host'' e))
      | Inr _ \<Rightarrow> (s1, Inr (map (probe_buddy E latency) buddies))))))"

text \<open>A failure to rebalance does not undo the removal.\<close>

definition BuddyRemove ::
  "env \<Rightarrow> (string list \<Rightarrow> bool) \<Rightarrow> maint_choice \<Rightarrow> invite_choice \<Rightarrow> fs \<Rightarrow> string \<Rightarrow> string \<Rightarrow> bool \<Rightarrow> fs \<times> error option" where
  "BuddyRemove E expired mc ic s password peerID skipRebalance =
     (if password = [] \<or> peerID = [] then (s, Some (Errorf ''password and peerID are required''))
      else case OpenKeystore E s password of
        Inl e \<Rightarrow> (s, Some e)
      | Inr ks \<Rightarrow>
     (case OpenRegistry E s ks of
        Inl e \<Rightarrow> (s, Some (Wrap ''registry'' e))
      | Inr reg \<Rightarrow>
     (case Remove_Registry (jRegistry (eJ E)) (icOrd ic) (icRnd ic) s reg peerID of
        (reg', s', Some e) \<Rightarrow> (s', Some e)
      | (reg', s', None) \<Rightarrow>
          (if skipRebalance then s' else fst (Rebalance E expired mc s' password None), None))))"

end
