(* ===== verification/Go_Base64.thy ===== *)
theory Go_Base64
  imports Go_Strings
begin

text \<open>
  \<open>base64.StdEncoding\<close> of Go's \<open>encoding/base64\<close>: the padded standard alphabet. Decoding skips carriage
  returns and line feeds and ignores the bits that the last digit has too many, as the package does
  outside its strict mode.
\<close>

definition b64_alphabet :: string where
  "b64_alphabet = ''ABCDEFGHIJKLMNOPQRSTUVWXYZabcdefghijklmnopqrstuvwxyz0123456789+/''"

definition b64_digit :: "nat \<Rightarrow> char" where
  "b64_digit n = b64_alphabet ! n"

definition b64_value :: "char \<Rightarrow> nat option" where
  "b64_value c = map_option fst (List.find (\<lambda>(i, d). d = c) (enumerate 0 b64_alphabet))"

fun base64_Encode :: "bytes \<Rightarrow> string" where
  "base64_Encode [] = []"
| "base64_Encode [a] = [b64_digit (unat a div 4), b64_digit (unat a mod 4 * 16), CHR ''='', CHR ''='']"
| "base64_Encode [a, b] =
     [b64_digit (unat a div 4), b64_digit (unat a mod 4 * 16 + unat b div 16), b64_digit (unat b mod 16 * 4), CHR ''='']"
| "base64_Encode (a # b # c # r) =
     b64_digit (unat a div 4) # b64_digit (unat a mod 4 * 16 + unat b div 16)
       # b64_digit (unat b mod 16 * 4 + unat c div 64) # b64_digit (unat c mod 64) # base64_Encode r"

definition corrupt_base64 :: error where
  "corrupt_base64 = Errorf ''illegal base64 data''"

fun base64_quanta :: "string \<Rightarrow> bytes result" where
  "base64_quanta [] = Inr []"
| "base64_quanta (w # x # y # z # r) =
     (case (b64_value w, b64_value x) of
        (Some i, Some j) \<Rightarrow>
          let b0 = word_of_nat (i * 4 + j div 16) in
          if y = CHR ''='' then (if z = CHR ''='' \<and> r = [] then Inr [b0] else Inl corrupt_base64)
          else (case b64_value y of
                  None \<Rightarrow> Inl corrupt_base64
                | Some k \<Rightarrow>
                    let b1 = word_of_nat (j mod 16 * 16 + k div 4) in
                    if z = CHR ''='' then (if r = [] then Inr [b0, b1] else Inl corrupt_base64)
                    else (case b64_value z of
                            None \<Rightarrow> Inl corrupt_base64
                          | Some l \<Rightarrow> rbind (base64_quanta r) (\<lambda>bs. Inr (b0 # b1 # word_of_nat (k mod 4 * 64 + l) # bs))))
      | _ \<Rightarrow> Inl corrupt_base64)"
| "base64_quanta _ = Inl corrupt_base64"

definition base64_Decode :: "string \<Rightarrow> bytes result" where
  "base64_Decode t = base64_quanta (filter (\<lambda>c. c \<noteq> CHR 0x0A \<and> c \<noteq> CHR 0x0D) t)"

subsection \<open>Decoding what was encoded\<close>

lemma b64_digits:
  assumes "n < 64"
  shows "b64_value (b64_digit n) = Some n \<and> b64_digit n \<noteq> CHR ''='' \<and> b64_digit n \<noteq> CHR 0x0A \<and> b64_digit n \<noteq> CHR 0x0D"
proof -
  have "\<forall>n \<in> set [0..<64]. b64_value (b64_digit n) = Some n \<and> b64_digit n \<noteq> CHR ''='' \<and> b64_digit n \<noteq> CHR 0x0A \<and> b64_digit n \<noteq> CHR 0x0D"
    by code_simp
  with assms show ?thesis by auto
qed

lemma byte_less: "unat (a :: byte) < 256"
proof -
  have "unat a < 2 ^ LENGTH(8)" by (rule unsigned_less)
  then show ?thesis by simp
qed

lemma byte_parts:
  "unat (a :: byte) div 4 < 64" "unat a mod 4 * 16 < 64" "unat a mod 4 * 16 + unat (b :: byte) div 16 < 64"
  "unat b mod 16 * 4 < 64" "unat b mod 16 * 4 + unat (c :: byte) div 64 < 64" "unat c mod 64 < 64"
  using byte_less [of a] byte_less [of b] byte_less [of c] by linarith+

lemma carry: "(y :: nat) < k \<Longrightarrow> (x * k + y) div k = x" "(y :: nat) < k \<Longrightarrow> (x * k + y) mod k = y"
  by simp_all

lemma of_unat: "n = unat (a :: byte) \<Longrightarrow> word_of_nat n = a"
  by simp

lemma byte_joins:
  "word_of_nat (unat a div 4 * 4 + (unat a mod 4 * 16) div 16) = (a :: byte)"
  "word_of_nat (unat a div 4 * 4 + (unat a mod 4 * 16 + unat b div 16) div 16) = (a :: byte)"
  "word_of_nat ((unat a mod 4 * 16 + unat b div 16) mod 16 * 16 + (unat b mod 16 * 4) div 4) = (b :: byte)"
  "word_of_nat ((unat a mod 4 * 16 + unat b div 16) mod 16 * 16 + (unat b mod 16 * 4 + unat c div 64) div 4) = (b :: byte)"
  "word_of_nat ((unat b mod 16 * 4 + unat c div 64) mod 4 * 64 + unat c mod 64) = (c :: byte)"
proof -
  have b: "unat b div 16 < 16" "unat c div 64 < 4" using byte_less [of b] byte_less [of c] by linarith+
  have e: "unat a mod 4 * 16 div 16 = unat a mod 4" "unat b mod 16 * 4 div 4 = unat b mod 16" by simp_all
  show "word_of_nat (unat a div 4 * 4 + (unat a mod 4 * 16) div 16) = (a :: byte)"
    by (rule of_unat) (simp only: e div_mult_mod_eq)
  show "word_of_nat (unat a div 4 * 4 + (unat a mod 4 * 16 + unat b div 16) div 16) = (a :: byte)"
    by (rule of_unat) (simp only: carry [OF b(1)] div_mult_mod_eq)
  show "word_of_nat ((unat a mod 4 * 16 + unat b div 16) mod 16 * 16 + (unat b mod 16 * 4) div 4) = (b :: byte)"
    by (rule of_unat) (simp only: carry [OF b(1)] e div_mult_mod_eq)
  show "word_of_nat ((unat a mod 4 * 16 + unat b div 16) mod 16 * 16 + (unat b mod 16 * 4 + unat c div 64) div 4) = (b :: byte)"
    by (rule of_unat) (simp only: carry [OF b(1)] carry [OF b(2)] div_mult_mod_eq)
  show "word_of_nat ((unat b mod 16 * 4 + unat c div 64) mod 4 * 64 + unat c mod 64) = (c :: byte)"
    by (rule of_unat) (simp only: carry [OF b(2)] div_mult_mod_eq)
qed

lemma base64_quanta_Encode: "base64_quanta (base64_Encode bs) = Inr bs"
  by (induction bs rule: base64_Encode.induct)
     (simp_all only: base64_Encode.simps base64_quanta.simps b64_digits byte_parts byte_joins Let_def option.case prod.case
        if_True if_False rbind_Inr simp_thms)

lemma base64_Encode_no_breaks: "c \<in> set (base64_Encode bs) \<Longrightarrow> c \<noteq> CHR 0x0A \<and> c \<noteq> CHR 0x0D"
  by (induction bs rule: base64_Encode.induct) (auto simp: b64_digits byte_parts)

lemma base64_roundtrip [simp]: "base64_Decode (base64_Encode bs) = Inr bs"
proof -
  have "filter (\<lambda>c. c \<noteq> CHR 0x0A \<and> c \<noteq> CHR 0x0D) (base64_Encode bs) = base64_Encode bs"
    by (intro filter_True) (use base64_Encode_no_breaks in blast)
  then show ?thesis by (simp add: base64_Decode_def base64_quanta_Encode)
qed

end
