(* ===== verification/Email_Invite.thy ===== *)
theory Email_Invite
  imports Inviting Go_Base64
begin

text \<open>
  \<open>internal/emailinvite/emailinvite.go\<close> and \<open>internal/api/emailinvite.go\<close>: an invitation whose signed
  payload goes by email while the pre-image of its commitment goes another way, as twelve words.

  The record \<open>maillib\<close> has Ed25519 signatures, the BIP39 package, the RFC 3339 form of a time,
  \<open>strconv.Quote\<close> and the indenting JSON printer; a private key has 64 bytes, the last 32 of which are the
  public key.
\<close>

unbundle bit_operations_syntax

record Payload =
  eyVersion :: int
  eyPeerID :: string
  eyPubKey :: string
  eyCommitment :: string
  eyCircle :: string
  eyExpiry :: string
  eyNonce :: string
  eySignature :: string

record maillib =
  ml_Sign :: "bytes \<Rightarrow> bytes \<Rightarrow> bytes"
  ml_Verify :: "bytes \<Rightarrow> bytes \<Rightarrow> bytes \<Rightarrow> bool"
  ml_FormatRFC3339 :: "time \<Rightarrow> string"
  ml_ParseRFC3339 :: "string \<Rightarrow> time result"
  ml_NewMnemonic :: "bytes \<Rightarrow> string result"
  ml_MnemonicToByteArray :: "string \<Rightarrow> bytes result"
  ml_Quote :: "string \<Rightarrow> string"
  ml_Json :: "Payload codec"
  ml_MarshalIndent :: "Payload \<Rightarrow> bytes result"

definition secretSize :: nat where "secretSize = 16"

definition checksumBits :: nat where "checksumBits = 4"

text \<open>\<open>privKey.Public()\<close> copies what follows the first 32 bytes; \<open>ed25519.Sign\<close> and \<open>ed25519.Verify\<close> panic on a
  key of the wrong length.\<close>

definition ed25519_Public :: "bytes \<Rightarrow> bytes result" where
  "ed25519_Public priv =
     (if length priv < 32 then Inl (Panic ''slice bounds out of range'')
      else Inr (take 32 (drop 32 priv @ replicate 32 0)))"

definition ed25519_Sign :: "maillib \<Rightarrow> bytes \<Rightarrow> bytes \<Rightarrow> bytes result" where
  "ed25519_Sign M priv msg =
     (if length priv \<noteq> 64 then Inl (Panic ''ed25519: bad private key length'') else Inr (ml_Sign M priv msg))"

definition ed25519_Verify :: "maillib \<Rightarrow> bytes \<Rightarrow> bytes \<Rightarrow> bytes \<Rightarrow> bool result" where
  "ed25519_Verify M pub msg sig =
     (if length pub \<noteq> 32 then Inl (Panic ''ed25519: bad public key length'')
      else Inr (length sig = 64 \<and> ml_Verify M pub msg sig))"

definition canonicalBytes :: "maillib \<Rightarrow> Payload \<Rightarrow> bytes result" where
  "canonicalBytes M p = Marshal (ml_Json M) p"

definition signPayload :: "maillib \<Rightarrow> bytes \<Rightarrow> Payload \<Rightarrow> bytes result" where
  "signPayload M privKey p = rbind (canonicalBytes M p) (ed25519_Sign M privKey)"

definition secretToWords :: "maillib \<Rightarrow> bytes \<Rightarrow> string result" where
  "secretToWords M secret = ml_NewMnemonic M secret"

definition wordsToSecret :: "maillib \<Rightarrow> string \<Rightarrow> bytes result" where
  "wordsToSecret M ws =
     (case ml_MnemonicToByteArray M (TrimSpace ws) of
        Inl e \<Rightarrow> Inl (Wrap ''decode mnemonic'' e)
      | Inr raw \<Rightarrow>
          if length raw < secretSize + 1 then
            (if length raw < secretSize then Inl (Errorf ''mnemonic too short'') else Inr (take secretSize raw))
          else Inr (map (\<lambda>i. push_bit checksumBits (raw ! i) OR drop_bit (8 - checksumBits) (raw ! (i + 1))) [0..<secretSize]))"

definition commitment_of :: "bytes \<Rightarrow> string" where
  "commitment_of secret = ''sha256:'' @ hex_EncodeToString (Sum256 secret)"

definition Generate_Email ::
  "maillib \<Rightarrow> entropy \<Rightarrow> entropy \<Rightarrow> time \<Rightarrow> bytes \<Rightarrow> string \<Rightarrow> string \<Rightarrow> duration \<Rightarrow> (Payload \<times> string) result" where
  "Generate_Email M r1 r2 now privKey peerID circle ttl =
     (case rand_read r1 secretSize of
        Inl e \<Rightarrow> Inl (Wrap ''emailinvite: generate secret'' e)
      | Inr secret \<Rightarrow>
     (case rand_read r2 16 of
        Inl e \<Rightarrow> Inl (Wrap ''emailinvite: generate nonce'' e)
      | Inr nonce \<Rightarrow>
     (case ed25519_Public privKey of
        Inl e \<Rightarrow> Inl e
      | Inr pub \<Rightarrow>
          let p = \<lparr>eyVersion = 1, eyPeerID = peerID, eyPubKey = base64_Encode pub, eyCommitment = commitment_of secret,
                   eyCircle = circle, eyExpiry = ml_FormatRFC3339 M (now + ttl), eyNonce = hex_EncodeToString nonce,
                   eySignature = []\<rparr> in
     (case signPayload M privKey p of
        Inl (Panic m) \<Rightarrow> Inl (Panic m)
      | Inl e \<Rightarrow> Inl (Wrap ''emailinvite: sign'' e)
      | Inr sig \<Rightarrow>
     (case secretToWords M secret of
        Inl e \<Rightarrow> Inl (Wrap ''emailinvite: encode words'' e)
      | Inr ws \<Rightarrow> Inr (p\<lparr>eySignature := base64_Encode sig\<rparr>, ws))))))"

definition Verify_Email :: "maillib \<Rightarrow> time \<Rightarrow> Payload \<Rightarrow> string \<Rightarrow> error option" where
  "Verify_Email M now p sixWords =
     (case ml_ParseRFC3339 M (eyExpiry p) of
        Inl e \<Rightarrow> Some (Wrap ''emailinvite: bad expiry'' e)
      | Inr expiry \<Rightarrow>
          if now > expiry then Some (Errorf ''emailinvite: invite expired'')
          else
     (case base64_Decode (eyPubKey p) of
        Inl e \<Rightarrow> Some (Wrap ''emailinvite: decode pubkey'' e)
      | Inr pubBytes \<Rightarrow>
     (case base64_Decode (eySignature p) of
        Inl e \<Rightarrow> Some (Wrap ''emailinvite: decode signature'' e)
      | Inr sig \<Rightarrow>
     (case canonicalBytes M (p\<lparr>eySignature := []\<rparr>) of
        Inl e \<Rightarrow> Some (Wrap ''emailinvite: canonical'' e)
      | Inr canonical \<Rightarrow>
     (case ed25519_Verify M pubBytes canonical sig of
        Inl e \<Rightarrow> Some e
      | Inr ok \<Rightarrow>
          if \<not> ok then Some (Errorf ''emailinvite: invalid signature'')
          else
     (case wordsToSecret M sixWords of
        Inl e \<Rightarrow> Some (Wrap ''emailinvite: decode words'' e)
      | Inr secret \<Rightarrow>
          if commitment_of secret \<noteq> eyCommitment p then Some (Errorf ''emailinvite: commitment mismatch (wrong OOB code?)'')
          else None))))))"

definition SecretFromWords :: "maillib \<Rightarrow> string \<Rightarrow> bytes result" where
  "SecretFromWords M sixWords = wordsToSecret M sixWords"

definition ToJSON :: "maillib \<Rightarrow> Payload \<Rightarrow> bytes result" where
  "ToJSON M p = ml_MarshalIndent M p"

definition FromJSON :: "maillib \<Rightarrow> bytes \<Rightarrow> Payload result" where
  "FromJSON M d = Unmarshal (ml_Json M) d"

text \<open>The dash of the subject and of the body is the three bytes of its UTF-8 form.\<close>

definition em_dash :: string where "em_dash = [CHR 0xE2, CHR 0x80, CHR 0x94]"

definition nl :: string where "nl = [CHR 0x0A]"

definition ComposeEmail :: "maillib \<Rightarrow> Payload \<Rightarrow> string \<times> string" where
  "ComposeEmail M p =
     (let d = (case ToJSON M p of
                 Inl e \<Rightarrow> ''<error formatting invite payload: '' @ err_string e @ ''>''
               | Inr b \<Rightarrow> string_of_bytes b)
      in (''CerclBackup invite '' @ em_dash @ '' circle '' @ ml_Quote M (eyCircle p),
          ''You have been invited to join a CerclBackup circle.'' @ nl @ nl @
          ''To accept, you also need a 12-word code. That code will reach you'' @ nl @
          ''through a DIFFERENT channel than this email (phone call, SMS, in'' @ nl @
          ''person) '' @ em_dash @ '' never by email. Before using that code, confirm by voice'' @ nl @
          ''or in person that it really came from the sender of this email: that'' @ nl @
          ''confirmation is what proves their identity and stops someone else'' @ nl @
          ''from impersonating them.'' @ nl @ nl @
          ''--- BEGIN CERCLBACKUP INVITE ---'' @ nl @ d @ nl @
          ''--- END CERCLBACKUP INVITE ---'' @ nl))"

subsection \<open>The operations of the API\<close>

record InviteEmailResult =
  ierPeerID :: string
  ierWords :: string
  ierPayloadJSON :: bytes
  ierSubject :: string
  ierBody :: string

record mail_choice =
  mlId1 :: entropy
  mlId2 :: entropy
  mlSecret :: entropy
  mlNonce :: entropy
  mlNow :: time
  mlOrd :: "string list"
  mlRnd :: entropy

text \<open>An empty circle name stands for \<open>CerclBackup\<close>. The errors of reading back the words and the expiry are
  dropped, which leaves no bytes and the zero time.\<close>

definition InviteEmail ::
  "env \<Rightarrow> maillib \<Rightarrow> mail_choice \<Rightarrow> fs \<Rightarrow> string \<Rightarrow> string \<Rightarrow> string \<Rightarrow> fs \<times> InviteEmailResult result" where
  "InviteEmail E M mc s password circle to' =
     (if to' = [] \<or> password = [] then (s, Inl (Errorf ''to and password are required''))
      else let circle = (if circle = [] then ''CerclBackup'' else circle) in
      case OpenKeystore E s password of
        Inl e \<Rightarrow> (s, Inl e)
      | Inr ks \<Rightarrow>
     (case EnsurePeerIdentity (eL E) (eI E) (eKsJ E) (mlId1 mc) (mlId2 mc) s ks password of
        (ks1, s1, Inl e) \<Rightarrow> (s1, Inl e)
      | (ks1, s1, Inr privKey) \<Rightarrow>
     (case nwNewHost (eNet E) privKey of
        Inl e \<Rightarrow> (s1, Inl e)
      | Inr self \<Rightarrow>
     (case Generate_Email M (mlSecret mc) (mlNonce mc) (mlNow mc) privKey self circle (48 * Hour) of
        Inl e \<Rightarrow> (s1, Inl (Wrap ''generate'' e))
      | Inr (payload, ws) \<Rightarrow>
          let secret = (case SecretFromWords M ws of Inl _ \<Rightarrow> [] | Inr b \<Rightarrow> b);
              expiry = (case ml_ParseRFC3339 M (eyExpiry payload) of Inl _ \<Rightarrow> 0 | Inr t \<Rightarrow> t) in
     (case AddCommitment (jInvites (eJ E)) s1 (OpenInviteManager (eOS E)) (Sum256 secret) expiry of
        (s2, Some e) \<Rightarrow> (s2, Inl (Wrap ''register commitment'' e))
      | (s2, None) \<Rightarrow>
     (case ToJSON M payload of
        Inl e \<Rightarrow> (s2, Inl e)
      | Inr d \<Rightarrow>
          (case ComposeEmail M payload of (subject, body) \<Rightarrow>
             (s2, Inr \<lparr>ierPeerID = self, ierWords = ws, ierPayloadJSON = d, ierSubject = subject, ierBody = body\<rparr>))))))))"

definition JoinEmail ::
  "env \<Rightarrow> maillib \<Rightarrow> mail_choice \<Rightarrow> fs \<Rightarrow> string \<Rightarrow> bytes \<Rightarrow> string \<Rightarrow> fs \<times> (string \<times> string) result" where
  "JoinEmail E M mc s password payloadJSON ws =
     (if password = [] \<or> payloadJSON = [] \<or> ws = [] then (s, Inl (Errorf ''password, payload and words are required''))
      else case FromJSON M payloadJSON of
        Inl e \<Rightarrow> (s, Inl (Wrap ''parse payload'' e))
      | Inr payload \<Rightarrow>
     (case Verify_Email M (mlNow mc) payload ws of
        Some (Panic m) \<Rightarrow> (s, Inl (Panic m))
      | Some e \<Rightarrow> (s, Inl (Wrap ''verification failed'' e))
      | None \<Rightarrow>
     (case OpenKeystore E s password of
        Inl e \<Rightarrow> (s, Inl e)
      | Inr ks \<Rightarrow>
     (case EnsurePeerIdentity (eL E) (eI E) (eKsJ E) (mlId1 mc) (mlId2 mc) s ks password of
        (ks1, s1, Inl e) \<Rightarrow> (s1, Inl e)
      | (ks1, s1, Inr privKey) \<Rightarrow>
     (case nwNewHost (eNet E) privKey of
        Inl e \<Rightarrow> (s1, Inl e)
      | Inr self \<Rightarrow>
     (case OpenRegistry E s1 ks1 of
        Inl e \<Rightarrow> (s1, Inl e)
      | Inr reg \<Rightarrow>
     (case SecretFromWords M ws of
        Inl e \<Rightarrow> (s1, Inl (Wrap ''decode words'' e))
      | Inr secret \<Rightarrow>
          if \<not> nwDecode (eNet E) (eyPeerID payload) then (s1, Inl (Errorf ''decode peer ID''))
          else
     (case SendInviteRequest (eJ E) (mlOrd mc) (mlRnd mc) (mlNow mc) (client_node E s1 reg privKey self)
             (nwInviteStream (eNet E) (eyPeerID payload)) (eyPeerID payload) (nwPeerAddrs (eNet E) (eyPeerID payload))
             secret self [] of
        (n, Some e) \<Rightarrow> (nFS n, Inl (Wrap ''P2P handshake'' e))
      | (n, None) \<Rightarrow> (nFS n, Inr (eyCircle payload, eyPeerID payload))))))))))"

subsection \<open>What the code relies on\<close>

text \<open>A key pair whose signatures verify; a formatted time reads back with whole seconds; a phrase of 16 bytes comes
  back as 17 bytes, shifted by four bits; the indented JSON of a payload reads back.\<close>

definition key_pair :: "maillib \<Rightarrow> bytes \<Rightarrow> bool" where
  "key_pair M priv \<longleftrightarrow> length priv = 64
     \<and> (\<forall>msg. length (ml_Sign M priv msg) = 64 \<and> ml_Verify M (drop 32 priv) msg (ml_Sign M priv msg))"

definition bip39_raw :: "byte \<Rightarrow> byte \<Rightarrow> bytes \<Rightarrow> bytes" where
  "bip39_raw hi lo tok = map (\<lambda>i.
     (if i = 0 then push_bit 4 hi else push_bit 4 (tok ! (i - 1))) OR
     (if i = 16 then lo AND 15 else drop_bit 4 (tok ! i))) [0..<17]"

definition mail_lawful :: "maillib \<Rightarrow> bool" where
  "mail_lawful M \<longleftrightarrow>
     (\<forall>t. ml_ParseRFC3339 M (ml_FormatRFC3339 M t) = Inr (t - t mod Second)) \<and>
     (\<forall>b. length b = 16 \<longrightarrow> (\<exists>w hi lo. ml_NewMnemonic M b = Inr w \<and> TrimSpace w = w \<and> w \<noteq> []
        \<and> ml_MnemonicToByteArray M w = Inr (bip39_raw hi lo b))) \<and>
     (\<forall>p. inverts (ml_Json M) p) \<and>
     (\<forall>p. \<exists>d. ml_MarshalIndent M p = Inr d \<and> d \<noteq> [] \<and> Unmarshal (ml_Json M) d = Inr p)"

lemma length_bip39_raw [simp]: "length (bip39_raw hi lo tok) = 17"
  unfolding bip39_raw_def length_map length_upt by simp

lemma bip39_unshift:
  assumes "length tok = 16"
  shows "map (\<lambda>i. push_bit 4 (bip39_raw hi lo tok ! i) OR drop_bit 4 (bip39_raw hi lo tok ! (i + 1))) [0..<16] = tok"
proof -
  have "TokenFromMnemonic (\<lambda>_. Inr (bip39_raw hi lo tok)) [] = Inr tok"
    by (rule TokenFromMnemonic_unshifts [OF assms, where hi = hi and lo = lo]) (rule arg_cong [OF bip39_raw_def])
  moreover have "\<not> length (bip39_raw hi lo tok) < 17" by simp
  ultimately show ?thesis
    unfolding TokenFromMnemonic_def tokenSize_def sum.case by (simp only: if_False sum.inject)
qed

lemma canonical_total: "mail_lawful M \<Longrightarrow> \<exists>c. canonicalBytes M p = Inr c"
  using inverts_Marshal [of "ml_Json M" p] by (simp add: mail_lawful_def canonicalBytes_def)

lemma words_give_secret:
  assumes "mail_lawful M" and "length b = 16" and "ml_NewMnemonic M b = Inr w"
  shows "wordsToSecret M w = Inr b"
proof -
  obtain hi lo where "TrimSpace w = w" "ml_MnemonicToByteArray M w = Inr (bip39_raw hi lo b)"
    using assms unfolding mail_lawful_def by fastforce
  then show ?thesis
    using bip39_unshift [OF assms(2), of hi lo] by (simp add: wordsToSecret_def secretSize_def checksumBits_def)
qed

text \<open>Signing any payload with a key pair makes it pass the signature check.\<close>

lemma signed_verifies:
  assumes "key_pair M priv" and "canonicalBytes M (p\<lparr>eyPubKey := base64_Encode (drop 32 priv), eySignature := []\<rparr>) = Inr c"
    and "q = p\<lparr>eyPubKey := base64_Encode (drop 32 priv), eySignature := base64_Encode (ml_Sign M priv c)\<rparr>"
    and "ml_ParseRFC3339 M (eyExpiry p) = Inr t" and "now \<le> t"
  shows "Verify_Email M now q ws =
     (case wordsToSecret M ws of
        Inl e \<Rightarrow> Some (Wrap ''emailinvite: decode words'' e)
      | Inr secret \<Rightarrow>
          if commitment_of secret \<noteq> eyCommitment p then Some (Errorf ''emailinvite: commitment mismatch (wrong OOB code?)'')
          else None)"
  using assms by (simp add: Verify_Email_def ed25519_Verify_def key_pair_def split: sum.split)

text \<open>An email invitation that was generated is accepted together with its words until it expires (a whole second
  may be lost, since the expiry is printed in seconds), and the words carry the secret whose hash the
  payload commits to.\<close>

lemma Generate_accepted:
  assumes "mail_lawful M" and "key_pair M priv" and "later \<le> now + ttl - Second"
  shows "\<exists>p ws. Generate_Email M (Some f) (Some g) now priv peerID circle ttl = Inr (p, ws)
     \<and> Verify_Email M later p ws = None \<and> SecretFromWords M ws = Inr (map f [0..<16])
     \<and> eyCommitment p = commitment_of (map f [0..<16])"
proof -
  let ?s = "map f [0..<16]"
  have len: "length ?s = 16" by simp
  obtain w where w: "ml_NewMnemonic M ?s = Inr w"
    using assms(1) len unfolding mail_lawful_def by metis
  let ?p = "\<lparr>eyVersion = 1, eyPeerID = peerID, eyPubKey = base64_Encode (drop 32 priv), eyCommitment = commitment_of ?s,
      eyCircle = circle, eyExpiry = ml_FormatRFC3339 M (now + ttl), eyNonce = hex_EncodeToString (map g [0..<16]), eySignature = []\<rparr>"
  obtain c where c: "canonicalBytes M ?p = Inr c"
    using canonical_total [OF assms(1)] by blast
  have priv: "length priv = 64" "take 32 (drop 32 priv @ replicate 32 0) = drop 32 priv"
    using assms(2) by (simp_all add: key_pair_def)
  have gen: "Generate_Email M (Some f) (Some g) now priv peerID circle ttl
      = Inr (?p\<lparr>eySignature := base64_Encode (ml_Sign M priv c)\<rparr>, w)"
    using c w priv by (simp add: Generate_Email_def rand_read_def secretSize_def ed25519_Public_def signPayload_def
        ed25519_Sign_def secretToWords_def)
  have t: "ml_ParseRFC3339 M (ml_FormatRFC3339 M (now + ttl)) = Inr ((now + ttl) - (now + ttl) mod Second)"
    using assms(1) by (simp add: mail_lawful_def)
  have "(now + ttl) mod Second < Second" by (simp add: Second_def)
  then have "later \<le> (now + ttl) - (now + ttl) mod Second" using assms(3) by linarith
  from signed_verifies [OF assms(2) _ refl _ this, of ?p c w] c t words_give_secret [OF assms(1) len w]
  have "Verify_Email M later (?p\<lparr>eySignature := base64_Encode (ml_Sign M priv c)\<rparr>) w = None" by simp
  then show ?thesis
    using gen words_give_secret [OF assms(1) len w]
    by (intro exI [of _ "?p\<lparr>eySignature := base64_Encode (ml_Sign M priv c)\<rparr>"] exI [of _ w] conjI)
       (simp_all only: SecretFromWords_def Payload.simps)
qed

subsection \<open>Properties\<close>

text \<open>Whoever controls the email alone can impersonate the inviter. Nothing ties the key of a payload to its peer
  id or to the inviter, and the commitment is readable in the mail: an attacker with any key pair replaces
  the peer id, puts in the own key and signs again, keeping the commitment; the recipient's check with the
  genuine words passes, so the secret is then presented to the attacker's peer.\<close>

theorem email_alone_suffices:
  assumes "mail_lawful M" and "Verify_Email M now p ws = None" and "key_pair M evil"
  shows "\<exists>q. eyPeerID q = attacker \<and> eyPubKey q = base64_Encode (drop 32 evil) \<and> eyCommitment q = eyCommitment p
     \<and> Verify_Email M now q ws = None"
proof -
  let ?p = "p\<lparr>eyPeerID := attacker\<rparr>"
  obtain c where c: "canonicalBytes M (?p\<lparr>eyPubKey := base64_Encode (drop 32 evil), eySignature := []\<rparr>) = Inr c"
    using canonical_total [OF assms(1)] by blast
  obtain t secret where "ml_ParseRFC3339 M (eyExpiry p) = Inr t" "now \<le> t" "wordsToSecret M ws = Inr secret"
    "commitment_of secret = eyCommitment p"
    using assms(2) by (auto simp: Verify_Email_def split: sum.splits if_splits)
  with signed_verifies [OF assms(3) c refl, of t now ws]
  show ?thesis
    by (intro exI [of _ "?p\<lparr>eyPubKey := base64_Encode (drop 32 evil), eySignature := base64_Encode (ml_Sign M evil c)\<rparr>"]) simp
qed

text \<open>A malformed invitation stops the program: a payload that has not expired and whose public key decodes to
  anything but 32 bytes makes \<open>JoinEmail\<close> panic, before any secret is checked.\<close>

theorem short_key_panics:
  assumes "FromJSON M d = Inr p" and "ml_ParseRFC3339 M (eyExpiry p) = Inr t" and "mlNow mc \<le> t"
    and "base64_Decode (eyPubKey p) = Inr pub" and "length pub \<noteq> 32"
    and "base64_Decode (eySignature p) = Inr sig" and "canonicalBytes M (p\<lparr>eySignature := []\<rparr>) = Inr c"
    and "password \<noteq> []" and "d \<noteq> []" and "ws \<noteq> []"
  shows "JoinEmail E M mc s password d ws = (s, Inl (Panic ''ed25519: bad public key length''))"
  using assms by (simp add: JoinEmail_def Verify_Email_def ed25519_Verify_def)

subsection \<open>A concrete mail library\<close>

definition payload_fmt :: "Payload wirefmt" where
  "payload_fmt = fmt_iso
     (\<lambda>p. ([eyPeerID p, eyPubKey p, eyCommitment p, eyCircle p, eyExpiry p, eyNonce p, eySignature p], eyVersion p))
     (\<lambda>(l, v). \<lparr>eyVersion = v, eyPeerID = l ! 0, eyPubKey = l ! 1, eyCommitment = l ! 2, eyCircle = l ! 3, eyExpiry = l ! 4,
        eyNonce = l ! 5, eySignature = l ! 6\<rparr>)
     (fmt_pair (fmt_list fmt_string) fmt_int)"

lemma payload_fmt_ok: "fmt_ok payload_fmt"
  unfolding payload_fmt_def by (rule fmt_iso_ok) (simp_all add: fmt_intros)

definition demo_mail :: maillib where
  "demo_mail = \<lparr>ml_Sign = (\<lambda>priv msg. drop 32 priv @ Sum256 msg), ml_Verify = (\<lambda>pub msg sig. sig = pub @ Sum256 msg),
     ml_FormatRFC3339 = (\<lambda>t. string_of_bytes (fst fmt_int (t div Second))),
     ml_ParseRFC3339 = (\<lambda>s. rbind (Unmarshal (codec_of fmt_int) (bytes_of_string s)) (\<lambda>n. Inr (n * Second))),
     ml_NewMnemonic = (\<lambda>b. Inr (hex_EncodeToString b)),
     ml_MnemonicToByteArray = (\<lambda>w. rbind (hex_DecodeString w) (\<lambda>b. Inr (bip39_raw 0 0 b))),
     ml_Quote = id, ml_Json = codec_of payload_fmt, ml_MarshalIndent = Marshal (codec_of payload_fmt)\<rparr>"

lemma hex_no_space: "c \<in> set (hex_EncodeToString b) \<Longrightarrow> \<not> is_space c"
proof -
  have "\<forall>d \<in> set [0..<16]. \<not> is_space (hex_digit d)" by code_simp
  then have "d < 16 \<Longrightarrow> \<not> is_space (hex_digit d)" for d by simp
  then show "c \<in> set (hex_EncodeToString b) \<Longrightarrow> \<not> is_space c"
    using hex_halves by (auto simp: hex_EncodeToString_def)
qed

lemma TrimSpace_no_space: "(\<And>c. c \<in> set w \<Longrightarrow> \<not> is_space c) \<Longrightarrow> TrimSpace w = w"
proof -
  assume a: "\<And>c. c \<in> set w \<Longrightarrow> \<not> is_space c"
  have "dropWhile is_space w = w" "dropWhile is_space (rev w) = rev w"
    using a hd_in_set [of w] hd_in_set [of "rev w"] by (auto simp: dropWhile_eq_self_iff)
  then show ?thesis by (simp add: TrimSpace_def)
qed

lemma demo_mail_lawful: "mail_lawful demo_mail"
  unfolding mail_lawful_def
proof (intro conjI allI impI)
  fix t
  have "Unmarshal (codec_of fmt_int) (fst fmt_int n) = Inr n" for n
    using inverts_Unmarshal [OF codec_of_inverts [OF fmt_int_ok], of n "fst fmt_int n"] by (simp add: codec_of_def)
  then show "ml_ParseRFC3339 demo_mail (ml_FormatRFC3339 demo_mail t) = Inr (t - t mod Second)"
    by (simp add: demo_mail_def minus_mod_eq_div_mult)
next
  fix b :: bytes assume "length b = 16"
  then obtain x xs where "b = x # xs" by (cases b) auto
  then have "hex_EncodeToString b \<noteq> []" by (simp add: hex_EncodeToString_Cons)
  then show "\<exists>w hi lo. ml_NewMnemonic demo_mail b = Inr w \<and> TrimSpace w = w \<and> w \<noteq> []
      \<and> ml_MnemonicToByteArray demo_mail w = Inr (bip39_raw hi lo b)"
    using TrimSpace_no_space hex_no_space
    by (intro exI [of _ "hex_EncodeToString b"] exI [of _ 0]) (simp add: demo_mail_def)
next
  fix p show "inverts (ml_Json demo_mail) p" by (simp add: demo_mail_def codec_of_inverts payload_fmt_ok)
next
  fix p
  obtain d where d: "Marshal (codec_of payload_fmt) p = Inr d" "Unmarshal (codec_of payload_fmt) d = Inr p"
    by (metis inverts_Marshal inverts_Unmarshal codec_of_inverts payload_fmt_ok)
  have "d \<noteq> []" using d(1) by (auto simp: codec_of_def payload_fmt_def fmt_iso_def fmt_pair_def fmt_list_def fmt_nat_def)
  with d show "\<exists>d. ml_MarshalIndent demo_mail p = Inr d \<and> d \<noteq> [] \<and> Unmarshal (ml_Json demo_mail) d = Inr p"
    by (simp add: demo_mail_def)
qed

lemma demo_key_pair: "key_pair demo_mail (replicate 64 x)"
  by (simp add: key_pair_def demo_mail_def)

lemma demo_accepted_mail: "\<exists>p ws. Verify_Email demo_mail 0 p ws = None \<and> eyPeerID p = ''alice''"
proof -
  let ?s = "replicate 16 (1 :: byte)" and ?key = "replicate 64 (5 :: byte)"
  let ?p = "\<lparr>eyVersion = 1, eyPeerID = ''alice'', eyPubKey = [], eyCommitment = commitment_of ?s, eyCircle = [],
     eyExpiry = ml_FormatRFC3339 demo_mail 0, eyNonce = [], eySignature = []\<rparr>"
  obtain c where c: "canonicalBytes demo_mail (?p\<lparr>eyPubKey := base64_Encode (drop 32 ?key), eySignature := []\<rparr>) = Inr c"
    using canonical_total [OF demo_mail_lawful] by blast
  have "ml_NewMnemonic demo_mail ?s = Inr (hex_EncodeToString ?s)" by (simp add: demo_mail_def)
  from words_give_secret [OF demo_mail_lawful _ this]
  have "wordsToSecret demo_mail (hex_EncodeToString ?s) = Inr ?s" by simp
  moreover have "ml_ParseRFC3339 demo_mail (eyExpiry ?p) = Inr 0"
    using demo_mail_lawful by (simp add: mail_lawful_def)
  ultimately show ?thesis
    using signed_verifies [OF demo_key_pair c refl, of 0 0 "hex_EncodeToString ?s"] by (intro exI conjI) (simp, simp)
qed

theorem email_alone_suffices_witness:
  "\<exists>p ws q. Verify_Email demo_mail 0 p ws = None \<and> eyPeerID p = ''alice'' \<and> eyPeerID q = ''mallory''
     \<and> Verify_Email demo_mail 0 q ws = None"
proof -
  obtain p ws where p: "Verify_Email demo_mail 0 p ws = None" "eyPeerID p = ''alice''" using demo_accepted_mail by blast
  with email_alone_suffices [OF demo_mail_lawful p(1) demo_key_pair, where attacker = "''mallory''"] show ?thesis by blast
qed

theorem short_key_panics_witness:
  "\<exists>d. JoinEmail demo_env demo_mail \<lparr>mlId1 = None, mlId2 = None, mlSecret = None, mlNonce = None, mlNow = 0, mlOrd = [], mlRnd = None\<rparr>
     empty_fs ''pw'' d ''words'' = (empty_fs, Inl (Panic ''ed25519: bad public key length''))"
proof -
  let ?p = "\<lparr>eyVersion = 1, eyPeerID = ''mallory'', eyPubKey = base64_Encode [1], eyCommitment = [], eyCircle = [],
     eyExpiry = ml_FormatRFC3339 demo_mail 0, eyNonce = [], eySignature = base64_Encode []\<rparr>"
  obtain d where d: "d \<noteq> []" "FromJSON demo_mail d = Inr ?p"
    using demo_mail_lawful unfolding mail_lawful_def FromJSON_def by metis
  obtain c where c: "canonicalBytes demo_mail (?p\<lparr>eySignature := []\<rparr>) = Inr c"
    using canonical_total [OF demo_mail_lawful] by blast
  have t: "ml_ParseRFC3339 demo_mail (eyExpiry ?p) = Inr 0"
    using demo_mail_lawful by (simp add: mail_lawful_def)
  show ?thesis
    by (rule exI [of _ d], rule short_key_panics [OF d(2) t _ _ _ _ c, where pub = "[1]" and sig = "[]"])
       (simp_all add: d(1) base64_roundtrip del: base64_Encode.simps)
qed

end
