(* ===== verification/Handshake.thy ===== *)
theory Handshake
  imports Email_Invite
begin

text \<open>
  How the two sides of an invitation work together: the requesting side (\<open>SendInviteRequest\<close>) against the
  handler of the inviter (\<open>handleInvite\<close>), and the email invitation from its generation to its
  redemption.
\<close>

subsection \<open>A registry entry that was added\<close>

lemma load_Registry_keyed:
  assumes "load_Registry c s r = (r1, None)" and "keyed (rgByPeerID r)"
  shows "keyed (rgByPeerID r1) \<and> rgPath r1 = rgPath r \<and> rgMasterKey r1 = rgMasterKey r"
  using assms fresh_map_keyed by (auto simp: load_Registry_def split: sum.splits error.splits)

lemma Add_Get:
  assumes "Add c ord rnd now s r e = (r', s', None)" and "keyed (rgByPeerID r)" and "\<not> rfault s (rgPath r)"
    and "is_order ord (rgByPeerID r')" and "inverts c (range_vals ord (rgByPeerID r'))"
  shows "snd (Get_Registry c s' r' (bePeerID e)) = Some (stamp now e)"
proof -
  have st: "bePeerID (stamp now e) = bePeerID e" by (simp add: stamp_def)
  obtain r1 where r1: "load_Registry c s r = (r1, None)"
    and r': "r' = r1\<lparr>rgByPeerID := AList.update (bePeerID e) (stamp now e) (rgByPeerID r1)\<rparr>"
    and sv: "save_Registry c ord rnd s r' = (s', None)"
    using assms(1) st by (auto simp: Add_def Let_def split: prod.splits option.splits)
  note k = load_Registry_keyed [OF r1 assms(2)]
  have "keyed (rgByPeerID r')"
    using keyed_update [OF conjunct1 [OF k] st] by (simp add: r')
  from Get_after_save [OF sv assms(5) _ this assms(4) refl refl, of "bePeerID e"] assms(3) k
  show ?thesis by (simp add: r')
qed

subsection \<open>The handshake\<close>

text \<open>A token that the handler accepts, as a classic one or as the pre-image of a commitment, and the file system
  after that.\<close>

definition token_accepted :: "codecs \<Rightarrow> time \<Rightarrow> node \<Rightarrow> bytes \<Rightarrow> fs \<Rightarrow> bool" where
  "token_accepted J now n token s \<longleftrightarrow>
     Consume (jInvites J) now (nFS n) (nInv n) token = (s, None)
     \<or> (\<exists>s1 e. Consume (jInvites J) now (nFS n) (nInv n) token = (s1, Some e)
          \<and> ConsumeCommitment (jInvites J) now s1 (nInv n) token = (s, None))"

text \<open>A side that can add an entry to its registry.\<close>

definition can_add :: "codecs \<Rightarrow> string list \<Rightarrow> entropy \<Rightarrow> time \<Rightarrow> fs \<Rightarrow> Registry \<Rightarrow> Entry \<Rightarrow> Registry \<Rightarrow> fs \<Rightarrow> bool" where
  "can_add J ord rnd now s reg e reg' s' \<longleftrightarrow>
     Add (jRegistry J) ord rnd now s reg e = (reg', s', None) \<and> keyed (rgByPeerID reg) \<and> \<not> rfault s (rgPath reg)
     \<and> is_order ord (rgByPeerID reg') \<and> (\<forall>es. inverts (jRegistry J) es)"

lemma can_add_Get:
  assumes "can_add J ord rnd now s reg e reg' s'"
  shows "Add (jRegistry J) ord rnd now s reg e = (reg', s', None)"
    and "snd (Get_Registry (jRegistry J) s' reg' (bePeerID e)) = Some (stamp now e)"
  using assms Add_Get [of "jRegistry J" ord rnd now s reg e reg' s'] unfolding can_add_def by blast+

lemma authenticates:
  assumes "snd (Get_Registry c s reg peer) = Some e" and "pl_UnmarshalPublicKey P (bePubKey e) = Inr k"
    and "pl_ExtractPublicKey P peer = Inr (Some k')" and "pl_Equals P k k'"
  shows "snd (checkBuddyAuth P c s reg peer)"
  using assms by (auto simp: checkBuddyAuth_def split: prod.splits)


subsection \<open>The email invitation\<close>

lemma AddCommitment_None:
  assumes "AddCommitment c s m h t = (s', None)" and "\<And>st. inverts c st" and "\<not> rfault s (imPath m)"
  shows "\<exists>st. loadLocked_Invite c s' m = Inr st \<and> \<lparr>cmHash = h, cmExpiresAt = t\<rparr> \<in> set (psCommitments st)"
proof -
  obtain st where sv: "saveLocked_Invite c s m (st\<lparr>psCommitments := psCommitments st @ [\<lparr>cmHash = h, cmExpiresAt = t\<rparr>]\<rparr>) = (s', None)"
    using assms(1) by (auto simp: AddCommitment_def split: sum.splits)
  from invite_file.load_save [OF sv] assms(2,3) show ?thesis by auto
qed

text \<open>On a disk that accepts the invite file, a commitment that has not expired makes its pre-image a token.\<close>

lemma commitment_accepted:
  assumes "loadLocked_Invite c s m = Inr st" and "x \<in> set (psCommitments st)" and "cmHash x = Sum256 secret" and "now \<le> cmExpiresAt x"
    and "fault_free s" and "writable s (imPath m)" and "\<And>st. inverts c st"
  shows "\<exists>s'. Consume c now s m secret = (s', None)
     \<or> (\<exists>e. Consume c now s m secret = (s, Some e) \<and> ConsumeCommitment c now s m secret = (s', None))"
proof (cases "fst (consume_loop now secret (psPending st))")
  case True
  then show ?thesis
    using saveLocked_Invite_total [OF assms(5,6,7)] assms(1) by (fastforce simp: Consume_def split: prod.splits)
next
  case False
  have "List.extract (\<lambda>x. \<not> (now > cmExpiresAt x) \<and> cmHash x = Sum256 secret) (psCommitments st) \<noteq> None"
    using assms(2-4) by (auto simp: extract_None_iff intro!: bexI [of _ x])
  then obtain rest where "commit_loop now (Sum256 secret) False (psCommitments st) = (True, rest)"
    by (auto simp: commit_loop_eq)
  then show ?thesis
    using saveLocked_Invite_total [OF assms(5,6,7)] assms(1) False by (fastforce simp: Consume_def ConsumeCommitment_def split: prod.splits)
qed


subsection \<open>Concrete machines\<close>

definition invresp_fmt :: "InviteResponse wirefmt" where
  "invresp_fmt = fmt_iso (\<lambda>a. (isType a, isOK a, isPeerID a, isPubKey a, isError a))
     (\<lambda>(t, k, p, b, e). \<lparr>isType = t, isOK = k, isPeerID = p, isPubKey = b, isError = e\<rparr>)
     (fmt_pair fmt_string (fmt_pair fmt_bool (fmt_pair fmt_string (fmt_pair fmt_bytes fmt_string))))"

lemma invresp_fmt_ok: "fmt_ok invresp_fmt"
  unfolding invresp_fmt_def by (rule fmt_iso_ok) (simp_all add: fmt_intros)

definition demo_icodecs :: codecs where
  "demo_icodecs = demo_codecs\<lparr>jInviteResponse := codec_of invresp_fmt\<rparr>"

lemma demo_icodecs_sel [simp]:
  "jInviteRequest demo_icodecs = codec_of invreq_fmt" "jInviteResponse demo_icodecs = codec_of invresp_fmt"
  "jRegistry demo_icodecs = codec_of registry_fmt" "jInvites demo_icodecs = codec_of invite_fmt"
  by (simp_all add: demo_icodecs_def demo_codecs_def)

lemma demo_invite_sendable:
  "wire_sendable (codec_of invreq_fmt) \<lparr>iqType = TypeInviteRequest, iqToken = [1], iqPeerID = ''bob'', iqPubKey = bytes_of_string ''bob'', iqAddrs = []\<rparr>"
  "wire_sendable (codec_of invresp_fmt) (invite_resp True ''me'' (bytes_of_string ''me'') [])"
  by - (rule sendable_codec_of, (simp add: message_fmts_ok invresp_fmt_ok),
      (simp add: fmt_defs invresp_fmt_def invite_resp_def TypeInviteResponse_def),
      (simp add: fmt_defs invresp_fmt_def invite_resp_def TypeInviteResponse_def))+

lemma bePeerID_stamp: "bePeerID (stamp now e) = bePeerID e"
  by (simp add: stamp_def)

lemma can_add_fresh:
  assumes "fault_free s" and "ReadFile s [''home'', ''buddies.enc''] = Inl ErrNotExist" and "writable s [''home'', ''buddies.enc'']"
    and "jRegistry J = codec_of registry_fmt"
  shows "\<exists>r' s'. can_add J [bePeerID e] (Some g) now s (demo_registry []) e r' s'"
proof -
  let ?r = "demo_registry [(bePeerID e, stamp now e)]"
  obtain s' where "save_Registry (codec_of registry_fmt) [bePeerID e] (Some g) s ?r = (s', None)"
    using save_Registry_total [of ?r s "codec_of registry_fmt" "[bePeerID e]" g] assms(1,3)
    by (auto simp: demo_registry_def codec_of_inverts registry_fmt_ok)
  then have "can_add J [bePeerID e] (Some g) now s (demo_registry []) e ?r s'"
    using assms by (simp add: Let_def can_add_def Add_def load_Registry_def demo_registry_def keyed_def is_order_def fault_free_def
        codec_of_inverts registry_fmt_ok bePeerID_stamp)
  then show ?thesis by blast
qed


definition demo_host :: env where
  "demo_host = demo_env\<lparr>eNet := demo_net\<lparr>nwNewHost := \<lambda>_. Inr ''alice''\<rparr>, eJ := demo_icodecs\<rparr>"

lemma demo_host_sel [simp]:
  "eL demo_host = demo_libs" "eI demo_host = demo_id" "eKsJ demo_host = codec_of ks_fmt" "eOS demo_host = demo_os"
  "nwNewHost (eNet demo_host) k = Inr ''alice''" "eJ demo_host = demo_icodecs"
  by (simp_all add: demo_host_def demo_env_def)

lemma OpenKeystore_same:
  "eL E = eL E' \<Longrightarrow> eKsJ E = eKsJ E' \<Longrightarrow> eOS E = eOS E' \<Longrightarrow> OpenKeystore E s pw = OpenKeystore E' s pw"
  by (simp only: OpenKeystore_def)

definition demo_mc_mail :: mail_choice where
  "demo_mc_mail = \<lparr>mlId1 = None, mlId2 = None, mlSecret = Some (\<lambda>_. 1), mlNonce = Some (\<lambda>_. 2), mlNow = 0, mlOrd = [], mlRnd = None\<rparr>"


end
