(* ===== verification/Dialer.thy ===== *)
theory Dialer
  imports Handshake
begin

text \<open>
  \<open>internal/p2p/dialer.go\<close> and the peer callback of \<open>internal/p2p/discovery.go\<close>: connecting to known buddies
  over stored addresses or the DHT, and what a peer found on the local network changes. The DHT is a
  function from a peer id to the peer and its addresses, or absent. What a caller cannot choose, the order in
  which a registry is written and its nonce, is an argument.
\<close>

type_synonym dht = "string \<Rightarrow> (string \<times> string list) result"

definition parseAddrs :: "network \<Rightarrow> string list \<Rightarrow> string list" where
  "parseAddrs N raw = filter (nwMultiaddr N) raw"

definition DialBuddy ::
  "registryData codec \<Rightarrow> network \<Rightarrow> dht option \<Rightarrow> string list \<Rightarrow> entropy \<Rightarrow> fs \<Rightarrow> Registry \<Rightarrow> string
     \<Rightarrow> Registry \<times> fs \<times> error option" where
  "DialBuddy c N d ord rnd s reg buddyID =
     (case Get_Registry c s reg buddyID of
        (r1, None) \<Rightarrow> (r1, s, Some (Errorf ''dialer: buddy not in registry''))
      | (r1, Some entry) \<Rightarrow>
          if beAddrs entry \<noteq> [] \<and> nwConnect N buddyID (parseAddrs N (beAddrs entry)) then (r1, s, None)
          else (case d of
                  None \<Rightarrow> (r1, s, Some (Errorf ''dialer: no stored addrs and DHT is unavailable''))
                | Some findPeer \<Rightarrow>
                    (case findPeer buddyID of
                       Inl e \<Rightarrow> (r1, s, Some (Wrap ''dialer: DHT lookup'' e))
                     | Inr (pid, addrs) \<Rightarrow>
                         if \<not> nwConnect N pid addrs then (r1, s, Some (Errorf ''dialer: connect''))
                         else (case UpdateAddrs c ord rnd s r1 buddyID addrs of (r2, s') \<Rightarrow> (r2, s', None)))))"

text \<open>The errors of the single dials are logged and skipped. \<open>ch\<close> has the order and the nonce of each write.\<close>

fun dial_entries ::
  "registryData codec \<Rightarrow> network \<Rightarrow> dht option \<Rightarrow> (string \<Rightarrow> string list \<times> entropy) \<Rightarrow> Entry list \<Rightarrow> fs \<Rightarrow> Registry
     \<Rightarrow> Registry \<times> fs" where
  "dial_entries c N d ch [] s reg = (reg, s)"
| "dial_entries c N d ch (e # es) s reg =
     (if \<not> nwDecode N (bePeerID e) then dial_entries c N d ch es s reg
      else case ch (bePeerID e) of (ord, rnd) \<Rightarrow>
        (case DialBuddy c N d ord rnd s reg (bePeerID e) of (r1, s1, _) \<Rightarrow> dial_entries c N d ch es s1 r1))"

definition DialAllBuddies ::
  "registryData codec \<Rightarrow> network \<Rightarrow> dht option \<Rightarrow> string list \<Rightarrow> (string \<Rightarrow> string list \<times> entropy) \<Rightarrow> fs \<Rightarrow> Registry
     \<Rightarrow> Registry \<times> fs" where
  "DialAllBuddies c N d ord ch s reg =
     (case List_Registry c ord s reg of (r1, entries) \<Rightarrow> dial_entries c N d ch entries s r1)"

text \<open>One round at the start and one for every tick until the context is cancelled; each round finds its own network.\<close>

record dial_round =
  drNet :: network
  drDHT :: "dht option"
  drOrd :: "string list"
  drChoice :: "string \<Rightarrow> string list \<times> entropy"

fun PeriodicDialAllBuddies :: "registryData codec \<Rightarrow> dial_round \<Rightarrow> dial_round list \<Rightarrow> fs \<Rightarrow> Registry \<Rightarrow> Registry \<times> fs" where
  "PeriodicDialAllBuddies c d0 ticks s reg =
     (case DialAllBuddies c (drNet d0) (drDHT d0) (drOrd d0) (drChoice d0) s reg of (r1, s1) \<Rightarrow>
        (case ticks of [] \<Rightarrow> (r1, s1) | d # ds \<Rightarrow> PeriodicDialAllBuddies c d ds s1 r1))"

subsection \<open>Discovery on the local network\<close>

text \<open>\<open>queue\<close> is the path of the retry queue, absent in tests; \<open>send\<close> pushes one shard. The flush runs on its own
  and is done here last.\<close>

definition HandlePeerFound ::
  "registryData codec \<Rightarrow> queueData codec \<Rightarrow> network \<Rightarrow> (ShardPush \<Rightarrow> error option) \<Rightarrow> path option \<Rightarrow> string list \<Rightarrow> entropy
     \<Rightarrow> fs \<Rightarrow> Registry \<Rightarrow> string \<Rightarrow> string list \<Rightarrow> Registry \<times> fs" where
  "HandlePeerFound c qc N send queue ord rnd s reg peer addrs =
     (case IsKnown c s reg peer of
        (r1, False) \<Rightarrow> (r1, s)
      | (r1, True) \<Rightarrow>
          (case UpdateAddrs c ord rnd s r1 peer addrs of (r2, s1) \<Rightarrow>
             if \<not> nwConnect N peer addrs then (r2, s1)
             else (case queue of None \<Rightarrow> (r2, s1) | Some q \<Rightarrow> (r2, FlushToPeer qc send s1 q peer))))"

subsection \<open>Updating addresses\<close>

definition set_addrs :: "string \<Rightarrow> string list \<Rightarrow> (string \<Rightarrow> Entry option) \<Rightarrow> string \<Rightarrow> Entry option" where
  "set_addrs pid addrs f = (case f pid of None \<Rightarrow> f | Some e \<Rightarrow> f(pid \<mapsto> e\<lparr>beAddrs := addrs\<rparr>))"

text \<open>What a handle reads from the registry file.\<close>

definition registry_view :: "registryData codec \<Rightarrow> fs \<Rightarrow> Registry \<Rightarrow> string \<Rightarrow> Entry option" where
  "registry_view c s r pid = snd (Get_Registry c s r pid)"

lemma load_Registry_same_file:
  assumes "read_entries c key s p = Inr es" and "rgPath r = p" and "rgMasterKey r = key"
  shows "registry_view c s r = map_of (fresh_map es)"
  using load_Registry_read [of c r s es] assms by (auto simp: registry_view_def Get_Registry_def)

lemma UpdateAddrs_view:
  assumes "read_entries c key s p = Inr es" and "fault_free s" and "rgPath r = p" and "rgMasterKey r = key"
    and "UpdateAddrs c ord (Some g) s r pid addrs = (r', s')" and "writable s p" and "valid_key key"
    and "\<And>v. inverts c v" and "is_order ord (fresh_map es)"
  shows "(\<exists>es'. read_entries c key s' p = Inr es' \<and> map_of (fresh_map es') = set_addrs pid addrs (map_of (fresh_map es)))
    \<and> fault_free s' \<and> writable s' p \<and> rgPath r' = p \<and> rgMasterKey r' = key"
proof (cases "map_of (fresh_map es) pid")
  case None
  then have "s' = s" "r' = r\<lparr>rgByPeerID := fresh_map es\<rparr>"
    using assms(3-5) load_Registry_read [of c r s es] assms(1) by (simp_all add: UpdateAddrs_def)
  with None assms show ?thesis by (auto simp: set_addrs_def)
next
  case (Some e)
  define r2 where "r2 = r\<lparr>rgByPeerID := AList.update pid (e\<lparr>beAddrs := addrs\<rparr>) (fresh_map es)\<rparr>"
  have up: "r' = r2" "s' = fst (save_Registry c ord (Some g) s r2)"
    using assms(3-5) load_Registry_read [of c r s es] assms(1) Some by (auto simp: UpdateAddrs_def r2_def Let_def)
  obtain t where t: "save_Registry c ord (Some g) s r2 = (t, None)" "fault_free t" "writable t (rgPath r2)"
    using save_Registry_total [of r2 s c ord g] assms(2-4,6-8) by (auto simp: r2_def)
  have keyed: "keyed (rgByPeerID r2)"
    using keyed_update [OF fresh_map_keyed] map_of_keyed [OF fresh_map_keyed Some] by (simp add: r2_def)
  have "fst ` set (rgByPeerID r2) = fst ` set (fresh_map es)"
    using Some by (auto simp: r2_def dom_update simp flip: dom_map_of_conv_image_fst dest: domI)
  then have ord: "is_order ord (rgByPeerID r2)" using assms(9) by (simp add: is_order_def)
  have "read_entries c key t p = Inr (range_vals ord (rgByPeerID r2))"
    using read_after_save [OF t(1) assms(8)] assms(2-4) by (simp add: r2_def fault_free_def)
  moreover have "map_of (fresh_map (range_vals ord (rgByPeerID r2))) = set_addrs pid addrs (map_of (fresh_map es))"
    using fresh_map_range_vals [OF keyed ord] Some by (auto simp: r2_def set_addrs_def fun_eq_iff)
  ultimately show ?thesis using t up assms(3,4) by (auto simp: r2_def)
qed

text \<open>A registry file on a healthy disk, and a handle on it.\<close>

definition registry_on_disk :: "registryData codec \<Rightarrow> fs \<Rightarrow> Registry \<Rightarrow> registryData \<Rightarrow> bool" where
  "registry_on_disk c s r es \<longleftrightarrow> read_entries c (rgMasterKey r) s (rgPath r) = Inr es \<and> fault_free s
     \<and> writable s (rgPath r) \<and> valid_key (rgMasterKey r) \<and> (\<forall>v. inverts c v)"

lemma registry_on_disk_load:
  assumes "registry_on_disk c s r es"
  shows "load_Registry c s r = (r\<lparr>rgByPeerID := fresh_map es\<rparr>, None)" and "registry_view c s r = map_of (fresh_map es)"
  using assms load_Registry_read [of c r s es] by (auto simp: registry_on_disk_def registry_view_def Get_Registry_def)

lemma UpdateAddrs_on_disk:
  assumes "registry_on_disk c s r es" and "UpdateAddrs c ord (Some g) s r pid addrs = (r', s')" and "is_order ord (fresh_map es)"
  shows "\<exists>es'. registry_on_disk c s' r' es' \<and> registry_view c s' r' = set_addrs pid addrs (registry_view c s r)
     \<and> rgPath r' = rgPath r \<and> rgMasterKey r' = rgMasterKey r"
proof -
  have a: "read_entries c (rgMasterKey r) s (rgPath r) = Inr es" "fault_free s" "writable s (rgPath r)" "valid_key (rgMasterKey r)"
    "\<And>v. inverts c v" using assms(1) by (auto simp: registry_on_disk_def)
  from UpdateAddrs_view [OF a(1,2) refl refl assms(2) a(3,4,5) assms(3)] obtain es' where
    e: "read_entries c (rgMasterKey r) s' (rgPath r) = Inr es'" "map_of (fresh_map es') = set_addrs pid addrs (map_of (fresh_map es))"
    "fault_free s'" "writable s' (rgPath r)" "rgPath r' = rgPath r" "rgMasterKey r' = rgMasterKey r" by blast
  then have d: "registry_on_disk c s' r' es'" using a(4,5) by (simp add: registry_on_disk_def)
  with e registry_on_disk_load(2) [OF d] registry_on_disk_load(2) [OF assms(1)] show ?thesis by auto
qed

lemma registry_on_disk_reload: "registry_on_disk c s (r\<lparr>rgByPeerID := m\<rparr>) es = registry_on_disk c s r es"
  by (simp add: registry_on_disk_def)

lemma registry_view_reload: "registry_on_disk c s r es \<Longrightarrow> registry_view c s (r\<lparr>rgByPeerID := m\<rparr>) = registry_view c s r"
  using registry_on_disk_load(2) [of c s r es] registry_on_disk_load(2) [of c s "r\<lparr>rgByPeerID := m\<rparr>" es]
  by (simp add: registry_on_disk_reload)

lemma Get_on_disk:
  "registry_on_disk c s r es \<Longrightarrow> Get_Registry c s r pid = (r\<lparr>rgByPeerID := fresh_map es\<rparr>, registry_view c s r pid)"
  by (simp add: Get_Registry_def registry_on_disk_load)

lemma HandlePeerFound_view:
  assumes "registry_on_disk c s r es" and "is_order ord (fresh_map es)"
    and "HandlePeerFound c qc N send None ord (Some g) s r peer addrs = (r', s')"
  shows "\<exists>es'. registry_on_disk c s' r' es' \<and> registry_view c s' r' = set_addrs peer addrs (registry_view c s r)"
proof -
  let ?r1 = "r\<lparr>rgByPeerID := fresh_map es\<rparr>"
  have k: "IsKnown c s r peer = (?r1, registry_view c s r peer \<noteq> None)"
    using registry_on_disk_load [OF assms(1)] by (simp add: IsKnown_def)
  have d1: "registry_on_disk c s ?r1 es" using assms(1) by (simp add: registry_on_disk_reload)
  show ?thesis
  proof (cases "registry_view c s r peer")
    case None
    then have "r' = ?r1" "s' = s" using assms(3) k by (auto simp: HandlePeerFound_def)
    with None d1 registry_view_reload [OF assms(1)] show ?thesis by (auto simp: set_addrs_def)
  next
    case (Some e)
    then have "UpdateAddrs c ord (Some g) s ?r1 peer addrs = (r', s')"
      using assms(3) k by (auto simp: HandlePeerFound_def split: prod.splits if_splits)
    from UpdateAddrs_on_disk [OF d1 this assms(2)] registry_view_reload [OF assms(1)] show ?thesis by auto
  qed
qed

subsection \<open>Properties\<close>

text \<open>A buddy that was found through the DHT is found again without it: when a dial of a known buddy succeeds
  with usable addresses from the DHT, they are stored, and the next dial over the same network connects
  with no DHT at all.\<close>

theorem discovered_addresses_are_remembered:
  assumes "registry_on_disk c s r es" and "is_order ord (fresh_map es)"
    and "DialBuddy c N (Some look) ord (Some g) s r buddy = (r1, s1, None)"
    and "look buddy = Inr (buddy, addrs)" and "addrs \<noteq> []" and "\<forall>a \<in> set addrs. nwMultiaddr N a"
  shows "snd (snd (DialBuddy c N None ord2 rnd2 s1 r1 buddy)) = None"
proof -
  let ?r = "r\<lparr>rgByPeerID := fresh_map es\<rparr>"
  have d1: "registry_on_disk c s ?r es" using assms(1) by (simp add: registry_on_disk_reload)
  obtain e where e: "registry_view c s r buddy = Some e"
    using assms(3) Get_on_disk [OF assms(1)] by (cases "registry_view c s r buddy") (auto simp: DialBuddy_def)
  have e1: "registry_view c s ?r buddy = Some e" using e registry_view_reload [OF assms(1)] by simp
  show ?thesis
  proof (cases "beAddrs e \<noteq> [] \<and> nwConnect N buddy (parseAddrs N (beAddrs e))")
    case True
    then have "r1 = ?r" "s1 = s" using assms(3) Get_on_disk [OF assms(1)] e by (auto simp: DialBuddy_def)
    with True Get_on_disk [OF d1] e1 show ?thesis by (simp add: DialBuddy_def)
  next
    case False
    then have conn: "nwConnect N buddy addrs" and up: "UpdateAddrs c ord (Some g) s ?r buddy addrs = (r1, s1)"
      using assms(3,4) Get_on_disk [OF assms(1)] e by (auto simp: DialBuddy_def split: if_splits prod.splits)
    from UpdateAddrs_on_disk [OF d1 up assms(2)] obtain es' where d2: "registry_on_disk c s1 r1 es'"
      and v: "registry_view c s1 r1 = set_addrs buddy addrs (registry_view c s ?r)" by blast
    have "registry_view c s1 r1 buddy = Some (e\<lparr>beAddrs := addrs\<rparr>)" using v e1 by (simp add: set_addrs_def)
    moreover have "parseAddrs N addrs = addrs" using assms(6) by (simp add: parseAddrs_def)
    ultimately show ?thesis using Get_on_disk [OF d2] conn assms(5) by (simp add: DialBuddy_def)
  qed
qed

text \<open>An announcement on the local network can cut off a buddy: the addresses of a known peer are replaced before
  anything proves that the announcement is genuine, so after one with addresses that lead nowhere a buddy
  that could be dialled over its stored addresses cannot be dialled without the DHT. Nothing else in the
  registry changes, and an unknown peer changes nothing.\<close>

theorem announcement_replaces_good_addresses:
  assumes "registry_on_disk c s r es" and "is_order ord (fresh_map es)"
    and "HandlePeerFound c qc N send None ord (Some g) s r peer bogus = (r1, s1)"
    and "registry_view c s r victim = Some e" and "beAddrs e \<noteq> []" and "nwConnect N victim (parseAddrs N (beAddrs e))"
    and "\<not> nwConnect N victim (parseAddrs N bogus)"
  shows "snd (snd (DialBuddy c N None ord2 rnd2 s r victim)) = None
    \<and> (peer = victim \<longrightarrow> snd (snd (DialBuddy c N None ord2 rnd2 s1 r1 victim)) \<noteq> None)
    \<and> (\<forall>q. q \<noteq> peer \<or> registry_view c s r peer = None \<longrightarrow> registry_view c s1 r1 q = registry_view c s r q)"
proof (intro conjI allI impI)
  obtain es' where d: "registry_on_disk c s1 r1 es'" and v: "registry_view c s1 r1 = set_addrs peer bogus (registry_view c s r)"
    using HandlePeerFound_view [OF assms(1-3)] by blast
  show "snd (snd (DialBuddy c N None ord2 rnd2 s r victim)) = None"
    using Get_on_disk [OF assms(1)] assms(4-6) by (simp add: DialBuddy_def)
  show "peer = victim \<Longrightarrow> snd (snd (DialBuddy c N None ord2 rnd2 s1 r1 victim)) \<noteq> None"
    using Get_on_disk [OF d] v assms(4,7) by (simp add: DialBuddy_def set_addrs_def)
  show "\<And>q. q \<noteq> peer \<or> registry_view c s r peer = None \<Longrightarrow> registry_view c s1 r1 q = registry_view c s r q"
    using v by (auto simp: set_addrs_def split: option.splits)
qed

subsection \<open>Concrete networks\<close>

definition demo_dial_net :: network where
  "demo_dial_net = demo_net\<lparr>nwConnect := (\<lambda>p addrs. addrs \<noteq> [] \<and> hd addrs = ''good'')\<rparr>"

lemma demo_registry_disk:
  "\<exists>s. registry_on_disk (codec_of registry_fmt) s (demo_registry []) [(demo_buddy ''bob'')\<lparr>beAddrs := addrs\<rparr>]"
proof -
  let ?r = "demo_registry [(''bob'', (demo_buddy ''bob'')\<lparr>beAddrs := addrs\<rparr>)]"
  have "writable empty_fs [''home'', ''buddies.enc'']" "fault_free empty_fs"
    by (simp_all add: writable_def empty_fs_def is_dir_def is_file_def prefixes_def fault_free_def)
  then obtain s where s: "save_Registry (codec_of registry_fmt) [''bob''] (Some (\<lambda>_. 1)) empty_fs ?r = (s, None)"
    "fault_free s" "writable s [''home'', ''buddies.enc'']"
    using save_Registry_total [of ?r empty_fs "codec_of registry_fmt" "[''bob'']" "\<lambda>_. 1"]
    by (auto simp: demo_registry_def codec_of_inverts registry_fmt_ok)
  then show ?thesis
    using read_after_save [OF s(1)] by (auto simp: registry_on_disk_def demo_registry_def codec_of_inverts registry_fmt_ok empty_fs_def)
qed

lemma demo_order: "is_order [''bob''] (fresh_map [(demo_buddy ''bob'')\<lparr>beAddrs := addrs\<rparr>])"
  by (simp add: is_order_def fresh_map_def demo_buddy_def)

theorem discovered_addresses_are_remembered_witness:
  "\<exists>s r1 s1. DialBuddy (codec_of registry_fmt) demo_dial_net (Some (\<lambda>p. Inr (p, [''good'']))) [''bob''] (Some (\<lambda>_. 2)) s (demo_registry []) ''bob'' = (r1, s1, None)
     \<and> snd (snd (DialBuddy (codec_of registry_fmt) demo_dial_net None [] None s1 r1 ''bob'')) = None"
proof -
  obtain s where s: "registry_on_disk (codec_of registry_fmt) s (demo_registry []) [(demo_buddy ''bob'')\<lparr>beAddrs := [''stale'']\<rparr>]"
    using demo_registry_disk by blast
  obtain r1 s1 where d: "DialBuddy (codec_of registry_fmt) demo_dial_net (Some (\<lambda>p. Inr (p, [''good'']))) [''bob''] (Some (\<lambda>_. 2)) s (demo_registry []) ''bob'' = (r1, s1, None)"
    using Get_on_disk [OF s] registry_on_disk_load(2) [OF s]
    by (auto simp: DialBuddy_def demo_dial_net_def demo_net_def parseAddrs_def fresh_map_def demo_buddy_def case_prod_beta)
  have "\<forall>a \<in> set [''good'']. nwMultiaddr demo_dial_net a" by (simp add: demo_dial_net_def demo_net_def)
  from discovered_addresses_are_remembered [OF s demo_order d refl _ this] d show ?thesis by blast
qed

theorem announcement_replaces_good_addresses_witness:
  "\<exists>s r1 s1. HandlePeerFound (codec_of registry_fmt) (codec_of queue_fmt) demo_dial_net (\<lambda>_. None) None [''bob''] (Some (\<lambda>_. 2)) s (demo_registry []) ''bob'' [''bad''] = (r1, s1)
     \<and> snd (snd (DialBuddy (codec_of registry_fmt) demo_dial_net None [] None s (demo_registry []) ''bob'')) = None
     \<and> snd (snd (DialBuddy (codec_of registry_fmt) demo_dial_net None [] None s1 r1 ''bob'')) \<noteq> None"
proof -
  let ?e = "(demo_buddy ''bob'')\<lparr>beAddrs := [''good'']\<rparr>"
  obtain s where s: "registry_on_disk (codec_of registry_fmt) s (demo_registry []) [?e]"
    using demo_registry_disk by blast
  obtain r1 s1 where h: "HandlePeerFound (codec_of registry_fmt) (codec_of queue_fmt) demo_dial_net (\<lambda>_. None) None [''bob''] (Some (\<lambda>_. 2)) s (demo_registry []) ''bob'' [''bad''] = (r1, s1)"
    by fastforce
  have v: "registry_view (codec_of registry_fmt) s (demo_registry []) ''bob'' = Some ?e"
    using registry_on_disk_load(2) [OF s] by (simp add: fresh_map_def demo_buddy_def)
  have n: "nwConnect demo_dial_net ''bob'' (parseAddrs demo_dial_net (beAddrs ?e))" "\<not> nwConnect demo_dial_net ''bob'' (parseAddrs demo_dial_net [''bad''])"
    "beAddrs ?e \<noteq> []" by (simp_all add: demo_dial_net_def demo_net_def parseAddrs_def)
  from announcement_replaces_good_addresses [OF s demo_order h v n(3,1,2), of "[]" None] h show ?thesis by blast
qed

end
