(* ===== verification/Circles.thy ===== *)
theory Circles
  imports Demo_World
begin

text \<open>
  \<open>internal/circle/circle.go\<close> and \<open>internal/api/circle.go\<close>: named backup circles, kept as a JSON list under one
  name among the extras of the key store.

  The Go code reaches the key store through the interface \<open>extraStore\<close>; the locale of the same name is
  its contract, and the key store is its instance. The manager holds a pointer to the key store and
  changes it, so every operation that saves returns the manager with its key store.
\<close>

subsection \<open>The interface \<open>extraStore\<close>\<close>

locale extraStore =
  fixes load :: "'k \<Rightarrow> string \<Rightarrow> bytes"
    and store :: "'k \<Rightarrow> string \<Rightarrow> bytes \<Rightarrow> 'k \<Rightarrow> bool"
  assumes load_stored: "store k n d k' \<Longrightarrow> load k' n = d"
    and load_other: "store k n d k' \<Longrightarrow> m \<noteq> n \<Longrightarrow> load k' m = load k m"
begin

text \<open>What was stored under a name through a codec is decoded from it, and other names are untouched.\<close>

lemma stored_value:
  "store k n b k' \<Longrightarrow> Marshal c v = Inr b \<Longrightarrow> inverts c v \<Longrightarrow> Unmarshal c (load k' n) = Inr v"
  using inverts_Unmarshal load_stored by metis

lemma stored_twice:
  "store k n d k' \<Longrightarrow> store k' n d' k'' \<Longrightarrow> load k'' n = d' \<and> (m \<noteq> n \<longrightarrow> load k'' m = load k m)"
  using load_stored load_other by metis

end

interpretation ks_extras: extraStore LoadExtra
  "\<lambda>k n d k'. \<exists>L c r s s' pw. StoreExtra L c r s k n d pw = (k', s', None)"
  by unfold_locales (auto dest!: StoreExtra_None simp: LoadExtra_def)

subsection \<open>Circles\<close>

definition DefaultName :: string where "DefaultName = ''Default''"

definition storeKey :: string where "storeKey = ''circles_v1''"

record Circle =
  ciID :: string
  ciName :: string
  ciSalt :: bytes
  ciScheme :: string
  ciCreatedAt :: time

record CircleManager =
  cmKs :: Keystore
  cmPassword :: string
  cmCircles :: "Circle list"
  cmLoaded :: bool

definition NewManager_Circle :: "Keystore \<Rightarrow> string \<Rightarrow> CircleManager" where
  "NewManager_Circle ks password = \<lparr>cmKs = ks, cmPassword = password, cmCircles = [], cmLoaded = False\<rparr>"

definition load_Circle :: "Circle list codec \<Rightarrow> CircleManager \<Rightarrow> CircleManager \<times> error option" where
  "load_Circle c m =
     (if cmLoaded m then (m, None)
      else let raw = LoadExtra (cmKs m) storeKey in
        if raw = [] then (m\<lparr>cmCircles := [], cmLoaded := True\<rparr>, None)
        else case Unmarshal c raw of
               Inl e \<Rightarrow> (m, Some (Wrap ''circle: decode store'' e))
             | Inr cs \<Rightarrow> (m\<lparr>cmCircles := cs, cmLoaded := True\<rparr>, None))"

definition save_Circle ::
  "libs \<Rightarrow> keystoreJSON codec \<Rightarrow> Circle list codec \<Rightarrow> entropy \<Rightarrow> fs \<Rightarrow> CircleManager
     \<Rightarrow> CircleManager \<times> fs \<times> error option" where
  "save_Circle L kc c r s m =
     (case Marshal c (cmCircles m) of
        Inl e \<Rightarrow> (m, s, Some (Wrap ''circle: encode store'' e))
      | Inr b \<Rightarrow>
          (case StoreExtra L kc r s (cmKs m) storeKey b (cmPassword m) of
             (ks, s', e) \<Rightarrow> (m\<lparr>cmKs := ks\<rparr>, s', e)))"

definition List_Circle :: "Circle list codec \<Rightarrow> CircleManager \<Rightarrow> CircleManager \<times> Circle list result" where
  "List_Circle c m =
     (case load_Circle c m of (m1, Some e) \<Rightarrow> (m1, Inl e) | (m1, None) \<Rightarrow> (m1, Inr (cmCircles m1)))"

definition Get_Circle :: "Circle list codec \<Rightarrow> CircleManager \<Rightarrow> string \<Rightarrow> CircleManager \<times> Circle option result" where
  "Get_Circle c m name =
     (case load_Circle c m of
        (m1, Some e) \<Rightarrow> (m1, Inl e)
      | (m1, None) \<Rightarrow> (m1, Inr (find (\<lambda>ci. ciName ci = name) (cmCircles m1))))"

text \<open>The random draws of \<open>Add\<close>: the salt, the UUID, the clock, and the nonce of the saved key store.\<close>

record circle_choice =
  ccSalt :: entropy
  ccUuid :: string
  ccNow :: time
  ccNonce :: entropy

definition Add_Circle ::
  "libs \<Rightarrow> keystoreJSON codec \<Rightarrow> Circle list codec \<Rightarrow> circle_choice \<Rightarrow> fs \<Rightarrow> CircleManager \<Rightarrow> string \<Rightarrow> string
     \<Rightarrow> CircleManager \<times> fs \<times> Circle result" where
  "Add_Circle L kc c ch s m name scheme =
     (case load_Circle c m of
        (m1, Some e) \<Rightarrow> (m1, s, Inl e)
      | (m1, None) \<Rightarrow>
          if \<exists>ci \<in> set (cmCircles m1). ciName ci = name then (m1, s, Inl (Errorf ''circle: already exists''))
          else case rand_read (ccSalt ch) 32 of
                 Inl e \<Rightarrow> (m1, s, Inl (Wrap ''circle: salt'' e))
               | Inr salt \<Rightarrow>
                   let ci = \<lparr>ciID = ccUuid ch, ciName = name, ciSalt = salt, ciScheme = scheme, ciCreatedAt = ccNow ch\<rparr> in
                   (case save_Circle L kc c (ccNonce ch) s (m1\<lparr>cmCircles := cmCircles m1 @ [ci]\<rparr>) of
                      (m2, s', Some e) \<Rightarrow> (m2, s', Inl e)
                    | (m2, s', None) \<Rightarrow> (m2, s', Inr ci)))"

definition GetOrDefault ::
  "libs \<Rightarrow> keystoreJSON codec \<Rightarrow> Circle list codec \<Rightarrow> circle_choice \<Rightarrow> fs \<Rightarrow> CircleManager \<Rightarrow> string
     \<Rightarrow> CircleManager \<times> fs \<times> Circle result" where
  "GetOrDefault L kc c ch s m name =
     (let target = (if name = [] then DefaultName else name) in
      case Get_Circle c m target of
        (m1, Inl e) \<Rightarrow> (m1, s, Inl e)
      | (m1, Inr (Some ci)) \<Rightarrow> (m1, s, Inr ci)
      | (m1, Inr None) \<Rightarrow>
          if target = DefaultName then Add_Circle L kc c ch s m1 DefaultName ''3/2''
          else (m1, s, Inl (Errorf ''circle: not found'')))"

definition Remove_Circle ::
  "libs \<Rightarrow> keystoreJSON codec \<Rightarrow> Circle list codec \<Rightarrow> entropy \<Rightarrow> fs \<Rightarrow> CircleManager \<Rightarrow> string
     \<Rightarrow> CircleManager \<times> fs \<times> error option" where
  "Remove_Circle L kc c r s m name =
     (case load_Circle c m of
        (m1, Some e) \<Rightarrow> (m1, s, Some e)
      | (m1, None) \<Rightarrow>
          let cs = filter (\<lambda>ci. ciName ci \<noteq> name) (cmCircles m1) in
          if length cs = length (cmCircles m1) then (m1, s, Some (Errorf ''circle: not found''))
          else save_Circle L kc c r s (m1\<lparr>cmCircles := cs\<rparr>))"

definition DeriveKey_Circle :: "libs \<Rightarrow> Circle \<Rightarrow> string \<Rightarrow> bytes" where
  "DeriveKey_Circle L ci password = DeriveCircleKey L password (ciID ci) (ciSalt ci)"

subsection \<open>The operations of the API\<close>

definition circleManager :: "env \<Rightarrow> fs \<Rightarrow> string \<Rightarrow> CircleManager result" where
  "circleManager E s password =
     (if password = [] then Inl (Errorf ''password is required'')
      else rbind (OpenKeystore E s password) (\<lambda>ks. Inr (NewManager_Circle ks password)))"

definition CircleAdd ::
  "env \<Rightarrow> Circle list codec \<Rightarrow> circle_choice \<Rightarrow> fs \<Rightarrow> string \<Rightarrow> string \<Rightarrow> string \<Rightarrow> fs \<times> Circle result" where
  "CircleAdd E c ch s password name scheme =
     (if name = [] then (s, Inl (Errorf ''name is required''))
      else case circleManager E s password of
             Inl e \<Rightarrow> (s, Inl e)
           | Inr mgr \<Rightarrow> snd (Add_Circle (eL E) (eKsJ E) c ch s mgr name scheme))"

definition CircleList :: "env \<Rightarrow> Circle list codec \<Rightarrow> fs \<Rightarrow> string \<Rightarrow> Circle list result" where
  "CircleList E c s password = rbind (circleManager E s password) (\<lambda>mgr. snd (List_Circle c mgr))"

definition CircleRemove ::
  "env \<Rightarrow> Circle list codec \<Rightarrow> entropy \<Rightarrow> fs \<Rightarrow> string \<Rightarrow> string \<Rightarrow> fs \<times> error option" where
  "CircleRemove E c r s password name =
     (if name = [] then (s, Some (Errorf ''name is required''))
      else case circleManager E s password of
             Inl e \<Rightarrow> (s, Some e)
           | Inr mgr \<Rightarrow> snd (Remove_Circle (eL E) (eKsJ E) c r s mgr name))"

subsection \<open>The stored list\<close>

text \<open>The JSON of a list is never empty text.\<close>

definition json_ok :: "'a codec \<Rightarrow> bool" where
  "json_ok c \<longleftrightarrow> (\<forall>v. inverts c v \<and> Marshal c v \<noteq> Inr [])"

text \<open>The machine is set up: the key store opens, with a salt of the right length.\<close>

definition circle_ready :: "env \<Rightarrow> Circle list codec \<Rightarrow> fs \<Rightarrow> string \<Rightarrow> bool" where
  "circle_ready E c s password \<longleftrightarrow> json_ok c \<and> (\<forall>v. inverts (eKsJ E) v) \<and> fault_free s \<and> password \<noteq> []
     \<and> (\<exists>ks. OpenKeystore E s password = Inr ks \<and> length (ksSalt ks) = SaltSize)"

lemma save_Circle_reopens:
  assumes "save_Circle (eL E) (eKsJ E) c r s m = (m', s', None)" and "circle_ready E c s pw" and "cmPassword m = pw"
    and "OpenKeystore E s pw = Inr (cmKs m)"
  shows "CircleList E c s' pw = Inr (cmCircles m) \<and> circle_ready E c s' pw"
proof -
  obtain b ks where b: "Marshal c (cmCircles m) = Inr b" and st: "StoreExtra (eL E) (eKsJ E) r s (cmKs m) storeKey b pw = (ks, s', None)"
    using assms(1,3) by (auto simp: save_Circle_def split: sum.splits prod.splits)
  have j: "json_ok c" "\<forall>v. inverts (eKsJ E) v" "fault_free s" "pw \<noteq> []" "length (ksSalt (cmKs m)) = SaltSize"
    using assms(2,4) by (auto simp: circle_ready_def)
  from StoreExtra_None [OF st] have ks: "ks = (cmKs m)\<lparr>ksExtras := AList.update storeKey b (ksExtras (cmKs m))\<rparr>" and u: "ksUnlocked (cmKs m)"
    by simp_all
  have save: "ks_save (eL E) (eKsJ E) r s ks pw = (s', None)"
    using st ks u by (simp add: StoreExtra_def Let_def)
  obtain cfg where cfg: "ConfigDir (eOS E) = Inr cfg" "ksPath (cmKs m) = Join cfg [''keystore.enc'']"
    using OpenKeystore_path [OF assms(4)] by blast
  have "Unlock (eL E) (eKsJ E) s' (NewKeystore (Join cfg [''keystore.enc''])) pw = (ks\<lparr>ksUnlocked := True\<rparr>, None)"
    using Unlock_ks_save [OF save, of "NewKeystore (Join cfg [''keystore.enc''])"] j ks cfg(2)
    by (simp add: fault_free_def NewKeystore_def)
  then have "OpenKeystore E s' pw = Inr ks" using u ks by (simp add: OpenKeystore_def cfg(1))
  moreover have "LoadExtra ks storeKey = b" using ks by (simp add: LoadExtra_def)
  moreover have "b \<noteq> []" "Unmarshal c b = Inr (cmCircles m)"
    using j(1) b inverts_Unmarshal [of c "cmCircles m" b] by (auto simp: json_ok_def)
  moreover have "fault_free s'" using ks_save_faults [OF save] j(3) by (simp add: same_faults_fault_free)
  ultimately show ?thesis
    using j ks by (simp add: CircleList_def circleManager_def List_Circle_def load_Circle_def NewManager_Circle_def circle_ready_def)
qed

lemma CircleList_load:
  assumes "CircleList E c s pw = Inr cs"
  shows "\<exists>mgr. circleManager E s pw = Inr mgr \<and> cmPassword mgr = pw \<and> OpenKeystore E s pw = Inr (cmKs mgr)
     \<and> load_Circle c mgr = (mgr\<lparr>cmCircles := cs, cmLoaded := True\<rparr>, None)"
proof -
  obtain ks where ks: "OpenKeystore E s pw = Inr ks" and mgr: "circleManager E s pw = Inr (NewManager_Circle ks pw)"
    and l: "snd (List_Circle c (NewManager_Circle ks pw)) = Inr cs"
    using assms by (auto simp: CircleList_def circleManager_def rbind_eq_Inr split: if_splits)
  obtain m1 e where m1: "load_Circle c (NewManager_Circle ks pw) = (m1, e)" by (metis surj_pair)
  have "e = None" "cmCircles m1 = cs" using l m1 by (auto simp: List_Circle_def split: option.splits)
  moreover have "e = None \<Longrightarrow> m1 = (NewManager_Circle ks pw)\<lparr>cmCircles := cmCircles m1, cmLoaded := True\<rparr>"
    using m1 by (auto simp: load_Circle_def NewManager_Circle_def Let_def split: if_splits sum.splits)
  ultimately show ?thesis using ks mgr m1 by (auto simp: NewManager_Circle_def)
qed

lemma circle_list_effects:
  assumes "circle_ready E c s pw" and "CircleList E c s pw = Inr cs"
  shows "CircleAdd E c ch s pw name scheme = (s', Inr ci) \<Longrightarrow>
      ciName ci = name \<and> name \<notin> ciName ` set cs \<and> CircleList E c s' pw = Inr (cs @ [ci]) \<and> circle_ready E c s' pw"
    and "CircleRemove E c r s pw name = (s', None) \<Longrightarrow>
      name \<in> ciName ` set cs \<and> CircleList E c s' pw = Inr (filter (\<lambda>ci. ciName ci \<noteq> name) cs) \<and> circle_ready E c s' pw"
    and "name \<in> ciName ` set cs \<Longrightarrow> fst (CircleAdd E c ch s pw name scheme) = s"
    and "name \<notin> ciName ` set cs \<Longrightarrow>
      CircleRemove E c r s pw name = (s, Some (Errorf (if name = [] then ''name is required'' else ''circle: not found'')))"
proof -
  obtain mgr where mgr: "circleManager E s pw = Inr mgr" "cmPassword mgr = pw" "OpenKeystore E s pw = Inr (cmKs mgr)"
    and ld: "load_Circle c mgr = (mgr\<lparr>cmCircles := cs, cmLoaded := True\<rparr>, None)"
    using CircleList_load [OF assms(2)] by blast
  have swap: "mgr\<lparr>cmLoaded := True, cmCircles := x\<rparr> = mgr\<lparr>cmCircles := x, cmLoaded := True\<rparr>" for x by (cases mgr) simp
  have sv: "CircleList E c s' pw = Inr cs' \<and> circle_ready E c s' pw"
    if "save_Circle (eL E) (eKsJ E) c r s (mgr\<lparr>cmCircles := cs', cmLoaded := True\<rparr>) = (m', s', None)" for r cs' m' s'
    using save_Circle_reopens [OF that assms(1)] mgr(2,3) by simp
  show "ciName ci = name \<and> name \<notin> ciName ` set cs \<and> CircleList E c s' pw = Inr (cs @ [ci]) \<and> circle_ready E c s' pw"
    if "CircleAdd E c ch s pw name scheme = (s', Inr ci)"
  proof -
    have add: "snd (Add_Circle (eL E) (eKsJ E) c ch s mgr name scheme) = (s', Inr ci)"
      using that mgr(1) by (simp add: CircleAdd_def split: if_splits)
    have free: "name \<notin> ciName ` set cs"
    proof
      assume "name \<in> ciName ` set cs"
      then have "\<exists>ci \<in> set cs. ciName ci = name" by auto
      with add show False by (simp add: Add_Circle_def ld)
    qed
    then have nex: "\<not> (\<exists>ci \<in> set cs. ciName ci = name)" by auto
    obtain salt where salt: "rand_read (ccSalt ch) 32 = Inr salt"
      using add nex by (cases "rand_read (ccSalt ch) 32") (simp_all add: Add_Circle_def ld)
    define new where "new = \<lparr>ciID = ccUuid ch, ciName = name, ciSalt = salt, ciScheme = scheme, ciCreatedAt = ccNow ch\<rparr>"
    obtain m2 t e where save: "save_Circle (eL E) (eKsJ E) c (ccNonce ch) s (mgr\<lparr>cmCircles := cs @ [new], cmLoaded := True\<rparr>) = (m2, t, e)"
      by (metis surj_pair)
    have "e = None" "t = s'" "ci = new"
      using add nex salt save by (simp_all add: Add_Circle_def ld new_def [symmetric] swap split: option.splits)
    with sv [of "ccNonce ch" "cs @ [new]" m2 s'] save free show ?thesis by (simp add: new_def)
  qed
  show "name \<in> ciName ` set cs \<and> CircleList E c s' pw = Inr (filter (\<lambda>ci. ciName ci \<noteq> name) cs) \<and> circle_ready E c s' pw"
    if rem: "CircleRemove E c r s pw name = (s', None)"
  proof -
    have ne: "length (filter (\<lambda>ci. ciName ci \<noteq> name) cs) \<noteq> length cs"
      and save: "snd (save_Circle (eL E) (eKsJ E) c r s (mgr\<lparr>cmCircles := filter (\<lambda>ci. ciName ci \<noteq> name) cs, cmLoaded := True\<rparr>)) = (s', None)"
      using rem by (auto simp: CircleRemove_def mgr(1) Remove_Circle_def ld Let_def swap split: if_splits)
    have "name \<in> ciName ` set cs"
    proof (rule ccontr)
      assume "name \<notin> ciName ` set cs"
      then have "filter (\<lambda>ci. ciName ci \<noteq> name) cs = cs" by (force intro: filter_True)
      with ne show False by simp
    qed
    with sv save show ?thesis by (metis prod.collapse)
  qed
  show "fst (CircleAdd E c ch s pw name scheme) = s" if "name \<in> ciName ` set cs"
    using that by (auto simp: CircleAdd_def mgr(1) Add_Circle_def ld)
  show "CircleRemove E c r s pw name = (s, Some (Errorf (if name = [] then ''name is required'' else ''circle: not found'')))"
    if "name \<notin> ciName ` set cs"
  proof -
    have "filter (\<lambda>ci. ciName ci \<noteq> name) cs = cs" using that by (force intro: filter_True)
    then show ?thesis by (simp add: CircleRemove_def mgr(1) Remove_Circle_def ld Let_def)
  qed
qed



subsection \<open>Circle names\<close>

text \<open>Runs of circle commands against one key store, successful or not.\<close>

inductive circle_run :: "env \<Rightarrow> Circle list codec \<Rightarrow> string \<Rightarrow> fs \<Rightarrow> fs \<Rightarrow> bool" for E c pw where
  start: "circle_run E c pw s s"
| add: "circle_run E c pw s t \<Longrightarrow> CircleAdd E c ch t pw name scheme = (t', Inr ci) \<Longrightarrow> circle_run E c pw s t'"
| rejected: "circle_run E c pw s t \<Longrightarrow> CircleList E c t pw = Inr cs \<Longrightarrow> name \<in> ciName ` set cs
     \<Longrightarrow> circle_run E c pw s (fst (CircleAdd E c ch t pw name scheme))"
| remove: "circle_run E c pw s t \<Longrightarrow> CircleRemove E c r t pw name = (t', None) \<Longrightarrow> circle_run E c pw s t'"

inductive_cases circle_run_same: "circle_run E c pw s s"

definition names_distinct :: "env \<Rightarrow> Circle list codec \<Rightarrow> fs \<Rightarrow> string \<Rightarrow> bool" where
  "names_distinct E c s pw \<longleftrightarrow> circle_ready E c s pw \<and> (\<exists>cs. CircleList E c s pw = Inr cs \<and> distinct (map ciName cs))"

lemma circle_operations_keep_names:
  assumes "names_distinct E c s pw"
  shows "CircleAdd E c ch s pw name scheme = (s', Inr ci) \<Longrightarrow> names_distinct E c s' pw"
    and "CircleRemove E c r s pw name = (s', None) \<Longrightarrow> names_distinct E c s' pw"
proof -
  obtain cs where r: "circle_ready E c s pw" and l: "CircleList E c s pw = Inr cs" and d: "distinct (map ciName cs)"
    using assms by (auto simp: names_distinct_def)
  note ref = circle_list_effects [OF r l]
  show "CircleAdd E c ch s pw name scheme = (s', Inr ci) \<Longrightarrow> names_distinct E c s' pw"
    using ref(1) d by (fastforce simp: names_distinct_def)
  show "CircleRemove E c r s pw name = (s', None) \<Longrightarrow> names_distinct E c s' pw"
    using ref(2) d by (fastforce simp: names_distinct_def distinct_map_filter)
qed

text \<open>No two circles ever have the same name: if the names in the key store are distinct, they are distinct
  after every run of circle commands.\<close>

theorem circle_names_stay_distinct:
  assumes "circle_run E c pw s t" and "names_distinct E c s pw"
  shows "names_distinct E c t pw"
  using assms
proof (induction rule: circle_run.induct)
  case (rejected s t cs name ch scheme)
  then have "circle_ready E c t pw" by (simp add: names_distinct_def)
  from circle_list_effects(3) [OF this rejected(2)] rejected show ?case by simp
qed (auto intro: circle_operations_keep_names)

subsection \<open>A concrete key store\<close>

definition circle_fmt :: "Circle list wirefmt" where
  "circle_fmt = fmt_list (fmt_iso (\<lambda>ci. (ciID ci, ciName ci, ciSalt ci, ciScheme ci, ciCreatedAt ci))
     (\<lambda>(i, n, t, h, a). \<lparr>ciID = i, ciName = n, ciSalt = t, ciScheme = h, ciCreatedAt = a\<rparr>)
     (fmt_pair fmt_string (fmt_pair fmt_string (fmt_pair fmt_bytes (fmt_pair fmt_string fmt_int)))))"

lemma circle_fmt_ok: "fmt_ok circle_fmt"
  unfolding circle_fmt_def by (intro fmt_list_ok fmt_iso_ok) (simp_all add: fmt_intros)

lemma circle_json_ok: "json_ok (codec_of circle_fmt)"
  using codec_of_inverts [OF circle_fmt_ok]
  by (simp add: json_ok_def codec_of_def circle_fmt_def fmt_list_def fmt_nat_def)

lemma demo_circle_ready: "circle_ready demo_env (codec_of circle_fmt) (demo_world [] demo_versions [] []) ''pw''"
  using circle_json_ok codec_of_inverts [OF ks_fmt_ok] demo_world_opens(1) [of "[]" "[]" demo_versions "[]"]
  by (simp add: circle_ready_def) (simp add: demo_keystore_def demo_salt_def SaltSize_def)

lemma demo_circle_list: "CircleList demo_env (codec_of circle_fmt) (demo_world [] demo_versions [] []) ''pw'' = Inr []"
  using demo_world_opens(1) [of "[]" "[]" demo_versions "[]"]
  by (simp add: CircleList_def circleManager_def NewManager_Circle_def List_Circle_def load_Circle_def LoadExtra_def)
     (simp add: demo_keystore_def)


definition demo_cc :: circle_choice where
  "demo_cc = \<lparr>ccSalt = Some (\<lambda>_. 1), ccUuid = ''id'', ccNow = 1, ccNonce = Some (\<lambda>_. 5)\<rparr>"

lemma demo_CircleAdd:
  "\<exists>t ci. CircleAdd demo_env (codec_of circle_fmt) demo_cc (demo_world [] demo_versions [] []) ''pw'' ''Famille'' ''3/2'' = (t, Inr ci)"
proof -
  let ?s = "demo_world [] demo_versions [] []"
  have w: "writable ?s demo_ks_path"
    by (simp add: writable_def demo_world_def empty_fs_def is_dir_def is_file_def prefixes_def upt_rec)
  let ?ci = "\<lparr>ciID = ''id'', ciName = ''Famille'', ciSalt = map (\<lambda>_. 1) [0..<32], ciScheme = ''3/2'', ciCreatedAt = 1\<rparr>"
  obtain b where b: "Marshal (codec_of circle_fmt) [?ci] = Inr b"
    using inverts_Marshal [OF codec_of_inverts [OF circle_fmt_ok]] by blast
  obtain t where t: "ks_save demo_libs (codec_of ks_fmt) (Some (\<lambda>_. 5)) ?s (demo_keystore [(storeKey, b)]) ''pw'' = (t, None)"
    using ks_save_total [of demo_libs ?s "demo_keystore [(storeKey, b)]" "codec_of ks_fmt" "\<lambda>_. 5" "''pw''"] w
    by (auto simp: demo_argon2_lawful codec_of_inverts ks_fmt_ok demo_keystore_def)
  have ks: "(demo_keystore [])\<lparr>ksExtras := [(storeKey, b)]\<rparr> = demo_keystore [(storeKey, b)]"
    "LoadExtra (demo_keystore []) storeKey = []" "ksUnlocked (demo_keystore [])" "ksExtras (demo_keystore []) = []"
    by (simp_all add: LoadExtra_def demo_keystore_def)
  have "StoreExtra demo_libs (codec_of ks_fmt) (Some (\<lambda>_. 5)) ?s (demo_keystore []) storeKey b ''pw'' = (demo_keystore [(storeKey, b)], t, None)"
    by (simp add: StoreExtra_def ks t)
  then have add: "snd (Add_Circle demo_libs (codec_of ks_fmt) (codec_of circle_fmt) demo_cc ?s (NewManager_Circle (demo_keystore []) ''pw'') ''Famille'' ''3/2'')
      = (t, Inr ?ci)"
    using b ks(2) by (simp add: Add_Circle_def load_Circle_def NewManager_Circle_def rand_read_def demo_cc_def save_Circle_def Let_def)
  have "circleManager demo_env ?s ''pw'' = Inr (NewManager_Circle (demo_keystore []) ''pw'')"
    using demo_world_opens(1) [of "[]" "[]" demo_versions "[]"] by (simp add: circleManager_def)
  with add show ?thesis by (simp add: CircleAdd_def)
qed

theorem circle_names_stay_distinct_witness:
  "\<exists>t ci. CircleAdd demo_env (codec_of circle_fmt) demo_cc (demo_world [] demo_versions [] []) ''pw'' ''Famille'' ''3/2'' = (t, Inr ci)
     \<and> names_distinct demo_env (codec_of circle_fmt) t ''pw''"
proof -
  obtain t ci where "CircleAdd demo_env (codec_of circle_fmt) demo_cc (demo_world [] demo_versions [] []) ''pw'' ''Famille'' ''3/2'' = (t, Inr ci)"
    using demo_CircleAdd by blast
  moreover from circle_names_stay_distinct [OF circle_run.add [OF circle_run.start this]]
  have "names_distinct demo_env (codec_of circle_fmt) t ''pw''"
    using demo_circle_ready demo_circle_list by (simp add: names_distinct_def)
  ultimately show ?thesis by blast
qed

end
