(* ===== verification/Config.thy ===== *)
theory Config
  imports Api_Shared
begin

text \<open>
  \<open>internal/config/config.go\<close>: the optional configuration file. The YAML parser is a parameter: like
  \<open>yaml.Unmarshal\<close> into a pointer it maps the configuration it is given and the text to the configuration
  it leaves behind, and its error is dropped.
\<close>

record Config =
  cfPassword :: string
  cfSrc :: string
  cfExclude :: string
  cfUploadKbps :: int
  cfHealthAddr :: string
  cfPort :: int
  cfDebounce :: string
  cfAutoPrune :: bool
  cfStoreDir :: string

definition DefaultPath :: "osenv \<Rightarrow> path" where
  "DefaultPath o' =
     (case oeAppData o' of
        Some a \<Rightarrow> Join a [''CerclBackup'', ''config.yaml'']
      | None \<Rightarrow> Join (oeHome o') [''.config'', ''cerclbackup'', ''config.yaml''])"

definition config_defaults :: Config where
  "config_defaults = \<lparr>cfPassword = [], cfSrc = [], cfExclude = [], cfUploadKbps = 0, cfHealthAddr = ''127.0.0.1:7743'',
     cfPort = 0, cfDebounce = ''3s'', cfAutoPrune = False, cfStoreDir = []\<rparr>"

definition LoadFrom :: "(bytes \<Rightarrow> Config \<Rightarrow> Config) \<Rightarrow> fs \<Rightarrow> path \<Rightarrow> Config" where
  "LoadFrom yaml s p = (case ReadFile s p of Inl _ \<Rightarrow> config_defaults | Inr d \<Rightarrow> yaml d config_defaults)"

definition Load_Config :: "(bytes \<Rightarrow> Config \<Rightarrow> Config) \<Rightarrow> osenv \<Rightarrow> fs \<Rightarrow> Config" where
  "Load_Config yaml o' s = LoadFrom yaml s (DefaultPath o')"

text \<open>The template, line by line; the last line of the text is empty.\<close>

definition config_template :: "string list" where
  "config_template =
    [''# CerclBackup configuration'',
     ''# All settings can be overridden with command-line flags.'',
     ''# CLI flags always win over values set here.'',
     '''',
     ''# Default keystore password.'',
     ''# Prefer CERCLBACKUP_PASSWORD env var over storing it here.'',
     ''# password: \"\"'',
     '''',
     ''# Default source directory for 'backup' and 'watch'.'',
     ''# src: \"\"'',
     '''',
     ''# Glob patterns to exclude (comma-separated).'',
     ''# exclude: \".git,node_modules,*.tmp,*.swp\"'',
     '''',
     ''# Maximum upload bandwidth in KB/s (0 = unlimited).'',
     ''# upload_kbps: 0'',
     '''',
     ''# HTTP health/metrics endpoint address for 'serve'.'',
     ''# health_addr: \"127.0.0.1:7743\"'',
     '''',
     ''# libp2p TCP/UDP port for 'serve'.'',
     ''# port: 4001'',
     '''',
     ''# fsnotify debounce interval for 'watch'.'',
     ''# debounce: \"3s\"'',
     '''',
     ''# Apply retention policy automatically after each 'backup'.'',
     ''# auto_prune: false'',
     '''',
     ''# Local shard store directory.'',
     ''# store_dir: \"\"'',
     '''']"

definition join_lines :: "string list \<Rightarrow> string" where
  "join_lines ls = concat (map (\<lambda>l. l @ [CHR 0x0A]) (butlast ls)) @ last ls"

definition WriteTemplate :: "fs \<Rightarrow> path \<Rightarrow> fs \<times> error option" where
  "WriteTemplate s p =
     (case MkdirAll s (butlast p) of
        (s1, Some e) \<Rightarrow> (s1, Some e)
      | (s1, None) \<Rightarrow> WriteFile s1 p (bytes_of_string (join_lines config_template)))"

subsection \<open>The template changes nothing\<close>

definition comment_only :: "string \<Rightarrow> bool" where
  "comment_only t \<longleftrightarrow> (\<forall>l \<in> set (split_at (CHR 0x0A) t). l = [] \<or> hd l = CHR ''#'')"

lemma template_comment_only: "comment_only (join_lines config_template)"
  unfolding comment_only_def by code_simp

text \<open>The sample file documents and does not configure: it consists of comments and empty lines, so for
  every YAML parser that leaves its target alone on such a text, loading the file that \<open>WriteTemplate\<close>
  wrote gives the same configuration as having no file.\<close>

theorem template_configures_nothing:
  assumes "\<forall>t cfg. comment_only t \<longrightarrow> yaml (bytes_of_string t) cfg = cfg"
    and "WriteTemplate s p = (s', None)" and "\<not> rfault s p"
  shows "LoadFrom yaml s' p = config_defaults"
proof -
  obtain s1 where m: "MkdirAll s (butlast p) = (s1, None)"
    and w: "WriteFile s1 p (bytes_of_string (join_lines config_template)) = (s', None)"
    using assms(2) by (auto simp: WriteTemplate_def split: prod.splits option.splits)
  have "\<not> rfault s1 p" using MkdirAll_faults [OF m] assms(3) by (simp add: same_faults_def)
  from ReadFile_WriteFile_same [OF w this] show ?thesis
    using assms(1) template_comment_only by (simp add: LoadFrom_def)
qed

lemma unat_of_char: "unat (of_char c :: byte) = (of_char c :: nat)"
proof -
  have "(of_char c :: byte) = of_nat (of_char c :: nat)" by (rule of_nat_of_char [symmetric])
  then have "unat (of_char c :: byte) = unat (of_nat (of_char c :: nat) :: byte)" by (rule arg_cong)
  also have "\<dots> = (of_char c :: nat)"
    using nat_of_char_less_256 [of c] by (simp only: unat_of_nat) (simp add: take_bit_nat_eq_self)
  finally show ?thesis .
qed

theorem template_configures_nothing_witness:
  "\<exists>s'. WriteTemplate (empty_fs\<lparr>dirs := [[''h'']]\<rparr>) [''h'', ''config.yaml''] = (s', None)
     \<and> LoadFrom (\<lambda>d cfg. if comment_only (string_of_bytes d) then cfg else cfg\<lparr>cfPort := 1\<rparr>) s' [''h'', ''config.yaml''] = config_defaults"
proof -
  obtain s' where w: "WriteTemplate (empty_fs\<lparr>dirs := [[''h'']]\<rparr>) [''h'', ''config.yaml''] = (s', None)"
    by (simp add: WriteTemplate_def MkdirAll_def empty_fs_def prefixes_def is_file_def is_dir_def WriteFile_def upt_rec)
  have "string_of_bytes (bytes_of_string t) = t" for t
    by (simp add: string_of_bytes_def bytes_of_string_def comp_def unat_of_char)
  then show ?thesis
    using w by (intro exI conjI) (assumption, rule template_configures_nothing [OF _ w], auto simp: empty_fs_def)
qed

end
