(* ===== verification/Setup.thy ===== *)
theory Setup
  imports Circles Config
begin

text \<open>
  \<open>internal/api/setup.go\<close>: initialising a machine, showing and using the recovery phrase, changing the
  password, and the configuration file. The operating system's credential store
  (\<open>zalando/go-keyring\<close>, behind \<open>internal/keyring\<close>) is a parameter: three functions on its state.

  \<open>pid\<close> is \<open>peer.IDFromPrivateKey\<close>.
\<close>

record InitParams =
  ipPassword :: string
  ipStoreDir :: "path option"
  ipForce :: bool

record InitResult =
  irPeerID :: string
  irRecoveryPhrase :: string
  irKeystorePath :: path
  irStoreDir :: path

record setup_choice =
  scKs1 :: entropy
  scKs2 :: entropy
  scId1 :: entropy
  scId2 :: entropy
  scCircle :: circle_choice

text \<open>The forced removal of what an earlier setup left; its errors are dropped.\<close>

definition wipe :: "env \<Rightarrow> fs \<Rightarrow> path \<Rightarrow> fs" where
  "wipe E s ksp =
     fst (RemoveAll (fst (Remove (fst (Remove s ksp)) (DefaultManifestPath (eOS E)))) (DefaultStorePath (eOS E)))"

definition Init ::
  "env \<Rightarrow> Circle list codec \<Rightarrow> (bytes \<Rightarrow> string result) \<Rightarrow> setup_choice \<Rightarrow> fs \<Rightarrow> InitParams \<Rightarrow> fs \<times> InitResult result" where
  "Init E cc pid ch s P =
     (if ipPassword P = [] then (s, Inl (Errorf ''password is required''))
      else let storeDir = (case ipStoreDir P of None \<Rightarrow> DefaultStorePath (eOS E) | Some d \<Rightarrow> d) in
      case ConfigDir (eOS E) of
        Inl e \<Rightarrow> (s, Inl (Wrap ''config dir'' e))
      | Inr cfgDir \<Rightarrow>
     (case MkdirAll s cfgDir of
        (s1, Some e) \<Rightarrow> (s1, Inl (Wrap ''mkdir'' e))
      | (s1, None) \<Rightarrow>
          let ksp = Join cfgDir [''keystore.enc'']; exists = is_ok (Stat s1 ksp) in
          if exists \<and> \<not> ipForce P then (s1, Inl (Errorf ''keystore already exists''))
          else
     (case Create (eL E) (eKsJ E) (scKs1 ch) (scKs2 ch) (if exists then wipe E s1 ksp else s1) (NewKeystore ksp) (ipPassword P) of
        (ks, s2, Some e) \<Rightarrow> (s2, Inl (Wrap ''create keystore'' e))
      | (ks, s2, None) \<Rightarrow>
     (case EnsurePeerIdentity (eL E) (eI E) (eKsJ E) (scId1 ch) (scId2 ch) s2 ks (ipPassword P) of
        (ks1, s3, Inl e) \<Rightarrow> (s3, Inl (Wrap ''peer identity'' e))
      | (ks1, s3, Inr privKey) \<Rightarrow>
     (case pid privKey of
        Inl e \<Rightarrow> (s3, Inl (Wrap ''peer id'' e))
      | Inr peerID \<Rightarrow>
     (case (let seed = LoadExtra ks1 KeyName in
            if seed \<noteq> [] then wrap ''mnemonic'' (MnemonicFromSeed (eI E) seed) else Inr []) of
        Inl e \<Rightarrow> (s3, Inl e)
      | Inr phrase \<Rightarrow>
     (case GetOrDefault (eL E) (eKsJ E) cc (scCircle ch) s3 (NewManager_Circle ks1 (ipPassword P)) [] of
        (_, s4, Inl e) \<Rightarrow> (s4, Inl (Wrap ''create default circle'' e))
      | (_, s4, Inr _) \<Rightarrow>
     (case MkdirAll s4 storeDir of
        (s5, Some e) \<Rightarrow> (s5, Inl (Wrap ''store dir'' e))
      | (s5, None) \<Rightarrow>
          (s5, Inr \<lparr>irPeerID = peerID, irRecoveryPhrase = phrase, irKeystorePath = ksp, irStoreDir = storeDir\<rparr>)))))))))"

definition ShowPhrase :: "env \<Rightarrow> fs \<Rightarrow> string \<Rightarrow> string result" where
  "ShowPhrase E s password =
     (if password = [] then Inl (Errorf ''password is required'')
      else rbind (OpenKeystore E s password) (\<lambda>ks.
        let seed = LoadExtra ks KeyName in
        if seed = [] then Inl (Errorf ''this keystore has no identity seed'')
        else MnemonicFromSeed (eI E) seed))"

definition Recover :: "env \<Rightarrow> (bytes \<Rightarrow> string result) \<Rightarrow> setup_choice \<Rightarrow> fs \<Rightarrow> string \<Rightarrow> string \<Rightarrow> fs \<times> string result" where
  "Recover E pid ch s phrase password =
     (if phrase = [] \<or> password = [] then (s, Inl (Errorf ''phrase and password are required''))
      else case SeedFromMnemonic (eI E) phrase of
        Inl e \<Rightarrow> (s, Inl e)
      | Inr seed \<Rightarrow>
     (case Create (eL E) (eKsJ E) (scKs1 ch) (scKs2 ch) s (NewKeystore (DefaultKeystorePath (eOS E))) password of
        (ks, s1, Some e) \<Rightarrow> (s1, Inl (Wrap ''create keystore'' e))
      | (ks, s1, None) \<Rightarrow>
     (case EnsurePeerIdentityFromSeed (eL E) (eI E) (eKsJ E) (scId1 ch) (scId2 ch) s1 ks seed password of
        (ks1, s2, Inl e) \<Rightarrow> (s2, Inl (Wrap ''derive identity'' e))
      | (ks1, s2, Inr priv) \<Rightarrow> (s2, wrap ''peer ID'' (pid priv)))))"

subsection \<open>The credential store\<close>

record 'k keyringlib =
  kr_Get :: "'k \<Rightarrow> string \<Rightarrow> string \<Rightarrow> string result"
  kr_Set :: "'k \<Rightarrow> string \<Rightarrow> string \<Rightarrow> string \<Rightarrow> 'k \<times> error option"
  kr_Delete :: "'k \<Rightarrow> string \<Rightarrow> string \<Rightarrow> 'k \<times> error option"

definition keyring_service :: string where "keyring_service = ''cerclbackup''"

definition keyring_account :: string where "keyring_account = ''backup-password''"

definition Keyring_Get :: "'k keyringlib \<Rightarrow> 'k \<Rightarrow> string result" where
  "Keyring_Get R k = kr_Get R k keyring_service keyring_account"

definition Keyring_Set :: "'k keyringlib \<Rightarrow> 'k \<Rightarrow> string \<Rightarrow> 'k \<times> error option" where
  "Keyring_Set R k password = kr_Set R k keyring_service keyring_account password"

definition Keyring_Delete :: "'k keyringlib \<Rightarrow> 'k \<Rightarrow> 'k \<times> error option" where
  "Keyring_Delete R k = kr_Delete R k keyring_service keyring_account"

definition SetPassword :: "'k keyringlib \<Rightarrow> 'k \<Rightarrow> string \<Rightarrow> 'k \<times> error option" where
  "SetPassword R k password =
     (if password = [] then (k, Some (Errorf ''password cannot be empty'')) else Keyring_Set R k password)"

definition DeletePassword :: "'k keyringlib \<Rightarrow> 'k \<Rightarrow> 'k \<times> error option" where
  "DeletePassword R k = Keyring_Delete R k"

subsection \<open>Password and configuration\<close>

definition Passwd :: "env \<Rightarrow> entropy \<Rightarrow> fs \<Rightarrow> string \<Rightarrow> string \<Rightarrow> fs \<times> error option" where
  "Passwd E r s oldPassword newPassword =
     (if newPassword = [] then (s, Some (Errorf ''new password cannot be empty''))
      else case OpenKeystore E s oldPassword of
             Inl e \<Rightarrow> (s, Some (Wrap ''wrong password or corrupted keystore'' e))
           | Inr ks \<Rightarrow> Save (eL E) (eKsJ E) r s ks newPassword)"

definition ConfigShow :: "(bytes \<Rightarrow> Config \<Rightarrow> Config) \<Rightarrow> osenv \<Rightarrow> fs \<Rightarrow> Config \<times> path" where
  "ConfigShow yaml o' s = (LoadFrom yaml s (DefaultPath o'), DefaultPath o')"

definition ConfigInit :: "osenv \<Rightarrow> fs \<Rightarrow> fs \<times> path result" where
  "ConfigInit o' s =
     (let p = DefaultPath o' in
      if is_ok (Stat s p) then (s, Inl (Errorf ''already exists''))
      else case WriteTemplate s p of (s', Some e) \<Rightarrow> (s', Inl e) | (s', None) \<Rightarrow> (s', Inr p))"

subsection \<open>Properties\<close>

lemma Create_None:
  assumes "Create L c r1 r2 s k pw = (k', s', None)"
  shows "\<exists>salt. NewSalt r1 = Inr salt \<and> k' = k\<lparr>ksSalt := salt, ksMasterKey := DeriveKey L pw salt, ksUnlocked := True\<rparr>
     \<and> ks_save L c r2 s k' pw = (s', None)"
  using assms by (auto simp: Create_def Let_def split: sum.splits)

text \<open>What a successful \<open>Init\<close> returns: the id of the key derived from the seed whose phrase it prints.\<close>

lemma Init_identity:
  assumes "Init E cc pid ch s P = (s', Inr r)"
  shows "\<exists>seed priv raw. DerivePrivKey (eL E) (eI E) seed = Inr priv \<and> pid priv = Inr (irPeerID r)
     \<and> il_MarshalPrivateKey (eI E) priv = Inr raw \<and> (irRecoveryPhrase r \<noteq> [] \<longrightarrow> MnemonicFromSeed (eI E) seed = Inr (irRecoveryPhrase r))"
proof -
  obtain cfg where cfg: "ConfigDir (eOS E) = Inr cfg"
    using assms by (auto simp: Init_def Let_def split: if_splits sum.splits)
  let ?k = "NewKeystore (Join cfg [''keystore.enc''])"
  obtain s1 where s1: "MkdirAll s cfg = (s1, None)"
    using assms cfg by (auto simp: Init_def Let_def split: if_splits prod.splits option.splits)
  define t where "t = (if is_ok (Stat s1 (Join cfg [''keystore.enc''])) then wipe E s1 (Join cfg [''keystore.enc'']) else s1)"
  obtain ks s2 where c: "Create (eL E) (eKsJ E) (scKs1 ch) (scKs2 ch) t ?k (ipPassword P) = (ks, s2, None)"
    using assms cfg s1 by (auto simp: Init_def Let_def t_def split: if_splits prod.splits option.splits)
  have run: "(case EnsurePeerIdentity (eL E) (eI E) (eKsJ E) (scId1 ch) (scId2 ch) s2 ks (ipPassword P) of
        (ks1, s3, Inl e) \<Rightarrow> (s3, Inl (Wrap ''peer identity'' e))
      | (ks1, s3, Inr privKey) \<Rightarrow>
     (case pid privKey of
        Inl e \<Rightarrow> (s3, Inl (Wrap ''peer id'' e))
      | Inr peerID \<Rightarrow>
     (case (let seed = LoadExtra ks1 KeyName in
            if seed \<noteq> [] then wrap ''mnemonic'' (MnemonicFromSeed (eI E) seed) else Inr []) of
        Inl e \<Rightarrow> (s3, Inl e)
      | Inr phrase \<Rightarrow>
     (case GetOrDefault (eL E) (eKsJ E) cc (scCircle ch) s3 (NewManager_Circle ks1 (ipPassword P)) [] of
        (_, s4, Inl e) \<Rightarrow> (s4, Inl (Wrap ''create default circle'' e))
      | (_, s4, Inr _) \<Rightarrow>
     (case MkdirAll s4 (case ipStoreDir P of None \<Rightarrow> DefaultStorePath (eOS E) | Some d \<Rightarrow> d) of
        (s5, Some e) \<Rightarrow> (s5, Inl (Wrap ''store dir'' e))
      | (s5, None) \<Rightarrow>
          (s5, Inr \<lparr>irPeerID = peerID, irRecoveryPhrase = phrase, irKeystorePath = Join cfg [''keystore.enc''],
             irStoreDir = (case ipStoreDir P of None \<Rightarrow> DefaultStorePath (eOS E) | Some d \<Rightarrow> d)\<rparr>)))))) = (s', Inr r)"
    using assms cfg s1 c by (simp add: Init_def Let_def t_def split: if_splits)
  obtain ks1 s3 privKey where id: "EnsurePeerIdentity (eL E) (eI E) (eKsJ E) (scId1 ch) (scId2 ch) s2 ks (ipPassword P) = (ks1, s3, Inr privKey)"
    using run by (auto split: prod.splits sum.splits)
  have "LoadExtra ks peerKeyName = []"
    using Create_None [OF c] by (auto simp: NewKeystore_def LoadExtra_def)
  from EnsurePeerIdentity_fresh [OF id this] obtain seed raw where
    seed: "DerivePrivKey (eL E) (eI E) seed = Inr privKey" "LoadExtra ks1 KeyName = seed"
    "il_MarshalPrivateKey (eI E) privKey = Inr raw" by blast
  have "pid privKey = Inr (irPeerID r)" and "irRecoveryPhrase r \<noteq> [] \<longrightarrow> MnemonicFromSeed (eI E) seed = Inr (irRecoveryPhrase r)"
    using run seed(2) by (auto simp: id Let_def split: sum.splits prod.splits option.splits if_splits)
  with seed(1,3) show ?thesis by blast
qed

text \<open>An operation that fails because a key store exists.\<close>

lemma Init_refuses:
  assumes "ConfigDir (eOS E) = Inr cfg" and "Stat s (Join cfg [''keystore.enc'']) = Inr ()" and "\<not> ipForce P"
  shows "\<exists>s' e. Init E cc pid ch s P = (s', Inl e) \<and> (\<forall>q x. ReadFile s' q = Inr x \<longleftrightarrow> ReadFile s q = Inr x)"
proof -
  obtain s1 e1 where m: "MkdirAll s cfg = (s1, e1)" by (cases "MkdirAll s cfg")
  have rd: "\<forall>q x. ReadFile s1 q = Inr x \<longleftrightarrow> ReadFile s q = Inr x" using ReadFile_MkdirAll [OF m] by simp
  have st: "is_ok (Stat s1 (Join cfg [''keystore.enc'']))"
    using assms(2) MkdirAll_mono [OF m] MkdirAll_frame [OF m]
    by (auto simp: Stat_def is_file_def split: if_splits)
  show ?thesis
    using assms(1,3) m st rd by (cases "ipPassword P = []"; cases e1) (simp_all add: Init_def Let_def)
qed

text \<open>\<open>Recover\<close> writes the key store below \<open>.config\<close> in the home directory, while every other command reads
  it from the user's configuration directory. When the two differ (\<open>XDG_CONFIG_HOME\<close> is set, or the
  platform has another place), a recovery that reports success leaves the machine without a key store
  that the other commands can open.\<close>

theorem Recover_misses_the_config_dir:
  assumes "Recover E pid ch s phrase pw = (s', Inr peer)"
    and "ConfigDir (eOS E) = Inr cfg" and "Join cfg [''keystore.enc''] \<noteq> DefaultKeystorePath (eOS E)"
    and "\<forall>x. ReadFile s (Join cfg [''keystore.enc'']) \<noteq> Inr x"
  shows "\<exists>e. OpenKeystore E s' pw = Inl e"
proof -
  let ?p = "DefaultKeystorePath (eOS E)"
  obtain seed ks s1 ks1 priv where c: "Create (eL E) (eKsJ E) (scKs1 ch) (scKs2 ch) s (NewKeystore ?p) pw = (ks, s1, None)"
    and i: "EnsurePeerIdentityFromSeed (eL E) (eI E) (eKsJ E) (scId1 ch) (scId2 ch) s1 ks seed pw = (ks1, s', Inr priv)"
    using assms(1) by (auto simp: Recover_def split: if_splits sum.splits prod.splits option.splits)
  from Create_None [OF c] have p: "ksPath ks = ?p" and o1: "only_in (\<lambda>q. q = ?p) s s1"
    by (auto simp: NewKeystore_def dest: ks_save_only_in)
  have "only_in (\<lambda>q. q = ksPath ks) s1 s'"
    using i by (auto simp: EnsurePeerIdentityFromSeed_def split: sum.splits prod.splits option.splits
        dest!: StoreExtra_only_in intro: only_in_trans)
  with o1 p have "only_in (\<lambda>q. q = ?p) s s'" by (auto intro: only_in_trans)
  from only_in_ReadFile [OF this] assms(3,4) have "ReadFile s' (Join cfg [''keystore.enc'']) \<noteq> Inr x" for x
    by blast
  then show ?thesis
    by (cases "ReadFile s' (Join cfg [''keystore.enc''])")
       (auto simp: OpenKeystore_def assms(2) Unlock_def NewKeystore_def)
qed

subsection \<open>A machine is set up\<close>

text \<open>An open key store whose file holds exactly its contents, and nothing in the way of writing it again.
  \<open>s0\<close> is the state in which the set-up began.\<close>

definition ks_good :: "libs \<Rightarrow> keystoreJSON codec \<Rightarrow> fs \<Rightarrow> fs \<Rightarrow> Keystore \<Rightarrow> string \<Rightarrow> bool" where
  "ks_good L c s0 s k pw \<longleftrightarrow> ksUnlocked k \<and> length (ksSalt k) = SaltSize \<and> fault_free s \<and> writable s (ksPath k)
     \<and> Unlock L c s (NewKeystore (ksPath k)) pw = (k, None) \<and> (\<forall>q. q \<noteq> ksPath k \<longrightarrow> is_file s q = is_file s0 q)"

lemma put_file_is_file:
  "put_file m1 m2 s p d = (s', None) \<Longrightarrow> q \<noteq> p \<Longrightarrow> is_file s' q = is_file s q"
  by (erule put_file_None) (drule MkdirAll_frame, drule WriteFile_ok, simp add: is_file_def)

lemma ks_save_good:
  assumes "argon2_lawful L" and "\<And>v. inverts c v" and "fault_free s" and "writable s (ksPath k)"
    and "length (ksSalt k) = SaltSize" and "ksUnlocked k" and "\<forall>q. q \<noteq> ksPath k \<longrightarrow> is_file s q = is_file s0 q"
  shows "\<exists>s'. ks_save L c (Some g) s k pw = (s', None) \<and> ks_good L c s0 s' k pw"
proof -
  obtain s' where s': "ks_save L c (Some g) s k pw = (s', None)" "fault_free s'" "writable s' (ksPath k)"
    "Unlock L c s' (NewKeystore (ksPath k)) pw = (k\<lparr>ksUnlocked := True\<rparr>, None)"
    using ks_save_reopens [OF assms(1,3,4) assms(2) assms(5)] by blast
  moreover have "is_file s' q = is_file s q" if "q \<noteq> ksPath k" for q
    using s'(1) that by (auto elim!: ks_save_None dest: put_file_is_file)
  ultimately show ?thesis using assms(5-7) by (auto simp: ks_good_def)
qed

lemma StoreExtra_good:
  assumes "argon2_lawful L" and "\<And>v. inverts c v" and "ks_good L c s0 s k pw"
  shows "\<exists>s'. StoreExtra L c (Some g) s k n d pw = (k\<lparr>ksExtras := AList.update n d (ksExtras k)\<rparr>, s', None)
      \<and> ks_good L c s0 s' (k\<lparr>ksExtras := AList.update n d (ksExtras k)\<rparr>) pw"
  using ks_save_good [OF assms(1,2), of s "k\<lparr>ksExtras := AList.update n d (ksExtras k)\<rparr>" s0 g pw] assms(3)
  by (fastforce simp: ks_good_def StoreExtra_def Let_def)

lemma Create_good:
  assumes "argon2_lawful L" and "\<And>v. inverts c v" and "fault_free s" and "writable s p"
  shows "\<exists>k s'. Create L c (Some f) (Some g) s (NewKeystore p) pw = (k, s', None) \<and> ks_good L c s s' k pw
      \<and> ksPath k = p \<and> ksExtras k = []"
proof -
  define salt where "salt = map f [0..<SaltSize]"
  let ?k = "(NewKeystore p)\<lparr>ksSalt := salt, ksMasterKey := DeriveKey L pw salt, ksUnlocked := True\<rparr>"
  have k: "ksPath ?k = p" "length (ksSalt ?k) = SaltSize" "ksUnlocked ?k" "ksExtras ?k = []"
    by (simp_all add: NewKeystore_def salt_def)
  obtain s' where "ks_save L c (Some g) s ?k pw = (s', None)" "ks_good L c s s' ?k pw"
    using ks_save_good [OF assms(1,2,3), of ?k s g pw] assms(4) k by auto
  moreover have "NewSalt (Some f) = Inr salt"
    by (simp add: NewSalt_def rand_read_def salt_def)
  ultimately show ?thesis using k by (auto simp: Create_def Let_def)
qed

text \<open>What is needed of BIP39 and of the key generation: both succeed on a seed of the right size.\<close>

definition id_total :: "idlib \<Rightarrow> bool" where
  "id_total I \<longleftrightarrow> (\<exists>seed. il_NewEntropy I = Inr seed \<and> length seed = SeedSize)
     \<and> (\<forall>seed. length seed = SeedSize \<longrightarrow> (\<exists>w. il_NewMnemonic I seed = Inr w \<and> w \<noteq> []))
     \<and> (\<forall>e. length e = 32 \<longrightarrow> (\<exists>k raw. il_GenerateEd25519Key I e = Inr k \<and> il_MarshalPrivateKey I k = Inr raw))"

lemma DerivePrivKey_total:
  assumes "hkdf_lawful L" and "id_total I" and "length seed = SeedSize"
  shows "\<exists>k raw. DerivePrivKey L I seed = Inr k \<and> il_MarshalPrivateKey I k = Inr raw"
proof -
  obtain e where "hkdf_read L seed [] (bytes_of_string identityDomain) 32 = Inr e" "length e = 32"
    using assms(1) unfolding hkdf_lawful_def by blast
  then show ?thesis using assms(2,3) by (auto simp: id_total_def DerivePrivKey_def)
qed

lemma EnsurePeerIdentity_good:
  assumes "argon2_lawful L" and "\<And>v. inverts c v" and "hkdf_lawful L" and "id_total I"
    and "ks_good L c s0 s k pw" and "ksExtras k = []"
  shows "\<exists>k' s' priv seed raw. EnsurePeerIdentity L I c (Some f) (Some g) s k pw = (k', s', Inr priv)
      \<and> ks_good L c s0 s' k' pw \<and> ksPath k' = ksPath k \<and> length seed = SeedSize
      \<and> DerivePrivKey L I seed = Inr priv
      \<and> ksExtras k' = [(KeyName, seed), (peerKeyName, raw)]"
proof -
  obtain seed w where g: "Generate_Identity I = Inr (seed, w)" "length seed = SeedSize"
    using assms(4) by (auto simp: id_total_def Generate_Identity_def)
  obtain priv raw where d: "DerivePrivKey L I seed = Inr priv" "il_MarshalPrivateKey I priv = Inr raw"
    using DerivePrivKey_total [OF assms(3,4) g(2)] by blast
  let ?k1 = "k\<lparr>ksExtras := AList.update KeyName seed (ksExtras k)\<rparr>"
  obtain s1 where s1: "StoreExtra L c (Some f) s k KeyName seed pw = (?k1, s1, None)" "ks_good L c s0 s1 ?k1 pw"
    using StoreExtra_good [OF assms(1,2,5)] by blast
  obtain s2 where s2: "StoreExtra L c (Some g) s1 ?k1 peerKeyName raw pw
      = (?k1\<lparr>ksExtras := AList.update peerKeyName raw (ksExtras ?k1)\<rparr>, s2, None)"
    "ks_good L c s0 s2 (?k1\<lparr>ksExtras := AList.update peerKeyName raw (ksExtras ?k1)\<rparr>) pw"
    using StoreExtra_good [OF assms(1,2) s1(2)] by blast
  show ?thesis
    using g d s1(1) s2 assms(6)
    by (intro exI conjI) (simp add: EnsurePeerIdentity_def LoadExtra_def Let_def, simp_all, simp add: KeyName_def peerKeyName_def)
qed

definition choices_ok :: "setup_choice \<Rightarrow> bool" where
  "choices_ok ch \<longleftrightarrow> scKs1 ch \<noteq> None \<and> scKs2 ch \<noteq> None \<and> scId1 ch \<noteq> None \<and> scId2 ch \<noteq> None
     \<and> ccSalt (scCircle ch) \<noteq> None \<and> ccNonce (scCircle ch) \<noteq> None"

lemma GetOrDefault_fresh:
  assumes "argon2_lawful L" and "\<And>v. inverts kc v" and "json_ok c" and "ks_good L kc s0 s k pw"
    and "LoadExtra k storeKey = []" and "ccSalt cch = Some f" and "ccNonce cch = Some g"
  shows "\<exists>m s' ci b k'. GetOrDefault L kc c cch s (NewManager_Circle k pw) [] = (m, s', Inr ci) \<and> ks_good L kc s0 s' k' pw
     \<and> k' = k\<lparr>ksExtras := AList.update storeKey b (ksExtras k)\<rparr> \<and> b \<noteq> [] \<and> Unmarshal c b = Inr [ci]
     \<and> ciName ci = DefaultName \<and> ciScheme ci = ''3/2''"
proof -
  let ?ci = "\<lparr>ciID = ccUuid cch, ciName = DefaultName, ciSalt = map f [0..<32], ciScheme = ''3/2'', ciCreatedAt = ccNow cch\<rparr>"
  obtain b where b: "Marshal c [?ci] = Inr b" "b \<noteq> []" "Unmarshal c b = Inr [?ci]"
    using assms(3) inverts_Marshal inverts_Unmarshal unfolding json_ok_def by metis
  obtain s' where "StoreExtra L kc (Some g) s k storeKey b pw = (k\<lparr>ksExtras := AList.update storeKey b (ksExtras k)\<rparr>, s', None)"
    "ks_good L kc s0 s' (k\<lparr>ksExtras := AList.update storeKey b (ksExtras k)\<rparr>) pw"
    using StoreExtra_good [OF assms(1,2,4)] by blast
  with b show ?thesis
    using assms(5-7)
    by (auto simp: GetOrDefault_def Get_Circle_def load_Circle_def NewManager_Circle_def Add_Circle_def save_Circle_def
        rand_read_def Let_def)
qed

lemma Unlock_MkdirAll:
  assumes "MkdirAll s p = (s', e)" and "Unlock L c s k pw = (k', None)"
  shows "Unlock L c s' k pw = (k', None)"
proof -
  obtain x where x: "ReadFile s (ksPath k) = Inr x"
    using assms(2) by (auto simp: Unlock_def split: sum.splits)
  then have "ReadFile s' (ksPath k) = Inr x" using ReadFile_MkdirAll [OF assms(1)] by simp
  with x show ?thesis using assms(2) by (simp add: Unlock_def)
qed

lemma Init_fresh:
  assumes lib: "argon2_lawful (eL E)" "hkdf_lawful (eL E)" "id_total (eI E)" "\<forall>v. inverts (eKsJ E) v" "json_ok cc"
      "\<forall>k. \<exists>x. pid k = Inr x" "choices_ok ch"
    and cfg: "ConfigDir (eOS E) = Inr cfg" "p = cfg @ [''keystore.enc'']"
    and fs: "fault_free s" "writable s p" "\<not> is_file s p"
    and dir: "\<forall>q \<in> set (prefixes storeDir). q \<noteq> p \<and> \<not> is_file s q"
    and pw: "ipPassword P = pw" "pw \<noteq> []" "ipStoreDir P = Some storeDir"
  shows "\<exists>s' r ks seed priv ci. Init E cc pid ch s P = (s', Inr r)
    \<and> OpenKeystore E s' pw = Inr ks \<and> LoadExtra ks KeyName = seed \<and> length seed = SeedSize
    \<and> MnemonicFromSeed (eI E) seed = Inr (irRecoveryPhrase r) \<and> irRecoveryPhrase r \<noteq> []
    \<and> DerivePrivKey (eL E) (eI E) seed = Inr priv \<and> pid priv = Inr (irPeerID r)
    \<and> CircleList E cc s' pw = Inr [ci] \<and> ciName ci = DefaultName \<and> ciScheme ci = ''3/2''
    \<and> is_dir s' storeDir \<and> Stat s' p = Inr ()"
proof -
  let ?L = "eL E" and ?c = "eKsJ E"
  have ksp: "Join cfg [''keystore.enc''] = p" using cfg(2) by (simp add: Join_def path_step_def)
  have inv: "inverts ?c v" for v using lib(4) by simp
  have "\<not> dfault s cfg" "\<forall>q \<in> set (prefixes cfg). \<not> is_file s q"
    using fs(1,2) cfg(2) by (simp_all add: fault_free_def writable_def)
  then obtain s1 where m1: "MkdirAll s cfg = (s1, None)" by (simp add: MkdirAll_def)
  have f1: "is_file s1 q = is_file s q" for q using MkdirAll_frame [OF m1] by (simp add: is_file_def)
  have "p \<notin> set (prefixes cfg)" using cfg(2) by (auto simp: prefixes_def min_def dest: arg_cong [where f = length])
  then have w1: "writable s1 p" using fs(2) MkdirAll_dirs [OF m1, of p] f1 by (auto simp: writable_def)
  have ff1: "fault_free s1" using fs(1) MkdirAll_faults [OF m1] by (simp add: same_faults_fault_free)
  have none: "\<not> is_ok (Stat s1 p)" using w1 f1 fs(3) by (simp add: Stat_def writable_def)
  obtain e1 e2 e3 e4 e5 e6 where ch: "scKs1 ch = Some e1" "scKs2 ch = Some e2" "scId1 ch = Some e3" "scId2 ch = Some e4"
    "ccSalt (scCircle ch) = Some e5" "ccNonce (scCircle ch) = Some e6"
    using lib(7) by (auto simp: choices_ok_def)
  obtain k s2 where c: "Create ?L ?c (Some e1) (Some e2) s1 (NewKeystore p) pw = (k, s2, None)"
    "ks_good ?L ?c s1 s2 k pw" "ksPath k = p" "ksExtras k = []"
    using Create_good [OF lib(1) inv ff1 w1] by blast
  obtain k3 s3 priv seed raw where i: "EnsurePeerIdentity ?L (eI E) ?c (Some e3) (Some e4) s2 k pw = (k3, s3, Inr priv)"
    "ks_good ?L ?c s1 s3 k3 pw" "ksPath k3 = ksPath k" "length seed = SeedSize" "DerivePrivKey ?L (eI E) seed = Inr priv"
    "ksExtras k3 = [(KeyName, seed), (peerKeyName, raw)]"
    using EnsurePeerIdentity_good [OF lib(1) inv lib(2,3) c(2,4)] by blast
  have ex: "LoadExtra k3 storeKey = []" "LoadExtra k3 KeyName = seed" "seed \<noteq> []"
    using i(4,6) by (auto simp: LoadExtra_def storeKey_def KeyName_def peerKeyName_def SeedSize_def)
  obtain m s4 ci b k4 where g: "GetOrDefault ?L ?c cc (scCircle ch) s3 (NewManager_Circle k3 pw) [] = (m, s4, Inr ci)"
    "ks_good ?L ?c s1 s4 k4 pw" "k4 = k3\<lparr>ksExtras := AList.update storeKey b (ksExtras k3)\<rparr>" "b \<noteq> []"
    "Unmarshal cc b = Inr [ci]" "ciName ci = DefaultName" "ciScheme ci = ''3/2''"
    using GetOrDefault_fresh [OF lib(1) inv lib(5) i(2) ex(1) ch(5,6)] by blast
  have k4: "ksPath k4 = p" "LoadExtra k4 KeyName = seed" "LoadExtra k4 storeKey = b"
    using g(3) c(3) i(3) ex(2) by (simp_all add: LoadExtra_def storeKey_def KeyName_def)
  have "\<forall>q \<in> set (prefixes storeDir). \<not> is_file s4 q" "\<not> dfault s4 storeDir"
    using g(2) k4(1) dir f1 by (auto simp: ks_good_def fault_free_def)
  then obtain s5 where m5: "MkdirAll s4 storeDir = (s5, None)" by (simp add: MkdirAll_def)
  obtain x where x: "pid priv = Inr x" using lib(6) by blast
  obtain w where w: "il_NewMnemonic (eI E) seed = Inr w" "w \<noteq> []"
    using lib(3) i(4) unfolding id_total_def by blast
  have run: "Init E cc pid ch s P = (s5, Inr \<lparr>irPeerID = x, irRecoveryPhrase = w, irKeystorePath = p, irStoreDir = storeDir\<rparr>)"
    using pw m1 none ch c(1) i(1) ex(2,3) g(1) m5 x w(1) i(4)
    by (simp add: Init_def cfg(1) ksp MnemonicFromSeed_def)
  have "Unlock ?L ?c s5 (NewKeystore p) pw = (k4, None)"
    using Unlock_MkdirAll [OF m5] g(2) k4(1) by (simp add: ks_good_def)
  then have st: "Stat s5 p = Inr ()"
    by (auto simp: Unlock_def NewKeystore_def Stat_def ReadFile_def is_file_def split: if_splits sum.splits option.splits)
  have o: "OpenKeystore E s5 pw = Inr k4" using \<open>Unlock ?L ?c s5 (NewKeystore p) pw = (k4, None)\<close> by (simp add: OpenKeystore_def cfg(1) ksp)
  have "CircleList E cc s5 pw = Inr [ci]"
    using pw(2) o k4(3) g(4,5)
    by (simp add: CircleList_def circleManager_def List_Circle_def load_Circle_def NewManager_Circle_def)
  then show ?thesis
    using run o st k4(2) i(4,5) x w g(6,7) MkdirAll_is_dir [OF m5]
    by (intro exI conjI) (assumption | simp add: MnemonicFromSeed_def)+
qed


lemma Recover_fresh:
  assumes "argon2_lawful (eL E)" and "\<forall>v. inverts (eKsJ E) v" and "choices_ok ch" and "pw \<noteq> []" and "phrase \<noteq> []"
    and "fault_free t" and "writable t (DefaultKeystorePath (eOS E))"
    and "SeedFromMnemonic (eI E) phrase = Inr seed" and "DerivePrivKey (eL E) (eI E) seed = Inr priv"
    and "il_MarshalPrivateKey (eI E) priv = Inr raw" and "pid priv = Inr peer"
  shows "\<exists>t'. Recover E pid ch t phrase pw = (t', Inr peer)"
proof -
  let ?L = "eL E" and ?c = "eKsJ E"
  have inv: "inverts ?c v" for v using assms(2) by simp
  obtain e1 e2 e3 e4 where ch: "scKs1 ch = Some e1" "scKs2 ch = Some e2" "scId1 ch = Some e3" "scId2 ch = Some e4"
    using assms(3) by (auto simp: choices_ok_def)
  obtain k t1 where c: "Create ?L ?c (Some e1) (Some e2) t (NewKeystore (DefaultKeystorePath (eOS E))) pw = (k, t1, None)"
    "ks_good ?L ?c t t1 k pw"
    using Create_good [OF assms(1) inv assms(6,7)] by blast
  let ?k = "k\<lparr>ksExtras := AList.update KeyName seed (ksExtras k)\<rparr>"
  obtain t2 where t2: "StoreExtra ?L ?c (Some e3) t1 k KeyName seed pw = (?k, t2, None)" "ks_good ?L ?c t t2 ?k pw"
    using StoreExtra_good [OF assms(1) inv c(2)] by blast
  obtain k3 t3 where "StoreExtra ?L ?c (Some e4) t2 ?k peerKeyName raw pw = (k3, t3, None)"
    using StoreExtra_good [OF assms(1) inv t2(2)] by blast
  then show ?thesis
    using assms(4,5,8-11) ch c(1) t2(1) by (simp add: Recover_def EnsurePeerIdentityFromSeed_def)
qed


subsection \<open>Concrete machines\<close>

definition demo_setup :: setup_choice where
  "demo_setup = \<lparr>scKs1 = Some (\<lambda>_. 1), scKs2 = Some (\<lambda>_. 2), scId1 = Some (\<lambda>_. 3), scId2 = Some (\<lambda>_. 4), scCircle = demo_cc\<rparr>"

definition demo_pid :: "bytes \<Rightarrow> string result" where
  "demo_pid k = Inr (string_of_bytes k)"

definition demo_init :: InitParams where
  "demo_init = \<lparr>ipPassword = ''pw'', ipStoreDir = Some [''cfg'', ''store''], ipForce = False\<rparr>"

lemma demo_id_total: "id_total demo_id"
  by (auto simp: id_total_def demo_id_def SeedSize_def string_of_bytes_def)

lemma demo_choices_ok: "choices_ok demo_setup"
  by (simp add: choices_ok_def demo_setup_def demo_cc_def)

lemma empty_fs_ready: "fault_free empty_fs" "\<not> is_file empty_fs q" "p \<noteq> [] \<Longrightarrow> writable empty_fs p"
  by (simp_all add: fault_free_def writable_def empty_fs_def is_file_def is_dir_def)

lemma demo_config_dir: "ConfigDir demo_os = Inr [''cfg'']"
  by (simp add: ConfigDir_def demo_os_def)

lemma demo_store_dir: "\<forall>q \<in> set (prefixes [''cfg'', ''store'']). q \<noteq> [''cfg''] @ [''keystore.enc''] \<and> \<not> is_file empty_fs q"
  by (simp add: empty_fs_ready prefixes_def upt_rec)

lemmas demo_setup_facts = demo_argon2_lawful demo_hkdf_lawful demo_id_total codec_of_inverts ks_fmt_ok demo_config_dir
  empty_fs_ready demo_init_def demo_pid_def

lemma demo_setup_hyps:
  "argon2_lawful (eL demo_env)" "hkdf_lawful (eL demo_env)" "id_total (eI demo_env)" "\<forall>v. inverts (eKsJ demo_env) v"
  "\<forall>k. \<exists>x. demo_pid k = Inr x" "ConfigDir (eOS demo_env) = Inr [''cfg'']"
  "ipPassword demo_init = ''pw''" "''pw'' \<noteq> []" "ipStoreDir demo_init = Some [''cfg'', ''store'']"
  by (simp_all add: demo_setup_facts)

lemma demo_clean: "writable empty_fs ([''cfg''] @ [''keystore.enc''])" "\<not> is_file empty_fs ([''cfg''] @ [''keystore.enc''])"
  by (simp_all add: empty_fs_ready)

lemma demo_Init:
  "\<exists>s' r. Init demo_env (codec_of circle_fmt) demo_pid demo_setup empty_fs demo_init = (s', Inr r) \<and> irRecoveryPhrase r \<noteq> []"
  using Init_fresh [OF demo_setup_hyps(1-4) circle_json_ok demo_setup_hyps(5) demo_choices_ok demo_setup_hyps(6) refl
      empty_fs_ready(1) demo_clean demo_store_dir demo_setup_hyps(7-9)] by blast



definition demo_xdg :: env where
  "demo_xdg = demo_env\<lparr>eOS := \<lparr>oeConfigDirVar = None, oeAppData = None, oeHome = [''h''], oeUserConfigDir = Inr [''xdg'']\<rparr>\<rparr>"

theorem Recover_misses_the_config_dir_witness:
  "\<exists>phrase s' peer e. Recover demo_xdg demo_pid demo_setup empty_fs phrase ''pw'' = (s', Inr peer)
     \<and> OpenKeystore demo_xdg s' ''pw'' = Inl e"
proof -
  have x: "eL demo_xdg = eL demo_env" "eI demo_xdg = eI demo_env" "eKsJ demo_xdg = eKsJ demo_env"
    by (simp_all add: demo_xdg_def demo_env_def)
  have p: "DefaultKeystorePath (eOS demo_xdg) = [''h'', ''.config'', ''cerclbackup'', ''keystore.enc'']"
    "ConfigDir (eOS demo_xdg) = Inr [''xdg'', ''cerclbackup'']"
    by (simp_all add: DefaultKeystorePath_def ConfigDir_def demo_xdg_def Join_def path_step_def)
  let ?seed = "replicate 16 (4 :: byte)"
  obtain priv raw where d: "DerivePrivKey demo_libs demo_id ?seed = Inr priv" "il_MarshalPrivateKey demo_id priv = Inr raw"
    using DerivePrivKey_total [OF demo_hkdf_lawful demo_id_total, of ?seed] by (auto simp: SeedSize_def)
  have "SeedFromMnemonic demo_id (string_of_bytes b) = Inr b \<and> string_of_bytes b \<noteq> []" if "length b = 16" for b
    using that by (auto simp: SeedFromMnemonic_def demo_id_def SeedSize_def) (simp add: string_of_bytes_def)
  then have sd: "SeedFromMnemonic demo_id (string_of_bytes ?seed) = Inr ?seed" "string_of_bytes ?seed \<noteq> []"
    by (simp_all del: bytes_of_string_of_bytes)
  obtain s' where r: "Recover demo_xdg demo_pid demo_setup empty_fs (string_of_bytes ?seed) ''pw'' = (s', Inr (string_of_bytes priv))"
    using Recover_fresh [of demo_xdg demo_setup "''pw''" "string_of_bytes ?seed" empty_fs ?seed priv raw demo_pid] d sd x p
    by (auto simp: demo_setup_facts demo_choices_ok)
  have "\<forall>y. ReadFile empty_fs (Join [''xdg'', ''cerclbackup''] [''keystore.enc'']) \<noteq> Inr y"
    by (simp add: ReadFile_def empty_fs_def)
  from Recover_misses_the_config_dir [OF r p(2) _ this] r p(1) show ?thesis
    by (auto simp: Join_def path_step_def)
qed

end
