(* ===== verification/Diagnostics.thy ===== *)
theory Diagnostics
  imports Handshake Setup
begin

text \<open>
  \<open>internal/api/doctor.go\<close>, \<open>dashboard.go\<close> and \<open>diskspace_unix.go\<close>: the health checks of the local
  state and the summary that the graphical interface shows. A message of a check keeps its constant part and the
  values that it prints; an error is kept as a value. \<open>dgPid\<close> is \<open>peer.IDFromPrivateKey\<close> and \<open>dgStatfs\<close> is
  the system call, with the available blocks and the block size.
\<close>

datatype doctor_msg = Text string | Because string error | Counted int string | Aged duration string | Free "64 word"

record DoctorCheck =
  dkName :: string
  dkOK :: bool
  dkMsg :: doctor_msg

record DoctorResult =
  drChecks :: "DoctorCheck list"
  drAllOK :: bool

record DoctorParams =
  dpPassword :: string
  dpStoreDir :: "path option"
  dpCheckBuddies :: bool
  dpMaxAge :: duration

record diag_choice =
  dgIC :: invite_choice
  dgMC :: maint_choice
  dgNow :: time
  dgPid :: "bytes \<Rightarrow> string result"
  dgStatfs :: "path \<Rightarrow> (64 word \<times> 64 word) option"
  dgLatency :: "Entry \<Rightarrow> duration"

definition diskFreeBytes :: "(path \<Rightarrow> (64 word \<times> 64 word) option) \<Rightarrow> path \<Rightarrow> 64 word option" where
  "diskFreeBytes statfs dir = (case statfs dir of None \<Rightarrow> None | Some (bavail, bsize) \<Rightarrow> Some (bavail * bsize))"

subsection \<open>The checks\<close>

text \<open>\<open>add\<close> appends a check and remembers a failure.\<close>

definition doctor_add :: "string \<Rightarrow> bool \<Rightarrow> doctor_msg \<Rightarrow> DoctorResult \<Rightarrow> DoctorResult" where
  "doctor_add name ok msg r =
     r\<lparr>drChecks := drChecks r @ [\<lparr>dkName = name, dkOK = ok, dkMsg = msg\<rparr>], drAllOK := drAllOK r \<and> ok\<rparr>"

text \<open>The peer identity. \<open>pid.String()[:20]\<close> panics on a shorter string, the empty one of a failed
  \<open>peer.IDFromPrivateKey\<close> among them.\<close>

definition doctor_identity ::
  "env \<Rightarrow> diag_choice \<Rightarrow> fs \<Rightarrow> Keystore \<Rightarrow> string \<Rightarrow> DoctorResult \<Rightarrow> Keystore \<times> fs \<times> bytes option \<times> DoctorResult result" where
  "doctor_identity E D s ks password r =
     (case EnsurePeerIdentity (eL E) (eI E) (eKsJ E) (icId1 (dgIC D)) (icId2 (dgIC D)) s ks password of
        (ks1, s1, Inl e) \<Rightarrow> (ks1, s1, None, Inr (doctor_add ''peer identity'' False (Because [] e) r))
      | (ks1, s1, Inr privKey) \<Rightarrow>
          let pid = (case dgPid D privKey of Inl _ \<Rightarrow> [] | Inr p \<Rightarrow> p) in
          (ks1, s1, Some privKey,
           if length pid < 20 then Inl (Panic ''slice bounds out of range'')
           else Inr (doctor_add ''peer identity'' True (Text (take 20 pid @ [CHR 0xE2, CHR 0x80, CHR 0xA6])) r)))"

definition doctor_store :: "env \<Rightarrow> fs \<Rightarrow> path \<Rightarrow> DoctorResult \<Rightarrow> fs \<times> DoctorResult" where
  "doctor_store E s storeDir r =
     (case OpenStore E s (Some storeDir) of
        (s1, Inl e) \<Rightarrow> (s1, doctor_add ''shard store'' False (Because ''cannot open'' e) r)
      | (s1, Inr st) \<Rightarrow>
          (case ListFiles s1 st of
             Inl e \<Rightarrow> (s1, doctor_add ''shard store'' False (Because ''list error'' e) r)
           | Inr fileIDs \<Rightarrow> (s1, doctor_add ''shard store'' True (Counted (int (length fileIDs)) ''file(s) stored'') r)))"

definition doctor_manifest :: "env \<Rightarrow> diag_choice \<Rightarrow> fs \<Rightarrow> Keystore \<Rightarrow> DoctorResult \<Rightarrow> DoctorResult result" where
  "doctor_manifest E D s ks r =
     rbind (MasterKey ks) (\<lambda>key. Inr
       (case OpenManifest E s key of
          Inl e \<Rightarrow> doctor_add ''manifest'' False (Because ''load error'' e) r
        | Inr mf \<Rightarrow> doctor_add ''manifest'' True (Counted (int (length (All (mcOrd (dgMC D)) mf))) ''version(s) tracked'') r))"

definition doctor_last_backup :: "env \<Rightarrow> diag_choice \<Rightarrow> fs \<Rightarrow> duration \<Rightarrow> DoctorResult \<Rightarrow> DoctorResult" where
  "doctor_last_backup E D s maxAge r =
     (case Read_Status (eStatusJ E) s (case ConfigDir (eOS E) of Inl _ \<Rightarrow> [] | Inr d \<Rightarrow> d) of
        Inl e \<Rightarrow> doctor_add ''last backup'' False (Text ''no backup recorded yet'') r
      | Inr st2 \<Rightarrow>
          if stLastBackupAt st2 = 0 then doctor_add ''last backup'' False (Text ''no backup recorded yet'') r
          else let age = time_Sub (dgNow D) (stLastBackupAt st2)
               in doctor_add ''last backup'' (age \<le> maxAge) (Aged age (stLastFile st2)) r)"

definition reachable_buddies :: "env \<Rightarrow> Entry list \<Rightarrow> Entry list" where
  "reachable_buddies E buddies =
     filter (\<lambda>b. nwDecode (eNet E) (bePeerID b)
                \<and> nwConnect (eNet E) (bePeerID b) (filter (nwMultiaddr (eNet E)) (beAddrs b))) buddies"

definition doctor_buddies ::
  "env \<Rightarrow> diag_choice \<Rightarrow> fs \<Rightarrow> Keystore \<Rightarrow> bytes option \<Rightarrow> DoctorResult \<Rightarrow> DoctorResult" where
  "doctor_buddies E D s ks privKey r =
     (case OpenRegistry E s ks of
        Inl e \<Rightarrow> doctor_add ''buddies'' False (Because ''registry'' e) r
      | Inr reg \<Rightarrow>
          let buddies = snd (List_Registry (jRegistry (eJ E)) (icOrd (dgIC D)) s reg) in
          if buddies = [] then doctor_add ''buddies'' False (Text ''no buddies registered'') r
          else (case privKey of
                  None \<Rightarrow> r
                | Some k \<Rightarrow>
                    (case nwNewHost (eNet E) k of
                       Inl e \<Rightarrow> doctor_add ''buddies'' False (Because ''host'' e) r
                     | Inr _ \<Rightarrow>
                         let n = length (reachable_buddies E buddies)
                         in doctor_add ''buddies'' (0 < n) (Counted (int n) ''reachable'') r)))"

definition doctor_disk :: "diag_choice \<Rightarrow> path \<Rightarrow> DoctorResult \<Rightarrow> DoctorResult" where
  "doctor_disk D storeDir r =
     (case diskFreeBytes (dgStatfs D) storeDir of
        None \<Rightarrow> r
      | Some free \<Rightarrow> doctor_add ''disk space'' (free > 100 * 1024 * 1024) (Free free) r)"

text \<open>The checks that need an open key store come in three places; \<open>ks = None\<close> skips them.\<close>

definition Doctor :: "env \<Rightarrow> diag_choice \<Rightarrow> fs \<Rightarrow> DoctorParams \<Rightarrow> fs \<times> DoctorResult result" where
  "Doctor E D s P =
     (if dpPassword P = [] then (s, Inl (Errorf ''password is required''))
      else
        let storeDir = (case dpStoreDir P of None \<Rightarrow> DefaultStorePath (eOS E) | Some d \<Rightarrow> d);
            maxAge = (if dpMaxAge P = 0 then 25 * Hour else dpMaxAge P);
            r0 = \<lparr>drChecks = [], drAllOK = True\<rparr> in
        case OpenKeystore E s (dpPassword P) of
          Inl e \<Rightarrow>
            (case doctor_store E s storeDir (doctor_add ''keystore'' False (Because ''cannot open'' e) r0) of
               (s1, r1) \<Rightarrow> (s1, Inr (doctor_disk D storeDir r1)))
        | Inr ks \<Rightarrow>
            (case doctor_identity E D s ks (dpPassword P) (doctor_add ''keystore'' True (Text ''opened OK'') r0) of
               (ks1, s1, privKey, Inl e) \<Rightarrow> (s1, Inl e)
             | (ks1, s1, privKey, Inr r1) \<Rightarrow>
                 (case doctor_store E s1 storeDir r1 of
                    (s2, r2) \<Rightarrow> (s2, rbind (doctor_manifest E D s2 ks1 r2) (\<lambda>r3.
                      let r4 = doctor_last_backup E D s2 maxAge r3;
                          r5 = (if dpCheckBuddies P then doctor_buddies E D s2 ks1 privKey r4 else r4)
                      in Inr (doctor_disk D storeDir r5))))))"

subsection \<open>The dashboard\<close>

datatype DashboardStatus = StatusGreen | StatusYellow | StatusRed

record DashboardResult =
  dbStatus :: DashboardStatus
  dbDoctor :: DoctorResult
  dbBuddies :: "BuddyStatusEntry list"
  dbBuddiesTotal :: int
  dbBuddiesUp :: int
  dbStorage :: StorageStats

definition dashboard_status :: "bool \<Rightarrow> int \<Rightarrow> int \<Rightarrow> DashboardStatus" where
  "dashboard_status allOK buddies up =
     (if \<not> allOK then StatusRed
      else if buddies = 0 then StatusYellow
      else if up = 0 then StatusRed
      else if up < buddies then StatusYellow
      else StatusGreen)"

definition Dashboard :: "env \<Rightarrow> diag_choice \<Rightarrow> fs \<Rightarrow> string \<Rightarrow> path option \<Rightarrow> fs \<times> DashboardResult result" where
  "Dashboard E D s password storeDir =
     (let dir = (case storeDir of None \<Rightarrow> DefaultStorePath (eOS E) | Some d \<Rightarrow> d) in
      case Doctor E D s \<lparr>dpPassword = password, dpStoreDir = Some dir, dpCheckBuddies = False, dpMaxAge = 25 * Hour\<rparr> of
        (s1, Inl e) \<Rightarrow> (s1, Inl e)
      | (s1, Inr doctor) \<Rightarrow>
     (case BuddyStatus E (dgIC D) (dgLatency D) s1 password of
        (s2, Inl e) \<Rightarrow> (s2, Inl e)
      | (s2, Inr buddies) \<Rightarrow>
          let up = int (length (filter bsOnline buddies)) in
     (case Storage E (dgMC D) s2 password (Some dir) of
        (s3, Inl e) \<Rightarrow> (s3, Inl e)
      | (s3, Inr stats) \<Rightarrow>
          (s3, Inr \<lparr>dbStatus = dashboard_status (drAllOK doctor) (int (length buddies)) up, dbDoctor = doctor, dbBuddies = buddies,
             dbBuddiesTotal = int (length buddies), dbBuddiesUp = up, dbStorage = stats\<rparr>))))"

subsection \<open>What the verdicts mean\<close>

text \<open>The summary flag agrees with the list of checks.\<close>

definition verdict_ok :: "DoctorResult \<Rightarrow> bool" where
  "verdict_ok r \<longleftrightarrow> (drAllOK r \<longleftrightarrow> (\<forall>c \<in> set (drChecks r). dkOK c))"

lemma verdict_ok_add [intro]: "verdict_ok r \<Longrightarrow> verdict_ok (doctor_add name ok msg r)"
  by (auto simp: verdict_ok_def doctor_add_def)

lemma doctor_add_AllOK [simp]: "drAllOK (doctor_add name ok msg r) \<longleftrightarrow> drAllOK r \<and> ok"
  by (simp add: doctor_add_def)


lemma doctor_identity_verdict: "verdict_ok r \<Longrightarrow> doctor_identity E D s ks pw r = (ks1, s1, k, Inr r1) \<Longrightarrow> verdict_ok r1"
  by (auto simp: doctor_identity_def Let_def split: prod.splits sum.splits if_splits)

lemma doctor_store_verdict: "verdict_ok r \<Longrightarrow> doctor_store E s dir r = (s1, r1) \<Longrightarrow> verdict_ok r1"
  by (auto simp: doctor_store_def split: prod.splits sum.splits)

lemma doctor_manifest_Inr:
  assumes "doctor_manifest E D s ks r = Inr r1"
  obtains mk ok msg where "MasterKey ks = Inr mk" and "ok \<longleftrightarrow> is_ok (OpenManifest E s mk)" and "r1 = doctor_add ''manifest'' ok msg r"
proof -
  obtain mk where mk: "MasterKey ks = Inr mk" using assms by (auto simp: doctor_manifest_def rbind_eq_Inr)
  with assms have "\<exists>msg. r1 = doctor_add ''manifest'' (is_ok (OpenManifest E s mk)) msg r"
    by (cases "OpenManifest E s mk") (auto simp: doctor_manifest_def is_ok_def)
  with that [OF mk refl] show thesis by blast
qed

lemma doctor_manifest_verdict: "verdict_ok r \<Longrightarrow> doctor_manifest E D s ks r = Inr r1 \<Longrightarrow> verdict_ok r1"
  by (auto elim: doctor_manifest_Inr)

lemma doctor_last_verdict: "verdict_ok r \<Longrightarrow> verdict_ok (doctor_last_backup E D s maxAge r)"
  by (auto simp: doctor_last_backup_def Let_def split: sum.splits)

lemma doctor_buddies_verdict: "verdict_ok r \<Longrightarrow> verdict_ok (doctor_buddies E D s ks k r)"
  by (auto simp: doctor_buddies_def Let_def split: sum.splits option.splits)

lemma doctor_disk_verdict: "verdict_ok r \<Longrightarrow> verdict_ok (doctor_disk D dir r)"
  by (auto simp: doctor_disk_def split: option.splits)

lemmas doctor_verdicts = doctor_identity_verdict doctor_store_verdict doctor_manifest_verdict doctor_last_verdict
  doctor_buddies_verdict doctor_disk_verdict

lemma Doctor_verdict:
  assumes "Doctor E D s P = (s', Inr r)"
  shows "verdict_ok r"
proof -
  have start: "verdict_ok \<lparr>drChecks = [], drAllOK = True\<rparr>" by (simp add: verdict_ok_def)
  show ?thesis
    using assms start
    by (auto simp: Doctor_def Let_def rbind_eq_Inr verdict_ok_add
        split: sum.splits prod.splits if_splits intro!: doctor_disk_verdict doctor_last_verdict doctor_buddies_verdict
        elim!: doctor_manifest_verdict [rotated] doctor_store_verdict [rotated] doctor_identity_verdict [rotated])
qed

text \<open>C24. \<open>Doctor\<close> calls a machine healthy exactly when every check that it lists passed, and then it is: the key store
  opens with the password and has a peer identity, the store opens and lists, the manifest loads, the last recorded
  backup is not older than the age asked for (25 hours by default), and where the free space can be read
  it is above 100 MiB. If buddies are to be checked, at least one is reachable.\<close>

theorem Doctor_verdict_is_truthful:
  assumes "Doctor E D s P = (s', Inr r)"
  shows "(drAllOK r \<longleftrightarrow> (\<forall>c \<in> set (drChecks r). dkOK c))
    \<and> (drAllOK r \<longrightarrow>
        (\<exists>ks ks1 s1 priv mk mf st ids status.
           OpenKeystore E s (dpPassword P) = Inr ks
           \<and> EnsurePeerIdentity (eL E) (eI E) (eKsJ E) (icId1 (dgIC D)) (icId2 (dgIC D)) s ks (dpPassword P) = (ks1, s1, Inr priv)
           \<and> OpenStore E s1 (Some (case dpStoreDir P of None \<Rightarrow> DefaultStorePath (eOS E) | Some d \<Rightarrow> d)) = (s', Inr st)
           \<and> ListFiles s' st = Inr ids \<and> MasterKey ks1 = Inr mk \<and> OpenManifest E s' mk = Inr mf
           \<and> Read_Status (eStatusJ E) s' (case ConfigDir (eOS E) of Inl _ \<Rightarrow> [] | Inr d \<Rightarrow> d) = Inr status
           \<and> stLastBackupAt status \<noteq> 0
           \<and> time_Sub (dgNow D) (stLastBackupAt status) \<le> (if dpMaxAge P = 0 then 25 * Hour else dpMaxAge P)
           \<and> (\<forall>free. diskFreeBytes (dgStatfs D) (case dpStoreDir P of None \<Rightarrow> DefaultStorePath (eOS E) | Some d \<Rightarrow> d) = Some free
                \<longrightarrow> free > 100 * 1024 * 1024)
           \<and> (dpCheckBuddies P \<longrightarrow> (\<exists>reg. OpenRegistry E s' ks1 = Inr reg
                \<and> reachable_buddies E (snd (List_Registry (jRegistry (eJ E)) (icOrd (dgIC D)) s' reg)) \<noteq> []))))"
proof -
  let ?dir = "case dpStoreDir P of None \<Rightarrow> DefaultStorePath (eOS E) | Some d \<Rightarrow> d"
  let ?r0 = "\<lparr>drChecks = [], drAllOK = True\<rparr>" and ?pw = "dpPassword P"
  let ?age = "if dpMaxAge P = 0 then 25 * Hour else dpMaxAge P"
  show ?thesis
  proof (intro conjI impI)
    show "drAllOK r \<longleftrightarrow> (\<forall>c \<in> set (drChecks r). dkOK c)" using Doctor_verdict [OF assms] by (simp add: verdict_ok_def)
    assume ok: "drAllOK r"
    have pw: "?pw \<noteq> []" using assms by (auto simp: Doctor_def)
    obtain ks where ks: "OpenKeystore E s ?pw = Inr ks"
      using assms pw ok
      by (cases "OpenKeystore E s ?pw")
         (auto simp: Doctor_def Let_def doctor_store_def doctor_disk_def split: prod.splits sum.splits option.splits)
    obtain ks1 s1 k r1 r2 r3 where
      i: "doctor_identity E D s ks ?pw (doctor_add ''keystore'' True (Text ''opened OK'') ?r0) = (ks1, s1, k, Inr r1)"
      and st: "doctor_store E s1 ?dir r1 = (s', r2)" and m: "doctor_manifest E D s' ks1 r2 = Inr r3"
      and r: "r = doctor_disk D ?dir (if dpCheckBuddies P then doctor_buddies E D s' ks1 k (doctor_last_backup E D s' ?age r3)
                else doctor_last_backup E D s' ?age r3)"
      using assms pw ks by (auto simp: Doctor_def Let_def rbind_eq_Inr split: prod.splits sum.splits)
    have disk: "\<forall>free. diskFreeBytes (dgStatfs D) ?dir = Some free \<longrightarrow> free > 100 * 1024 * 1024"
      and ok5: "drAllOK (if dpCheckBuddies P then doctor_buddies E D s' ks1 k (doctor_last_backup E D s' ?age r3)
                else doctor_last_backup E D s' ?age r3)"
      using ok unfolding r by (auto simp: doctor_disk_def split: option.splits)
    have ok4: "drAllOK (doctor_last_backup E D s' ?age r3)"
      using ok5 by (auto simp: doctor_buddies_def Let_def split: if_splits sum.splits option.splits)
    obtain status where last: "Read_Status (eStatusJ E) s' (case ConfigDir (eOS E) of Inl _ \<Rightarrow> [] | Inr d \<Rightarrow> d) = Inr status"
      "stLastBackupAt status \<noteq> 0" "time_Sub (dgNow D) (stLastBackupAt status) \<le> ?age" "drAllOK r3"
      using ok4 by (auto simp: doctor_last_backup_def Let_def split: sum.splits if_splits)
    obtain mk mf where mf: "MasterKey ks1 = Inr mk" "OpenManifest E s' mk = Inr mf" "drAllOK r2"
      using last(4) by (rule_tac doctor_manifest_Inr [OF m]) (auto simp: is_ok_def split: sum.splits)
    obtain store ids where store: "OpenStore E s1 (Some ?dir) = (s', Inr store)" "ListFiles s' store = Inr ids" "drAllOK r1"
      using st mf(3) by (auto simp: doctor_store_def split: prod.splits sum.splits)
    obtain priv where id: "EnsurePeerIdentity (eL E) (eI E) (eKsJ E) (icId1 (dgIC D)) (icId2 (dgIC D)) s ks ?pw = (ks1, s1, Inr priv)"
        "k = Some priv"
      using i store(3) by (auto simp: doctor_identity_def Let_def split: prod.splits sum.splits if_splits)
    have b: "dpCheckBuddies P \<longrightarrow> (\<exists>reg. OpenRegistry E s' ks1 = Inr reg
                \<and> reachable_buddies E (snd (List_Registry (jRegistry (eJ E)) (icOrd (dgIC D)) s' reg)) \<noteq> [])"
      using ok5 id(2) by (auto simp: doctor_buddies_def Let_def split: if_splits sum.splits)
    from ks id(1) store(1,2) mf(1,2) last(1-3) disk b
    show "\<exists>ks ks1 s1 priv mk mf st ids status.
           OpenKeystore E s ?pw = Inr ks
           \<and> EnsurePeerIdentity (eL E) (eI E) (eKsJ E) (icId1 (dgIC D)) (icId2 (dgIC D)) s ks ?pw = (ks1, s1, Inr priv)
           \<and> OpenStore E s1 (Some ?dir) = (s', Inr st)
           \<and> ListFiles s' st = Inr ids \<and> MasterKey ks1 = Inr mk \<and> OpenManifest E s' mk = Inr mf
           \<and> Read_Status (eStatusJ E) s' (case ConfigDir (eOS E) of Inl _ \<Rightarrow> [] | Inr d \<Rightarrow> d) = Inr status
           \<and> stLastBackupAt status \<noteq> 0 \<and> time_Sub (dgNow D) (stLastBackupAt status) \<le> ?age
           \<and> (\<forall>free. diskFreeBytes (dgStatfs D) ?dir = Some free \<longrightarrow> free > 100 * 1024 * 1024)
           \<and> (dpCheckBuddies P \<longrightarrow> (\<exists>reg. OpenRegistry E s' ks1 = Inr reg
                \<and> reachable_buddies E (snd (List_Registry (jRegistry (eJ E)) (icOrd (dgIC D)) s' reg)) \<noteq> []))"
      by (intro exI conjI)
  qed
qed

lemma OpenKeystore_MkdirAll:
  assumes "MkdirAll s p = (s', e)" and "OpenKeystore E s' pw = Inr ks"
  shows "OpenKeystore E s pw = Inr ks"
proof -
  obtain cfgDir k where c: "ConfigDir (eOS E) = Inr cfgDir" and k: "k = NewKeystore (Join cfgDir [''keystore.enc''])"
    and u: "Unlock (eL E) (eKsJ E) s' k pw = (ks, None)"
    using assms(2) by (auto simp: OpenKeystore_def split: sum.splits prod.splits option.splits)
  obtain x where x: "ReadFile s' (ksPath k) = Inr x" using u by (auto simp: Unlock_def split: sum.splits)
  then have "ReadFile s (ksPath k) = Inr x" using ReadFile_MkdirAll [OF assms(1)] by simp
  with u x have "Unlock (eL E) (eKsJ E) s k pw = (ks, None)" by (simp add: Unlock_def)
  with c k show ?thesis by (simp add: OpenKeystore_def)
qed

text \<open>If the key store does not open at first, it does not open for the later steps of the dashboard.\<close>

lemma Doctor_locked:
  assumes "Doctor E D s P = (s', r)" and "OpenKeystore E s (dpPassword P) = Inl e"
  shows "OpenKeystore E s' (dpPassword P) \<noteq> Inr ks"
proof (cases "dpPassword P = []")
  case True
  with assms show ?thesis by (auto simp: Doctor_def)
next
  case False
  then obtain dir r1 r2 where "doctor_store E s dir r1 = (s', r2)"
    using assms by (auto simp: Doctor_def Let_def split: prod.splits)
  then obtain dir' e' where "MkdirAll s dir' = (s', e')"
    by (auto simp: doctor_store_def OpenStore_def New_def split: prod.splits sum.splits option.splits)
  from OpenKeystore_MkdirAll [OF this] assms(2) show ?thesis by auto
qed

lemma filter_length_0: "length (filter P xs) = 0 \<longleftrightarrow> (\<forall>x \<in> set xs. \<not> P x)"
  by (simp add: filter_empty_conv)

lemma filter_length_less: "length (filter P xs) < length xs \<longleftrightarrow> (\<exists>x \<in> set xs. \<not> P x)"
  by (metis length_filter_less filter_True less_irrefl)

text \<open>The traffic light of the dashboard. Green means that every check of \<open>Doctor\<close> passed, that there is at least
  one buddy and that every buddy answered; red means that a check failed, or that there are buddies and none
  answered. A dashboard is shown only if the key store opens: a broken one never shows as red.\<close>

theorem Dashboard_light_is_truthful:
  assumes "Dashboard E D s password storeDir = (s', Inr r)"
  shows "(dbStatus r = StatusGreen \<longleftrightarrow>
       (\<forall>c \<in> set (drChecks (dbDoctor r)). dkOK c) \<and> dbBuddies r \<noteq> [] \<and> (\<forall>b \<in> set (dbBuddies r). bsOnline b))
    \<and> (dbStatus r = StatusRed \<longleftrightarrow>
       (\<exists>c \<in> set (drChecks (dbDoctor r)). \<not> dkOK c) \<or> dbBuddies r \<noteq> [] \<and> (\<forall>b \<in> set (dbBuddies r). \<not> bsOnline b))
    \<and> (\<exists>ks. OpenKeystore E s password = Inr ks)"
proof -
  let ?P = "\<lparr>dpPassword = password, dpStoreDir = Some (case storeDir of None \<Rightarrow> DefaultStorePath (eOS E) | Some d \<Rightarrow> d),
     dpCheckBuddies = False, dpMaxAge = 25 * Hour\<rparr>"
  obtain s1 s2 d bs where d: "Doctor E D s ?P = (s1, Inr d)" and b: "BuddyStatus E (dgIC D) (dgLatency D) s1 password = (s2, Inr bs)"
    and r: "dbStatus r = dashboard_status (drAllOK d) (int (length bs)) (int (length (filter bsOnline bs)))" "dbDoctor r = d" "dbBuddies r = bs"
    using assms by (auto simp: Dashboard_def Let_def split: prod.splits sum.splits)
  have ok: "drAllOK d \<longleftrightarrow> (\<forall>c \<in> set (drChecks d). dkOK c)" using Doctor_verdict [OF d] by (simp add: verdict_ok_def)
  have "\<exists>ks. OpenKeystore E s1 password = Inr ks"
    using b by (auto simp: BuddyStatus_def split: if_splits sum.splits)
  then have "\<exists>ks. OpenKeystore E s password = Inr ks"
    using Doctor_locked [OF d] by (cases "OpenKeystore E s password") auto
  moreover have "dbStatus r = StatusGreen \<longleftrightarrow> drAllOK d \<and> bs \<noteq> [] \<and> (\<forall>b \<in> set bs. bsOnline b)"
    using filter_length_less [of bsOnline bs] filter_length_0 [of bsOnline bs]
    by (auto simp: r dashboard_status_def) 
  moreover have "dbStatus r = StatusRed \<longleftrightarrow> \<not> drAllOK d \<or> bs \<noteq> [] \<and> (\<forall>b \<in> set bs. \<not> bsOnline b)"
    using filter_length_0 [of bsOnline bs] by (auto simp: r dashboard_status_def)
  ultimately show ?thesis by (simp add: r ok)
qed

subsection \<open>A healthy machine\<close>

abbreviation demo_extras :: "(string \<times> bytes) list" where
  "demo_extras \<equiv> [(peerKeyName, 0 # replicate 64 5)]"

definition demo_status_blob :: bytes where
  "demo_status_blob = (case Marshal (codec_of status_fmt) \<lparr>stLastBackupAt = 1, stLastFile = ''/f'', stError = []\<rparr> of
     Inl _ \<Rightarrow> [] | Inr b \<Rightarrow> b)"

abbreviation demo_machine :: fs where
  "demo_machine \<equiv> demo_world demo_extras demo_versions [([''cfg'', ''status.json''], demo_status_blob)] [[''cfg'', ''store'']]"

definition demo_diag :: diag_choice where
  "demo_diag = \<lparr>dgIC = \<lparr>icId1 = None, icId2 = None, icToken = None, icNow1 = 0, icNow2 = 0, icPreferred = [], icOrd = [], icRnd = None\<rparr>,
     dgMC = \<lparr>mcKs1 = None, mcKs2 = None, mcId1 = None, mcId2 = None, mcOrd = [], mcPaths = [], mcBuddies = [], mcNow = 0, mcSave = None\<rparr>,
     dgNow = Hour, dgPid = (\<lambda>_. Inr ''12D3KooWalicealicealice''), dgStatfs = (\<lambda>_. None), dgLatency = (\<lambda>_. 0)\<rparr>"

lemma demo_machine_opens:
  "OpenKeystore demo_host demo_machine ''pw'' = Inr (demo_keystore demo_extras)"
  "OpenOrCreateKeystore demo_host r1 r2 demo_machine ''pw'' = (demo_machine, Inr (demo_keystore demo_extras))"
  "OpenManifest demo_host demo_machine (ksMasterKey (demo_keystore demo_extras))
     = Inr \<lparr>mfPath = demo_mf_path, mfMasterKey = ksMasterKey (demo_keystore demo_extras), mfData = demo_versions\<rparr>"
  "OpenRegistry demo_host demo_machine (demo_keystore demo_extras)
     = Inr \<lparr>rgPath = [''cfg'', ''buddies.enc''], rgMasterKey = ksMasterKey (demo_keystore demo_extras), rgByPeerID = []\<rparr>"
  "OpenStore demo_host demo_machine (Some [''cfg'', ''store'']) = (demo_machine, Inr demo_st)"
  "ListFiles demo_machine demo_st = Inr []"
  "Read_Status (eStatusJ demo_host) demo_machine [''cfg''] = Inr \<lparr>stLastBackupAt = 1, stLastFile = ''/f'', stError = []\<rparr>"
proof -
  have d: "demo_ks_path \<notin> set [[''cfg'', ''store'']]" "demo_mf_path \<notin> set [[''cfg'', ''store'']]" by simp_all
  have os: "eOS demo_host = eOS demo_env" "eMfJ demo_host = eMfJ demo_env" "eL demo_host = eL demo_env" "eKsJ demo_host = eKsJ demo_env"
    by (simp_all add: demo_host_def demo_env_def)
  note w = demo_world_opens [OF d, where extras = demo_extras and D = demo_versions]
  show "OpenKeystore demo_host demo_machine ''pw'' = Inr (demo_keystore demo_extras)"
    using w(1) OpenKeystore_same [of demo_host demo_env] by simp
  show "OpenOrCreateKeystore demo_host r1 r2 demo_machine ''pw'' = (demo_machine, Inr (demo_keystore demo_extras))"
  proof -
    have "OpenOrCreateKeystore demo_host = OpenOrCreateKeystore demo_env" by (intro ext) (simp only: OpenOrCreateKeystore_def os)
    with w(2) show ?thesis by simp
  qed
  show "OpenManifest demo_host demo_machine (ksMasterKey (demo_keystore demo_extras))
     = Inr \<lparr>mfPath = demo_mf_path, mfMasterKey = ksMasterKey (demo_keystore demo_extras), mfData = demo_versions\<rparr>"
  proof -
    have "OpenManifest demo_host = OpenManifest demo_env" by (intro ext) (simp only: OpenManifest_def os)
    with w(3) show ?thesis by simp
  qed
  show "OpenRegistry demo_host demo_machine (demo_keystore demo_extras)
     = Inr \<lparr>rgPath = [''cfg'', ''buddies.enc''], rgMasterKey = ksMasterKey (demo_keystore demo_extras), rgByPeerID = []\<rparr>"
    by (simp add: OpenRegistry_def demo_config_dir NewRegistry_def load_Registry_def Join_def path_step_def
        ReadFile_def demo_world_def empty_fs_def is_dir_def)
  show "OpenStore demo_host demo_machine (Some [''cfg'', ''store'']) = (demo_machine, Inr demo_st)"
    by (simp add: OpenStore_def New_def MkdirAll_def demo_world_def empty_fs_def prefixes_def is_file_def is_dir_def upt_rec)
  show "ListFiles demo_machine demo_st = Inr []"
    by (simp add: ListFiles_def ReadDir_def demo_world_def empty_fs_def is_file_def is_dir_def child_names_def)
  obtain b where "Marshal (codec_of status_fmt) \<lparr>stLastBackupAt = 1, stLastFile = ''/f'', stError = []\<rparr> = Inr b"
    "Unmarshal (codec_of status_fmt) b = Inr \<lparr>stLastBackupAt = 1, stLastFile = ''/f'', stError = []\<rparr>"
    by (metis inverts_Marshal inverts_Unmarshal codec_of_inverts status_fmt_ok)
  then show "Read_Status (eStatusJ demo_host) demo_machine [''cfg''] = Inr \<lparr>stLastBackupAt = 1, stLastFile = ''/f'', stError = []\<rparr>"
    by (simp add: Read_Status_def demo_host_def demo_env_def statusFile_def Join_def path_step_def demo_status_blob_def
        ReadFile_def demo_world_def empty_fs_def is_dir_def)
qed

lemma demo_machine_identity:
  "EnsurePeerIdentity (eL demo_host) (eI demo_host) (eKsJ demo_host) r1 r2 demo_machine (demo_keystore demo_extras) ''pw''
     = (demo_keystore demo_extras, demo_machine, Inr (replicate 64 5))"
  by (simp add: EnsurePeerIdentity_def LoadExtra_def demo_keystore_def demo_id_def Let_def)

lemma demo_Doctor:
  "Doctor demo_host demo_diag demo_machine \<lparr>dpPassword = ''pw'', dpStoreDir = Some [''cfg'', ''store''], dpCheckBuddies = False, dpMaxAge = 25 * Hour\<rparr>
     = (demo_machine, Inr (doctor_last_backup demo_host demo_diag demo_machine (25 * Hour)
          (doctor_add ''manifest'' True (Counted (int (length (All [] \<lparr>mfPath = demo_mf_path, mfMasterKey = ksMasterKey (demo_keystore demo_extras),
               mfData = demo_versions\<rparr>))) ''version(s) tracked'')
            (doctor_add ''shard store'' True (Counted 0 ''file(s) stored'')
              (doctor_add ''peer identity'' True (Text (''12D3KooWalicealiceal'' @ [CHR 0xE2, CHR 0x80, CHR 0xA6]))
                 (doctor_add ''keystore'' True (Text ''opened OK'') \<lparr>drChecks = [], drAllOK = True\<rparr>))))))"
  by (simp add: Doctor_def Let_def doctor_identity_def doctor_store_def doctor_manifest_def doctor_disk_def diskFreeBytes_def
      demo_machine_opens demo_machine_identity [unfolded demo_host_sel] demo_diag_def Hour_def Minute_def Second_def)

lemma demo_Doctor_ok:
  obtains r where "Doctor demo_host demo_diag demo_machine
       \<lparr>dpPassword = ''pw'', dpStoreDir = Some [''cfg'', ''store''], dpCheckBuddies = False, dpMaxAge = 25 * Hour\<rparr> = (demo_machine, Inr r)"
    and "drAllOK r" and "length (drChecks r) = 5"
  unfolding demo_Doctor
  by (simp add: doctor_last_backup_def demo_machine_opens demo_config_dir Let_def demo_diag_def time_Sub_def doctor_add_def
      Hour_def Minute_def Second_def)

theorem Doctor_verdict_is_truthful_witness:
  "\<exists>s' r. Doctor demo_host demo_diag demo_machine
       \<lparr>dpPassword = ''pw'', dpStoreDir = Some [''cfg'', ''store''], dpCheckBuddies = False, dpMaxAge = 25 * Hour\<rparr> = (s', Inr r)
     \<and> drAllOK r \<and> length (drChecks r) = 5 \<and> (\<exists>st ids. ListFiles s' st = Inr ids)"
proof -
  obtain r where r: "Doctor demo_host demo_diag demo_machine
       \<lparr>dpPassword = ''pw'', dpStoreDir = Some [''cfg'', ''store''], dpCheckBuddies = False, dpMaxAge = 25 * Hour\<rparr> = (demo_machine, Inr r)"
    and ok: "drAllOK r" "length (drChecks r) = 5" by (rule demo_Doctor_ok)
  from Doctor_verdict_is_truthful [OF r] ok(1) r ok show ?thesis by blast
qed

theorem Dashboard_light_is_truthful_witness:
  "\<exists>s' r. Dashboard demo_host demo_diag demo_machine ''pw'' (Some [''cfg'', ''store'']) = (s', Inr r)
     \<and> dbStatus r = StatusYellow \<and> (\<forall>c \<in> set (drChecks (dbDoctor r)). dkOK c) \<and> \<not> (\<exists>b \<in> set (dbBuddies r). bsOnline b)"
proof -
  have load: "load_Registry c demo_machine \<lparr>rgPath = [''cfg'', ''buddies.enc''], rgMasterKey = k, rgByPeerID = []\<rparr>
      = (\<lparr>rgPath = [''cfg'', ''buddies.enc''], rgMasterKey = k, rgByPeerID = []\<rparr>, None)" for c k
    by (simp add: load_Registry_def ReadFile_def demo_world_def empty_fs_def is_dir_def)
  have b: "BuddyStatus demo_host (dgIC demo_diag) (dgLatency demo_diag) demo_machine ''pw'' = (demo_machine, Inr [])"
    by (simp add: BuddyStatus_def demo_machine_opens List_Registry_def load range_vals_def demo_diag_def)
  obtain stats where st: "Storage demo_host (dgMC demo_diag) demo_machine ''pw'' (Some [''cfg'', ''store'']) = (demo_machine, Inr stats)"
    by (simp add: Storage_def open_ks_manifest_def demo_machine_opens Let_def)
  obtain d where d: "Doctor demo_host demo_diag demo_machine
       \<lparr>dpPassword = ''pw'', dpStoreDir = Some [''cfg'', ''store''], dpCheckBuddies = False, dpMaxAge = 25 * Hour\<rparr> = (demo_machine, Inr d)"
    and ok: "drAllOK d" by (rule demo_Doctor_ok)
  obtain r where r: "Dashboard demo_host demo_diag demo_machine ''pw'' (Some [''cfg'', ''store'']) = (demo_machine, Inr r)"
    and y: "dbStatus r = StatusYellow" "dbBuddies r = []"
    by (simp add: Dashboard_def d b st ok dashboard_status_def)
  from Dashboard_light_is_truthful [OF r] y r show ?thesis by auto
qed

end
