(* ===== verification/Rate_Limit.thy ===== *)
theory Rate_Limit
  imports Go_Time Complex_Main
begin

text \<open>
  \<open>internal/ratelimit/ratelimit.go\<close>: the token bucket that throttles uploads. Its \<open>float64\<close> fields are
  rational numbers here, so rounding is left out; a \<open>time.Duration\<close> has whole nanoseconds. \<open>Wait\<close> holds the
  mutex in two critical sections with a sleep between them, which are two operations.
\<close>

record Limiter =
  lmTokens :: rat
  lmCapacity :: rat
  lmRateNs :: rat
  lmLast :: time

definition NewLimiter :: "int \<Rightarrow> time \<Rightarrow> Limiter" where
  "NewLimiter bytesPerSec now =
     (if bytesPerSec \<le> 0 then \<lparr>lmTokens = 0, lmCapacity = 0, lmRateNs = 0, lmLast = 0\<rparr>
      else \<lparr>lmTokens = of_int bytesPerSec, lmCapacity = of_int bytesPerSec, lmRateNs = of_int bytesPerSec / 10 ^ 9, lmLast = now\<rparr>)"

definition Unlimited :: "Limiter \<Rightarrow> bool" where
  "Unlimited l \<longleftrightarrow> lmCapacity l = 0"

text \<open>The first critical section: \<open>None\<close> when the call returns, otherwise how long it sleeps.\<close>

definition Wait_begin :: "time \<Rightarrow> Limiter \<Rightarrow> int \<Rightarrow> Limiter \<times> duration option" where
  "Wait_begin now l n =
     (if n \<le> 0 \<or> lmCapacity l = 0 then (l, None)
      else let tokens = min (lmCapacity l) (lmTokens l + of_int (time_Sub now (lmLast l)) * lmRateNs l); need = of_int n in
        if need \<le> tokens then (l\<lparr>lmTokens := tokens - need, lmLast := now\<rparr>, None)
        else (l\<lparr>lmTokens := 0, lmLast := now\<rparr>, Some \<lfloor>(need - tokens) / lmRateNs l\<rfloor>))"

text \<open>The second critical section, after the sleep.\<close>

definition Wait_end :: "time \<Rightarrow> Limiter \<Rightarrow> Limiter" where
  "Wait_end now l = l\<lparr>lmLast := now\<rparr>"

text \<open>A writer passes everything on, or waits first; \<open>w\<close> is the underlying \<open>Write\<close>.\<close>

datatype Writer = Direct | Limited Limiter

definition NewWriter :: "Limiter option \<Rightarrow> Writer" where
  "NewWriter opt = (case opt of None \<Rightarrow> Direct | Some l \<Rightarrow> if Unlimited l then Direct else Limited l)"

definition Write_Limited ::
  "('s \<Rightarrow> bytes \<Rightarrow> 's \<times> int result) \<Rightarrow> time \<Rightarrow> time \<Rightarrow> Writer \<Rightarrow> 's \<Rightarrow> bytes \<Rightarrow> Writer \<times> 's \<times> int result" where
  "Write_Limited w now woken wr s p =
     (case wr of
        Direct \<Rightarrow> (Direct, w s p)
      | Limited l \<Rightarrow>
          (case Wait_begin now l (int (length p)) of
             (l1, None) \<Rightarrow> (Limited l1, w s p)
           | (l1, Some _) \<Rightarrow> (Limited (Wait_end woken l1), w s p)))"

subsection \<open>One caller after the other\<close>

text \<open>\<open>served l0 l t sent k\<close>: starting with \<open>l0\<close>, calls that follow one another have asked for \<open>sent\<close> bytes
  and returned by \<open>t\<close>, and \<open>k\<close> of them slept, at least as long as they had to.\<close>

inductive served :: "Limiter \<Rightarrow> Limiter \<Rightarrow> time \<Rightarrow> int \<Rightarrow> nat \<Rightarrow> bool" for l0 where
  start: "served l0 l0 (lmLast l0) 0 0"
| pass: "served l0 l t sent k \<Longrightarrow> t \<le> now \<Longrightarrow> Wait_begin now l n = (l', None) \<Longrightarrow> 0 \<le> n
     \<Longrightarrow> served l0 l' now (sent + n) k"
| sleep: "served l0 l t sent k \<Longrightarrow> t \<le> now \<Longrightarrow> Wait_begin now l n = (l', Some w) \<Longrightarrow> now + w \<le> later
     \<Longrightarrow> served l0 (Wait_end later l') later (sent + n) (Suc k)"

inductive_cases served_zero: "served l0 l t sent 0"

definition bucket_ok :: "Limiter \<Rightarrow> bool" where
  "bucket_ok l \<longleftrightarrow> 0 < lmCapacity l \<and> lmRateNs l = lmCapacity l / 10 ^ 9 \<and> 0 \<le> lmTokens l \<and> lmTokens l \<le> lmCapacity l"

lemma bucket_ok_rate: "bucket_ok l \<Longrightarrow> 0 < lmRateNs l"
  by (simp add: bucket_ok_def)

lemma NewLimiter_ok: "0 < b \<Longrightarrow> bucket_ok (NewLimiter b now)"
  by (simp add: NewLimiter_def bucket_ok_def)

lemma time_Sub_le: "u \<le> t \<Longrightarrow> time_Sub t u \<le> t - u \<and> 0 \<le> time_Sub t u"
  by (auto simp: time_Sub_def)

text \<open>What one critical section does to the bucket: with \<open>credit\<close> the refill since the last stamp, the tokens grow by at
  most the credit and shrink by what is granted; a sleep makes up for the missing tokens but for one nanosecond.\<close>

lemma Wait_begin_cases:
  assumes "bucket_ok l" and "lmLast l \<le> now" and "0 < n" and "Wait_begin now l n = (l', r)"
  shows "bucket_ok l' \<and> lmLast l' = now \<and> lmCapacity l' = lmCapacity l \<and> lmRateNs l' = lmRateNs l"
    and "r = None \<Longrightarrow> of_int n + lmTokens l' \<le> lmTokens l + lmRateNs l * of_int (now - lmLast l)"
    and "r = Some w \<Longrightarrow> 0 \<le> w \<and> of_int n \<le> lmTokens l + lmRateNs l * of_int (now - lmLast l) + lmRateNs l * (of_int w + 1)"
proof -
  let ?c = "lmTokens l + of_int (time_Sub now (lmLast l)) * lmRateNs l"
  have rate: "0 < lmRateNs l" by (rule bucket_ok_rate [OF assms(1)])
  have ts: "of_int (time_Sub now (lmLast l)) * lmRateNs l \<le> lmRateNs l * of_int (now - lmLast l)"
    "0 \<le> of_int (time_Sub now (lmLast l)) * lmRateNs l"
    using time_Sub_le [OF assms(2)] rate by (simp_all add: mult.commute mult_left_mono del: of_int_diff)
  have cap: "lmCapacity l \<noteq> 0" "0 \<le> ?c" using assms(1) ts(2) by (auto simp: bucket_ok_def)
  show "bucket_ok l' \<and> lmLast l' = now \<and> lmCapacity l' = lmCapacity l \<and> lmRateNs l' = lmRateNs l"
    using assms(1,3,4) cap by (auto simp: Wait_begin_def bucket_ok_def Let_def split: if_splits)
  show "of_int n + lmTokens l' \<le> lmTokens l + lmRateNs l * of_int (now - lmLast l)" if "r = None"
  proof -
    have "of_int n + lmTokens l' = min (lmCapacity l) ?c"
      using assms(3,4) cap(1) that by (auto simp: Wait_begin_def Let_def split: if_splits)
    then show ?thesis using ts(1) by linarith
  qed
  show "0 \<le> w \<and> of_int n \<le> lmTokens l + lmRateNs l * of_int (now - lmLast l) + lmRateNs l * (of_int w + 1)" if "r = Some w"
  proof -
    let ?d = "of_int n - min (lmCapacity l) ?c"
    have w: "w = \<lfloor>?d / lmRateNs l\<rfloor>" "0 < ?d"
      using assms(3,4) cap(1) that by (auto simp: Wait_begin_def Let_def split: if_splits)
    have "?d / lmRateNs l < of_int w + 1" using w(1) by linarith
    then have "?d < (of_int w + 1) * lmRateNs l" using rate by (simp add: pos_divide_less_eq)
    moreover have "0 \<le> w" using w rate by (simp add: zero_le_floor)
    ultimately show ?thesis using ts(1) by (simp add: mult.commute)
  qed
qed

subsection \<open>Properties\<close>

text \<open>C28. The limiter caps the throughput of calls that follow one another: from a fresh limiter of \<open>b\<close> bytes per second, the
  bytes granted by any time \<open>t\<close> are at most one second's quota plus the rate times the time that has passed, up
  to the rounding of each sleep down to a whole nanosecond; and the bucket never holds more than its quota or
  less than nothing.\<close>

theorem throughput_is_capped:
  assumes "served (NewLimiter b start) l t sent k" and "0 < b"
  shows "(of_int sent :: rat) \<le> of_int b + of_int b / 10 ^ 9 * (of_int (t - start) + of_nat k)
    \<and> 0 \<le> lmTokens l \<and> lmTokens l \<le> of_int b"
proof -
  define r where "r = (of_int b / 10 ^ 9 :: rat)"
  have rpos: "0 < r" using assms(2) by (simp add: r_def)
  have "bucket_ok l \<and> lmCapacity l = of_int b \<and> lmLast l \<le> t
      \<and> of_int sent + lmTokens l \<le> of_int b + r * (of_int (lmLast l - start) + of_nat k)"
    using assms(1)
  proof (induction rule: served.induct)
    case start
    then show ?case using NewLimiter_ok [OF assms(2)] assms(2) by (simp add: NewLimiter_def)
  next
    case (pass l t sent k now n l')
    show ?case
    proof (cases "n = 0")
      case True
      with pass show ?thesis by (auto simp: Wait_begin_def)
    next
      case False
      with pass have ok: "bucket_ok l" "lmLast l \<le> now" "0 < n" by auto
      note c = Wait_begin_cases(1,2) [OF ok pass.hyps(3)]
      have "lmRateNs l = r" using pass.IH by (simp add: bucket_ok_def r_def)
      with c pass.IH show ?thesis by (simp add: algebra_simps)
    qed
  next
    case (sleep l t sent k now n l' w later)
    have n: "0 < n" using sleep.hyps(3) by (auto simp: Wait_begin_def split: if_splits)
    from sleep have ok: "bucket_ok l" "lmLast l \<le> now" by auto
    note c = Wait_begin_cases(1,3) [OF ok n sleep.hyps(3)]
    have r: "lmRateNs l = r" using sleep.IH by (simp add: bucket_ok_def r_def)
    have t0: "lmTokens l' = 0" using sleep.hyps(3) by (auto simp: Wait_begin_def Let_def split: if_splits)
    have "of_int sent + of_int n \<le> of_int b + r * (of_int (now - start) + of_nat k) + r * (of_int w + 1)"
      using c(2) [OF refl] sleep.IH r by (simp add: algebra_simps)
    also have "\<dots> = of_int b + r * (of_int (now + w - start) + of_nat (Suc k))" by (simp add: algebra_simps)
    also have "\<dots> \<le> of_int b + r * (of_int (later - start) + of_nat (Suc k))"
      using sleep.hyps(4) rpos by (intro add_left_mono mult_left_mono add_right_mono) (simp_all del: of_int_add of_int_diff)
    finally show ?case using c(1) t0 sleep.IH by (simp add: Wait_end_def bucket_ok_def)
  qed
  then have inv: "bucket_ok l" "lmCapacity l = of_int b" "lmLast l \<le> t"
    "of_int sent + lmTokens l \<le> of_int b + r * (of_int (lmLast l - start) + of_nat k)" by auto
  have "r * of_int (lmLast l - start) \<le> r * of_int (t - start)"
    using inv(3) rpos by (intro mult_left_mono) simp_all
  then have "of_int sent \<le> of_int b + r * (of_int (t - start) + of_nat k)"
    using inv(1,4) by (simp add: bucket_ok_def algebra_simps)
  then show ?thesis using inv(1,2) by (simp add: bucket_ok_def r_def)
qed

theorem throughput_is_capped_witness:
  "\<exists>l. served (NewLimiter 1000 0) l 500000000 1500 1
     \<and> (1500 :: rat) \<le> 1000 + 1000 / 10 ^ 9 * (500000000 + 1)"
proof -
  have w: "Wait_begin 0 (NewLimiter 1000 0) 1500 = ((NewLimiter 1000 0)\<lparr>lmTokens := 0\<rparr>, Some 500000000)"
    by (simp add: Wait_begin_def NewLimiter_def time_Sub_def)
  have "served (NewLimiter 1000 0) (Wait_end 500000000 ((NewLimiter 1000 0)\<lparr>lmTokens := 0\<rparr>)) 500000000 (0 + 1500) (Suc 0)"
    by (rule served.sleep [OF served.start _ w]) (simp_all add: NewLimiter_def)
  from this throughput_is_capped [OF this] show ?thesis by auto
qed

text \<open>Callers that wait at the same time are granted the same refill: once the bucket is empty, any number of calls that
  start at one moment all sleep only for their own bytes, so that \<open>m\<close> times as much as the limit allows passes
  in that time.\<close>

theorem concurrent_waits_share_the_refill:
  assumes "bucket_ok l" and "lmTokens l = 0" and "lmLast l = now" and "0 < n"
  shows "fold (\<lambda>_ (l, ws). case Wait_begin now l n of (l', w) \<Rightarrow> (l', w # ws)) [0..<m] (l, [])
    = (l, replicate m (Some \<lfloor>of_int n * 10 ^ 9 / lmCapacity l\<rfloor>))"
proof -
  have one: "Wait_begin now l n = (l, Some \<lfloor>of_int n * 10 ^ 9 / lmCapacity l\<rfloor>)"
  proof -
    have "time_Sub now now = 0" by (simp add: time_Sub_def)
    then show ?thesis
      using assms by (cases l) (auto simp: Wait_begin_def bucket_ok_def Let_def min_def)
  qed
  show ?thesis by (induction m) (simp_all add: one replicate_append_same [symmetric])
qed

theorem concurrent_waits_share_the_refill_witness:
  "fold (\<lambda>_ (l, ws). case Wait_begin 0 l 1000 of (l', w) \<Rightarrow> (l', w # ws)) [0..<3] ((NewLimiter 1000 0)\<lparr>lmTokens := 0\<rparr>, [])
     = ((NewLimiter 1000 0)\<lparr>lmTokens := 0\<rparr>, replicate 3 (Some (10 ^ 9)))"
  using concurrent_waits_share_the_refill [of "(NewLimiter 1000 0)\<lparr>lmTokens := 0\<rparr>" 0 1000 3]
  by (simp add: NewLimiter_def bucket_ok_def)

end
