(* ===== verification/Serve.thy ===== *)
theory Serve
  imports Dialer Diagnostics Rate_Limit
begin

text \<open>
  \<open>internal/api/serve.go\<close>, \<open>internal/p2p/relay.go\<close> and the constants of \<open>internal/p2p/host.go\<close>: what the
  daemon consists of when \<open>StartServe\<close> returns, for whom it relays, and what its HTTP endpoint shows. The libp2p
  host, the DHT and the HTTP server are not modelled; \<open>nwNewHost\<close> stands for \<open>NewServeHost\<close>. The handlers
  that the daemon runs are those of theory \<open>Handlers\<close>, its periodic work is that of \<open>Dialer\<close> and \<open>Scrubber\<close>.
\<close>

subsection \<open>Hosts and relays\<close>

definition DefaultPort :: int where "DefaultPort = 7742"

definition DefaultRedialInterval :: duration where "DefaultRedialInterval = 10 * Minute"

definition listen_addrs :: "int \<Rightarrow> string list" where
  "listen_addrs port =
     [''/ip4/0.0.0.0/tcp/'' @ Itoa port, ''/ip4/0.0.0.0/udp/'' @ Itoa port @ ''/quic-v1'',
      ''/ip6/::/tcp/'' @ Itoa port, ''/ip6/::/udp/'' @ Itoa port @ ''/quic-v1'']"

text \<open>The registry handle reloads its file on every question, so it is passed on.\<close>

definition AllowReserve :: "registryData codec \<Rightarrow> fs \<Rightarrow> Registry \<Rightarrow> string \<Rightarrow> Registry \<times> bool" where
  "AllowReserve c s reg p = IsKnown c s reg p"

definition AllowConnect :: "registryData codec \<Rightarrow> fs \<Rightarrow> Registry \<Rightarrow> string \<Rightarrow> string \<Rightarrow> Registry \<times> bool" where
  "AllowConnect c s reg src dest =
     (case IsKnown c s reg src of
        (r1, False) \<Rightarrow> (r1, False)
      | (r1, True) \<Rightarrow> IsKnown c s r1 dest)"

text \<open>The candidates that \<open>buddyPeerSource\<close> sends when its context is not cancelled.\<close>

fun offer_buddies :: "network \<Rightarrow> int \<Rightarrow> Entry list \<Rightarrow> (string \<times> string list) list" where
  "offer_buddies N numPeers [] = []"
| "offer_buddies N numPeers (e # es) =
     (if numPeers \<le> 0 then []
      else if \<not> nwDecode N (bePeerID e) then offer_buddies N numPeers es
      else let addrs = filter (nwMultiaddr N) (beAddrs e) in
        if addrs = [] then offer_buddies N numPeers es
        else (bePeerID e, addrs) # offer_buddies N (numPeers - 1) es)"

definition buddyPeerSource ::
  "registryData codec \<Rightarrow> network \<Rightarrow> string list \<Rightarrow> fs \<Rightarrow> Registry \<Rightarrow> int \<Rightarrow> Registry \<times> (string \<times> string list) list" where
  "buddyPeerSource c N ord s reg numPeers =
     (case List_Registry c ord s reg of (r1, es) \<Rightarrow> (r1, offer_buddies N numPeers es))"

subsection \<open>Starting the daemon\<close>

text \<open>The global upload limiter, \<open>SetUploadRate\<close> replaces it; no setting leaves it as it is.\<close>

definition SetUploadRate :: "int \<Rightarrow> time \<Rightarrow> Limiter option" where
  "SetUploadRate bytesPerSec now = Some (NewLimiter bytesPerSec now)"

record ServeParams =
  svPassword :: string
  svPort :: int
  svUploadKbps :: int
  svHealthAddr :: string
  svRedialInterval :: duration

record daemon =
  sdPeerID :: string
  sdAddrs :: "string list"
  sdListen :: "string list"
  sdNode :: node
  sdQueue :: path
  sdLimiter :: "Limiter option"
  sdRedial :: duration
  sdScrub :: duration
  sdHealth :: "string option"
  sdStart :: time
  sdRunning :: bool

definition StartServe ::
  "env \<Rightarrow> invite_choice \<Rightarrow> time \<Rightarrow> Limiter option \<Rightarrow> fs \<Rightarrow> ServeParams \<Rightarrow> fs \<times> daemon result" where
  "StartServe E ic now limiter s P =
     (if svPassword P = [] then (s, Inl (Errorf ''password is required''))
      else
        let port = (if svPort P = 0 then DefaultPort else svPort P);
            limiter' = (if svUploadKbps P > 0 then SetUploadRate (wrap64 (svUploadKbps P * 1024)) now else limiter) in
        case OpenKeystore E s (svPassword P) of
          Inl e \<Rightarrow> (s, Inl e)
        | Inr ks \<Rightarrow>
       (case EnsurePeerIdentity (eL E) (eI E) (eKsJ E) (icId1 ic) (icId2 ic) s ks (svPassword P) of
          (ks1, s1, Inl e) \<Rightarrow> (s1, Inl e)
        | (ks1, s1, Inr privKey) \<Rightarrow>
       (case OpenRegistry E s1 ks1 of
          Inl e \<Rightarrow> (s1, Inl e)
        | Inr reg \<Rightarrow>
       (case nwNewHost (eNet E) privKey of
          Inl e \<Rightarrow> (s1, Inl e)
        | Inr self \<Rightarrow>
       (case ConfigDir (eOS E) of
          Inl e \<Rightarrow> (s1, Inl e)
        | Inr cfgDir \<Rightarrow>
            (s1, Inr \<lparr>sdPeerID = self, sdAddrs = map (\<lambda>a. a @ ''/p2p/'' @ self) (nwHostAddrs (eNet E)), sdListen = listen_addrs port,
               sdNode = \<lparr>nFS = s1, nReg = reg, nBS = NewStore (Join cfgDir [''shards'']), nInv = OpenInviteManager (eOS E),
                 nSelf = self, nPubKey = nwPubKey (eNet E) privKey\<rparr>,
               sdQueue = Join cfgDir [''queue.json''], sdLimiter = limiter',
               sdRedial = (if svRedialInterval P = 0 then DefaultRedialInterval else svRedialInterval P), sdScrub = 6 * Hour,
               sdHealth = (if svHealthAddr P = [] then None else Some (svHealthAddr P)), sdStart = now, sdRunning = True\<rparr>))))))"

text \<open>\<open>Stop\<close> cancels once and waits for the cleanup; a second call finds it done.\<close>

definition Stop_Serve :: "daemon \<Rightarrow> daemon" where
  "Stop_Serve d = d\<lparr>sdRunning := False\<rparr>"

subsection \<open>The HTTP endpoint\<close>

text \<open>\<open>peers\<close> is the number of connected peers, \<open>version\<close> the version string that the build stamps in.\<close>

record health_report =
  hrStatus :: string
  hrVersion :: string
  hrPeerID :: string
  hrPeers :: int
  hrUptime :: int

definition health :: "string \<Rightarrow> time \<Rightarrow> int \<Rightarrow> daemon \<Rightarrow> health_report" where
  "health version now peers d =
     \<lparr>hrStatus = ''ok'', hrVersion = version, hrPeerID = sdPeerID d, hrPeers = peers,
      hrUptime = time_Sub now (sdStart d) div Second\<rparr>"

definition metrics :: "codecs \<Rightarrow> string list \<Rightarrow> time \<Rightarrow> int \<Rightarrow> daemon \<Rightarrow> string list" where
  "metrics J ord now peers d =
     (let uptime = time_Sub now (sdStart d) div Second;
          buddies = snd (List_Registry (jRegistry J) ord (nFS (sdNode d)) (nReg (sdNode d)));
          shards = (case ListAll (nFS (sdNode d)) (nBS (sdNode d)) of Inl _ \<Rightarrow> [] | Inr refs \<Rightarrow> refs)
      in [''# HELP cerclbackup_uptime_seconds Seconds since daemon start'',
          ''cerclbackup_uptime_seconds '' @ Itoa uptime,
          ''# HELP cerclbackup_peers_connected Connected libp2p peers'',
          ''cerclbackup_peers_connected '' @ Itoa peers,
          ''# HELP cerclbackup_buddies_registered Registered buddy count'',
          ''cerclbackup_buddies_registered '' @ Itoa (int (length buddies)),
          ''# HELP cerclbackup_shards_stored Shard files on disk'',
          ''cerclbackup_shards_stored '' @ Itoa (int (length shards))])"

subsection \<open>For whom the daemon relays\<close>

lemma dom_fresh_map: "map_of (fresh_map es) p \<noteq> None \<longleftrightarrow> p \<in> bePeerID ` set es"
proof (induction es rule: rev_induct)
  case (snoc e es)
  have "fresh_map (es @ [e]) = AList.update (bePeerID e) e (fresh_map es)" by (simp add: fresh_map_def)
  with snoc show ?case by (auto simp: update_conv')
qed (simp add: fresh_map_def)

lemma IsKnown_view:
  assumes "registry_on_disk c s reg es" and "rgPath r = rgPath reg" and "rgMasterKey r = rgMasterKey reg"
  obtains r' where "IsKnown c s r p = (r', p \<in> bePeerID ` set es)" and "rgPath r' = rgPath reg" and "rgMasterKey r' = rgMasterKey reg"
proof -
  have "load_Registry c s r = (r\<lparr>rgByPeerID := fresh_map es\<rparr>, None)"
    using load_Registry_read [of c r s es] assms by (simp add: registry_on_disk_def)
  then have "IsKnown c s r p = (r\<lparr>rgByPeerID := fresh_map es\<rparr>, p \<in> bePeerID ` set es)"
    using dom_fresh_map [of es p] by (simp add: IsKnown_def)
  with assms(2,3) that show thesis by fastforce
qed

lemma List_view:
  assumes "registry_on_disk c s reg es"
  shows "snd (List_Registry c ord s reg) = range_vals ord (fresh_map es)"
  using load_Registry_read [of c reg s es] assms by (simp add: registry_on_disk_def List_Registry_def)

lemma offer_buddies_sound:
  "length (offer_buddies N n es) \<le> nat n
     \<and> (\<forall>(p, addrs) \<in> set (offer_buddies N n es). addrs \<noteq> [] \<and> (\<exists>e \<in> set es. bePeerID e = p \<and> set addrs \<subseteq> set (beAddrs e)))"
proof (induction N n es rule: offer_buddies.induct)
  case (2 N n e es)
  then show ?case
    by (cases "n \<le> 0"; cases "nwDecode N (bePeerID e)"; cases "filter (nwMultiaddr N) (beAddrs e) = []")
       (auto simp: Let_def; fastforce)+
qed simp



end
