(* ===== verification/Watcher.thy ===== *)
theory Watcher
  imports Go_FS Go_Time
begin

text \<open>
  \<open>internal/watcher/watcher.go\<close>: changes of files, collapsed by a debounce timer per path, and the handler
  that each settled change calls. The event loop, the timers that pop and the callbacks that wait for the
  mutex run side by side, so the model is a step relation over the state they share. The functions
  \<open>on_event\<close>, \<open>fire\<close> and \<open>on_stop\<close> are the bodies of the program's critical sections.

  A \<open>*time.Timer\<close> is its callback: a serial number, the time it is due, and the path and generation that the
  closure captured. \<open>time.AfterFunc\<close> arms it; when it is due it may pop at any time, and the callback
  then waits for the mutex. \<open>Stop\<close> on a timer that has popped does nothing. The log \<open>wLog\<close>,
  newest item first, is there for the theorems only; no step reads it.
\<close>

subsection \<open>State\<close>

definition defaultDebounce :: duration where "defaultDebounce = 3 * Second"

datatype fsop = EvCreate | EvWrite | EvRemove | EvRename | EvChmod

record fsevent =
  evName :: path
  evOp :: "fsop list"

record callback =
  cbId :: nat
  cbDue :: time
  cbPath :: path
  cbGen :: "64 word"

record pending =
  pdTimer :: callback
  pdGen :: "64 word"

datatype log_item = Changed path time | Called path time

record watcher =
  wNow :: time
  wTimers :: "(path \<times> pending) list"
  wArmed :: "callback list"
  wPopped :: "(callback \<times> time) list"
  wHandling :: "path list"
  wNext :: nat
  wLoop :: bool
  wWatched :: "path list"
  wLog :: "log_item list"

subsection \<open>The watch list\<close>

text \<open>
  \<open>fw.Add\<close> fails where \<open>refused\<close> says so (the limits of the operating system). \<open>filepath.WalkDir\<close> visits the
  directories parents first, in lexical order, and calls back with the error of a directory that cannot be read.
\<close>

fun add_dirs :: "(path \<Rightarrow> bool) \<Rightarrow> fs \<Rightarrow> path list \<Rightarrow> path list \<Rightarrow> path list \<times> error option" where
  "add_dirs refused s watched [] = (watched, None)"
| "add_dirs refused s watched (d # ds) =
     (if refused d then (watched, Some ErrIO)
      else if rfault s d then (watched @ [d], Some ErrIO)
      else add_dirs refused s (watched @ [d]) ds)"

definition addRecursive :: "(path \<Rightarrow> bool) \<Rightarrow> fs \<Rightarrow> path list \<Rightarrow> path \<Rightarrow> path list \<times> error option" where
  "addRecursive refused s watched dir =
     (if is_dir s dir then add_dirs refused s watched (sort (remdups (filter (beneath dir) (dir # dirs s))))
      else if is_file s dir then (watched, None)
      else (watched, Some ErrNotExist))"

text \<open>
  A watcher that is not started: \<open>srcDir\<close> is absolute already, and \<open>fsnotify\<close> is the error of
  \<open>fsnotify.NewWatcher\<close>, if it has one.
\<close>

record watch_config =
  wcSrcDir :: path
  wcDebounce :: duration

definition NewWithDebounce :: "error option \<Rightarrow> path \<Rightarrow> duration \<Rightarrow> watch_config result" where
  "NewWithDebounce fsnotify srcDir debounce =
     (case fsnotify of Some e \<Rightarrow> Inl e | None \<Rightarrow> Inr \<lparr>wcSrcDir = srcDir, wcDebounce = debounce\<rparr>)"

definition New_Watcher :: "error option \<Rightarrow> path \<Rightarrow> watch_config result" where
  "New_Watcher fsnotify srcDir = NewWithDebounce fsnotify srcDir defaultDebounce"

text \<open>\<open>Start\<close> until it enters the event loop.\<close>

definition Start_Watcher :: "(path \<Rightarrow> bool) \<Rightarrow> fs \<Rightarrow> time \<Rightarrow> path \<Rightarrow> watcher result" where
  "Start_Watcher refused s now srcDir =
     (case addRecursive refused s [] srcDir of
        (_, Some e) \<Rightarrow> Inl e
      | (watched, None) \<Rightarrow>
          Inr \<lparr>wNow = now, wTimers = [], wArmed = [], wPopped = [], wHandling = [], wNext = 0, wLoop = True,
               wWatched = watched, wLog = []\<rparr>)"

subsection \<open>The critical sections\<close>

definition relevant :: "fsevent \<Rightarrow> bool" where
  "relevant ev \<longleftrightarrow> EvCreate \<in> set (evOp ev) \<or> EvWrite \<in> set (evOp ev) \<or> EvRename \<in> set (evOp ev)"

text \<open>The timer that an event leaves for its path, and the timers of other callbacks.\<close>

definition next_pending :: "duration \<Rightarrow> watcher \<Rightarrow> path \<Rightarrow> pending" where
  "next_pending debounce w name =
     (let gen = (case map_of (wTimers w) name of Some p \<Rightarrow> pdGen p + 1 | None \<Rightarrow> 0)
      in \<lparr>pdTimer = \<lparr>cbId = wNext w, cbDue = wNow w + debounce, cbPath = name, cbGen = gen\<rparr>, pdGen = gen\<rparr>)"

definition stop_timer :: "watcher \<Rightarrow> path \<Rightarrow> callback list" where
  "stop_timer w name =
     (case map_of (wTimers w) name of Some p \<Rightarrow> filter (\<lambda>c. c \<noteq> pdTimer p) (wArmed w) | None \<Rightarrow> wArmed w)"

definition on_event :: "(path \<Rightarrow> bool) \<Rightarrow> duration \<Rightarrow> fsevent \<Rightarrow> watcher \<Rightarrow> watcher" where
  "on_event refused debounce ev w =
     (if \<not> relevant ev then w
      else
        let name = evName ev;
            watched = (if EvCreate \<in> set (evOp ev) \<and> \<not> refused name then name # wWatched w else wWatched w);
            p = next_pending debounce w name
        in w\<lparr>wWatched := watched, wTimers := AList.update name p (wTimers w),
             wArmed := stop_timer w name @ [pdTimer p], wNext := Suc (wNext w),
             wLog := Changed name (wNow w) # wLog w\<rparr>)"

text \<open>The callback \<open>fire(path, gen)\<close>; the handler then runs outside of the mutex.\<close>

definition fire :: "callback \<Rightarrow> watcher \<Rightarrow> watcher" where
  "fire c w =
     (case map_of (wTimers w) (cbPath c) of
        None \<Rightarrow> w
      | Some p \<Rightarrow>
          if pdGen p \<noteq> cbGen c then w
          else w\<lparr>wTimers := AList.delete (cbPath c) (wTimers w), wHandling := cbPath c # wHandling w,
                 wLog := Called (cbPath c) (wNow w) # wLog w\<rparr>)"

text \<open>The loop sees that \<open>stopCh\<close> is closed: it stops the timers and returns.\<close>

definition on_stop :: "watcher \<Rightarrow> watcher" where
  "on_stop w = w\<lparr>wArmed := filter (\<lambda>c. c \<notin> pdTimer ` snd ` set (wTimers w)) (wArmed w), wLoop := False\<rparr>"

definition pop :: "callback \<Rightarrow> watcher \<Rightarrow> watcher" where
  "pop c w = w\<lparr>wArmed := remove1 c (wArmed w), wPopped := (c, wNow w) # wPopped w\<rparr>"

definition run_popped :: "callback \<times> time \<Rightarrow> watcher \<Rightarrow> watcher" where
  "run_popped x w = fire (fst x) (w\<lparr>wPopped := remove1 x (wPopped w)\<rparr>)"

subsection \<open>Steps\<close>

text \<open>
  Time passes, an event arrives, a due timer pops, a callback gets the mutex, a handler returns, and the loop
  ends, either at \<open>stopCh\<close> or because \<open>Stop\<close> has closed the channel of events as well and \<open>select\<close> took that
  case. With \<open>limit = Some l\<close> no callback waits for the mutex as long as \<open>l\<close>.
\<close>

inductive watch_step :: "(path \<Rightarrow> bool) \<Rightarrow> duration \<Rightarrow> duration option \<Rightarrow> watcher \<Rightarrow> watcher \<Rightarrow> bool"
  for refused debounce limit where
  tick: "0 \<le> d \<Longrightarrow> watch_step refused debounce limit w (w\<lparr>wNow := wNow w + d\<rparr>)"
| event: "wLoop w \<Longrightarrow> watch_step refused debounce limit w (on_event refused debounce ev w)"
| pops: "c \<in> set (wArmed w) \<Longrightarrow> cbDue c \<le> wNow w \<Longrightarrow> watch_step refused debounce limit w (pop c w)"
| fires: "x \<in> set (wPopped w) \<Longrightarrow> (case limit of None \<Rightarrow> True | Some l \<Rightarrow> wNow w - snd x < l)
     \<Longrightarrow> watch_step refused debounce limit w (run_popped x w)"
| returns: "p \<in> set (wHandling w) \<Longrightarrow> watch_step refused debounce limit w (w\<lparr>wHandling := remove1 p (wHandling w)\<rparr>)"
| stops: "wLoop w \<Longrightarrow> watch_step refused debounce limit w (on_stop w)"
| closed: "wLoop w \<Longrightarrow> watch_step refused debounce limit w (w\<lparr>wLoop := False\<rparr>)"

inductive_cases watch_stepE: "watch_step refused debounce limit w w'"

inductive watch_run :: "(path \<Rightarrow> bool) \<Rightarrow> duration \<Rightarrow> duration option \<Rightarrow> watcher \<Rightarrow> watcher \<Rightarrow> bool"
  for refused debounce limit w0 where
  here: "watch_run refused debounce limit w0 w0"
| more: "watch_run refused debounce limit w0 w \<Longrightarrow> watch_step refused debounce limit w w'
     \<Longrightarrow> watch_run refused debounce limit w0 w'"

lemma watch_run_trans:
  assumes "watch_run refused debounce limit w1 w2" and "watch_run refused debounce limit w0 w1"
  shows "watch_run refused debounce limit w0 w2"
  using assms by (induction rule: watch_run.induct) (auto intro: watch_run.more)

text \<open>The steps that need no event and no \<open>Stop\<close>: time, timers and callbacks.\<close>

inductive drains :: "watcher \<Rightarrow> watcher \<Rightarrow> bool" where
  idle: "drains w w"
| wait: "drains w w' \<Longrightarrow> 0 \<le> d \<Longrightarrow> drains w (w'\<lparr>wNow := wNow w' + d\<rparr>)"
| timer: "drains w w' \<Longrightarrow> c \<in> set (wArmed w') \<Longrightarrow> cbDue c \<le> wNow w' \<Longrightarrow> drains w (pop c w')"
| callback: "drains w w' \<Longrightarrow> x \<in> set (wPopped w') \<Longrightarrow> drains w (run_popped x w')"

subsection \<open>No change is lost\<close>

text \<open>A path is owed a call if it changed after its last call.\<close>

fun owed :: "log_item list \<Rightarrow> path \<Rightarrow> bool" where
  "owed [] p = False"
| "owed (Changed q t # l) p = (if q = p then True else owed l p)"
| "owed (Called q t # l) p = (if q = p then False else owed l p)"

text \<open>Every call answers a change.\<close>

fun calls_answer_changes :: "log_item list \<Rightarrow> bool" where
  "calls_answer_changes [] = True"
| "calls_answer_changes (Changed q t # l) = calls_answer_changes l"
| "calls_answer_changes (Called q t # l) = (owed l q \<and> calls_answer_changes l)"

definition scheduled :: "watcher \<Rightarrow> callback set" where
  "scheduled w = set (wArmed w) \<union> fst ` set (wPopped w)"

definition timers_ok :: "watcher \<Rightarrow> bool" where
  "timers_ok w \<longleftrightarrow> (\<forall>p pd. map_of (wTimers w) p = Some pd \<longrightarrow> cbPath (pdTimer pd) = p \<and> cbGen (pdTimer pd) = pdGen pd)"

definition log_ok :: "watcher \<Rightarrow> bool" where
  "log_ok w \<longleftrightarrow> (\<forall>p. owed (wLog w) p \<longleftrightarrow> map_of (wTimers w) p \<noteq> None) \<and> calls_answer_changes (wLog w)"

definition all_scheduled :: "watcher \<Rightarrow> bool" where
  "all_scheduled w \<longleftrightarrow> (\<forall>p pd. map_of (wTimers w) p = Some pd \<longrightarrow> pdTimer pd \<in> scheduled w)"

lemma AList_map_of_delete: "map_of (AList.delete k xs) j = (if j = k then None else map_of xs j)"
  by (simp add: delete_conv')

lemma next_pending_simps [simp]:
  "cbPath (pdTimer (next_pending debounce w p)) = p"
  "cbGen (pdTimer (next_pending debounce w p)) = pdGen (next_pending debounce w p)"
  "cbDue (pdTimer (next_pending debounce w p)) = wNow w + debounce"
  "cbId (pdTimer (next_pending debounce w p)) = wNext w"
  by (simp_all add: next_pending_def Let_def)

text \<open>What the two critical sections do to the state, case by case.\<close>

lemma fire_cases:
  obtains (stale) "fire c w = w"
  | (current) p where "map_of (wTimers w) (cbPath c) = Some p" and "pdGen p = cbGen c"
      and "fire c w = w\<lparr>wTimers := AList.delete (cbPath c) (wTimers w), wHandling := cbPath c # wHandling w,
             wLog := Called (cbPath c) (wNow w) # wLog w\<rparr>"
proof (cases "map_of (wTimers w) (cbPath c)")
  case None
  then show thesis by (intro stale) (simp add: fire_def)
next
  case (Some p)
  show thesis
  proof (cases "pdGen p = cbGen c")
    case True
    with Some show thesis by (intro current) (simp_all add: fire_def)
  qed (use Some in \<open>auto simp: fire_def intro: stale\<close>)
qed

lemma on_event_cases:
  obtains (ignored) "on_event refused debounce ev w = w"
  | (seen) watched where "on_event refused debounce ev w =
       w\<lparr>wWatched := watched, wTimers := AList.update (evName ev) (next_pending debounce w (evName ev)) (wTimers w),
         wArmed := stop_timer w (evName ev) @ [pdTimer (next_pending debounce w (evName ev))], wNext := Suc (wNext w),
         wLog := Changed (evName ev) (wNow w) # wLog w\<rparr>"
  by (cases "relevant ev") (simp_all add: on_event_def Let_def)

lemma on_event_loop [simp]: "wLoop (on_event refused debounce ev w) = wLoop w"
  by (rule on_event_cases [of refused debounce ev w]) simp_all

lemma run_popped_loop [simp]: "wLoop (run_popped x w) = wLoop w"
  by (auto simp: run_popped_def fire_def split: option.splits)

lemma timers_ok_event: "timers_ok w \<Longrightarrow> timers_ok (on_event refused debounce ev w)"
  by (rule on_event_cases [of refused debounce ev w]) (auto simp: timers_ok_def map_of_update)

lemma timers_ok_fire: "timers_ok w \<Longrightarrow> timers_ok (fire c w)"
  by (rule fire_cases [of c w]) (auto simp: timers_ok_def AList_map_of_delete)

lemma timers_ok_step: "watch_step refused debounce limit w w' \<Longrightarrow> timers_ok w \<Longrightarrow> timers_ok w'"
  by (erule watch_stepE) (auto simp: timers_ok_event on_stop_def pop_def run_popped_def
      intro!: timers_ok_fire, auto simp: timers_ok_def)

lemma log_ok_event: "log_ok w \<Longrightarrow> log_ok (on_event refused debounce ev w)"
  by (rule on_event_cases [of refused debounce ev w]) (auto simp: log_ok_def map_of_update)

lemma log_ok_fire: "log_ok w \<Longrightarrow> log_ok (fire c w)"
  by (rule fire_cases [of c w]) (auto simp: log_ok_def AList_map_of_delete)

lemma log_ok_frame: "wTimers w' = wTimers w \<Longrightarrow> wLog w' = wLog w \<Longrightarrow> log_ok w \<Longrightarrow> log_ok w'"
  by (simp add: log_ok_def)

lemma log_ok_step: "watch_step refused debounce limit w w' \<Longrightarrow> log_ok w \<Longrightarrow> log_ok w'"
  by (erule watch_stepE) (auto simp: log_ok_event on_stop_def pop_def run_popped_def
      intro!: log_ok_fire elim!: log_ok_frame [rotated 2])

lemma all_scheduled_event:
  assumes "timers_ok w" and "all_scheduled w"
  shows "all_scheduled (on_event refused debounce ev w)"
proof (cases rule: on_event_cases [of refused debounce ev w])
  case ignored
  with assms(2) show ?thesis by simp
next
  case (seen watched)
  have "pdTimer pd \<in> scheduled (on_event refused debounce ev w)"
    if "map_of (wTimers w) p = Some pd" and "p \<noteq> evName ev" for p pd
  proof -
    have other: "pdTimer pd \<noteq> pdTimer pd'" if "map_of (wTimers w) (evName ev) = Some pd'" for pd'
      using assms(1) \<open>map_of (wTimers w) p = Some pd\<close> \<open>p \<noteq> evName ev\<close> that by (metis timers_ok_def)
    from assms(2) that have "pdTimer pd \<in> scheduled w" by (simp add: all_scheduled_def)
    with other show ?thesis by (auto simp: seen scheduled_def stop_timer_def split: option.splits)
  qed
  moreover have "pdTimer (next_pending debounce w (evName ev)) \<in> scheduled (on_event refused debounce ev w)"
    by (simp add: seen scheduled_def)
  ultimately show ?thesis by (auto simp: all_scheduled_def seen map_of_update split: if_splits)
qed

lemma scheduled_pop: "c \<in> set (wArmed w) \<Longrightarrow> scheduled (pop c w) = scheduled w"
  by (auto simp: scheduled_def pop_def in_set_remove1 dest: notin_set_remove1 set_remove1_subset [THEN subsetD]; 
      metis in_set_remove1)

lemma scheduled_fire: "scheduled (fire c w) = scheduled w"
  by (rule fire_cases [of c w]) (simp_all add: scheduled_def)

lemma all_scheduled_run_popped:
  assumes "timers_ok w" and "all_scheduled w"
  shows "all_scheduled (run_popped x w)"
proof -
  let ?w = "w\<lparr>wPopped := remove1 x (wPopped w)\<rparr>"
  have keep: "c \<in> scheduled ?w" if "c \<in> scheduled w" and "c \<noteq> fst x" for c
  proof (cases "c \<in> set (wArmed w)")
    case False
    with that obtain y where y: "y \<in> set (wPopped w)" "c = fst y" by (auto simp: scheduled_def)
    with that(2) have "y \<in> set (remove1 x (wPopped w))" by (metis in_set_remove1)
    with y(2) show ?thesis by (auto simp: scheduled_def)
  qed (simp add: scheduled_def)
  have cur: "pdGen pd = cbGen (pdTimer pd) \<and> cbPath (pdTimer pd) = p" if "map_of (wTimers w) p = Some pd" for p pd
    using that assms(1) by (simp add: timers_ok_def)
  show ?thesis
  proof (cases rule: fire_cases [of "fst x" ?w])
    case stale
    have "pdTimer pd \<noteq> fst x" if "map_of (wTimers w) p = Some pd" for p pd
    proof
      assume "pdTimer pd = fst x"
      with cur [OF that] that have "fire (fst x) ?w \<noteq> ?w" by (auto simp: fire_def dest: arg_cong [of _ _ wLog])
      with stale show False by simp
    qed
    with assms(2) keep show ?thesis by (auto simp: run_popped_def stale all_scheduled_def)
  next
    case (current q)
    have "pdTimer pd \<noteq> fst x" if "map_of (wTimers w) p = Some pd" and "p \<noteq> cbPath (fst x)" for p pd
      using cur [OF that(1)] that(2) by auto
    with assms(2) keep show ?thesis
      by (auto simp: run_popped_def all_scheduled_def scheduled_fire) (simp add: current AList_map_of_delete split: if_splits)
  qed
qed

lemma all_scheduled_frame:
  "wTimers w' = wTimers w \<Longrightarrow> scheduled w' = scheduled w \<Longrightarrow> all_scheduled w \<Longrightarrow> all_scheduled w'"
  by (simp add: all_scheduled_def)

lemma all_scheduled_step:
  assumes "watch_step refused debounce limit w w'" and "timers_ok w" and "wLoop w'" and "all_scheduled w"
  shows "all_scheduled w'"
  using assms(1)
proof (cases rule: watch_step.cases)
  case (pops c)
  with scheduled_pop [of c w] assms(4) show ?thesis by (simp add: all_scheduled_def pop_def)
next
  case (event ev)
  with all_scheduled_event assms show ?thesis by simp
next
  case (fires x)
  with all_scheduled_run_popped assms show ?thesis by simp
qed (use assms in \<open>simp_all add: on_stop_def all_scheduled_def scheduled_def\<close>)

text \<open>The timers are due within the debounce time.\<close>

definition due_soon :: "duration \<Rightarrow> watcher \<Rightarrow> bool" where
  "due_soon debounce w \<longleftrightarrow> (\<forall>c \<in> set (wArmed w). cbDue c \<le> wNow w + debounce)"

lemma fire_frame [simp]: "wArmed (fire c w) = wArmed w" "wNow (fire c w) = wNow w" "wPopped (fire c w) = wPopped w"
  by (rule fire_cases [of c w]; simp)+

lemma due_soon_step:
  assumes "watch_step refused debounce limit w w'" and "due_soon debounce w"
  shows "due_soon debounce w'"
  using assms(1)
proof (cases rule: watch_step.cases)
  case (event ev)
  with assms(2) show ?thesis
    by (cases rule: on_event_cases [of refused debounce ev w])
       (auto simp: due_soon_def stop_timer_def split: option.splits)
next
  case (pops c)
  with assms(2) notin_set_remove1 show ?thesis by (fastforce simp: due_soon_def pop_def)
qed (use assms(2) in \<open>fastforce simp: due_soon_def on_stop_def run_popped_def\<close>)+

lemma drains_trans: "drains w1 w2 \<Longrightarrow> drains w0 w1 \<Longrightarrow> drains w0 w2"
  by (induction rule: drains.induct) (auto intro: drains.intros)

lemma drains_run: "drains w w' \<Longrightarrow> watch_run refused debounce None w w'"
proof (induction rule: drains.induct)
  case (callback w w' x)
  then show ?case by (auto simp del: split_paired_All intro: watch_run.more [OF _ watch_step.fires])
qed (auto intro: watch_run.intros watch_step.intros)

lemma drain_popped:
  "\<exists>w'. drains w w' \<and> wPopped w' = [] \<and> wArmed w' = wArmed w \<and> wNow w' = wNow w"
proof (induction "length (wPopped w)" arbitrary: w)
  case 0
  then show ?case by (auto intro: drains.idle)
next
  case (Suc n)
  then obtain x xs where x: "wPopped w = x # xs" by (cases "wPopped w") auto
  then have "n = length (wPopped (run_popped x w))" using Suc.hyps(2) by (simp add: run_popped_def)
  from Suc.hyps(1) [OF this] obtain w' where w': "drains (run_popped x w) w'" "wPopped w' = []"
    "wArmed w' = wArmed (run_popped x w)" "wNow w' = wNow (run_popped x w)" by blast
  have "drains w (run_popped x w)" using x by (auto intro: drains.idle drains.callback)
  with w'(1) have "drains w w'" by (rule drains_trans)
  with w' show ?case by (auto simp: run_popped_def)
qed

lemma drain_armed:
  "\<forall>c \<in> set (wArmed w). cbDue c \<le> wNow w \<Longrightarrow> \<exists>w'. drains w w' \<and> wArmed w' = [] \<and> wNow w' = wNow w"
proof (induction "length (wArmed w)" arbitrary: w)
  case 0
  then show ?case by (auto intro: drains.idle)
next
  case (Suc n)
  then obtain c cs where c: "wArmed w = c # cs" by (cases "wArmed w") auto
  then have "n = length (wArmed (pop c w))" using Suc.hyps(2) by (simp add: pop_def)
  moreover have "\<forall>c' \<in> set (wArmed (pop c w)). cbDue c' \<le> wNow (pop c w)" using Suc.prems c by (simp add: pop_def)
  ultimately obtain w' where w': "drains (pop c w) w'" "wArmed w' = []" "wNow w' = wNow (pop c w)"
    using Suc.hyps(1) by blast
  have "drains w (pop c w)" using c Suc.prems by (auto intro: drains.idle drains.timer)
  with w'(1) have "drains w w'" by (rule drains_trans)
  with w' show ?case by (auto simp: pop_def)
qed

lemma drain_all:
  assumes "due_soon debounce w" and "0 \<le> debounce"
  shows "\<exists>w'. drains w w' \<and> scheduled w' = {} \<and> wNow w' = wNow w + debounce"
proof -
  let ?w = "w\<lparr>wNow := wNow w + debounce\<rparr>"
  have "drains w ?w" using assms(2) by (auto intro: drains.idle drains.wait)
  moreover obtain w1 where "drains ?w w1" "wArmed w1 = []" "wNow w1 = wNow w + debounce"
    using drain_armed [of ?w] assms(1) by (auto simp: due_soon_def)
  moreover obtain w2 where "drains w1 w2" "wPopped w2 = []" "wArmed w2 = wArmed w1" "wNow w2 = wNow w1"
    using drain_popped [of w1] by blast
  ultimately show ?thesis by (intro exI [of _ w2]) (auto simp: scheduled_def intro: drains_trans)
qed

definition watcher_inv :: "duration \<Rightarrow> watcher \<Rightarrow> bool" where
  "watcher_inv debounce w \<longleftrightarrow> timers_ok w \<and> log_ok w \<and> due_soon debounce w \<and> (wLoop w \<longrightarrow> all_scheduled w)"

lemma step_loop: "watch_step refused debounce limit w w' \<Longrightarrow> wLoop w' \<Longrightarrow> wLoop w"
  by (erule watch_step.cases) (simp_all add: on_stop_def pop_def)

lemma watcher_inv_step:
  assumes "watch_step refused debounce limit w w'" and "watcher_inv debounce w"
  shows "watcher_inv debounce w'"
  using assms timers_ok_step log_ok_step due_soon_step all_scheduled_step step_loop
  by (metis watcher_inv_def)

lemma watcher_inv_run:
  assumes "Start_Watcher refused s now src = Inr w0" and "watch_run refused debounce limit w0 w"
  shows "watcher_inv debounce w"
  using assms(2)
proof (induction rule: watch_run.induct)
  case here
  then show ?case using assms(1)
    by (auto simp: Start_Watcher_def watcher_inv_def timers_ok_def log_ok_def due_soon_def all_scheduled_def
        split: prod.splits option.splits)
qed (rule watcher_inv_step)

lemma drains_loop: "drains w w' \<Longrightarrow> wLoop w' = wLoop w"
  by (induction rule: drains.induct) (simp_all add: pop_def)

text \<open>C19. No change is lost, and no call is made without a change. At any time while the watcher runs, the
  timers and callbacks that are still outstanding, left to themselves, run out within the debounce time, and
  once they have run out the handler has been called for every path since its last change. Whatever the
  interleaving of events, timers and callbacks was, each call of the handler for a path follows a
  change of the path after the call before.\<close>

theorem every_change_is_handled:
  assumes "Start_Watcher refused s t0 src = Inr w0" and "watch_run refused debounce limit w0 w" and "wLoop w" and "0 \<le> debounce"
  shows "(\<exists>w'. drains w w' \<and> scheduled w' = {} \<and> wNow w' = wNow w + debounce)
     \<and> (\<forall>w' p. drains w w' \<longrightarrow> scheduled w' = {} \<longrightarrow> \<not> owed (wLog w') p) \<and> calls_answer_changes (wLog w)"
proof -
  have inv: "watcher_inv debounce w" by (rule watcher_inv_run [OF assms(1,2)])
  have "\<not> owed (wLog w') p" if "drains w w'" and "scheduled w' = {}" for w' p
  proof -
    have "watcher_inv debounce w'"
      using drains_run [OF that(1), of refused debounce] inv by (induction rule: watch_run.induct) (auto intro: watcher_inv_step)
    with that drains_loop [OF that(1)] assms(3) show ?thesis
      by (cases "map_of (wTimers w') p") (auto simp: watcher_inv_def log_ok_def all_scheduled_def)
  qed
  moreover have "\<exists>w'. drains w w' \<and> scheduled w' = {} \<and> wNow w' = wNow w + debounce"
    using drain_all inv assms(4) by (simp add: watcher_inv_def)
  ultimately show ?thesis using inv by (simp add: watcher_inv_def log_ok_def)
qed

subsection \<open>The debounce window\<close>

text \<open>Every call comes at least the debounce time after every change before it.\<close>

fun settled :: "duration \<Rightarrow> log_item list \<Rightarrow> bool" where
  "settled debounce [] = True"
| "settled debounce (Changed p t # l) = settled debounce l"
| "settled debounce (Called p t # l) = ((\<forall>t'. Changed p t' \<in> set l \<longrightarrow> t' + debounce \<le> t) \<and> settled debounce l)"

text \<open>
  The invariant behind it, for runs in which no callback waits as long as the debounce time. A
  callback that has popped is the current one of its path, or was overtaken by an event and has an older
  generation, or popped a debounce time ago and is no longer waiting.
\<close>

definition fresh_ids :: "watcher \<Rightarrow> bool" where
  "fresh_ids w \<longleftrightarrow> distinct (wArmed w @ map fst (wPopped w)) \<and> (\<forall>c \<in> scheduled w. cbId c < wNext w)"

definition armed_current :: "watcher \<Rightarrow> bool" where
  "armed_current w \<longleftrightarrow> (\<forall>c \<in> set (wArmed w). \<exists>pd. map_of (wTimers w) (cbPath c) = Some pd \<and> pdTimer pd = c)"

definition pending_due :: "duration \<Rightarrow> watcher \<Rightarrow> bool" where
  "pending_due debounce w \<longleftrightarrow> (\<forall>p t. Changed p t \<in> set (wLog w) \<longrightarrow>
     t \<le> wNow w \<and> (\<forall>pd. map_of (wTimers w) p = Some pd \<longrightarrow> t + debounce \<le> cbDue (pdTimer pd)))"

definition gens_bounded :: "watcher \<Rightarrow> bool" where
  "gens_bounded w \<longleftrightarrow> (\<forall>p pd. map_of (wTimers w) p = Some pd \<longrightarrow> unat (pdGen pd) < length (wLog w))"

fun overtaken :: "duration \<Rightarrow> time \<Rightarrow> pending option \<Rightarrow> callback \<Rightarrow> time \<Rightarrow> bool" where
  "overtaken debounce now None c t = (t + debounce \<le> now)"
| "overtaken debounce now (Some pd) c t = (pdTimer pd = c
     \<or> (unat (cbGen c) < unat (pdGen pd) \<and> t + debounce \<le> cbDue (pdTimer pd)) \<or> t + debounce \<le> now)"

definition popped_ok :: "duration \<Rightarrow> watcher \<Rightarrow> bool" where
  "popped_ok debounce w \<longleftrightarrow> (\<forall>c t. (c, t) \<in> set (wPopped w) \<longrightarrow> cbDue c \<le> t \<and> t \<le> wNow w \<and> overtaken debounce (wNow w) (map_of (wTimers w) (cbPath c)) c t)"

lemma popped_okD:
  "popped_ok debounce w \<Longrightarrow> (c, t) \<in> set (wPopped w)
     \<Longrightarrow> cbDue c \<le> t \<and> t \<le> wNow w \<and> overtaken debounce (wNow w) (map_of (wTimers w) (cbPath c)) c t"
  by (simp add: popped_ok_def)

lemma overtaken_later: "overtaken debounce now o' c t \<Longrightarrow> now \<le> now' \<Longrightarrow> overtaken debounce now' o' c t"
  by (cases o') auto

definition prompt_inv :: "duration \<Rightarrow> watcher \<Rightarrow> bool" where
  "prompt_inv debounce w \<longleftrightarrow> timers_ok w \<and> fresh_ids w \<and> armed_current w \<and> pending_due debounce w \<and> gens_bounded w
     \<and> popped_ok debounce w \<and> settled debounce (wLog w)"

lemma prompt_tick:
  assumes "prompt_inv debounce w" and "0 \<le> d"
  shows "prompt_inv debounce (w\<lparr>wNow := wNow w + d\<rparr>)"
  using assms
  by (fastforce simp: prompt_inv_def timers_ok_def fresh_ids_def armed_current_def pending_due_def gens_bounded_def
      popped_ok_def scheduled_def intro: overtaken_later)

lemma prompt_pop:
  assumes inv: "prompt_inv debounce w" and c: "c \<in> set (wArmed w)" "cbDue c \<le> wNow w"
  shows "prompt_inv debounce (pop c w)"
proof -
  obtain pd where pd: "map_of (wTimers w) (cbPath c) = Some pd" "pdTimer pd = c"
    using inv c by (auto simp: prompt_inv_def armed_current_def)
  have "fresh_ids (pop c w)"
    using inv c(1) scheduled_pop [OF c(1)] by (auto simp: prompt_inv_def fresh_ids_def pop_def distinct_remove1 dest: notin_set_remove1)
  moreover have "popped_ok debounce (pop c w)"
    using inv c pd by (auto simp: prompt_inv_def popped_ok_def pop_def)
  moreover have "armed_current (pop c w)"
    using inv by (auto simp: prompt_inv_def armed_current_def pop_def dest: set_remove1_subset [THEN subsetD])
  ultimately show ?thesis using inv by (simp add: prompt_inv_def timers_ok_def pending_due_def gens_bounded_def pop_def)
qed

lemma prompt_event:
  assumes inv: "prompt_inv debounce w" and few: "length (wLog w) < 2 ^ 64 - 1"
  shows "prompt_inv debounce (on_event refused debounce ev w)"
proof (cases rule: on_event_cases [of refused debounce ev w])
  case ignored
  with inv show ?thesis by simp
next
  case (seen watched)
  let ?p = "evName ev" and ?n = "next_pending debounce w (evName ev)"
  let ?w = "on_event refused debounce ev w"
  have gen: "unat (pdGen ?n) = (case map_of (wTimers w) ?p of None \<Rightarrow> 0 | Some pd \<Rightarrow> Suc (unat (pdGen pd)))"
  proof (cases "map_of (wTimers w) ?p")
    case (Some pd)
    then have "unat (pdGen pd) < length (wLog w)" using inv by (auto simp: prompt_inv_def gens_bounded_def)
    with few have "unat (pdGen pd) < 2 ^ 64 - 1" by linarith
    then have "unat (pdGen pd + 1) = Suc (unat (pdGen pd))"
      by (simp add: unat_word_ariths)
    with Some show ?thesis by (simp add: next_pending_def Let_def)
  qed (simp add: next_pending_def Let_def)
  have cur: "map_of (wTimers w) (cbPath c) = Some pd \<Longrightarrow> pdTimer pd = c" if "c \<in> set (wArmed w)" for c pd
    using inv that by (auto simp: prompt_inv_def armed_current_def)
  have known: "map_of (wTimers w) (cbPath c) \<noteq> None" if "c \<in> set (wArmed w)" for c
    using inv that by (auto simp: prompt_inv_def armed_current_def)
  have path: "cbPath (pdTimer pd) = q" if "map_of (wTimers w) q = Some pd" for pd q
    using inv that by (auto simp: prompt_inv_def timers_ok_def)
  have stopped: "stop_timer w ?p = filter (\<lambda>c. cbPath c \<noteq> ?p) (wArmed w)"
  proof (cases "map_of (wTimers w) ?p")
    case None
    have "cbPath c \<noteq> ?p" if "c \<in> set (wArmed w)" for c using known [OF that] None by auto
    with None show ?thesis by (simp add: stop_timer_def)
  next
    case (Some pd)
    have "c \<noteq> pdTimer pd \<longleftrightarrow> cbPath c \<noteq> ?p" if "c \<in> set (wArmed w)" for c
      using cur [OF that, of pd] path [OF Some] Some by auto
    from filter_cong [OF refl this] Some show ?thesis by (simp add: stop_timer_def)
  qed
  have "fresh_ids ?w"
  proof -
    have d: "distinct (wArmed w)" "distinct (map fst (wPopped w))" "set (wArmed w) \<inter> fst ` set (wPopped w) = {}"
      and ids: "\<And>c. c \<in> scheduled w \<Longrightarrow> cbId c < wNext w"
      using inv by (auto simp: prompt_inv_def fresh_ids_def)
    have new: "pdTimer ?n \<notin> scheduled w" using ids [of "pdTimer ?n"] by auto
    have "distinct (wArmed ?w @ map fst (wPopped ?w))"
      using d new by (auto simp: seen stopped scheduled_def)
    moreover have "cbId c < wNext ?w" if "c \<in> scheduled ?w" for c
    proof -
      from that have "c = pdTimer ?n \<or> c \<in> scheduled w" by (auto simp: seen stopped scheduled_def)
      with ids [of c] show ?thesis by (auto simp: seen)
    qed
    ultimately show ?thesis by (simp add: fresh_ids_def)
  qed
  moreover have "armed_current ?w"
    using inv by (auto simp: prompt_inv_def armed_current_def seen stopped map_of_update)
  moreover have "popped_ok debounce ?w"
  proof -
    have "overtaken debounce (wNow w) (Some ?n) c t"
      if "(c, t) \<in> set (wPopped w)" and "cbPath c = ?p" for c t
    proof -
      have "t \<le> wNow w" and "overtaken debounce (wNow w) (map_of (wTimers w) ?p) c t"
        using inv popped_okD [of debounce, OF _ that(1)] that(2) by (simp_all add: prompt_inv_def)
      moreover have "pdTimer pd = c \<Longrightarrow> map_of (wTimers w) ?p = Some pd \<Longrightarrow> cbGen c = pdGen pd" for pd
        using inv by (auto simp: prompt_inv_def timers_ok_def)
      ultimately show ?thesis using gen by (cases "map_of (wTimers w) ?p") auto
    qed
    then show ?thesis using inv by (auto simp: prompt_inv_def popped_ok_def seen map_of_update)
  qed
  moreover have "gens_bounded ?w"
    using inv gen by (fastforce simp: prompt_inv_def gens_bounded_def seen map_of_update less_Suc_eq split: option.splits)
  moreover have "pending_due debounce ?w"
    using inv  by (auto simp: prompt_inv_def pending_due_def seen map_of_update)
  moreover have "timers_ok ?w" using inv timers_ok_event by (auto simp: prompt_inv_def)
  moreover have "settled debounce (wLog ?w)" using inv by (simp add: prompt_inv_def seen)
  ultimately show ?thesis by (simp add: prompt_inv_def)
qed

lemma prompt_fires:
  assumes inv: "prompt_inv debounce w" and x: "x \<in> set (wPopped w)" "wNow w - snd x < debounce"
  shows "prompt_inv debounce (run_popped x w)"
proof -
  obtain c t where ct: "x = (c, t)" by (cases x)
  let ?w = "w\<lparr>wPopped := remove1 x (wPopped w)\<rparr>"
  have rest: "popped_ok debounce ?w"
    using inv notin_set_remove1 by (fastforce simp: prompt_inv_def popped_ok_def)
  have "distinct (map fst (wPopped w))" "set (wArmed w) \<inter> fst ` set (wPopped w) = {}"
    using inv by (auto simp: prompt_inv_def fresh_ids_def)
  have gone: "c \<notin> fst ` set (remove1 x (wPopped w))"
  proof -
    obtain ys zs where ys: "wPopped w = ys @ x # zs" "remove1 x (wPopped w) = ys @ zs"
      using x(1) by (metis split_list_first remove1_append remove1.simps(2))
    with \<open>distinct (map fst (wPopped w))\<close> ct show ?thesis by auto
  qed
  have base: "prompt_inv debounce ?w"
  proof -
    have "distinct (map fst (remove1 x (wPopped w)))" using \<open>distinct (map fst (wPopped w))\<close> 
      by (metis distinct_map distinct_remove1 inj_on_subset set_remove1_subset)
    moreover have sub: "fst ` set (remove1 x (wPopped w)) \<subseteq> fst ` set (wPopped w)"
      by (intro image_mono set_remove1_subset)
    moreover have "scheduled ?w \<subseteq> scheduled w" using sub by (auto simp: scheduled_def)
    moreover have "distinct (wArmed w)" "\<forall>c \<in> scheduled w. cbId c < wNext w"
      using inv by (simp_all add: prompt_inv_def fresh_ids_def)
    ultimately have "fresh_ids ?w"
      using \<open>set (wArmed w) \<inter> fst ` set (wPopped w) = {}\<close> by (simp add: fresh_ids_def) blast
    with rest inv show ?thesis
      by (simp add: prompt_inv_def timers_ok_def armed_current_def pending_due_def gens_bounded_def)
  qed
  show ?thesis
  proof (cases rule: fire_cases [of c ?w])
    case stale
    with base ct show ?thesis by (simp add: run_popped_def)
  next
    case (current pd)
    then have pd: "map_of (wTimers w) (cbPath c) = Some pd" "pdGen pd = cbGen c" by simp_all
    have popped: "cbDue c \<le> t" "t \<le> wNow w" "overtaken debounce (wNow w) (Some pd) c t"
      using inv popped_okD [of debounce, OF _ x(1) [unfolded ct]] pd(1) by (simp_all add: prompt_inv_def del: overtaken.simps)
    with x(2) pd(2) have mine: "pdTimer pd = c" by (auto simp: ct)
    let ?f = "fire c ?w"
    have "settled debounce (wLog ?f)"
    proof -
      have "u + debounce \<le> wNow w" if "Changed (cbPath c) u \<in> set (wLog w)" for u
      proof -
        have "u + debounce \<le> cbDue (pdTimer pd)"
          using inv pd(1) that unfolding prompt_inv_def pending_due_def by blast
        with mine popped(1,2) show ?thesis by simp
      qed
      with inv show ?thesis by (simp add: current prompt_inv_def)
    qed
    moreover have "armed_current ?f"
    proof -
      have "cbPath c' \<noteq> cbPath c" if "c' \<in> set (wArmed w)" for c'
      proof
        assume "cbPath c' = cbPath c"
        moreover have "armed_current w" using inv by (simp add: prompt_inv_def)
        from this [unfolded armed_current_def, rule_format, OF that]
        obtain pd' where "map_of (wTimers w) (cbPath c') = Some pd'" "pdTimer pd' = c'" by blast
        ultimately have same: "c' = c" using pd(1) mine by simp
        have "c \<in> fst ` set (wPopped w)" using x(1) ct by (metis fst_conv imageI)
        then show False using that same \<open>set (wArmed w) \<inter> fst ` set (wPopped w) = {}\<close> by blast
      qed
      with inv show ?thesis by (auto simp: current prompt_inv_def armed_current_def AList_map_of_delete)
    qed
    moreover have "popped_ok debounce ?f"
    proof -
      have "u + debounce \<le> wNow w" if "(d, u) \<in> set (remove1 x (wPopped w))" "cbPath d = cbPath c" for d u
      proof -
        have "overtaken debounce (wNow w) (Some pd) d u" using popped_okD [OF rest, of d u] that pd(1) by (simp del: overtaken.simps)
        moreover have "d \<noteq> c" using gone that(1) by force
        ultimately show ?thesis using mine popped by auto
      qed
      with rest show ?thesis by (auto simp: popped_ok_def current AList_map_of_delete)
    qed
    moreover have "fresh_ids ?f" using base by (simp add: prompt_inv_def fresh_ids_def scheduled_fire) (simp add: current)
    moreover have "gens_bounded ?f" using inv
      by (auto simp: prompt_inv_def gens_bounded_def current AList_map_of_delete less_Suc_eq)
    moreover have "pending_due debounce ?f" using inv
      by (auto simp: prompt_inv_def pending_due_def current AList_map_of_delete)
    moreover have "timers_ok ?f" using base by (simp add: prompt_inv_def timers_ok_fire)
    ultimately show ?thesis by (simp add: prompt_inv_def run_popped_def ct)
  qed
qed

lemma prompt_stop:
  assumes inv: "prompt_inv debounce w"
  shows "prompt_inv debounce (on_stop w)"
proof -
  have "fresh_ids (on_stop w)"
    using inv by (auto simp: prompt_inv_def fresh_ids_def on_stop_def scheduled_def)
  then show ?thesis using inv
    by (auto simp: prompt_inv_def timers_ok_def on_stop_def armed_current_def pending_due_def gens_bounded_def popped_ok_def)
qed

lemma prompt_step:
  assumes "watch_step refused debounce (Some l) w w'" and "l \<le> debounce" and "length (wLog w') < 2 ^ 64" and "prompt_inv debounce w"
  shows "prompt_inv debounce w'"
  using assms(1)
proof (cases rule: watch_step.cases)
  case (event ev)
  then show ?thesis
  proof (cases rule: on_event_cases [of refused debounce ev w])
    case (seen watched)
    then have "length (wLog w) < 2 ^ 64 - 1" using assms(3) event(1) by simp
    with prompt_event assms(4) event(1) show ?thesis by blast
  qed (use event assms(4) in simp)
next
  case (fires x)
  with assms(2,4) prompt_fires [of debounce w x] show ?thesis by simp
next
  case closed
  with assms(4) show ?thesis
    by (simp add: prompt_inv_def timers_ok_def fresh_ids_def scheduled_def armed_current_def pending_due_def gens_bounded_def popped_ok_def)
next
  case returns
  with assms(4) show ?thesis
    by (simp add: prompt_inv_def timers_ok_def fresh_ids_def scheduled_def armed_current_def pending_due_def gens_bounded_def popped_ok_def)
qed (use assms(4) in \<open>simp_all add: prompt_tick prompt_pop prompt_stop\<close>)

lemma step_log: "watch_step refused debounce limit w w' \<Longrightarrow> length (wLog w) \<le> length (wLog w')"
proof (induction rule: watch_step.induct)
  case (event w ev)
  show ?case by (cases rule: on_event_cases [of refused debounce ev w]) simp_all
next
  case (fires x w)
  show ?case by (cases rule: fire_cases [of "fst x" "w\<lparr>wPopped := remove1 x (wPopped w)\<rparr>"]) (simp_all add: run_popped_def)
qed (simp_all add: pop_def on_stop_def)

lemma prompt_inv_run:
  assumes "Start_Watcher refused s now src = Inr w0" and "l \<le> debounce"
    and "watch_run refused debounce (Some l) w0 w" and "length (wLog w) < 2 ^ 64"
  shows "prompt_inv debounce w"
  using assms(3,4)
proof (induction rule: watch_run.induct)
  case here
  then show ?case using assms(1)
    by (auto simp: Start_Watcher_def prompt_inv_def timers_ok_def fresh_ids_def scheduled_def armed_current_def pending_due_def
        gens_bounded_def popped_ok_def split: prod.splits option.splits)
next
  case (more w w')
  with step_log [OF more.hyps(2)] have "prompt_inv debounce w" by simp
  with prompt_step [OF more.hyps(2) assms(2) more.prems] show ?case by simp
qed

text \<open>C20. The handler is called only for changes that have settled: in every run in which no popped callback
  waits for the mutex as long as the debounce time, and with fewer than \<open>2^64\<close> changes (the width
  of the generation counter), each call for a path comes at least the debounce time after every change of
  that path that came before it.\<close>

theorem handler_waits_for_the_debounce:
  assumes "Start_Watcher refused s t0 src = Inr w0" and "watch_run refused debounce (Some debounce) w0 w"
    and "length (wLog w) < 2 ^ 64"
  shows "settled debounce (wLog w)"
  using prompt_inv_run [OF assms(1) order_refl assms(2,3)] by (simp add: prompt_inv_def)

subsection \<open>Runs from scripts\<close>

text \<open>A script resolves the choices of a run: timers and callbacks are named by their place in the lists.\<close>

datatype move = Wait_For duration | See fsevent | Pop_Nth nat | Fire_Nth nat | Loop_Ends

fun move_step :: "(path \<Rightarrow> bool) \<Rightarrow> duration \<Rightarrow> duration option \<Rightarrow> move \<Rightarrow> watcher \<Rightarrow> watcher option" where
  "move_step refused debounce limit (Wait_For d) w = (if 0 \<le> d then Some (w\<lparr>wNow := wNow w + d\<rparr>) else None)"
| "move_step refused debounce limit (See ev) w = (if wLoop w then Some (on_event refused debounce ev w) else None)"
| "move_step refused debounce limit (Pop_Nth n) w =
     (if n < length (wArmed w) \<and> cbDue (wArmed w ! n) \<le> wNow w then Some (pop (wArmed w ! n) w) else None)"
| "move_step refused debounce limit (Fire_Nth n) w =
     (if n < length (wPopped w) \<and> (case limit of None \<Rightarrow> True | Some l \<Rightarrow> wNow w - snd (wPopped w ! n) < l)
      then Some (run_popped (wPopped w ! n) w) else None)"
| "move_step refused debounce limit Loop_Ends w = (if wLoop w then Some (w\<lparr>wLoop := False\<rparr>) else None)"

fun script :: "(path \<Rightarrow> bool) \<Rightarrow> duration \<Rightarrow> duration option \<Rightarrow> move list \<Rightarrow> watcher \<Rightarrow> watcher option" where
  "script refused debounce limit [] w = Some w"
| "script refused debounce limit (m # ms) w =
     (case move_step refused debounce limit m w of None \<Rightarrow> None | Some w' \<Rightarrow> script refused debounce limit ms w')"

lemma move_step_sound: "move_step refused debounce limit m w = Some w' \<Longrightarrow> watch_step refused debounce limit w w'"
  by (cases m) (auto split: if_splits simp del: split_paired_All intro!: watch_step.intros)

lemma script_sound:
  "script refused debounce limit ms w = Some w' \<Longrightarrow> watch_run refused debounce limit w0 w \<Longrightarrow> watch_run refused debounce limit w0 w'"
proof (induction ms arbitrary: w)
  case (Cons m ms)
  then obtain w1 where "move_step refused debounce limit m w = Some w1" "script refused debounce limit ms w1 = Some w'"
    by (auto split: option.splits)
  with Cons.IH watch_run.more [OF Cons.prems(2) move_step_sound] show ?case by blast
qed simp

definition demo_tree :: fs where
  "demo_tree = empty_fs\<lparr>dirs := [[''d'']], files := [([''d'', ''f''], [1])]\<rparr>"

definition demo_watch :: watcher where
  "demo_watch = \<lparr>wNow = 0, wTimers = [], wArmed = [], wPopped = [], wHandling = [], wNext = 0, wLoop = True,
     wWatched = [[''d'']], wLog = []\<rparr>"

definition saved :: "string \<Rightarrow> move" where
  "saved f = See \<lparr>evName = [''d'', f], evOp = [EvWrite]\<rparr>"

lemma demo_Start: "Start_Watcher (\<lambda>_. False) demo_tree 0 [''d''] = Inr demo_watch"
  by (simp add: Start_Watcher_def addRecursive_def demo_tree_def demo_watch_def empty_fs_def is_dir_def is_file_def beneath_def)

lemmas watch_eval = Let_def demo_watch_def saved_def on_event_def relevant_def next_pending_def stop_timer_def fire_def pop_def run_popped_def

theorem every_change_is_handled_witness:
  "\<exists>w w'. script (\<lambda>_. False) 3 None [saved ''f'', Wait_For 2] demo_watch = Some w
     \<and> owed (wLog w) [''d'', ''f''] \<and> drains w w' \<and> wNow w' = 5 \<and> \<not> owed (wLog w') [''d'', ''f'']"
proof -
  obtain w where w: "script (\<lambda>_. False) 3 None [saved ''f'', Wait_For 2] demo_watch = Some w"
      "owed (wLog w) [''d'', ''f'']" "wLoop w" "wNow w = 2"
    by (simp add: watch_eval)
  have "watch_run (\<lambda>_. False) 3 None demo_watch w" using w(1) watch_run.here by (rule script_sound)
  from every_change_is_handled [OF demo_Start this w(3)] w show ?thesis by auto
qed

theorem handler_waits_for_the_debounce_witness:
  "\<exists>w. script (\<lambda>_. False) 3 (Some 3) [saved ''f'', Wait_For 1, saved ''f'', Wait_For 3, Pop_Nth 0, Wait_For 2, Fire_Nth 0] demo_watch
       = Some w
     \<and> wLog w = [Called [''d'', ''f''] 6, Changed [''d'', ''f''] 1, Changed [''d'', ''f''] 0] \<and> settled 3 (wLog w)"
proof -
  obtain w where w: "script (\<lambda>_. False) 3 (Some 3)
      [saved ''f'', Wait_For 1, saved ''f'', Wait_For 3, Pop_Nth 0, Wait_For 2, Fire_Nth 0] demo_watch = Some w"
      "wLog w = [Called [''d'', ''f''] 6, Changed [''d'', ''f''] 1, Changed [''d'', ''f''] 0]"
    by (simp add: watch_eval)
  have "watch_run (\<lambda>_. False) 3 (Some 3) demo_watch w" using w(1) watch_run.here by (rule script_sound)
  from handler_waits_for_the_debounce [OF demo_Start this] w show ?thesis by simp
qed

subsection \<open>Where the comments promise more\<close>

text \<open>
  The generation of a path starts at 0 again once its handler has been called. A callback that has waited for
  the mutex since before that call therefore passes for the callback of the next change, and the
  handler runs at once. And the handlers of two paths can run at the same time, each on the goroutine of its
  timer.
\<close>

lemma stale_callback_skips_the_debounce:
  "\<exists>w. watch_run (\<lambda>_. False) 3 None demo_watch w \<and> \<not> settled 3 (wLog w) \<and> hd (wLog w) = Called [''d'', ''f''] 6
     \<and> Changed [''d'', ''f''] 6 \<in> set (wLog w)"
proof -
  obtain w where w: "script (\<lambda>_. False) 3 None [saved ''f'', Wait_For 3, Pop_Nth 0, saved ''f'', Wait_For 3, Pop_Nth 0,
        Fire_Nth 0, saved ''f'', Fire_Nth 0] demo_watch = Some w"
      "\<not> settled 3 (wLog w)" "hd (wLog w) = Called [''d'', ''f''] 6" "Changed [''d'', ''f''] 6 \<in> set (wLog w)"
    by (simp add: watch_eval)
  with script_sound [OF w(1) watch_run.here] show ?thesis by blast
qed

lemma handlers_overlap:
  "\<exists>w. watch_run (\<lambda>_. False) 3 None demo_watch w \<and> wHandling w = [[''d'', ''g''], [''d'', ''f'']]"
proof -
  obtain w where w: "script (\<lambda>_. False) 3 None [saved ''f'', saved ''g'', Wait_For 3, Pop_Nth 0, Fire_Nth 0, Pop_Nth 0, Fire_Nth 0]
      demo_watch = Some w" "wHandling w = [[''d'', ''g''], [''d'', ''f'']]"
    by (simp add: watch_eval)
  with script_sound [OF w(1) watch_run.here] show ?thesis by blast
qed

text \<open>\<open>Stop\<close> closes both channels; when the loop leaves by the channel of events, no timer is stopped, and the
  handler is still called.\<close>

lemma handler_called_after_stop:
  "\<exists>w. watch_run (\<lambda>_. False) 3 None demo_watch w \<and> \<not> wLoop w \<and> wLog w = [Called [''d'', ''f''] 3, Changed [''d'', ''f''] 0]"
proof -
  obtain w where w: "script (\<lambda>_. False) 3 None [saved ''f'', Loop_Ends, Wait_For 3, Pop_Nth 0, Fire_Nth 0] demo_watch = Some w"
      "\<not> wLoop w" "wLog w = [Called [''d'', ''f''] 3, Changed [''d'', ''f''] 0]"
    by (simp add: watch_eval)
  with script_sound [OF w(1) watch_run.here] show ?thesis by blast
qed

text \<open>The tree that is there at the start is watched; what lies in a directory that appears later is not.\<close>

lemma add_dirs_all: "add_dirs refused s watched ds = (watched', None) \<Longrightarrow> watched' = watched @ ds"
proof (induction ds arbitrary: watched)
  case (Cons d ds)
  from Cons.prems Cons.IH [of "watched @ [d]"] show ?case by (auto split: if_splits)
qed simp

lemma initial_tree_is_watched:
  "Start_Watcher refused s now src = Inr w \<Longrightarrow> is_dir s src \<Longrightarrow> d = src \<or> d \<in> set (dirs s) \<and> beneath src d \<Longrightarrow> d \<in> set (wWatched w)"
  by (auto simp: Start_Watcher_def addRecursive_def dest!: add_dirs_all split: prod.splits option.splits)

lemma moved_directory_is_watched_alone:
  "EvCreate \<in> set (evOp ev) \<Longrightarrow> d \<in> set (wWatched (on_event refused debounce ev w)) \<Longrightarrow> d \<in> set (wWatched w) \<or> d = evName ev"
  by (auto simp: on_event_def Let_def split: if_splits)

end
