(* ===== verification/Watch.thy ===== *)
theory Watch
  imports Watcher Backup_Run Demo_World
begin

text \<open>
  \<open>internal/api/watch.go\<close>: a watch session. The parameters are checked, the key store is opened once, and the
  watcher is started with a handler that backs up the settled path. The progress lines of a backup are not
  modelled; an event carries its error as a value. Paths are absolute.
\<close>

record WatchParams =
  wpSrcDir :: "path option"
  wpStoreDir :: "path option"
  wpPassword :: string
  wpBuddies :: int
  wpDebounce :: duration
  wpExclude :: string
  wpAutoPrune :: bool

record WatchEvent =
  weProgress :: string
  wePath :: path
  weErr :: "error option"

definition watch_debounce :: "WatchParams \<Rightarrow> duration" where
  "watch_debounce P = (if wpDebounce P = 0 then 3 * Second else wpDebounce P)"

definition watch_exclude :: "WatchParams \<Rightarrow> string" where
  "watch_exclude P = (if wpExclude P = [] then ''.git,node_modules,*.tmp,*.swp'' else wpExclude P)"

definition watch_backup :: "WatchParams \<Rightarrow> path \<Rightarrow> BackupParams" where
  "watch_backup P path = \<lparr>bpSrc = Some path, bpStoreDir = wpStoreDir P, bpPassword = wpPassword P, bpBuddies = wpBuddies P,
     bpExclude = watch_exclude P, bpAutoPrune = wpAutoPrune P\<rparr>"

text \<open>The handler, with the number of files so far; \<open>None\<close> would be a backup that does not end.\<close>

definition watch_handler ::
  "env \<Rightarrow> backup_choice \<Rightarrow> WatchParams \<Rightarrow> Filter \<Rightarrow> fs \<Rightarrow> int \<Rightarrow> path \<Rightarrow> (fs \<times> int \<times> WatchEvent list) option" where
  "watch_handler E bc P ef s watched path =
     (if Match_Filter ef path then Some (s, watched, [])
      else
        let n = watched + 1;
            started = \<lparr>weProgress = ''file '' @ Itoa n @ '': '' @ path_string path, wePath = path, weErr = None\<rparr> in
        case Backup E bc s (watch_backup P path) of
          None \<Rightarrow> None
        | Some (s', Inl e) \<Rightarrow> Some (s', n, [started, \<lparr>weProgress = [], wePath = path, weErr = Some e\<rparr>])
        | Some (s', Inr res) \<Rightarrow>
            Some (s', n, started # map (\<lambda>f. \<lparr>weProgress = [], wePath = bfPath f, weErr = bfErr f\<rparr>)
                                     (filter (\<lambda>f. bfErr f \<noteq> None) (brFiles res))))"

text \<open>
  \<open>Watch\<close> up to the event loop, in which it stays until the watcher is stopped: the filter and the watcher that
  the loop starts with.
\<close>

definition Watch ::
  "env \<Rightarrow> entropy \<Rightarrow> entropy \<Rightarrow> error option \<Rightarrow> (path \<Rightarrow> bool) \<Rightarrow> time \<Rightarrow> fs \<Rightarrow> WatchParams \<Rightarrow> fs \<times> (Filter \<times> watcher) result" where
  "Watch E r1 r2 fsnotify refused now s P =
     (case wpSrcDir P of
        None \<Rightarrow> (s, Inl (Errorf ''src dir and password are required''))
      | Some srcDir \<Rightarrow>
          if wpPassword P = [] then (s, Inl (Errorf ''src dir and password are required''))
          else (case Parse_Filter (watch_exclude P) of
             Inl e \<Rightarrow> (s, Inl (Wrap ''exclude'' e))
           | Inr ef \<Rightarrow>
          (case OpenOrCreateKeystore E r1 r2 s (wpPassword P) of
             (s1, Inl e) \<Rightarrow> (s1, Inl e)
           | (s1, Inr _) \<Rightarrow>
          (case NewWithDebounce fsnotify srcDir (watch_debounce P) of
             Inl e \<Rightarrow> (s1, Inl (Wrap ''init'' e))
           | Inr c \<Rightarrow> (s1, rbind (Start_Watcher refused s1 now (wcSrcDir c)) (\<lambda>w. Inr (ef, w)))))))"

lemma watch_filter:
  "Watch E r1 r2 fsnotify refused now s P = (s1, Inr (ef, w)) \<Longrightarrow> exclude_filter (bpExclude (watch_backup P p)) = Inr (Some ef)
     \<and> wpPassword P \<noteq> []"
  by (auto simp: Watch_def exclude_filter_def watch_backup_def watch_exclude_def rbind_eq_Inr
      split: option.splits if_splits sum.splits prod.splits)


definition demo_watch_params :: WatchParams where
  "demo_watch_params = \<lparr>wpSrcDir = Some [''src''], wpStoreDir = Some [''cfg'', ''store''], wpPassword = ''pw'', wpBuddies = 3,
     wpDebounce = 0, wpExclude = [], wpAutoPrune = False\<rparr>"

lemma demo_watch_exclude: "Parse_Filter ''.git,node_modules,*.tmp,*.swp'' = Inr \<lparr>flPatterns = [''.git'', ''node_modules'', ''*.tmp'', ''*.swp'']\<rparr>"
  by code_simp

lemma demo_not_excluded: "\<not> Match_Filter \<lparr>flPatterns = [''.git'', ''node_modules'', ''*.tmp'', ''*.swp'']\<rparr> [''src'', ''f'']"
  by code_simp


end
