(* ===== verification/Front_End.thy ===== *)
theory Front_End
  imports Archive Listing Serve Watch
begin

text \<open>
  What the two front ends, the graphical interface and the command line, have in common: the libraries behind the operations of
  \<open>internal/api\<close>, and the random draws, clock readings and map orders of one call.
\<close>

record 'k libraries =
  gE :: env
  gCircles :: "Circle list codec"
  gPid :: "bytes \<Rightarrow> string result"
  gKeyring :: "'k keyringlib"
  gYaml :: "bytes \<Rightarrow> Config \<Rightarrow> Config"
  gMail :: maillib
  gArchive :: arclib
  gNewMnemonic :: "bytes \<Rightarrow> string result"
  gMnemonicToByteArray :: "string \<Rightarrow> bytes result"
  gCwd :: path

record draws =
  gcSetup :: setup_choice
  gcCircle :: circle_choice
  gcInvite :: invite_choice
  gcMail :: mail_choice
  gcMaint :: maint_choice
  gcDiag :: diag_choice
  gcRestore :: restore_choice
  gcBackup :: "nat \<Rightarrow> backup_choice"
  gcRnd1 :: entropy
  gcRnd2 :: entropy
  gcOrd :: "string list"
  gcOrd2 :: "string list"
  gcNow :: time
  gcExpired :: "string list \<Rightarrow> bool"
  gcLatency :: "Entry \<Rightarrow> duration"
  gcFsnotify :: "error option"
  gcRefused :: "path \<Rightarrow> bool"
  gcLimiter :: "Limiter option"

subsection \<open>Concrete libraries\<close>

definition demo_gui :: "unit libraries" where
  "demo_gui = \<lparr>gE = demo_env, gCircles = codec_of circle_fmt, gPid = demo_pid,
     gKeyring = \<lparr>kr_Get = (\<lambda>_ _ _. Inl ErrNotExist), kr_Set = (\<lambda>k _ _ _. (k, None)), kr_Delete = (\<lambda>k _ _. (k, None))\<rparr>,
     gYaml = (\<lambda>_ c. c), gMail = demo_mail, gArchive = demo_arc, gNewMnemonic = (\<lambda>b. Inr (hex_EncodeToString b)),
     gMnemonicToByteArray = hex_DecodeString, gCwd = [''cwd'']\<rparr>"

definition demo_gc :: draws where
  "demo_gc = \<lparr>gcSetup = demo_setup, gcCircle = demo_cc, gcInvite = dgIC demo_diag, gcMail = demo_mc_mail, gcMaint = demo_mc,
     gcDiag = demo_diag, gcRestore = demo_rc, gcBackup = (\<lambda>_. demo_bc), gcRnd1 = Some (\<lambda>_. 1), gcRnd2 = Some (\<lambda>_. 2), gcOrd = [],
     gcOrd2 = [], gcNow = 0, gcExpired = (\<lambda>_. False), gcLatency = (\<lambda>_. 0), gcFsnotify = None, gcRefused = (\<lambda>_. False), gcLimiter = None\<rparr>"

end
