(* ===== verification/Go_Flag.thy ===== *)
theory Go_Flag
  imports Go_Time
begin

text \<open>
  Go's \<open>flag\<close> package as the command line uses it: a flag set is its flags with their values, at first the defaults,
  and \<open>Parse\<close> replaces the values of the flags that it meets until an argument is none. With it the
  parsers of \<open>strconv\<close> and \<open>time\<close> that read the values of integer, boolean and duration flags.
\<close>

subsection \<open>Reading numbers\<close>

definition lower_char :: "char \<Rightarrow> char" where
  "lower_char c = (let n = of_char c :: nat in if 65 \<le> n \<and> n \<le> 90 then char_of (n + 32) else c)"

definition digit36 :: "char \<Rightarrow> nat option" where
  "digit36 c =
     (case digit_val c of
        Some d \<Rightarrow> Some d
      | None \<Rightarrow> let n = of_char (lower_char c) :: nat in if 97 \<le> n \<and> n \<le> 122 then Some (n - 87) else None)"

fun uint_digits :: "nat \<Rightarrow> nat \<Rightarrow> string \<Rightarrow> nat option" where
  "uint_digits base acc [] = Some acc"
| "uint_digits base acc (c # cs) =
     (if c = CHR ''_'' then uint_digits base acc cs
      else case digit36 c of
             None \<Rightarrow> None
           | Some d \<Rightarrow> if base \<le> d then None else uint_digits base (acc * base + d) cs)"

text \<open>\<open>underscoreOK\<close>: \<open>saw\<close> is a digit, an underscore, something else, or nothing yet.\<close>

datatype saw = Saw_Digit | Saw_Underscore | Saw_Other | Saw_Nothing

fun underscores :: "bool \<Rightarrow> saw \<Rightarrow> string \<Rightarrow> bool" where
  "underscores hex saw [] = (saw \<noteq> Saw_Underscore)"
| "underscores hex saw (c # cs) =
     (if digit_val c \<noteq> None \<or> (hex \<and> lower_char c \<in> set ''abcdef'') then underscores hex Saw_Digit cs
      else if c = CHR ''_'' then saw = Saw_Digit \<and> underscores hex Saw_Underscore cs
      else saw \<noteq> Saw_Underscore \<and> underscores hex Saw_Other cs)"

definition underscoreOK :: "string \<Rightarrow> bool" where
  "underscoreOK s =
     (if 2 \<le> length s \<and> s ! 0 = CHR ''0'' \<and> lower_char (s ! 1) \<in> set ''box''
      then underscores (lower_char (s ! 1) = CHR ''x'') Saw_Digit (drop 2 s)
      else underscores False Saw_Nothing s)"

text \<open>The base that the prefix of a literal chooses, and the digits that follow it.\<close>

definition base_prefix :: "string \<Rightarrow> nat \<times> string" where
  "base_prefix s =
     (if s = [] \<or> hd s \<noteq> CHR ''0'' then (10, s)
      else if 3 \<le> length s \<and> lower_char (s ! 1) = CHR ''b'' then (2, drop 2 s)
      else if 3 \<le> length s \<and> lower_char (s ! 1) = CHR ''o'' then (8, drop 2 s)
      else if 3 \<le> length s \<and> lower_char (s ! 1) = CHR ''x'' then (16, drop 2 s)
      else (8, tl s))"

text \<open>\<open>strconv.ParseInt(s, 0, 64)\<close>; every error is \<open>None\<close>.\<close>

definition ParseInt :: "string \<Rightarrow> int option" where
  "ParseInt s =
     (let neg = (s \<noteq> [] \<and> hd s = CHR ''-'');
          body = (if s \<noteq> [] \<and> (hd s = CHR ''-'' \<or> hd s = CHR ''+'') then tl s else s)
      in if body = [] then None
         else case base_prefix body of (base, ds) \<Rightarrow>
           (case uint_digits base 0 ds of
              None \<Rightarrow> None
            | Some n \<Rightarrow>
                if CHR ''_'' \<in> set body \<and> \<not> underscoreOK body then None
                else let v = (if neg then - int n else int n) in if in_int64 v then Some v else None))"

definition ParseBool :: "string \<Rightarrow> bool option" where
  "ParseBool s =
     (if s \<in> {''1'', ''t'', ''T'', ''TRUE'', ''true'', ''True''} then Some True
      else if s \<in> {''0'', ''f'', ''F'', ''FALSE'', ''false'', ''False''} then Some False
      else None)"

subsection \<open>Reading durations\<close>

definition is_digit :: "char \<Rightarrow> bool" where
  "is_digit c \<longleftrightarrow> digit_val c \<noteq> None"

definition leadingInt :: "string \<Rightarrow> (nat \<times> string) option" where
  "leadingInt s =
     (case digits_val 0 (takeWhile is_digit s) of
        None \<Rightarrow> None
      | Some x \<Rightarrow> if 2 ^ 63 < x then None else Some (x, dropWhile is_digit s))"

text \<open>The fraction as a number and its scale; digits beyond 63 bits are passed over.\<close>

fun fraction :: "bool \<Rightarrow> nat \<Rightarrow> nat \<Rightarrow> string \<Rightarrow> nat \<times> nat" where
  "fraction overflow x scale [] = (x, scale)"
| "fraction overflow x scale (c # cs) =
     (if overflow \<or> (2 ^ 63 - 1) div 10 < x then fraction True x scale cs
      else let y = 10 * x + (case digit_val c of None \<Rightarrow> 0 | Some d \<Rightarrow> d) in
        if 2 ^ 63 < y then fraction True x scale cs else fraction False y (10 * scale) cs)"

definition unitMap :: "(string \<times> nat) list" where
  "unitMap = [(''ns'', 1), (''us'', 1000), ([CHR 0xC2, CHR 0xB5, CHR ''s''], 1000), ([CHR 0xCE, CHR 0xBC, CHR ''s''], 1000),
     (''ms'', 1000000), (''s'', 1000000000), (''m'', 60000000000), (''h'', 3600000000000)]"

text \<open>One number with its unit. The fraction times the unit is rounded down; the code computes it in floating point.\<close>

definition duration_item :: "string \<Rightarrow> (nat \<times> string) option" where
  "duration_item s =
     (case leadingInt s of
        None \<Rightarrow> None
      | Some (v, s1) \<Rightarrow>
          let pre = (length s1 \<noteq> length s);
              point = (s1 \<noteq> [] \<and> hd s1 = CHR ''.'');
              fr = (if point then takeWhile is_digit (tl s1) else []);
              s2 = (if point then dropWhile is_digit (tl s1) else s1);
              u = takeWhile (\<lambda>c. c \<noteq> CHR ''.'' \<and> \<not> is_digit c) s2;
              s3 = dropWhile (\<lambda>c. c \<noteq> CHR ''.'' \<and> \<not> is_digit c) s2 in
          if \<not> pre \<and> fr = [] then None
          else if u = [] then None
          else case map_of unitMap u of
            None \<Rightarrow> None
          | Some unit \<Rightarrow>
              if 2 ^ 63 div unit < v then None
              else let v' = v * unit + (case fraction False 0 1 fr of (f, scale) \<Rightarrow> f * unit div scale)
                   in if 2 ^ 63 < v' then None else Some (v', s3))"

lemma duration_item_shorter: "duration_item s = Some (v, r) \<Longrightarrow> length r < length s"
proof -
  assume a: "duration_item s = Some (v, r)"
  obtain w s1 where s1: "leadingInt s = Some (w, s1)" using a by (auto simp: duration_item_def split: option.splits)
  define s2 where "s2 = (if s1 \<noteq> [] \<and> hd s1 = CHR ''.'' then dropWhile is_digit (tl s1) else s1)"
  define u where "u = takeWhile (\<lambda>c. c \<noteq> CHR ''.'' \<and> \<not> is_digit c) s2"
  have u: "u \<noteq> []" "r = dropWhile (\<lambda>c. c \<noteq> CHR ''.'' \<and> \<not> is_digit c) s2"
    using a by (auto simp: duration_item_def s1 Let_def s2_def u_def split: if_splits option.splits prod.splits)
  have "s1 = dropWhile is_digit s" using s1 by (auto simp: leadingInt_def split: option.splits if_splits)
  then have "length s1 \<le> length s" by (simp add: length_dropWhile_le)
  moreover have "length s2 \<le> length s1"
    using length_dropWhile_le [of is_digit "tl s1"] by (auto simp: s2_def)
  moreover have "length s2 = length u + length r"
    unfolding u_def u(2) by (metis length_append takeWhile_dropWhile_id)
  ultimately show "length r < length s" using u(1) by (cases u) simp_all
qed

function duration_items :: "nat \<Rightarrow> string \<Rightarrow> nat option" where
  "duration_items d s =
     (if s = [] then Some d
      else case duration_item s of
             None \<Rightarrow> None
           | Some (v, r) \<Rightarrow>
               if 2 ^ 63 < (d + v) mod 2 ^ 64 then None else duration_items ((d + v) mod 2 ^ 64) r)"
  by pat_completeness auto
termination
  by (relation "measure (\<lambda>(d, s). length s)") (auto dest: duration_item_shorter)

declare duration_items.simps [simp del]

definition ParseDuration :: "string \<Rightarrow> duration option" where
  "ParseDuration s =
     (let neg = (s \<noteq> [] \<and> hd s = CHR ''-'');
          body = (if s \<noteq> [] \<and> (hd s = CHR ''-'' \<or> hd s = CHR ''+'') then tl s else s)
      in if body = ''0'' then Some 0
         else if body = [] then None
         else case duration_items 0 body of
                None \<Rightarrow> None
              | Some d \<Rightarrow> if neg then Some (- int d) else if 2 ^ 63 - 1 < d then None else Some (int d))"

subsection \<open>Flag sets\<close>

datatype flag_value = FString string | FInt int | FBool bool | FDuration duration

type_synonym flags = "(string \<times> flag_value) list"

fun set_flag :: "flag_value \<Rightarrow> string \<Rightarrow> flag_value option" where
  "set_flag (FString _) s = Some (FString s)"
| "set_flag (FInt _) s = map_option FInt (ParseInt s)"
| "set_flag (FBool _) s = map_option FBool (ParseBool s)"
| "set_flag (FDuration _) s = map_option FDuration (ParseDuration s)"

fun is_bool :: "flag_value \<Rightarrow> bool" where
  "is_bool (FBool _) = True"
| "is_bool _ = False"

definition split_eq :: "string \<Rightarrow> string \<times> string option" where
  "split_eq s =
     (let n = takeWhile (\<lambda>c. c \<noteq> CHR ''='') s in
      if length n = length s then (s, None) else (n, Some (drop (length n + 1) s)))"

text \<open>What \<open>Parse\<close> leaves: the values and the arguments that remain, a request for help, or an error.\<close>

datatype flag_outcome = Parsed flags "string list" | Help | Bad

fun parse_flags :: "flags \<Rightarrow> string list \<Rightarrow> flag_outcome" where
  "parse_flags fl [] = Parsed fl []"
| "parse_flags fl (s # args) =
     (if length s < 2 \<or> hd s \<noteq> CHR ''-'' then Parsed fl (s # args)
      else if s = ''--'' then Parsed fl args
      else
        let body = (if s ! 1 = CHR ''-'' then drop 2 s else drop 1 s) in
        if body = [] \<or> hd body = CHR ''-'' \<or> hd body = CHR ''='' then Bad
        else case split_eq body of (name, v) \<Rightarrow>
          (case map_of fl name of
             None \<Rightarrow> if name = ''help'' \<or> name = ''h'' then Help else Bad
           | Some cur \<Rightarrow>
               if is_bool cur then
                 (case set_flag cur (case v of None \<Rightarrow> ''true'' | Some x \<Rightarrow> x) of
                    None \<Rightarrow> Bad
                  | Some new \<Rightarrow> parse_flags (AList.update name new fl) args)
               else (case v of
                       Some x \<Rightarrow> (case set_flag cur x of None \<Rightarrow> Bad | Some new \<Rightarrow> parse_flags (AList.update name new fl) args)
                     | None \<Rightarrow>
                         (case args of
                            [] \<Rightarrow> Bad
                          | x # rest \<Rightarrow> (case set_flag cur x of None \<Rightarrow> Bad | Some new \<Rightarrow> parse_flags (AList.update name new fl) rest)))))"

text \<open>Reading a flag of a parsed set by its name.\<close>

definition str_of :: "flags \<Rightarrow> string \<Rightarrow> string" where
  "str_of fl n = (case map_of fl n of Some (FString s) \<Rightarrow> s | _ \<Rightarrow> [])"

definition int_of_flag :: "flags \<Rightarrow> string \<Rightarrow> int" where
  "int_of_flag fl n = (case map_of fl n of Some (FInt i) \<Rightarrow> i | _ \<Rightarrow> 0)"

definition bool_of :: "flags \<Rightarrow> string \<Rightarrow> bool" where
  "bool_of fl n = (case map_of fl n of Some (FBool b) \<Rightarrow> b | _ \<Rightarrow> False)"

definition dur_of :: "flags \<Rightarrow> string \<Rightarrow> duration" where
  "dur_of fl n = (case map_of fl n of Some (FDuration d) \<Rightarrow> d | _ \<Rightarrow> 0)"

subsection \<open>Laws\<close>

lemma digit36_digit [simp]: "d < 10 \<Longrightarrow> digit36 (digit d) = Some d"
  by (simp add: digit36_def)

lemma digit_not_underscore: "d < 10 \<Longrightarrow> digit d \<noteq> CHR ''_''"
  using of_char_digit [of d] by auto

lemma uint_digits_digits:
  "(\<And>c. c \<in> set s \<Longrightarrow> \<exists>d < 10. c = digit d) \<Longrightarrow> uint_digits 10 acc s = digits_val acc s"
proof (induction s arbitrary: acc)
  case (Cons c cs)
  then obtain d where "d < 10" "c = digit d" by (auto dest: meta_spec)
  with Cons show ?case by (simp add: digit_not_underscore mult.commute)
qed simp

lemma hd_nat_str: "0 < n \<Longrightarrow> hd (nat_str n) \<noteq> CHR ''0''"
proof (induction n rule: nat_str.induct)
  case (1 n)
  have z: "0 < d \<Longrightarrow> d < 10 \<Longrightarrow> digit d \<noteq> CHR ''0''" for d
    using of_char_digit [of d] by auto
  show ?case
  proof (cases "n < 10")
    case True
    with 1 z show ?thesis by (simp add: nat_str.simps [of n])
  next
    case False
    then have "hd (nat_str n) = hd (nat_str (n div 10))" by (simp add: nat_str.simps [of n])
    with 1 False show ?thesis by simp
  qed
qed

text \<open>A printed integer is read back.\<close>

lemma ParseInt_Itoa: "in_int64 i \<Longrightarrow> ParseInt (Itoa i) = Some i"
proof -
  assume i: "in_int64 i"
  have chars: "\<exists>d < 10. c = digit d" if "c \<in> set (nat_str n)" for c n using nat_str_chars [OF that] by blast
  have body: "(case base_prefix (nat_str n) of (b, ds) \<Rightarrow> uint_digits b 0 ds) = Some n" for n
  proof (cases "n = 0")
    case True
    moreover have "(case base_prefix (nat_str 0) of (b, ds) \<Rightarrow> uint_digits b 0 ds) = Some 0" by code_simp
    ultimately show ?thesis by simp
  next
    case False
    then have "base_prefix (nat_str n) = (10, nat_str n)" using hd_nat_str [of n] by (simp add: base_prefix_def)
    then show ?thesis using uint_digits_digits [of "nat_str n" 0] chars digits_val_nat_str [of n] by auto
  qed
  have us: "CHR ''_'' \<notin> set (nat_str n)" for n using chars digit_not_underscore by metis
  note sgn = hd_nat_str_not_sign
  show ?thesis
  proof (cases "i < 0")
    case True
    then show ?thesis
      using i body [of "nat (- i)"] us [of "nat (- i)"] by (auto simp: ParseInt_def Itoa_def Let_def split: prod.splits)
  next
    case False
    then show ?thesis
      using i body [of "nat i"] us [of "nat i"] sgn [of "nat i"] by (auto simp: ParseInt_def Itoa_def Let_def split: prod.splits)
  qed
qed

definition flag_name :: "string \<Rightarrow> bool" where
  "flag_name n \<longleftrightarrow> n \<noteq> [] \<and> hd n \<noteq> CHR ''-'' \<and> CHR ''='' \<notin> set n"

lemma split_eq_joined: "flag_name n \<Longrightarrow> split_eq (n @ CHR ''='' # v) = (n, Some v)"
proof -
  assume "flag_name n"
  then have "takeWhile (\<lambda>c. c \<noteq> CHR ''='') (n @ CHR ''='' # v) = n"
    by (subst takeWhile_append2) (auto simp: flag_name_def)
  then show ?thesis by (simp add: split_eq_def Let_def)
qed

lemma split_eq_alone: "flag_name n \<Longrightarrow> split_eq n = (n, None)"
proof -
  assume "flag_name n"
  then have "takeWhile (\<lambda>c. c \<noteq> CHR ''='') n = n" by (auto simp: flag_name_def takeWhile_eq_all_conv)
  then show ?thesis unfolding split_eq_def Let_def by (simp only: refl if_True)
qed

text \<open>A flag with its value in one argument, or in the next one.\<close>

lemma parse_flags_joined:
  assumes "flag_name n" and "map_of fl n = Some cur" and "set_flag cur v = Some new"
  shows "parse_flags fl ((''--'' @ n @ CHR ''='' # v) # args) = parse_flags (AList.update n new fl) args"
  using assms split_eq_joined [OF assms(1), of v] by (cases n) (auto simp: flag_name_def)

lemma parse_flags_next:
  assumes "flag_name n" and "map_of fl n = Some cur" and "set_flag cur v = Some new" and "\<not> is_bool cur"
  shows "parse_flags fl ((''--'' @ n) # v # args) = parse_flags (AList.update n new fl) args"
  using assms split_eq_alone [OF assms(1)] by (cases n) (auto simp: flag_name_def)

lemma parse_flags_switch:
  assumes "flag_name n" and "map_of fl n = Some (FBool b)"
  shows "parse_flags fl ((''--'' @ n) # args) = parse_flags (AList.update n (FBool True) fl) args"
  using assms split_eq_alone [OF assms(1)] by (cases n) (auto simp: flag_name_def ParseBool_def)

text \<open>Parsing stops at the first argument that is no flag: what follows it is not looked at.\<close>

lemma parse_flags_stops: "s = [] \<or> hd s \<noteq> CHR ''-'' \<Longrightarrow> parse_flags fl (s # args) = Parsed fl (s # args)"
  by auto

text \<open>A flag keeps its type.\<close>

fun same_type :: "flag_value \<Rightarrow> flag_value \<Rightarrow> bool" where
  "same_type (FString _) (FString _) = True"
| "same_type (FInt _) (FInt _) = True"
| "same_type (FBool _) (FBool _) = True"
| "same_type (FDuration _) (FDuration _) = True"
| "same_type _ _ = False"

lemma set_flag_type: "set_flag cur s = Some new \<Longrightarrow> same_type cur new"
  by (cases cur) auto

end
