(* ===== verification/Go_Fmt.thy ===== *)
theory Go_Fmt
  imports Go_Time
begin

text \<open>
  The verbs of \<open>fmt.Printf\<close> and the layouts of \<open>time.Format\<close> that the command line prints with: padded columns, dates in
  UTC, one or two decimals. A width counts runes.
\<close>

text \<open>A character between U+0800 and U+FFFF in UTF-8.\<close>

definition rune :: "nat \<Rightarrow> string" where
  "rune n = [char_of (224 + n div 4096), char_of (128 + n div 64 mod 64), char_of (128 + n mod 64)]"

definition rune_row :: "nat \<Rightarrow> nat \<Rightarrow> string" where
  "rune_row k n = concat (replicate k (rune n))"

definition runes :: "string \<Rightarrow> nat" where
  "runes s = length (filter (\<lambda>c. let n = of_char c :: nat in n < 128 \<or> 192 \<le> n) s)"

text \<open>The verbs \<open>%-ns\<close> and \<open>%ns\<close>.\<close>

definition pad_right :: "nat \<Rightarrow> string \<Rightarrow> string" where
  "pad_right n s = s @ replicate (n - runes s) (CHR '' '')"

definition pad_left :: "nat \<Rightarrow> string \<Rightarrow> string" where
  "pad_left n s = replicate (n - runes s) (CHR '' '') @ s"

text \<open>A number with at least \<open>k\<close> digits, as \<open>2006\<close>, \<open>01\<close>, \<open>02\<close>, \<open>15\<close>, \<open>04\<close> and \<open>05\<close> print it.\<close>

definition zero_pad :: "nat \<Rightarrow> int \<Rightarrow> string" where
  "zero_pad k i = (let ds = nat_str (nat \<bar>i\<bar>) in (if i < 0 then ''-'' else []) @ replicate (k - length ds) (CHR ''0'') @ ds)"

fun day_in_month :: "int \<Rightarrow> int list \<Rightarrow> int" where
  "day_in_month yday [] = yday + 1"
| "day_in_month yday (n # ns) = (if yday < n then yday + 1 else day_in_month (yday - n) ns)"

definition time_Day :: "time \<Rightarrow> int" where
  "time_Day t =
     (case civil (day_of t) of (y, yday) \<Rightarrow>
        day_in_month yday [31, if is_leap y then 29 else 28, 31, 30, 31, 30, 31, 31, 30, 31, 30])"

text \<open>The layouts \<open>2006-01-02\<close>, \<open>2006-01-02 15:04\<close> and \<open>2006-01-02 15:04:05\<close>.\<close>

definition format_date :: "time \<Rightarrow> string" where
  "format_date t = zero_pad 4 (time_Year t) @ ''-'' @ zero_pad 2 (time_Month t) @ ''-'' @ zero_pad 2 (time_Day t)"

definition format_minute :: "time \<Rightarrow> string" where
  "format_minute t =
     format_date t @ '' '' @ zero_pad 2 (t div Hour mod 24) @ '':'' @ zero_pad 2 (t div Minute mod 60)"

definition format_second :: "time \<Rightarrow> string" where
  "format_second t = format_minute t @ '':'' @ zero_pad 2 (t div Second mod 60)"

text \<open>A quotient to \<open>k\<close> decimals, rounded to the nearest and to even at a tie.\<close>

definition round_even :: "int \<Rightarrow> int \<Rightarrow> int" where
  "round_even n d =
     (let q = n div d; r = n mod d in if d < 2 * r \<or> (2 * r = d \<and> odd q) then q + 1 else q)"

definition decimals :: "nat \<Rightarrow> int \<Rightarrow> int \<Rightarrow> string" where
  "decimals k n d =
     (let q = round_even (\<bar>n\<bar> * 10 ^ k) d
      in (if n < 0 then ''-'' else []) @ Itoa (q div 10 ^ k) @ ''.'' @ zero_pad k (q mod 10 ^ k))"

lemma runes_pad_right: "runes s \<le> n \<Longrightarrow> runes (pad_right n s) = n"
proof -
  assume "runes s \<le> n"
  moreover have "runes (replicate m (CHR '' '')) = m" for m by (induction m) (simp_all add: runes_def)
  ultimately show ?thesis by (simp add: pad_right_def runes_def)
qed

subsection \<open>Durations\<close>

text \<open>\<open>fmtFrac\<close>: the last \<open>prec\<close> digits of \<open>v\<close> as a fraction without trailing zeros, in front of \<open>t\<close>; and what is left of \<open>v\<close>.\<close>

fun fmtFrac :: "nat \<Rightarrow> int \<Rightarrow> bool \<Rightarrow> string \<Rightarrow> string \<times> int" where
  "fmtFrac 0 v printed t = (if printed then CHR ''.'' # t else t, v)"
| "fmtFrac (Suc prec) v printed t =
     (let print = (printed \<or> v mod 10 \<noteq> 0)
      in fmtFrac prec (v div 10) print (if print then digit (nat (v mod 10)) # t else t))"

text \<open>\<open>Duration.String\<close>.\<close>

definition Duration_String :: "duration \<Rightarrow> string" where
  "Duration_String d =
     (let u = \<bar>d\<bar>; sign = (if d < 0 then ''-'' else []) in
      if u = 0 then ''0s''
      else if u < 1000 then sign @ Itoa u @ ''ns''
      else if u < 1000000 then (case fmtFrac 3 u False [CHR 0xC2, CHR 0xB5, CHR ''s''] of (t, v) \<Rightarrow> sign @ Itoa v @ t)
      else if u < Second then (case fmtFrac 6 u False ''ms'' of (t, v) \<Rightarrow> sign @ Itoa v @ t)
      else (case fmtFrac 9 u False ''s'' of
        (t, v) \<Rightarrow>
          let secs = Itoa (v mod 60) @ t; mins = v div 60 in
          sign @ (if mins = 0 then secs
                  else (if mins div 60 = 0 then [] else Itoa (mins div 60) @ ''h'') @ Itoa (mins mod 60) @ ''m'' @ secs)))"

end
