(* ===== verification/Cli.thy ===== *)
theory Cli
  imports Front_End Go_Flag Go_Fmt
begin

text \<open>
  \<open>cmd/cerclbackup/main.go\<close> and \<open>password_unix.go\<close>: the command line. Each command is a function from the arguments and
  the disk to the disk, the way the process ends and what it prints. A panic of the code below (an error \<open>Panic\<close> of the model) or of the command
  itself ends the process, a running daemon or watch is an ending of its own.
\<close>

subsection \<open>The process and its surroundings\<close>

text \<open>
  Standard input is a terminal, from which \<open>term.ReadPassword\<close> reads, or a pipe with the pieces that each read returns (of at most 4096 bytes).
\<close>

datatype stdin = Terminal "string result list" | Pipe "string list"

text \<open>
  \<open>tmText\<close> is the text of an error, of which the model keeps the constant parts only; \<open>tmParse\<close> is
  \<open>time.ParseInLocation\<close> and \<open>tmLocal\<close> the layout \<open>2006-01-02 15:04\<close> in the time zone of the machine; \<open>tmVersion\<close> is
  the version that the build stamps in.
\<close>

record terminal =
  tmPassword :: string
  tmStdin :: stdin
  tmVersion :: string
  tmText :: "error \<Rightarrow> string"
  tmParse :: "string \<Rightarrow> string \<Rightarrow> time option"
  tmLocal :: "time \<Rightarrow> string"

datatype cli_end = Exit int | Crash string | Serving daemon | Watching "Filter \<times> watcher"

text \<open>
  What is printed: on standard output, on standard error, through the logger (without its time stamp), a line of
  \<open>doctor\<close>, the usage text of a flag set with the message that the flag package may put before it.
\<close>

datatype say = Out string | Err string | Log string | Check bool string doctor_msg | Usage string

definition newline :: string where "newline = [CHR 0x0A]"

definition line :: "string \<Rightarrow> say" where "line x = Out (x @ newline)"

definition err_line :: "string \<Rightarrow> say" where "err_line x = Err (x @ newline)"

definition serveLogFilter_Write :: "string \<Rightarrow> say list" where
  "serveLogFilter_Write p =
     (if Contains p ''Failed to set multicast interface'' \<or> Contains p ''failed to sufficiently increase receive buffer size'' then []
      else [Log p])"

fun panicked :: "error \<Rightarrow> string option" where
  "panicked (Panic m) = Some m"
| "panicked (Wrap _ e) = panicked e"
| "panicked _ = None"

text \<open>\<open>log.Fatalf(prefix + "%v", err)\<close>, and \<open>log.Printf\<close> of it before \<open>return 1\<close>.\<close>

definition fails :: "terminal \<Rightarrow> string \<Rightarrow> error \<Rightarrow> cli_end \<times> say list" where
  "fails t pre e =
     (case panicked e of Some m \<Rightarrow> (Crash m, []) | None \<Rightarrow> (Exit 1, serveLogFilter_Write (pre @ tmText t e)))"

text \<open>The same with \<open>fmt.Fprintln(os.Stderr, prefix, err)\<close> and more lines.\<close>

definition fails_plain :: "terminal \<Rightarrow> string \<Rightarrow> error \<Rightarrow> say list \<Rightarrow> cli_end \<times> say list" where
  "fails_plain t pre e says =
     (case panicked e of Some m \<Rightarrow> (Crash m, []) | None \<Rightarrow> (Exit 1, err_line (pre @ tmText t e) # says))"

text \<open>A flag set with \<open>flag.ExitOnError\<close>.\<close>

definition with_flags :: "string \<Rightarrow> flags \<Rightarrow> string list \<Rightarrow> (cli_end \<times> say list \<Rightarrow> 'a) \<Rightarrow> (flags \<Rightarrow> 'a) \<Rightarrow> 'a" where
  "with_flags name fl args stop f =
     (case parse_flags fl args of
        Parsed fl' _ \<Rightarrow> f fl'
      | Help \<Rightarrow> stop (Exit 0, [Usage name])
      | Bad \<Rightarrow> stop (Exit 2, [Usage name]))"

definition password_flag :: "Config \<Rightarrow> string \<times> flag_value" where
  "password_flag cfg = (''password'', FString (cfPassword cfg))"

definition store_flag :: "'k libraries \<Rightarrow> string \<times> flag_value" where
  "store_flag G = (''store'', FString (path_string (DefaultStorePath (eOS (gE G)))))"

text \<open>A path given as an argument; a relative one is resolved, where the code leaves it to the system and records it as it is.\<close>

definition arg_path :: "'k libraries \<Rightarrow> string \<Rightarrow> path option" where
  "arg_path G x = (if x = [] then None else Some (Join (if hd x = CHR ''/'' then [] else gCwd G) [x]))"

subsection \<open>Passwords\<close>

text \<open>
  \<open>bufio.Reader.ReadString\<close> from a pipe: the line and whether it was ended; what a piece holds after it is lost with the reader.
\<close>

fun read_line :: "string \<Rightarrow> string list \<Rightarrow> string \<times> bool \<times> string list" where
  "read_line acc [] = (acc, False, [])"
| "read_line acc (piece # pieces) =
     (if CHR 0x0A \<in> set piece then (acc @ takeWhile (\<lambda>c. c \<noteq> CHR 0x0A) piece, True, pieces)
      else read_line (acc @ piece) pieces)"

fun readPassword :: "stdin \<Rightarrow> stdin \<times> string result" where
  "readPassword (Terminal []) = (Terminal [], Inl ErrEOF)"
| "readPassword (Terminal (r # rs)) = (Terminal rs, r)"
| "readPassword (Pipe pieces) =
     (case read_line [] pieces of (l, ended, rest) \<Rightarrow> (Pipe rest, if ended then Inr l else Inl ErrEOF))"

definition promptPassword :: "stdin \<Rightarrow> string \<Rightarrow> stdin \<times> string result \<times> say list" where
  "promptPassword i prompt = (case readPassword i of (i', r) \<Rightarrow> (i', r, [Out prompt, line []]))"

definition maskPassword :: "string \<Rightarrow> string" where
  "maskPassword p = (if p = [] then ''(not set)'' else ''***'')"

subsection \<open>Sizes\<close>

text \<open>The loop of \<open>formatBytes\<close>: \<open>n\<close>, the divisor and the index of the unit.\<close>

function unit_loop :: "int \<Rightarrow> int \<Rightarrow> nat \<Rightarrow> int \<times> nat" where
  "unit_loop n d i = (if n \<ge> 1024 then unit_loop (n div 1024) (wrap64 (d * 1024)) (i + 1) else (d, i))"
  by pat_completeness auto
termination
  by (relation "measure (\<lambda>(n, d, i). nat n)") auto

declare unit_loop.simps [simp del]

definition formatBytes :: "int \<Rightarrow> string" where
  "formatBytes b =
     (if b < 1024 then Itoa b @ '' B''
      else case unit_loop (b div 1024) 1024 0 of
        (d, i) \<Rightarrow> decimals 1 b d @ '' '' @ [''KMGTPE'' ! i] @ ''iB'')"

subsection \<open>Backing up, restoring, listing\<close>

text \<open>
  The progress lines of a backup and a restore, and the events of a watch, come from \<open>internal/api\<close> while it runs and are not part
  of the model; the upload limit only delays.
\<close>

definition runBackup ::
  "'k libraries \<Rightarrow> draws \<Rightarrow> Config \<Rightarrow> terminal \<Rightarrow> fs \<Rightarrow> string list \<Rightarrow> (fs \<times> cli_end \<times> say list) option" where
  "runBackup G c cfg t s args =
     with_flags ''backup''
       [(''src'', FString (cfSrc cfg)), store_flag G, password_flag cfg, (''buddies'', FInt 5),
        (''exclude'', FString (cfExclude cfg)), (''upload-kbps'', FInt (cfUploadKbps cfg)), (''auto-prune'', FBool (cfAutoPrune cfg))]
       args (\<lambda>r. Some (s, r)) (\<lambda>f.
     if str_of f ''src'' = [] \<or> str_of f ''password'' = [] then Some (s, Exit 1, [Usage ''backup''])
     else case Backup (gE G) (gcBackup c 0) s
            \<lparr>bpSrc = arg_path G (str_of f ''src''), bpStoreDir = arg_path G (str_of f ''store''), bpPassword = str_of f ''password'',
             bpBuddies = int_of_flag f ''buddies'', bpExclude = str_of f ''exclude'', bpAutoPrune = bool_of f ''auto-prune''\<rparr> of
       None \<Rightarrow> None
     | Some (s', Inl e) \<Rightarrow> Some (s', fails t ''[backup] '' e)
     | Some (s', Inr r) \<Rightarrow>
         Some (s', Exit 0,
           concat (map (\<lambda>b. case bfErr b of
                         None \<Rightarrow> []
                       | Some e \<Rightarrow> serveLogFilter_Write (''[backup] '' @ path_string (bfPath b) @ '': '' @ tmText t e)) (brFiles r))))"

definition runRestore :: "'k libraries \<Rightarrow> draws \<Rightarrow> Config \<Rightarrow> terminal \<Rightarrow> fs \<Rightarrow> string list \<Rightarrow> fs \<times> cli_end \<times> say list" where
  "runRestore G c cfg t s args =
     with_flags ''restore''
       [(''file-id'', FString []), (''file'', FString []), (''version'', FInt 0), store_flag G, (''out'', FString []), password_flag cfg]
       args (\<lambda>r. (s, r)) (\<lambda>f.
     if str_of f ''out'' = [] \<or> str_of f ''password'' = [] then (s, Exit 1, [Usage ''restore''])
     else if str_of f ''file-id'' = [] \<and> str_of f ''file'' = []
     then (s, Exit 1, serveLogFilter_Write ''[restore] one of --file-id or --file is required'')
     else case Restore (gE G) (gcRestore c) s
            \<lparr>rpStoreDir = arg_path G (str_of f ''store''), rpPassword = str_of f ''password'', rpOut = arg_path G (str_of f ''out''),
             rpFileID = str_of f ''file-id'', rpFilePath = str_of f ''file'', rpVersion = int_of_flag f ''version''\<rparr> of
       (s', Inl e) \<Rightarrow> (s', fails t ''[restore] '' e)
     | (s', Inr _) \<Rightarrow> (s', Exit 0, []))"

definition list_row :: "ManifestEntry \<Rightarrow> say" where
  "list_row e =
     line (pad_right 4 (Itoa (meVersion e)) @ ''  '' @ pad_right 36 (meFileID e) @ ''  '' @ pad_right 50 (mePath e) @ ''  ''
       @ pad_left 10 (Itoa (meSize e)) @ ''  '' @ format_minute (if meBackedAt e = 0 then meModified e else meBackedAt e))"

definition runList :: "'k libraries \<Rightarrow> draws \<Rightarrow> Config \<Rightarrow> terminal \<Rightarrow> fs \<Rightarrow> string list \<Rightarrow> fs \<times> cli_end \<times> say list" where
  "runList G c cfg t s args =
     with_flags ''list'' [store_flag G, password_flag cfg, (''all'', FBool False)] args (\<lambda>r. (s, r)) (\<lambda>f.
     if str_of f ''password'' = [] then (s, Exit 1, [Usage ''list''])
     else case ListFiles_Api (gE G) (gcRnd1 c) (gcRnd2 c) (gcOrd c) (gcOrd2 c) s
            \<lparr>lpPassword = str_of f ''password'', lpAll = bool_of f ''all''\<rparr> of
       (s', Inl e) \<Rightarrow> (s', fails t ''[list] '' e)
     | (s', Inr entries) \<Rightarrow>
         (s', Exit 0,
           if entries = [] then [line ''No files backed up yet.'']
           else [line (pad_right 4 ''VER'' @ ''  '' @ pad_right 36 ''FILE-ID'' @ ''  '' @ pad_right 50 ''PATH'' @ ''  ''
                   @ pad_left 10 ''SIZE'' @ ''  '' @ ''BACKED AT''),
                 line (rune_row 113 0x2500)]
                @ map list_row entries))"

subsection \<open>The daemon\<close>

definition runServe :: "'k libraries \<Rightarrow> draws \<Rightarrow> Config \<Rightarrow> terminal \<Rightarrow> fs \<Rightarrow> string list \<Rightarrow> fs \<times> cli_end \<times> say list" where
  "runServe G c cfg t s args =
     with_flags ''serve''
       [password_flag cfg, (''port'', FInt DefaultPort), (''upload-kbps'', FInt (cfUploadKbps cfg)),
        (''health-addr'', FString (cfHealthAddr cfg)), (''redial-interval'', FDuration DefaultRedialInterval)]
       args (\<lambda>r. (s, r)) (\<lambda>f.
     if str_of f ''password'' = [] then (s, Exit 1, [Usage ''serve''])
     else case StartServe (gE G) (gcInvite c) (gcNow c) (gcLimiter c) s
            \<lparr>svPassword = str_of f ''password'', svPort = int_of_flag f ''port'', svUploadKbps = int_of_flag f ''upload-kbps'',
             svHealthAddr = str_of f ''health-addr'', svRedialInterval = dur_of f ''redial-interval''\<rparr> of
       (s', Inl e) \<Rightarrow> (s', fails t [] e)
     | (s', Inr d) \<Rightarrow>
         (s', Serving d,
           [line ''CerclBackup daemon running'', line (''Peer ID : '' @ sdPeerID d)]
           @ map (\<lambda>a. line (''Address : '' @ a)) (sdAddrs d)
           @ (if str_of f ''health-addr'' = [] then [] else [line (''Health  : http://'' @ str_of f ''health-addr'' @ ''/health'')])))"

text \<open>What follows when the daemon is told to stop and \<open>Wait\<close> returns.\<close>

definition runServe_end :: "daemon \<Rightarrow> daemon \<times> cli_end \<times> say list" where
  "runServe_end d = (Stop_Serve d, Exit 0, [line (newline @ ''Shutting down.'')])"

subsection \<open>Invitations\<close>

definition runInvite :: "'k libraries \<Rightarrow> draws \<Rightarrow> Config \<Rightarrow> terminal \<Rightarrow> fs \<Rightarrow> string list \<Rightarrow> fs \<times> cli_end \<times> say list" where
  "runInvite G c cfg t s args =
     with_flags ''invite'' [password_flag cfg, (''port'', FInt 7742), (''name'', FString [])] args (\<lambda>r. (s, r)) (\<lambda>f.
     if str_of f ''password'' = [] then (s, Exit 1, [Usage ''invite''])
     else case Invite_Api (gE G) (gNewMnemonic G) (gcInvite c) s (str_of f ''password'') (int_of_flag f ''port'') of
       (s', Inl e) \<Rightarrow> (s', fails t [] e)
     | (s', Inr iv) \<Rightarrow>
         let nameFlag = (if str_of f ''name'' = [] then [] else '' --name '' @ ml_Quote (gMail G) (str_of f ''name'')) in
         (s', Exit 0,
           [line [], line (rune_row 2 0x2500 @ '' Step 1 '' @ rune 0x2014 @ '' Send this command to your buddy (chat, email, etc.) '' @ rune_row 8 0x2500),
            line (''  cerclbackup join --addr '' @ vrJoinAddr iv @ '' --words '' @ ml_Quote (gMail G) (vrWords iv) @ nameFlag
              @ '' --password <their-pw>''),
            line [], line (rune_row 2 0x2500 @ '' Step 2 '' @ rune 0x2014 @ '' Verify by voice or in person (prevents interception) '' @ rune_row 7 0x2500),
            line (''  Tell your buddy your last 3 words: '' @ vrVerbalWords iv),
            line ''  Your buddy must confirm these match before running the command above.'',
            line [], line (rune_row 2 0x2500 @ '' All your addresses (if buddy needs a different one) '' @ rune_row 18 0x2500)]
           @ map (\<lambda>a. line (''  '' @ a)) (vrAddrs iv)
           @ [line [], line ''Code expires in 24 hours.'']))"

definition runJoin :: "'k libraries \<Rightarrow> draws \<Rightarrow> Config \<Rightarrow> terminal \<Rightarrow> fs \<Rightarrow> string list \<Rightarrow> fs \<times> cli_end \<times> say list" where
  "runJoin G c cfg t s args =
     with_flags ''join''
       [(''addr'', FString []), (''words'', FString []), password_flag cfg, (''name'', FString []), (''port'', FInt 7742)]
       args (\<lambda>r. (s, r)) (\<lambda>f.
     if str_of f ''addr'' = [] \<or> str_of f ''words'' = [] \<or> str_of f ''password'' = [] then (s, Exit 1, [Usage ''join''])
     else case Join_Api (gE G) (gMnemonicToByteArray G) (gcInvite c) s (str_of f ''password'') (str_of f ''addr'')
            (str_of f ''words'') (str_of f ''name'') (int_of_flag f ''port'') of
       (s', Inl e) \<Rightarrow> (s', fails t [] e)
     | (s', Inr peerID) \<Rightarrow> (s', Exit 0, [line (''Paired with buddy '' @ peerID)]))"

definition runInviteEmail :: "'k libraries \<Rightarrow> draws \<Rightarrow> Config \<Rightarrow> terminal \<Rightarrow> fs \<Rightarrow> string list \<Rightarrow> fs \<times> cli_end \<times> say list" where
  "runInviteEmail G c cfg t s args =
     with_flags ''invite-email''
       [(''to'', FString []), (''circle'', FString ''CerclBackup''), password_flag cfg] args (\<lambda>r. (s, r)) (\<lambda>f.
     if str_of f ''to'' = [] \<or> str_of f ''password'' = [] then (s, Exit 1, [Usage ''invite-email''])
     else case InviteEmail (gE G) (gMail G) (gcMail c) s (str_of f ''password'') (str_of f ''circle'') (str_of f ''to'') of
       (s', Inl e) \<Rightarrow> (s', fails t ''invite-email: '' e)
     | (s', Inr r) \<Rightarrow>
         (s', Exit 0,
           [line (''CerclBackup does not send email itself '' @ rune 0x2014 @ '' copy this into your own mail client:''),
            line (newline @ ''To: '' @ str_of f ''to''), line (''Subject: '' @ ierSubject r @ newline), line (ierBody r),
            line (''*** SHARE THIS CODE VIA SMS / SIGNAL / VOICE '' @ rune 0x2014 @ '' NOT BY EMAIL ***''),
            line ''*** Confirm with the recipient by voice/in person that it's really them before they use it ***'',
            line (''12-word OOB code: '' @ ierWords r), line (''Peer ID: '' @ ierPeerID r)]))"

definition runJoinEmail :: "'k libraries \<Rightarrow> draws \<Rightarrow> Config \<Rightarrow> terminal \<Rightarrow> fs \<Rightarrow> string list \<Rightarrow> fs \<times> cli_end \<times> say list" where
  "runJoinEmail G c cfg t s args =
     with_flags ''join-email'' [(''payload'', FString []), (''words'', FString []), password_flag cfg] args (\<lambda>r. (s, r)) (\<lambda>f.
     case arg_path G (str_of f ''payload'') of
       None \<Rightarrow> (s, Exit 1, [Usage ''join-email''])
     | Some payload \<Rightarrow>
         if str_of f ''words'' = [] \<or> str_of f ''password'' = [] then (s, Exit 1, [Usage ''join-email''])
         else (case ReadFile s payload of
           Inl e \<Rightarrow> (s, fails t ''join-email: read payload: '' e)
         | Inr d \<Rightarrow>
             (case JoinEmail (gE G) (gMail G) (gcMail c) s (str_of f ''password'') d (str_of f ''words'') of
                (s', Inl e) \<Rightarrow> (s', fails t ''join-email: '' e)
              | (s', Inr (circleName, peerID)) \<Rightarrow>
                  (s', Exit 0,
                    [line ''Invite verified (signature + OOB commitment match).'',
                     line (''Joined circle \"'' @ circleName @ (''\" '' @ rune 0x2014 @ '' buddy '') @ peerID @ '' added.'')]))))"

subsection \<open>Buddies\<close>

definition runBuddyLegacy :: "'k libraries \<Rightarrow> draws \<Rightarrow> Config \<Rightarrow> terminal \<Rightarrow> fs \<Rightarrow> string list \<Rightarrow> fs \<times> cli_end \<times> say list" where
  "runBuddyLegacy G c cfg t s args =
     (if args = [] \<or> hd args \<noteq> ''list'' then (s, Exit 1, [err_line ''usage: cerclbackup buddy list --password <pwd>''])
      else with_flags ''buddy list'' [password_flag cfg] (tl args) (\<lambda>r. (s, r)) (\<lambda>f.
        if str_of f ''password'' = [] then (s, Exit 1, [Usage ''buddy list''])
        else case BuddyList (gE G) (gcOrd c) s (str_of f ''password'') of
          Inl e \<Rightarrow> (s, fails t [] e)
        | Inr entries \<Rightarrow>
            (s, Exit 0,
              if entries = [] then [line ''No buddies yet.'']
              else [line (pad_right 20 ''Friendly Name'' @ ''  Peer ID''), line (pad_right 20 ''-------------'' @ ''  -------'')]
                   @ map (\<lambda>b. line (pad_right 20 (if beFriendlyName b = [] then ''(unnamed)'' else beFriendlyName b) @ ''  '' @ bePeerID b))
                       entries)))"

definition runBuddyRm :: "'k libraries \<Rightarrow> draws \<Rightarrow> Config \<Rightarrow> terminal \<Rightarrow> fs \<Rightarrow> string list \<Rightarrow> fs \<times> cli_end \<times> say list" where
  "runBuddyRm G c cfg t s args =
     with_flags ''buddy rm''
       [(''peer-id'', FString []), password_flag cfg, (''no-rebalance'', FBool False)] args (\<lambda>r. (s, r)) (\<lambda>f.
     if str_of f ''peer-id'' = [] \<or> str_of f ''password'' = []
     then (s, Exit 1, [err_line ''buddy rm: --peer-id and --password are required''])
     else
       let intro = (if bool_of f ''no-rebalance'' then [] else [line ''Rebalancing shards across remaining buddies...'']) in
       case BuddyRemove (gE G) (gcExpired c) (gcMaint c) (gcInvite c) s (str_of f ''password'') (str_of f ''peer-id'')
              (bool_of f ''no-rebalance'') of
         (s', Some e) \<Rightarrow> (s', fst (fails t ''buddy rm: '' e), intro @ snd (fails t ''buddy rm: '' e))
       | (s', None) \<Rightarrow> (s', Exit 0, intro @ [line (''Buddy '' @ str_of f ''peer-id'' @ '' removed.'')]))"

text \<open>The rows of \<open>buddy status\<close>; a buddy without a name whose peer ID has fewer than 12 bytes is a panic.\<close>

fun status_rows :: "BuddyStatusEntry list \<Rightarrow> int \<Rightarrow> cli_end \<times> say list" where
  "status_rows [] exitCode = (Exit exitCode, [])"
| "status_rows (r # rs) exitCode =
     (let b = bsEntry r in
      if beFriendlyName b = [] \<and> length (bePeerID b) < 12 then (Crash ''slice bounds out of range'', [])
      else
        let name = (if beFriendlyName b = [] then take 12 (bePeerID b) @ ''...'' else beFriendlyName b);
            status = (if bsOnline r then ''online'' else ''OFFLINE'');
            lat = (if bsOnline r then Itoa (bsLatency r div 1000000) @ ''ms'' else ''-'')
        in case status_rows rs (if bsOnline r then exitCode else 2) of
             (e, rows) \<Rightarrow>
               (e, line (pad_right 20 name @ ''  '' @ pad_right 12 status @ ''  '' @ pad_right 10 lat @ ''  '' @ bePeerID b) # rows))"

text \<open>The connect timeout is no part of the model: what a dial does is a parameter.\<close>

definition runBuddyStatus :: "'k libraries \<Rightarrow> draws \<Rightarrow> Config \<Rightarrow> terminal \<Rightarrow> fs \<Rightarrow> string list \<Rightarrow> fs \<times> cli_end \<times> say list" where
  "runBuddyStatus G c cfg t s args =
     with_flags ''buddy status'' [password_flag cfg, (''timeout'', FDuration (5 * Second))] args (\<lambda>r. (s, r)) (\<lambda>f.
     if str_of f ''password'' = [] then (s, Exit 1, [err_line ''buddy status: --password is required''])
     else case BuddyStatus (gE G) (gcInvite c) (gcLatency c) s (str_of f ''password'') of
       (s', Inl e) \<Rightarrow> (s', fails t ''buddy status: '' e)
     | (s', Inr results) \<Rightarrow>
         if results = [] then (s', Exit 0, [line ''No buddies registered yet.  Use 'cerclbackup invite' to add one.''])
         else
           let head = [line (pad_right 20 ''NAME'' @ ''  '' @ pad_right 12 ''STATUS'' @ ''  '' @ pad_right 10 ''LATENCY'' @ ''  PEER ID''),
                       line (rune_row 70 0x2500)]
           in case status_rows results 0 of (e, rows) \<Rightarrow> (s', e, head @ rows))"

definition runBuddy :: "'k libraries \<Rightarrow> draws \<Rightarrow> Config \<Rightarrow> terminal \<Rightarrow> fs \<Rightarrow> string list \<Rightarrow> fs \<times> cli_end \<times> say list" where
  "runBuddy G c cfg t s args =
     (case args of
        [] \<Rightarrow> (s, Exit 1, [err_line ''Usage: cerclbackup buddy <list|status|rm> [flags]''])
      | sub # rest \<Rightarrow>
          if sub = ''status'' then runBuddyStatus G c cfg t s rest
          else if sub = ''list'' then runBuddyLegacy G c cfg t s args
          else if sub = ''rm'' then runBuddyRm G c cfg t s rest
          else runBuddyLegacy G c cfg t s args)"

definition runRevoke :: "'k libraries \<Rightarrow> draws \<Rightarrow> Config \<Rightarrow> terminal \<Rightarrow> fs \<Rightarrow> string list \<Rightarrow> fs \<times> cli_end \<times> say list" where
  "runRevoke G c cfg t s args =
     with_flags ''revoke'' [(''peer-id'', FString []), password_flag cfg] args (\<lambda>r. (s, r)) (\<lambda>f.
     if str_of f ''peer-id'' = [] \<or> str_of f ''password'' = [] then (s, Exit 1, [Usage ''revoke''])
     else case BuddyRemove (gE G) (gcExpired c) (gcMaint c) (gcInvite c) s (str_of f ''password'') (str_of f ''peer-id'') False of
       (s', Some e) \<Rightarrow> (s', fails t ''revoke: '' e)
     | (s', None) \<Rightarrow>
         (s', Exit 0, [line (''Buddy '' @ str_of f ''peer-id'' @ '' removed.''), line ''Rebalancing shards across remaining buddies...'']))"

definition runRebalance :: "'k libraries \<Rightarrow> draws \<Rightarrow> Config \<Rightarrow> terminal \<Rightarrow> fs \<Rightarrow> string list \<Rightarrow> fs \<times> cli_end \<times> say list" where
  "runRebalance G c cfg t s args =
     with_flags ''rebalance'' [password_flag cfg, store_flag G] args (\<lambda>r. (s, r)) (\<lambda>f.
     if str_of f ''password'' = [] then (s, Exit 1, [Usage ''rebalance''])
     else case Rebalance (gE G) (gcExpired c) (gcMaint c) s (str_of f ''password'') (arg_path G (str_of f ''store'')) of
       (s', Inl e) \<Rightarrow> (s', fails t ''[rebalance] '' e)
     | (s', Inr r) \<Rightarrow>
         (s', Exit 0,
           [line (''Rebalance complete: '' @ Itoa (rbFilesProcessed r) @ '' file(s), '' @ Itoa (rbShardsOK r) @ ''/''
              @ Itoa (rbShardsAttempted r) @ '' shards pushed to buddies.'')]
           @ (if rbErrors r = [] then []
              else line (''  '' @ Itoa (int (length (rbErrors r))) @ '' error(s):'') # map (\<lambda>e. line (''    - '' @ tmText t e)) (rbErrors r))))"

subsection \<open>The manifest of a buddy, the recovery phrase\<close>

definition runManifestPull :: "'k libraries \<Rightarrow> draws \<Rightarrow> Config \<Rightarrow> terminal \<Rightarrow> fs \<Rightarrow> string list \<Rightarrow> fs \<times> cli_end \<times> say list" where
  "runManifestPull G c cfg t s args =
     with_flags ''manifest-pull''
       [(''addr'', FString []), password_flag cfg, (''out'', FString (path_string (DefaultManifestPath (eOS (gE G)))))]
       args (\<lambda>r. (s, r)) (\<lambda>f.
     if str_of f ''addr'' = [] \<or> str_of f ''password'' = [] then (s, Exit 1, [Usage ''manifest-pull''])
     else case ManifestPull (gE G) (gcMaint c) s (str_of f ''password'') (str_of f ''addr'') (arg_path G (str_of f ''out'')) of
       (s', Inl e) \<Rightarrow> (s', fails t ''manifest-pull: '' e)
     | (s', Inr (p, n)) \<Rightarrow>
         (s', Exit 0, [line ((''Manifest recovered from buddy '' @ rune 0x2192 @ '' '') @ path_string p @ '' ('' @ Itoa n @ '' bytes)'')]))"

definition runShowPhrase :: "'k libraries \<Rightarrow> draws \<Rightarrow> Config \<Rightarrow> terminal \<Rightarrow> fs \<Rightarrow> string list \<Rightarrow> fs \<times> cli_end \<times> say list" where
  "runShowPhrase G c cfg t s args =
     with_flags ''show-phrase'' [password_flag cfg] args (\<lambda>r. (s, r)) (\<lambda>f.
     if str_of f ''password'' = [] then (s, Exit 1, [Usage ''show-phrase''])
     else case ShowPhrase (gE G) s (str_of f ''password'') of
       Inl e \<Rightarrow> (s, fails t ''show-phrase: '' e)
     | Inr mnemonic \<Rightarrow>
         (s, Exit 0,
           [line ''Your 12-word recovery phrase (write this down in a safe place):'', line [], line (''  '' @ mnemonic), line [],
            line ''Anyone with this phrase can restore your CerclBackup identity.'']))"

definition runRecover :: "'k libraries \<Rightarrow> draws \<Rightarrow> Config \<Rightarrow> terminal \<Rightarrow> fs \<Rightarrow> string list \<Rightarrow> fs \<times> cli_end \<times> say list" where
  "runRecover G c cfg t s args =
     with_flags ''recover'' [(''phrase'', FString []), password_flag cfg] args (\<lambda>r. (s, r)) (\<lambda>f.
     if str_of f ''phrase'' = [] \<or> str_of f ''password'' = [] then (s, Exit 1, [Usage ''recover''])
     else case Recover (gE G) (gPid G) (gcSetup c) s (str_of f ''phrase'') (str_of f ''password'') of
       (s', Inl e) \<Rightarrow> (s', fails t ''recover: '' e)
     | (s', Inr peerID) \<Rightarrow>
         (s', Exit 0,
           [Out (''Identity restored successfully.'' @ newline @ ''Peer ID: '' @ peerID @ newline),
            line ''Run `cerclbackup serve` to reconnect with your buddies.'']))"

subsection \<open>First run\<close>

text \<open>The password of \<open>init\<close>: the flag, or the same one typed twice.\<close>

definition init_password :: "terminal \<Rightarrow> string \<Rightarrow> bool \<Rightarrow> (cli_end \<times> say list) + (string \<times> say list)" where
  "init_password t password noPrompt =
     (if password \<noteq> [] then Inr (password, [])
      else if noPrompt then Inl (Exit 1, [err_line ''init: --password is required when --no-prompt is set''])
      else case promptPassword (tmStdin t) ''Choose a keystore password: '' of
        (i, Inl e, says) \<Rightarrow> Inl (Exit 1, says @ serveLogFilter_Write (''init: password prompt: '' @ tmText t e))
      | (i, Inr pw, says) \<Rightarrow>
          (case promptPassword i ''Confirm password: '' of
             (_, Inl e, says') \<Rightarrow> Inl (Exit 1, says @ says' @ serveLogFilter_Write (''init: confirm prompt: '' @ tmText t e))
           | (_, Inr confirm, says') \<Rightarrow>
               if pw \<noteq> confirm then Inl (Exit 1, says @ says' @ [err_line ''Passwords do not match.''])
               else Inr (pw, says @ says')))"

definition init_report :: "bool \<Rightarrow> InitResult \<Rightarrow> say list" where
  "init_report noPrompt r =
     [line [],
      line (rune 0x2554 @ rune_row 58 0x2550 @ rune 0x2557),
      line (rune 0x2551 @ ''           CerclBackup '' @ rune 0x2014 @ '' First-Run Setup                  '' @ rune 0x2551),
      line (rune 0x255A @ rune_row 58 0x2550 @ rune 0x255D),
      line [], line (''Peer ID : '' @ irPeerID r), line []]
     @ (if irRecoveryPhrase r = [] then []
        else [line (''Recovery phrase (write this down '' @ rune 0x2014 @ '' it restores your identity):''), line [],
              line (''  '' @ irRecoveryPhrase r), line []]
             @ (if noPrompt then [] else [Out ''Press Enter once you have written down the phrase... '']))
     @ [line ''Setup complete.'', line [], line ''Next steps:'',
        line ''  cerclbackup backup  --src <file>  --password <pw>'',
        line ''  cerclbackup watch   --src <dir>   --password <pw>'',
        line ''  cerclbackup invite  --buddy-addr <multiaddr> --password <pw>'',
        line (newline @ ''Keystore : '' @ path_string (irKeystorePath r)), line (''Store    : '' @ path_string (irStoreDir r))]"

definition runInit :: "'k libraries \<Rightarrow> draws \<Rightarrow> Config \<Rightarrow> terminal \<Rightarrow> fs \<Rightarrow> string list \<Rightarrow> fs \<times> cli_end \<times> say list" where
  "runInit G c cfg t s args =
     with_flags ''init''
       [password_flag cfg, (''no-prompt'', FBool False), store_flag G, (''force'', FBool False)] args (\<lambda>r. (s, r)) (\<lambda>f.
     case init_password t (str_of f ''password'') (bool_of f ''no-prompt'') of
       Inl r \<Rightarrow> (s, r)
     | Inr (pw, says) \<Rightarrow>
         (case Init (gE G) (gCircles G) (gPid G) (gcSetup c) s
                 \<lparr>ipPassword = pw, ipStoreDir = arg_path G (str_of f ''store''), ipForce = bool_of f ''force''\<rparr> of
            (s', Inl e) \<Rightarrow>
              (s', case fails_plain t ''error: '' e
                     (if bool_of f ''force'' then []
                      else [err_line ''       Run 'cerclbackup init --force' to reinitialize.'',
                            err_line ''       WARNING: --force deletes all existing backup metadata.'']) of
                   (x, out) \<Rightarrow> (x, says @ out))
          | (s', Inr r) \<Rightarrow> (s', Exit 0, says @ init_report (bool_of f ''no-prompt'') r)))"

subsection \<open>Maintenance\<close>

definition runAudit :: "'k libraries \<Rightarrow> draws \<Rightarrow> Config \<Rightarrow> terminal \<Rightarrow> fs \<Rightarrow> string list \<Rightarrow> fs \<times> cli_end \<times> say list" where
  "runAudit G c cfg t s args =
     with_flags ''audit'' [password_flag cfg, store_flag G] args (\<lambda>r. (s, r)) (\<lambda>f.
     if str_of f ''password'' = [] then (s, Exit 1, [err_line ''audit: --password is required''])
     else case Audit (gE G) (gcMaint c) s (str_of f ''password'') (arg_path G (str_of f ''store'')) of
       (s', Inl e) \<Rightarrow> (s', fails t ''audit: '' e)
     | (s', Inr r) \<Rightarrow>
         let out = [line ''Audit complete'', line (''  Shards checked  : '' @ Itoa (arChecked r)),
                    line (''  Valid           : '' @ Itoa (arValid r)),
                    line (''  Corrupted       : '' @ Itoa (arCorrupted r) @ ''  (AES-GCM tag mismatch)''),
                    line (''  Orphaned        : '' @ Itoa (arOrphaned r) @ ''  (in store but not in manifest)'')] in
         if arCorrupted r > 0
         then (s', Exit 1, out @ [err_line (''WARNING: corruption detected '' @ rune 0x2014 @ '' run 'cerclbackup scrub' to attempt recovery.'')])
         else (s', Exit 0, out))"

definition runExport :: "'k libraries \<Rightarrow> draws \<Rightarrow> Config \<Rightarrow> terminal \<Rightarrow> fs \<Rightarrow> string list \<Rightarrow> fs \<times> cli_end \<times> say list" where
  "runExport G c cfg t s args =
     with_flags ''export''
       [(''file'', FString []), (''version'', FInt 0), (''out'', FString []), password_flag cfg, store_flag G] args (\<lambda>r. (s, r)) (\<lambda>f.
     if str_of f ''file'' = [] \<or> str_of f ''password'' = []
     then (s, Exit 1, [err_line ''export: --file and --password are required''])
     else case Export (gE G) (gArchive G) (gcMaint c) (gCwd G) s (str_of f ''password'') (str_of f ''file'')
            (int_of_flag f ''version'') (arg_path G (str_of f ''out'')) (arg_path G (str_of f ''store'')) of
       (s', Inl e) \<Rightarrow> (s', fails t ''export: '' e)
     | (s', Inr r) \<Rightarrow>
         let e = xrEntry r in
         (s', Exit 0,
           [line (''Exported: '' @ path_string (xrOutPath r)), line (''  File   : '' @ mePath e),
            line (''  Version: '' @ Itoa (meVersion e) @ ''  (backed '' @ format_minute (meBackedAt e) @ '')''),
            line (''  Shards : '' @ Itoa (DataShards (meScheme e)) @ '' data + '' @ Itoa (ParityShards (meScheme e)) @ '' parity'')]))"

definition runImport :: "'k libraries \<Rightarrow> draws \<Rightarrow> Config \<Rightarrow> terminal \<Rightarrow> fs \<Rightarrow> string list \<Rightarrow> fs \<times> cli_end \<times> say list" where
  "runImport G c cfg t s args =
     with_flags ''import'' [(''file'', FString []), password_flag cfg, store_flag G] args (\<lambda>r. (s, r)) (\<lambda>f.
     if str_of f ''file'' = [] \<or> str_of f ''password'' = []
     then (s, Exit 1, [err_line ''import: --file and --password are required''])
     else case Import (gE G) (gArchive G) (gcMaint c) s (str_of f ''password'') (arg_path G (str_of f ''file''))
            (arg_path G (str_of f ''store'')) of
       (s', Inl e) \<Rightarrow> (s', fails t ''import: '' e)
     | (s', Inr entry) \<Rightarrow>
         (s', Exit 0,
           [line (''Imported: '' @ str_of f ''file''), line (''  File   : '' @ mePath entry),
            line (''  Version: '' @ Itoa (meVersion entry)), line (''  FileID : '' @ meFileID entry),
            line ''Run 'cerclbackup restore --file <path>' to recover the file.'']))"

fun first_layout :: "(string \<Rightarrow> string \<Rightarrow> time option) \<Rightarrow> string \<Rightarrow> string list \<Rightarrow> time" where
  "first_layout parse since [] = 0"
| "first_layout parse since (layout # layouts) =
     (case parse layout since of Some cutoff \<Rightarrow> cutoff | None \<Rightarrow> first_layout parse since layouts)"

definition diff_row :: "DiffChange \<Rightarrow> say" where
  "diff_row d =
     line (pad_right 8 (dcKind d) @ ''  '' @ pad_right 4 (Itoa (dcVersion d)) @ ''  '' @ pad_right 26 (format_second (dcBackedAt d)) @ ''  ''
       @ pad_right 10 (formatBytes (dcSize d)) @ ''  '' @ dcPath d)"

definition runDiff :: "'k libraries \<Rightarrow> draws \<Rightarrow> Config \<Rightarrow> terminal \<Rightarrow> fs \<Rightarrow> string list \<Rightarrow> fs \<times> cli_end \<times> say list" where
  "runDiff G c cfg t s args =
     with_flags ''diff'' [password_flag cfg, (''since'', FString []), store_flag G] args (\<lambda>r. (s, r)) (\<lambda>f.
     if str_of f ''password'' = [] \<or> str_of f ''since'' = []
     then (s, Exit 1, [err_line ''diff: --password and --since are required'',
                       err_line ''  example: cerclbackup diff --since 2026-06-01 --password <pw>''])
     else
       let cutoff = first_layout (tmParse t) (str_of f ''since'')
                      [''2006-01-02T15:04:05Z07:00'', ''2006-01-02'', ''2006-01-02 15:04:05''] in
       if cutoff = 0
       then (s, Exit 1, serveLogFilter_Write (''diff: cannot parse --since '' @ ml_Quote (gMail G) (str_of f ''since'')
                          @ '' (try YYYY-MM-DD or RFC3339)''))
       else case Diff (gE G) (gcMaint c) s (str_of f ''password'') cutoff of
         (s', Inl e) \<Rightarrow> (s', fails t ''diff: '' e)
       | (s', Inr changes) \<Rightarrow>
           (s', Exit 0,
             if changes = [] then [line (''No changes since '' @ tmLocal t cutoff @ ''.'')]
             else [line (''Changes since '' @ tmLocal t cutoff),
                   line (pad_right 8 ''KIND'' @ ''  '' @ pad_right 4 ''VER'' @ ''  '' @ pad_right 26 ''BACKED AT'' @ ''  ''
                     @ pad_right 10 ''SIZE'' @ ''  PATH''),
                   line (rune_row 77 0x2500)]
                  @ map diff_row changes))"

definition runDoctor :: "'k libraries \<Rightarrow> draws \<Rightarrow> Config \<Rightarrow> terminal \<Rightarrow> fs \<Rightarrow> string list \<Rightarrow> fs \<times> cli_end \<times> say list" where
  "runDoctor G c cfg t s args =
     with_flags ''doctor''
       [password_flag cfg, store_flag G, (''check-buddies'', FBool True), (''max-age'', FDuration (25 * Hour))] args (\<lambda>r. (s, r)) (\<lambda>f.
     if str_of f ''password'' = [] then (s, Exit 1, [err_line ''doctor: --password is required''])
     else case Doctor (gE G) (gcDiag c) s
            \<lparr>dpPassword = str_of f ''password'', dpStoreDir = arg_path G (str_of f ''store''),
             dpCheckBuddies = bool_of f ''check-buddies'', dpMaxAge = dur_of f ''max-age''\<rparr> of
       (s', Inl e) \<Rightarrow> (s', fails t ''doctor: '' e)
     | (s', Inr r) \<Rightarrow>
         let out = [line (''CerclBackup '' @ tmVersion t @ ('' '' @ rune 0x2014 @ '' doctor'') @ newline)]
                   @ map (\<lambda>k. Check (dkOK k) (dkName k) (dkMsg k)) (drChecks r) @ [line []] in
         if drAllOK r then (s', Exit 0, out @ [line ''All checks passed.''])
         else (s', Exit 1, out @ [err_line ''One or more checks failed.'']))"

definition runPrune :: "'k libraries \<Rightarrow> draws \<Rightarrow> Config \<Rightarrow> terminal \<Rightarrow> fs \<Rightarrow> string list \<Rightarrow> fs \<times> cli_end \<times> say list" where
  "runPrune G c cfg t s args =
     with_flags ''prune''
       [password_flag cfg, (''keep-all-days'', FInt 30), (''keep-weekly-days'', FInt 90), (''max-versions'', FInt 50),
        (''dry-run'', FBool False), store_flag G] args (\<lambda>r. (s, r)) (\<lambda>f.
     if str_of f ''password'' = [] then (s, Exit 1, [err_line ''prune: --password is required''])
     else case Prune (gE G) (gcMaint c) s
            \<lparr>ppPassword = str_of f ''password'', ppKeepAllDays = int_of_flag f ''keep-all-days'',
             ppKeepWeeklyDays = int_of_flag f ''keep-weekly-days'', ppMaxVersions = int_of_flag f ''max-versions'',
             ppDryRun = bool_of f ''dry-run'', ppStoreDir = arg_path G (str_of f ''store'')\<rparr> of
       (s', Inl e) \<Rightarrow> (s', fails t ''prune: '' e)
     | (s', Inr r) \<Rightarrow>
         let n = Itoa (int (length (prPrunedIDs r))) in
         (s', Exit 0,
           if prPrunedIDs r = [] then [line ''Nothing to prune.'']
           else if bool_of f ''dry-run''
           then line (''Would prune '' @ n @ '' shard set(s):'') # map (\<lambda>i. line (''  '' @ i)) (prPrunedIDs r)
           else [line (''Pruned '' @ n @ '' version(s), freed '' @ Itoa (prDeleted r) @ '' shard set(s) from store.'')]))"

definition runStorage :: "'k libraries \<Rightarrow> draws \<Rightarrow> Config \<Rightarrow> terminal \<Rightarrow> fs \<Rightarrow> string list \<Rightarrow> fs \<times> cli_end \<times> say list" where
  "runStorage G c cfg t s args =
     with_flags ''storage'' [password_flag cfg, store_flag G] args (\<lambda>r. (s, r)) (\<lambda>f.
     if str_of f ''password'' = [] then (s, Exit 1, [err_line ''storage: --password is required''])
     else case Storage (gE G) (gcMaint c) s (str_of f ''password'') (arg_path G (str_of f ''store'')) of
       (s', Inl e) \<Rightarrow> (s', fails t ''storage: '' e)
     | (s', Inr st) \<Rightarrow>
         (s', Exit 0,
           [line ''Manifest'',
            line (''  Files tracked (unique paths) : '' @ Itoa (ssUniquePaths st)),
            line (''  Total versions               : '' @ Itoa (ssTotalVersions st)),
            line (''  Files with >1 version        : '' @ Itoa (ssMultiVersion st)),
            line (''  Logical size (latest only)   : '' @ formatBytes (ssLogicalBytes st)),
            line (newline @ ''Local shard store ('' @ str_of f ''store'' @ '')''),
            line (''  On-disk usage                : '' @ formatBytes (ssDiskBytes st))]
           @ (if ssLogicalBytes st > 0
              then [line (''  Storage amplification        : '' @ decimals 2 (ssDiskBytes st) (ssLogicalBytes st)
                      @ ''x  (RS+encryption overhead)'')]
              else [])))"

definition runScrub :: "'k libraries \<Rightarrow> draws \<Rightarrow> Config \<Rightarrow> terminal \<Rightarrow> fs \<Rightarrow> string list \<Rightarrow> fs \<times> cli_end \<times> say list" where
  "runScrub G c cfg t s args =
     with_flags ''scrub'' [password_flag cfg] args (\<lambda>r. (s, r)) (\<lambda>f.
     if str_of f ''password'' = [] then (s, Exit 1, [err_line ''scrub: --password is required''])
     else
       let intro = line ''Running scrub pass...'' in
       case Scrub (gE G) (gcMaint c) s (str_of f ''password'') of
         (s', Inl e) \<Rightarrow> (s', fst (fails t ''scrub: '' e), intro # snd (fails t ''scrub: '' e))
       | (s', Inr r) \<Rightarrow>
           let out = [intro, line ''Scrub complete'', line (''  Checked   : '' @ Itoa (rpChecked r) @ '' shards''),
                      line (''  Healthy   : '' @ Itoa (rpOK r)), line (''  Corrupted : '' @ Itoa (rpCorrupted r)),
                      line (''  Revived   : '' @ Itoa (rpRevived r)), line (''  Failed    : '' @ Itoa (rpFailed r))] in
           if rpFailed r > 0 then (s', Exit 1, out @ [err_line ''WARNING: some shards could not be recovered.''])
           else (s', Exit 0, out))"

text \<open>
  \<open>api.Watch\<close> stays in its event loop, so that what \<open>runWatch\<close> does after it, waiting for a signal and stopping the watcher, comes
  after the loop has ended.
\<close>

definition runWatch :: "'k libraries \<Rightarrow> draws \<Rightarrow> Config \<Rightarrow> terminal \<Rightarrow> fs \<Rightarrow> string list \<Rightarrow> fs \<times> cli_end \<times> say list" where
  "runWatch G c cfg t s args =
     with_flags ''watch''
       [(''src'', FString (cfSrc cfg)), store_flag G, password_flag cfg, (''buddies'', FInt 1), (''debounce'', FDuration (3 * Second)),
        (''exclude'', FString ''.git,node_modules,*.tmp,*.swp''), (''auto-prune'', FBool (cfAutoPrune cfg))] args (\<lambda>r. (s, r)) (\<lambda>f.
     if str_of f ''src'' = [] \<or> str_of f ''password'' = [] then (s, Exit 1, [Usage ''watch''])
     else
       let intro = serveLogFilter_Write (''[watch] monitoring '' @ str_of f ''src'' @ '' (debounce ''
                     @ Duration_String (dur_of f ''debounce'') @ '', exclude '' @ ml_Quote (gMail G) (str_of f ''exclude'') @ '')'') in
       case Watch (gE G) (gcRnd1 c) (gcRnd2 c) (gcFsnotify c) (gcRefused c) (gcNow c) s
              \<lparr>wpSrcDir = arg_path G (str_of f ''src''), wpStoreDir = arg_path G (str_of f ''store''),
               wpPassword = str_of f ''password'', wpBuddies = int_of_flag f ''buddies'', wpDebounce = dur_of f ''debounce'',
               wpExclude = str_of f ''exclude'', wpAutoPrune = bool_of f ''auto-prune''\<rparr> of
         (s', Inl e) \<Rightarrow> (s', fst (fails t ''[watch] '' e), intro @ snd (fails t ''[watch] '' e))
       | (s', Inr h) \<Rightarrow> (s', Watching h, intro))"

subsection \<open>Circles, versions\<close>

definition circle_add :: "'k libraries \<Rightarrow> draws \<Rightarrow> Config \<Rightarrow> terminal \<Rightarrow> fs \<Rightarrow> string list \<Rightarrow> fs \<times> cli_end \<times> say list" where
  "circle_add G c cfg t s args =
     with_flags ''circle add'' [(''name'', FString []), (''scheme'', FString ''3/2''), password_flag cfg] args (\<lambda>r. (s, r)) (\<lambda>f.
     if str_of f ''name'' = [] \<or> str_of f ''password'' = []
     then (s, Exit 1, [err_line ''circle add: --name and --password are required''])
     else case CircleAdd (gE G) (gCircles G) (gcCircle c) s (str_of f ''password'') (str_of f ''name'') (str_of f ''scheme'') of
       (s', Inl e) \<Rightarrow> (s', fails t ''circle add: '' e)
     | (s', Inr k) \<Rightarrow>
         (s', Exit 0, [line (''Circle added: '' @ ciName k @ '' (id='' @ ciID k @ '' scheme='' @ ciScheme k @ '')'')]))"

definition circle_list :: "'k libraries \<Rightarrow> Config \<Rightarrow> terminal \<Rightarrow> fs \<Rightarrow> string list \<Rightarrow> fs \<times> cli_end \<times> say list" where
  "circle_list G cfg t s args =
     with_flags ''circle list'' [password_flag cfg] args (\<lambda>r. (s, r)) (\<lambda>f.
     if str_of f ''password'' = [] then (s, Exit 1, [err_line ''circle list: --password is required''])
     else case CircleList (gE G) (gCircles G) s (str_of f ''password'') of
       Inl e \<Rightarrow> (s, fails t ''circle list: '' e)
     | Inr circles \<Rightarrow>
         (s, Exit 0,
           if circles = [] then [line ''No circles configured.'']
           else line (pad_right 24 ''NAME'' @ '' '' @ pad_right 36 ''ID'' @ '' '' @ pad_right 6 ''SCHEME'' @ '' CREATED'')
                # map (\<lambda>k. line (pad_right 24 (ciName k) @ '' '' @ pad_right 36 (ciID k) @ '' '' @ pad_right 6 (ciScheme k) @ '' ''
                              @ format_date (ciCreatedAt k))) circles))"

definition circle_rm :: "'k libraries \<Rightarrow> draws \<Rightarrow> Config \<Rightarrow> terminal \<Rightarrow> fs \<Rightarrow> string list \<Rightarrow> fs \<times> cli_end \<times> say list" where
  "circle_rm G c cfg t s args =
     with_flags ''circle rm'' [(''name'', FString []), (''confirm-name'', FString []), password_flag cfg] args (\<lambda>r. (s, r)) (\<lambda>f.
     if str_of f ''name'' = [] \<or> str_of f ''password'' = []
     then (s, Exit 1, [err_line ''circle rm: --name and --password are required''])
     else if str_of f ''confirm-name'' \<noteq> str_of f ''name''
     then (s, Exit 1, [err_line (''circle rm: --confirm-name must equal '' @ ml_Quote (gMail G) (str_of f ''name''))])
     else case CircleRemove (gE G) (gCircles G) (gcRnd1 c) s (str_of f ''password'') (str_of f ''name'') of
       (s', Some e) \<Rightarrow> (s', fails t ''circle rm: '' e)
     | (s', None) \<Rightarrow> (s', Exit 0, [line (''Circle '' @ ml_Quote (gMail G) (str_of f ''name'') @ '' removed.'')]))"

definition runCircle :: "'k libraries \<Rightarrow> draws \<Rightarrow> Config \<Rightarrow> terminal \<Rightarrow> fs \<Rightarrow> string list \<Rightarrow> fs \<times> cli_end \<times> say list" where
  "runCircle G c cfg t s args =
     (case args of
        [] \<Rightarrow> (s, Exit 1, [err_line ''Usage: cerclbackup circle <add|list|rm> [flags]''])
      | sub # rest \<Rightarrow>
          if sub = ''add'' then circle_add G c cfg t s rest
          else if sub = ''list'' then circle_list G cfg t s rest
          else if sub = ''rm'' then circle_rm G c cfg t s rest
          else (s, Exit 1, [err_line (''Unknown circle sub-command: '' @ ml_Quote (gMail G) sub)]))"

text \<open>The rows of \<open>versions\<close>; a hash of fewer than 16 bytes is a panic.\<close>

fun version_rows :: "ManifestEntry list \<Rightarrow> cli_end \<times> say list" where
  "version_rows [] = (Exit 0, [])"
| "version_rows (v # vs) =
     (if length (meHash v) < 16 then (Crash ''slice bounds out of range'', [])
      else
        let backedAt = (if meBackedAt v = 0 then ''(legacy)'' else format_second (meBackedAt v) @ '' UTC'') in
        case version_rows vs of
          (e, rows) \<Rightarrow>
            (e, line (pad_right 4 (Itoa (meVersion v)) @ '' '' @ pad_right 26 backedAt @ '' '' @ pad_right 64 (meFileID v) @ '' ''
                  @ take 16 (meHash v) @ ''...'') # rows))"

definition runVersions :: "'k libraries \<Rightarrow> draws \<Rightarrow> Config \<Rightarrow> terminal \<Rightarrow> fs \<Rightarrow> string list \<Rightarrow> fs \<times> cli_end \<times> say list" where
  "runVersions G c cfg t s args =
     with_flags ''versions'' [(''file'', FString []), password_flag cfg] args (\<lambda>r. (s, r)) (\<lambda>f.
     if str_of f ''file'' = [] \<or> str_of f ''password'' = []
     then (s, Exit 1, [err_line ''versions: --file and --password are required''])
     else case Versions (gE G) (gcOrd c) s (str_of f ''password'') (str_of f ''file'') of
       Inl e \<Rightarrow> (s, fails t ''versions: '' e)
     | Inr versions \<Rightarrow>
         if versions = [] then (s, Exit 0, [line (''No versions found for: '' @ str_of f ''file'')])
         else
           let head = line (pad_right 4 ''VER'' @ '' '' @ pad_right 26 ''BACKED AT'' @ '' '' @ pad_right 64 ''FILE ID'' @ '' HASH'')
           in case version_rows versions of (e, rows) \<Rightarrow> (s, e, head # rows))"

subsection \<open>Passwords and configuration\<close>

definition runSetPassword :: "'k libraries \<Rightarrow> terminal \<Rightarrow> 'k \<Rightarrow> string list \<Rightarrow> 'k \<times> cli_end \<times> say list" where
  "runSetPassword G t k args =
     with_flags ''set-password'' [(''delete'', FBool False)] args (\<lambda>r. (k, r)) (\<lambda>f.
     if bool_of f ''delete''
     then (case DeletePassword (gKeyring G) k of
             (k', Some e) \<Rightarrow> (k', fails_plain t ''error: could not delete from credential store: '' e [])
           | (k', None) \<Rightarrow> (k', Exit 0, [line ''Password removed from credential store.'']))
     else case promptPassword (tmStdin t) ''Enter CerclBackup password: '' of
       (_, Inl e, says) \<Rightarrow> (k, Exit 1, says @ [err_line (''error: could not read password: '' @ tmText t e)])
     | (_, Inr pass, says) \<Rightarrow>
         (case SetPassword (gKeyring G) k pass of
            (k', Some e) \<Rightarrow>
              (k', case fails_plain t ''error: could not save to credential store: '' e
                     [err_line ''  Tip: set the CERCLBACKUP_PASSWORD environment variable instead.''] of
                   (x, out) \<Rightarrow> (x, says @ out))
          | (k', None) \<Rightarrow>
              (k', Exit 0, says @ [line ''Password saved to credential store.'',
                                   line ''The tray app will use it automatically on next backup cycle.''])))"

text \<open>A password asked for on standard error.\<close>

definition ask :: "terminal \<Rightarrow> stdin \<Rightarrow> string \<Rightarrow> string \<Rightarrow> stdin \<times> (cli_end \<times> say list) + stdin \<times> string \<times> say list" where
  "ask t i prompt failure =
     (case readPassword i of
        (i', Inl e) \<Rightarrow> Inl (i', Exit 1, [Err prompt, err_line []] @ serveLogFilter_Write (failure @ tmText t e))
      | (i', Inr pw) \<Rightarrow> Inr (i', pw, [Err prompt, err_line []]))"

definition passwd_old :: "terminal \<Rightarrow> string \<Rightarrow> stdin \<times> (cli_end \<times> say list) + stdin \<times> string \<times> say list" where
  "passwd_old t old =
     (if old \<noteq> [] then Inr (tmStdin t, old, [])
      else if tmPassword t \<noteq> [] then Inr (tmStdin t, tmPassword t, [])
      else ask t (tmStdin t) ''Current password: '' ''passwd: read old: '')"

definition passwd_new :: "terminal \<Rightarrow> stdin \<Rightarrow> string \<Rightarrow> (cli_end \<times> say list) + (string \<times> say list)" where
  "passwd_new t i new =
     (if new \<noteq> [] then Inr (new, [])
      else case ask t i ''New password: '' ''passwd: read new: '' of
        Inl (_, r) \<Rightarrow> Inl r
      | Inr (i1, b, says) \<Rightarrow>
          (case ask t i1 ''Confirm new password: '' ''passwd: read confirm: '' of
             Inl (_, x, out) \<Rightarrow> Inl (x, says @ out)
           | Inr (_, b2, says') \<Rightarrow>
               if b2 \<noteq> b then Inl (Exit 1, says @ says' @ [err_line ''passwd: passwords do not match''])
               else Inr (b, says @ says')))"

definition runPasswd :: "'k libraries \<Rightarrow> draws \<Rightarrow> terminal \<Rightarrow> fs \<Rightarrow> string list \<Rightarrow> fs \<times> cli_end \<times> say list" where
  "runPasswd G c t s args =
     with_flags ''passwd'' [(''old'', FString []), (''new'', FString [])] args (\<lambda>r. (s, r)) (\<lambda>f.
     case passwd_old t (str_of f ''old'') of
       Inl (_, r) \<Rightarrow> (s, r)
     | Inr (i, oldPwd, says) \<Rightarrow>
         (case passwd_new t i (str_of f ''new'') of
            Inl (x, out) \<Rightarrow> (s, x, says @ out)
          | Inr (newPwd, says') \<Rightarrow>
              (case Passwd (gE G) (gcRnd1 c) s oldPwd newPwd of
                 (s', Some e) \<Rightarrow> (s', fst (fails t ''passwd: '' e), says @ says' @ snd (fails t ''passwd: '' e))
               | (s', None) \<Rightarrow>
                   (s', Exit 0, says @ says' @
                     [line ''Keystore password changed successfully.'',
                      line ''Update CERCLBACKUP_PASSWORD or your config.yaml if applicable.'']))))"

definition runConfig :: "'k libraries \<Rightarrow> terminal \<Rightarrow> fs \<Rightarrow> string list \<Rightarrow> fs \<times> cli_end \<times> say list" where
  "runConfig G t s args =
     (let usage = (s, Exit 1, [err_line ''Usage: cerclbackup config <show|init>'']) in
      case args of
        [] \<Rightarrow> usage
      | sub # _ \<Rightarrow>
          if sub = ''show'' then
            (case ConfigShow (gYaml G) (eOS (gE G)) s of
               (loaded, p) \<Rightarrow>
                 (s, Exit 0,
                   [line (''Config file: '' @ path_string p @ newline), line (''password    : '' @ maskPassword (cfPassword loaded)),
                    line (''src         : '' @ cfSrc loaded), line (''exclude     : '' @ cfExclude loaded),
                    line (''upload_kbps : '' @ Itoa (cfUploadKbps loaded)), line (''health_addr : '' @ cfHealthAddr loaded),
                    line (''port        : '' @ Itoa (cfPort loaded)), line (''debounce    : '' @ cfDebounce loaded),
                    line (''auto_prune  : '' @ (if cfAutoPrune loaded then ''true'' else ''false'')),
                    line (''store_dir   : '' @ cfStoreDir loaded)]))
          else if sub = ''init'' then
            (case ConfigInit (eOS (gE G)) s of
               (s', Inl e) \<Rightarrow> (s', fails_plain t ''config init: '' e [])
             | (s', Inr p) \<Rightarrow>
                 (s', Exit 0, [line (''Sample config written to '' @ path_string p),
                               line ''Edit it to set your defaults, then uncomment the relevant lines.'']))
          else usage)"

subsection \<open>The program\<close>

definition usage_text :: "string \<Rightarrow> string list" where
  "usage_text version =
    [''CerclBackup '' @ version, [],
     (''Commands (Phase 1 '' @ rune 0x2014 @ '' local):''),
     ''  backup   --src <path> --store <dir> --password <pwd> [--buddies N]'',
     ''  restore  --file-id <uuid> --store <dir> --out <path> --password <pwd>'',
     ''  list     --store <dir> --password <pwd>'',
     [],
     (''Commands (Phase 2a '' @ rune 0x2014 @ '' P2P):''),
     ''  serve    --password <pwd> [--port N]          start P2P daemon'',
     ''  invite   --password <pwd>                      generate invite code'',
     ''  join     --addr <multiaddr> --words \"<mnemonic>\" --password <pwd>'',
     ''  buddy    list --password <pwd>                 list known buddies'',
     ''  revoke    --peer-id <id> --password <pwd>       remove a buddy and rebalance'',
     ''  rebalance    --password <pwd> [--store <dir>]     redistribute shards to all buddies'',
     ''  invite-email --to <email> --circle <name> --password <pwd>  print email MFA invite to paste and send yourself'',
     ''  join-email   --payload <file> --words \"<12 words>\" --password <pwd>    accept email invite'',
     ''  manifest-pull --buddy-addr <multiaddr> --password <pwd>               recover manifest from buddy'',
     ''  show-phrase   --password <pwd>                                         show 12-word recovery phrase'',
     ''  recover       --phrase \"<12 words>\" --password <pwd>                   restore identity from phrase'',
     [],
     ''Commands (Phase 3 -- multi-circle & versioning):'',
     ''  circle add  --name <n> --scheme <d/p> --password <pwd>'',
     ''  circle list --password <pwd>'',
     ''  circle rm   --name <n> --confirm-name <n> --password <pwd>'',
     ''  versions    --file <path> --password <pwd>                             list file version history'']"

text \<open>
  The configuration of a run: the file, with the password of the environment, or else the one of the keyring, in place of its own. Both are
  the defaults of the flags.
\<close>

definition startup_config :: "'k libraries \<Rightarrow> terminal \<Rightarrow> fs \<Rightarrow> 'k \<Rightarrow> Config" where
  "startup_config G t s k =
     (let cfg = Load_Config (gYaml G) (eOS (gE G)) s in
      if tmPassword t \<noteq> [] then cfg\<lparr>cfPassword := tmPassword t\<rparr>
      else case Keyring_Get (gKeyring G) k of
        Inl _ \<Rightarrow> cfg
      | Inr p \<Rightarrow> if p \<noteq> [] then cfg\<lparr>cfPassword := p\<rparr> else cfg)"

record 'k host =
  htFS :: fs
  htKeyring :: 'k

text \<open>The commands that change the disk only.\<close>

definition commands ::
  "'k libraries \<Rightarrow> draws \<Rightarrow> Config \<Rightarrow> terminal \<Rightarrow> (string \<times> (fs \<Rightarrow> string list \<Rightarrow> fs \<times> cli_end \<times> say list)) list" where
  "commands G c cfg t =
    [(''init'', runInit G c cfg t), (''restore'', runRestore G c cfg t), (''list'', runList G c cfg t), (''serve'', runServe G c cfg t),
     (''invite'', runInvite G c cfg t), (''invite-email'', runInviteEmail G c cfg t), (''join-email'', runJoinEmail G c cfg t),
     (''join'', runJoin G c cfg t), (''buddy'', runBuddy G c cfg t), (''revoke'', runRevoke G c cfg t),
     (''rebalance'', runRebalance G c cfg t), (''manifest-pull'', runManifestPull G c cfg t),
     (''show-phrase'', runShowPhrase G c cfg t), (''recover'', runRecover G c cfg t), (''watch'', runWatch G c cfg t),
     (''prune'', runPrune G c cfg t), (''storage'', runStorage G c cfg t), (''scrub'', runScrub G c cfg t),
     (''audit'', runAudit G c cfg t), (''export'', runExport G c cfg t), (''import'', runImport G c cfg t),
     (''diff'', runDiff G c cfg t), (''doctor'', runDoctor G c cfg t), (''passwd'', runPasswd G c t), (''config'', runConfig G t),
     (''circle'', runCircle G c cfg t), (''versions'', runVersions G c cfg t)]"

text \<open>\<open>main\<close> on \<open>os.Args\<close>, the name of the program first. A backup that does not end has no result.\<close>

definition main ::
  "'k libraries \<Rightarrow> draws \<Rightarrow> terminal \<Rightarrow> 'k host \<Rightarrow> string list \<Rightarrow> ('k host \<times> cli_end \<times> say list) option" where
  "main G c t h argv =
     (if length argv < 2 then Some (h, Exit 1, map err_line (usage_text (tmVersion t)))
      else
        let cfg = startup_config G t (htFS h) (htKeyring h); name = argv ! 1; args = drop 2 argv in
        if name = ''backup'' then
          (case runBackup G c cfg t (htFS h) args of None \<Rightarrow> None | Some (s, r) \<Rightarrow> Some (h\<lparr>htFS := s\<rparr>, r))
        else if name = ''set-password'' then
          (case runSetPassword G t (htKeyring h) args of (k, r) \<Rightarrow> Some (h\<lparr>htKeyring := k\<rparr>, r))
        else case map_of (commands G c cfg t) name of
          Some run \<Rightarrow> (case run (htFS h) args of (s, r) \<Rightarrow> Some (h\<lparr>htFS := s\<rparr>, r))
        | None \<Rightarrow> Some (h, Exit 1, map err_line (usage_text (tmVersion t))))"

end
