(* ===== verification/Cli_Behaviour.thy ===== *)
theory Cli_Behaviour
  imports Cli
begin

text \<open>
  What the command line does on its own: arguments that hide flags, passwords from a pipe, the confirmation of \<open>circle rm\<close>, the
  sizes that it prints and the password that it does not.
\<close>

subsection \<open>Concrete surroundings\<close>

definition demo_terminal :: terminal where
  "demo_terminal = \<lparr>tmPassword = [], tmStdin = Pipe [], tmVersion = ''0.0.0-dev'', tmText = (\<lambda>_. ''error''), tmParse = (\<lambda>_ _. None),
     tmLocal = (\<lambda>_. [])\<rparr>"

definition demo_process :: "unit host" where
  "demo_process = \<lparr>htFS = empty_fs, htKeyring = ()\<rparr>"

lemma demo_startup: "startup_config demo_gui (demo_terminal\<lparr>tmStdin := i\<rparr>) empty_fs k = config_defaults"
  by (simp add: startup_config_def Load_Config_def LoadFrom_def ReadFile_def empty_fs_def demo_terminal_def demo_gui_def Keyring_Get_def
      is_dir_def fault_free_def)

lemmas run_defs = runInit_def runRestore_def runList_def runServe_def runInvite_def runInviteEmail_def runJoinEmail_def runJoin_def
  runBuddy_def runBuddyLegacy_def runBuddyRm_def runBuddyStatus_def runRevoke_def runRebalance_def runManifestPull_def runShowPhrase_def
  runRecover_def runWatch_def runPrune_def runStorage_def runScrub_def runAudit_def runExport_def runImport_def runDiff_def runDoctor_def
  runPasswd_def runVersions_def runBackup_def runSetPassword_def runCircle_def circle_add_def circle_list_def circle_rm_def

subsection \<open>Arguments that are no flags\<close>

lemma with_flags_stray:
  "a = [] \<or> hd a \<noteq> CHR ''-'' \<Longrightarrow> with_flags name fl (a # rest) stop f = with_flags name fl [] stop f"
  by (auto simp: with_flags_def)

definition takes_flags :: "string list" where
  "takes_flags = [''backup'', ''restore'', ''list'', ''serve'', ''invite'', ''join'', ''invite-email'', ''join-email'', ''init'', ''revoke'',
     ''rebalance'', ''manifest-pull'', ''show-phrase'', ''recover'', ''watch'', ''prune'', ''storage'', ''scrub'', ''audit'', ''export'',
     ''import'', ''diff'', ''doctor'', ''passwd'', ''versions'', ''set-password'']"

text \<open>C22. Flags after an argument that is no flag are not looked at. For every command that takes flags, a first argument
without a leading hyphen makes the run the same as one without any arguments: \<open>prune x --dry-run\<close> prunes, \<open>init x --store d\<close> uses the
default store.\<close>

theorem stray_argument_hides_flags:
  assumes "a = [] \<or> hd a \<noteq> CHR ''-''" and "name \<in> set takes_flags"
  shows "main G c t h (prog # name # a # rest) = main G c t h [prog, name]"
proof -
  from assms(2) show ?thesis
    unfolding takes_flags_def set_simps insert_iff empty_iff
    by (elim disjE FalseE; simp only: main_def; simp add: Let_def commands_def; simp add: run_defs with_flags_stray [OF assms(1)])
qed

theorem stray_argument_hides_flags_witness:
  "main demo_gui demo_gc demo_terminal demo_process [''cerclbackup'', ''prune'', ''x'', ''--dry-run'']
     = main demo_gui demo_gc demo_terminal demo_process [''cerclbackup'', ''prune'']"
  by (rule stray_argument_hides_flags) (simp_all add: takes_flags_def)

subsection \<open>Passwords from a pipe\<close>

text \<open>A piped password cannot be confirmed. When one read of the pipe returns everything, as it does for two lines written
at once, the first prompt takes its line and its reader keeps the rest, so that the confirmation finds the end of the input:
\<open>init\<close> without a password fails and changes nothing, whatever the lines are.\<close>

theorem piped_confirmation_fails:
  assumes "tmStdin t = Pipe [piece]" and "CHR 0x0A \<in> set piece" and "cfPassword (startup_config G t (htFS h) (htKeyring h)) = []"
  shows "\<exists>out. main G c t h [prog, ''init''] = Some (h, Exit 1, out)"
  using assms
  by (simp add: main_def Let_def commands_def runInit_def with_flags_def init_password_def promptPassword_def str_of_def bool_of_def
      password_flag_def)

theorem piped_confirmation_fails_witness:
  "\<exists>out. main demo_gui demo_gc (demo_terminal\<lparr>tmStdin := Pipe [''secret'' @ [CHR 0x0A] @ ''secret'' @ [CHR 0x0A]]\<rparr>) demo_process
     [''cerclbackup'', ''init''] = Some (demo_process, Exit 1, out)"
  by (rule piped_confirmation_fails [where piece = "''secret'' @ [CHR 0x0A] @ ''secret'' @ [CHR 0x0A]"])
    (simp_all add: demo_startup demo_process_def config_defaults_def)

text \<open>Two reads of one line each are a password and its confirmation.\<close>

lemma piped_in_two_reads:
  "CHR 0x0A \<notin> set pw \<Longrightarrow>
     init_password (t\<lparr>tmStdin := Pipe [pw @ newline, pw @ newline]\<rparr>) [] False
       = Inr (pw, [Out ''Choose a keystore password: '', line [], Out ''Confirm password: '', line []])"
  by (auto simp: init_password_def promptPassword_def newline_def takeWhile_append takeWhile_eq_all_conv)

subsection \<open>Removing a circle\<close>

text \<open>A circle is removed only under its own name: when \<open>--confirm-name\<close> is not the value of \<open>--name\<close>, \<open>circle rm\<close> exits with
status 1 and neither the disk nor the keyring changes.\<close>

theorem circle_rm_needs_the_name:
  assumes "parse_flags [(''name'', FString []), (''confirm-name'', FString []),
             password_flag (startup_config G t (htFS h) (htKeyring h))] args = Parsed f rest"
    and "str_of f ''confirm-name'' \<noteq> str_of f ''name''"
  shows "\<exists>out. main G c t h (prog # ''circle'' # ''rm'' # args) = Some (h, Exit 1, out)"
  using assms by (simp add: main_def Let_def commands_def runCircle_def circle_rm_def with_flags_def)

theorem circle_rm_needs_the_name_witness:
  "\<exists>out. main demo_gui demo_gc (demo_terminal\<lparr>tmStdin := Pipe []\<rparr>) demo_process
     [''cerclbackup'', ''circle'', ''rm'', ''--name=home'', ''--confirm-name'', ''hone''] = Some (demo_process, Exit 1, out)"
proof -
  have p: "parse_flags [(''name'', FString []), (''confirm-name'', FString []), (''password'', FString [])]
      [''--name=home'', ''--confirm-name'', ''hone'']
    = Parsed [(''name'', FString ''home''), (''confirm-name'', FString ''hone''), (''password'', FString [])] []"
    by code_simp
  have cfg: "startup_config demo_gui (demo_terminal\<lparr>tmStdin := Pipe []\<rparr>) (htFS demo_process) (htKeyring demo_process) = config_defaults"
    by (simp add: demo_startup demo_process_def)
  show ?thesis
    by (rule circle_rm_needs_the_name
        [where f = "[(''name'', FString ''home''), (''confirm-name'', FString ''hone''), (''password'', FString [])]" and rest = "[]"])
      (unfold cfg, simp_all add: p password_flag_def config_defaults_def str_of_def del: parse_flags.simps)
qed

subsection \<open>Sizes\<close>

lemma le_div_iff: "0 < d \<Longrightarrow> n \<le> b div d \<longleftrightarrow> n * d \<le> b" for b d n :: int
proof -
  assume d: "0 < d"
  have b: "b div d * d \<le> b" using pos_mod_sign [OF d, of b] div_mult_mod_eq [of b d] by linarith
  show ?thesis
  proof
    assume "n \<le> b div d"
    with d have "n * d \<le> b div d * d" by (intro mult_right_mono) simp_all
    with b show "n * d \<le> b" by linarith
  next
    assume "n * d \<le> b"
    with d zdiv_mono1 [of "n * d" b d] show "n \<le> b div d" by simp
  qed
qed

lemma unit_loop_bounds:
  assumes "b < 2 ^ 63" and "1024 ^ (i + 1) \<le> b"
  shows "\<exists>j < 6. unit_loop (b div 1024 ^ (i + 1)) (1024 ^ (i + 1)) i = (1024 ^ (j + 1), j)
           \<and> 1024 ^ (j + 1) \<le> b \<and> b < 1024 ^ (j + 2)"
  using assms
proof (induction "5 - i" arbitrary: i rule: less_induct)
  case less
  define d :: int where "d = 1024 ^ (i + 1)"
  have d: "0 < d" "d * 1024 = 1024 ^ (i + 2)" by (simp_all add: d_def)
  have "\<not> 6 \<le> i"
  proof
    assume "6 \<le> i"
    then have "(1024 :: int) ^ 7 \<le> d" unfolding d_def by (intro power_increasing) simp_all
    with less.prems d_def show False by simp
  qed
  show ?case
  proof (cases "1024 \<le> b div d")
    case True
    then have le: "1024 ^ (Suc i + 1) \<le> b" using le_div_iff [OF d(1), of 1024 b] d(2) by (simp add: mult.commute)
    have "i < 5"
    proof (rule ccontr)
      assume "\<not> i < 5"
      then have "(1024 :: int) ^ 7 \<le> 1024 ^ (Suc i + 1)" by (intro power_increasing) simp_all
      with le less.prems(1) show False by simp
    qed
    have "d * 1024 \<le> b" using True le_div_iff [OF d(1), of 1024 b] by (simp add: mult.commute)
    then have "in_int64 (d * 1024)" using less.prems(1) d(1) by (simp add: in_int64_def)
    then have "unit_loop (b div d) d i = unit_loop (b div d div 1024) (d * 1024) (Suc i)"
      using True by (subst unit_loop.simps) (simp add: wrap64_id)
    also have "b div d div 1024 = b div (d * 1024)" by (simp add: zdiv_zmult2_eq)
    finally show ?thesis
      using less.hyps [of "Suc i"] \<open>i < 5\<close> less.prems(1) le d(2) by (simp add: d_def)
  next
    case False
    then have "unit_loop (b div d) d i = (d, i)" by (subst unit_loop.simps) simp
    moreover have "b < 1024 ^ (i + 2)" using False le_div_iff [OF d(1), of 1024 b] d(2) by (simp add: mult.commute)
    ultimately show ?thesis using less.prems(2) \<open>\<not> 6 \<le> i\<close> by (intro exI [of _ i]) (simp add: d_def)
  qed
qed

text \<open>A printed size has the right unit. For every size from 1024 up that fits in 64 bits, \<open>formatBytes\<close> divides by the power of 1024 for
which the quotient lies between 1 and 1024 and prints the letter of that power, one of the six: the loop ends before the
divisor leaves 64 bits and the letter is never looked up out of range.\<close>

theorem formatBytes_unit:
  assumes "1024 \<le> b" and "b < 2 ^ 63"
  shows "\<exists>j < 6. formatBytes b = decimals 1 b (1024 ^ (j + 1)) @ '' '' @ [''KMGTPE'' ! j] @ ''iB''
           \<and> 1024 ^ (j + 1) \<le> b \<and> b < 1024 ^ (j + 2)"
  using unit_loop_bounds [of b 0] assms by (auto simp: formatBytes_def)

theorem formatBytes_unit_witness:
  "formatBytes 1536 = ''1.5 KiB'' \<and> (\<exists>j < 6. formatBytes 5000000000 = decimals 1 5000000000 (1024 ^ (j + 1)) @ '' '' @ [''KMGTPE'' ! j] @ ''iB''
     \<and> 1024 ^ (j + 1) \<le> (5000000000 :: int) \<and> (5000000000 :: int) < 1024 ^ (j + 2))"
proof -
  have "formatBytes 1536 = ''1.5 KiB''" by code_simp
  with formatBytes_unit [of 5000000000] show ?thesis by simp
qed

subsection \<open>Settings without effect\<close>

definition with_other_settings :: "'k libraries \<Rightarrow> int \<Rightarrow> string \<Rightarrow> string \<Rightarrow> 'k libraries" where
  "with_other_settings G port debounce storeDir =
     G\<lparr>gYaml := (\<lambda>d c. (gYaml G d c)\<lparr>cfPort := port, cfDebounce := debounce, cfStoreDir := storeDir\<rparr>)\<rparr>"

lemma other_settings [simp]:
  "gE (with_other_settings G p d st) = gE G" "gCircles (with_other_settings G p d st) = gCircles G"
  "gPid (with_other_settings G p d st) = gPid G" "gKeyring (with_other_settings G p d st) = gKeyring G"
  "gMail (with_other_settings G p d st) = gMail G" "gArchive (with_other_settings G p d st) = gArchive G"
  "gNewMnemonic (with_other_settings G p d st) = gNewMnemonic G" "gCwd (with_other_settings G p d st) = gCwd G"
  "gMnemonicToByteArray (with_other_settings G p d st) = gMnemonicToByteArray G"
  by (simp_all add: with_other_settings_def)

lemma other_settings_config:
  fixes G t s k p d st
  defines "cfg' \<equiv> startup_config (with_other_settings G p d st) t s k" and "cfg \<equiv> startup_config G t s k"
  shows "cfPassword cfg' = cfPassword cfg" "cfSrc cfg' = cfSrc cfg" "cfExclude cfg' = cfExclude cfg"
    "cfUploadKbps cfg' = cfUploadKbps cfg" "cfHealthAddr cfg' = cfHealthAddr cfg" "cfAutoPrune cfg' = cfAutoPrune cfg"
  by (simp_all add: cfg'_def cfg_def startup_config_def Load_Config_def LoadFrom_def with_other_settings_def Let_def split: sum.splits)

lemma other_settings_run:
  assumes "cfPassword cfg' = cfPassword cfg" "cfSrc cfg' = cfSrc cfg" "cfExclude cfg' = cfExclude cfg"
    "cfUploadKbps cfg' = cfUploadKbps cfg" "cfHealthAddr cfg' = cfHealthAddr cfg" "cfAutoPrune cfg' = cfAutoPrune cfg"
  shows
    "runInit (with_other_settings G p d st) c cfg' t s args = runInit G c cfg t s args"
    "runRestore (with_other_settings G p d st) c cfg' t s args = runRestore G c cfg t s args"
    "runList (with_other_settings G p d st) c cfg' t s args = runList G c cfg t s args"
    "runServe (with_other_settings G p d st) c cfg' t s args = runServe G c cfg t s args"
    "runInvite (with_other_settings G p d st) c cfg' t s args = runInvite G c cfg t s args"
    "runInviteEmail (with_other_settings G p d st) c cfg' t s args = runInviteEmail G c cfg t s args"
    "runJoinEmail (with_other_settings G p d st) c cfg' t s args = runJoinEmail G c cfg t s args"
    "runJoin (with_other_settings G p d st) c cfg' t s args = runJoin G c cfg t s args"
    "runBuddy (with_other_settings G p d st) c cfg' t s args = runBuddy G c cfg t s args"
    "runRevoke (with_other_settings G p d st) c cfg' t s args = runRevoke G c cfg t s args"
    "runRebalance (with_other_settings G p d st) c cfg' t s args = runRebalance G c cfg t s args"
    "runManifestPull (with_other_settings G p d st) c cfg' t s args = runManifestPull G c cfg t s args"
    "runShowPhrase (with_other_settings G p d st) c cfg' t s args = runShowPhrase G c cfg t s args"
    "runRecover (with_other_settings G p d st) c cfg' t s args = runRecover G c cfg t s args"
    "runWatch (with_other_settings G p d st) c cfg' t s args = runWatch G c cfg t s args"
    "runPrune (with_other_settings G p d st) c cfg' t s args = runPrune G c cfg t s args"
    "runStorage (with_other_settings G p d st) c cfg' t s args = runStorage G c cfg t s args"
    "runScrub (with_other_settings G p d st) c cfg' t s args = runScrub G c cfg t s args"
    "runAudit (with_other_settings G p d st) c cfg' t s args = runAudit G c cfg t s args"
    "runExport (with_other_settings G p d st) c cfg' t s args = runExport G c cfg t s args"
    "runImport (with_other_settings G p d st) c cfg' t s args = runImport G c cfg t s args"
    "runDiff (with_other_settings G p d st) c cfg' t s args = runDiff G c cfg t s args"
    "runDoctor (with_other_settings G p d st) c cfg' t s args = runDoctor G c cfg t s args"
    "runCircle (with_other_settings G p d st) c cfg' t s args = runCircle G c cfg t s args"
    "runVersions (with_other_settings G p d st) c cfg' t s args = runVersions G c cfg t s args"
    "runBackup (with_other_settings G p d st) c cfg' t s args = runBackup G c cfg t s args"
    "runPasswd (with_other_settings G p d st) c t s args = runPasswd G c t s args"
    "runSetPassword (with_other_settings G p d st) t k args = runSetPassword G t k args"
  unfolding run_defs store_flag_def password_flag_def arg_path_def other_settings assms by (rule refl)+

text \<open>C23. Three settings of the configuration file have no effect. For every command but \<open>config\<close>, a run does not depend on
\<open>port\<close>, \<open>debounce\<close> and \<open>store_dir\<close>: replacing their values in what the file says changes nothing in what
the run does, prints and returns.\<close>

theorem port_debounce_and_store_dir_have_no_effect:
  assumes "name \<noteq> ''config''"
  shows "main (with_other_settings G port debounce storeDir) c t h (prog # name # args) = main G c t h (prog # name # args)"
proof -
  note same = other_settings_run [OF other_settings_config [where G = G and t = t and s = "htFS h" and k = "htKeyring h"]]
  show ?thesis using assms unfolding main_def Let_def commands_def by (simp add: same)
qed

theorem port_debounce_and_store_dir_have_no_effect_witness:
  "main (with_other_settings demo_gui 9000 ''1m'' ''/backups'') demo_gc demo_terminal demo_process [''cerclbackup'', ''serve'']
     = main demo_gui demo_gc demo_terminal demo_process [''cerclbackup'', ''serve'']"
  by (rule port_debounce_and_store_dir_have_no_effect) simp

subsection \<open>The password is not shown\<close>

definition with_config_password :: "'k libraries \<Rightarrow> string \<Rightarrow> 'k libraries" where
  "with_config_password G p = G\<lparr>gYaml := (\<lambda>d c. (gYaml G d c)\<lparr>cfPassword := p\<rparr>)\<rparr>"

text \<open>What \<open>config show\<close> prints depends on whether the configuration file sets a password, not on the password.\<close>

lemma config_show_hides_the_password:
  "p \<noteq> [] \<Longrightarrow> q \<noteq> [] \<Longrightarrow>
     runConfig (with_config_password G p) t s (''show'' # rest) = runConfig (with_config_password G q) t s (''show'' # rest)"
  by (simp add: runConfig_def with_config_password_def ConfigShow_def LoadFrom_def maskPassword_def split: sum.splits)

end
