(* ===== verification/Gui.thy ===== *)
theory Gui
  imports Front_End
begin

text \<open>
  \<open>cmd/cerclbackup-gui/app.go\<close>: the back end of the graphical interface. An \<open>App\<close> keeps the password of an unlocked
  session and the handles of a running watch and a running daemon; each of its methods, which the front end
  calls, is a call of \<open>internal/api\<close> with that password. The window, the tray and the events sent to the front end
  are Wails' and are not modelled, except the errors of a backup, which are nowhere else.
\<close>

subsection \<open>The session\<close>

record App =
  apPassword :: string
  apWatch :: "(Filter \<times> watcher) option"
  apServe :: "daemon option"

definition NewApp :: App where
  "NewApp = \<lparr>apPassword = [], apWatch = None, apServe = None\<rparr>"

definition locked_error :: error where
  "locked_error = Errorf ''locked: unlock with your password first''"

definition getPassword :: "App \<Rightarrow> string result" where
  "getPassword a = (if apPassword a = [] then Inl locked_error else Inr (apPassword a))"

text \<open>The first lines of most methods: \<open>pw, err := a.getPassword(); if err != nil { return nil, err }\<close>.\<close>

definition with_password :: "App \<Rightarrow> fs \<Rightarrow> (string \<Rightarrow> fs \<times> 'a result) \<Rightarrow> fs \<times> 'a result" where
  "with_password a s f = (case getPassword a of Inl e \<Rightarrow> (s, Inl e) | Inr pw \<Rightarrow> f pw)"

definition with_password_err :: "App \<Rightarrow> fs \<Rightarrow> (string \<Rightarrow> fs \<times> error option) \<Rightarrow> fs \<times> error option" where
  "with_password_err a s f = (case getPassword a of Inl e \<Rightarrow> (s, Some e) | Inr pw \<Rightarrow> f pw)"

definition IsInitialized :: "osenv \<Rightarrow> fs \<Rightarrow> bool" where
  "IsInitialized o' s =
     (case ConfigDir o' of Inl _ \<Rightarrow> False | Inr cfgDir \<Rightarrow> is_ok (Stat s (Join cfgDir [''keystore.enc''])))"

definition App_Unlock :: "'k libraries \<Rightarrow> fs \<Rightarrow> App \<Rightarrow> string \<Rightarrow> App \<times> error option" where
  "App_Unlock G s a password =
     (case OpenKeystore (gE G) s password of
        Inl e \<Rightarrow> (a, Some e)
      | Inr _ \<Rightarrow> (a\<lparr>apPassword := password\<rparr>, None))"

definition App_Lock :: "App \<Rightarrow> App" where
  "App_Lock a = a\<lparr>apPassword := []\<rparr>"

definition IsUnlocked :: "App \<Rightarrow> bool" where
  "IsUnlocked a = (apPassword a \<noteq> [])"

definition App_Init :: "'k libraries \<Rightarrow> draws \<Rightarrow> fs \<Rightarrow> App \<Rightarrow> InitParams \<Rightarrow> fs \<times> App \<times> InitResult result" where
  "App_Init G c s a P =
     (case Init (gE G) (gCircles G) (gPid G) (gcSetup c) s P of
        (s', Inl e) \<Rightarrow> (s', a, Inl e)
      | (s', Inr res) \<Rightarrow> (s', a\<lparr>apPassword := ipPassword P\<rparr>, Inr res))"

definition App_ShowPhrase :: "'k libraries \<Rightarrow> fs \<Rightarrow> App \<Rightarrow> string result" where
  "App_ShowPhrase G s a = rbind (getPassword a) (\<lambda>pw. ShowPhrase (gE G) s pw)"

definition App_Recover :: "'k libraries \<Rightarrow> draws \<Rightarrow> fs \<Rightarrow> App \<Rightarrow> string \<Rightarrow> string \<Rightarrow> fs \<times> App \<times> string result" where
  "App_Recover G c s a phrase password =
     (case Recover (gE G) (gPid G) (gcSetup c) s phrase password of
        (s', Inl e) \<Rightarrow> (s', a, Inl e)
      | (s', Inr res) \<Rightarrow> (s', a\<lparr>apPassword := password\<rparr>, Inr res))"

definition App_SetPassword :: "'k libraries \<Rightarrow> 'k \<Rightarrow> string \<Rightarrow> 'k \<times> error option" where
  "App_SetPassword G k password = SetPassword (gKeyring G) k password"

definition App_DeletePassword :: "'k libraries \<Rightarrow> 'k \<Rightarrow> 'k \<times> error option" where
  "App_DeletePassword G k = DeletePassword (gKeyring G) k"

definition App_Passwd :: "'k libraries \<Rightarrow> draws \<Rightarrow> fs \<Rightarrow> App \<Rightarrow> string \<Rightarrow> string \<Rightarrow> fs \<times> App \<times> error option" where
  "App_Passwd G c s a oldPassword newPassword =
     (case Passwd (gE G) (gcRnd1 c) s oldPassword newPassword of
        (s', Some e) \<Rightarrow> (s', a, Some e)
      | (s', None) \<Rightarrow> (s', a\<lparr>apPassword := newPassword\<rparr>, None))"

definition App_ConfigShow :: "'k libraries \<Rightarrow> fs \<Rightarrow> Config \<times> path" where
  "App_ConfigShow G s = ConfigShow (gYaml G) (eOS (gE G)) s"

definition App_ConfigInit :: "'k libraries \<Rightarrow> fs \<Rightarrow> fs \<times> path result" where
  "App_ConfigInit G s = ConfigInit (eOS (gE G)) s"

subsection \<open>Circles, invitations\<close>

definition App_CircleList :: "'k libraries \<Rightarrow> fs \<Rightarrow> App \<Rightarrow> Circle list result" where
  "App_CircleList G s a = rbind (getPassword a) (\<lambda>pw. CircleList (gE G) (gCircles G) s pw)"

definition App_CircleAdd :: "'k libraries \<Rightarrow> draws \<Rightarrow> fs \<Rightarrow> App \<Rightarrow> string \<Rightarrow> string \<Rightarrow> fs \<times> Circle result" where
  "App_CircleAdd G c s a name scheme =
     with_password a s (\<lambda>pw. CircleAdd (gE G) (gCircles G) (gcCircle c) s pw name scheme)"

definition App_CircleRemove :: "'k libraries \<Rightarrow> draws \<Rightarrow> fs \<Rightarrow> App \<Rightarrow> string \<Rightarrow> fs \<times> error option" where
  "App_CircleRemove G c s a name =
     with_password_err a s (\<lambda>pw. CircleRemove (gE G) (gCircles G) (gcRnd1 c) s pw name)"

definition App_Invite :: "'k libraries \<Rightarrow> draws \<Rightarrow> fs \<Rightarrow> App \<Rightarrow> int \<Rightarrow> fs \<times> InviteResult result" where
  "App_Invite G c s a servePort =
     with_password a s (\<lambda>pw. Invite_Api (gE G) (gNewMnemonic G) (gcInvite c) s pw servePort)"

definition App_Join ::
  "'k libraries \<Rightarrow> draws \<Rightarrow> fs \<Rightarrow> App \<Rightarrow> string \<Rightarrow> string \<Rightarrow> string \<Rightarrow> int \<Rightarrow> fs \<times> string result" where
  "App_Join G c s a addr ws name servePort =
     with_password a s (\<lambda>pw. Join_Api (gE G) (gMnemonicToByteArray G) (gcInvite c) s pw addr ws name servePort)"

definition App_InviteEmail :: "'k libraries \<Rightarrow> draws \<Rightarrow> fs \<Rightarrow> App \<Rightarrow> string \<Rightarrow> string \<Rightarrow> fs \<times> InviteEmailResult result" where
  "App_InviteEmail G c s a circleName to' =
     with_password a s (\<lambda>pw. InviteEmail (gE G) (gMail G) (gcMail c) s pw circleName to')"

definition App_JoinEmail :: "'k libraries \<Rightarrow> draws \<Rightarrow> fs \<Rightarrow> App \<Rightarrow> bytes \<Rightarrow> string \<Rightarrow> fs \<times> (string \<times> string) result" where
  "App_JoinEmail G c s a payloadJSON ws =
     with_password a s (\<lambda>pw. JoinEmail (gE G) (gMail G) (gcMail c) s pw payloadJSON ws)"

subsection \<open>Backup, watch, restore\<close>

text \<open>
  The sources one after the other: the error of a source is an event for the front end and is not in the result. The
  draws of a source are numbered by the sources that are left.
\<close>

fun backup_sources ::
  "env \<Rightarrow> (nat \<Rightarrow> backup_choice) \<Rightarrow> (path option \<Rightarrow> BackupParams) \<Rightarrow> path option list \<Rightarrow> fs \<Rightarrow> BackupResult \<Rightarrow> error list
     \<Rightarrow> (fs \<times> BackupResult \<times> error list) option" where
  "backup_sources E bc params [] s merged events = Some (s, merged, events)"
| "backup_sources E bc params (src # srcs) s merged events =
     (case Backup E (bc (length srcs)) s (params src) of
        None \<Rightarrow> None
      | Some (s', Inl e) \<Rightarrow> backup_sources E bc params srcs s' merged (events @ [e])
      | Some (s', Inr res) \<Rightarrow>
          backup_sources E bc params srcs s'
            \<lparr>brScheme = brScheme res, brFiles = brFiles merged @ brFiles res,
             brPrunedVersions = wrap64 (brPrunedVersions merged + brPrunedVersions res),
             brPushedToBuddies = wrap64 (brPushedToBuddies merged + brPushedToBuddies res)\<rparr> events)"

definition empty_result :: BackupResult where
  "empty_result = \<lparr>brScheme = \<lparr>DataShards = 0, ParityShards = 0\<rparr>, brFiles = [], brPrunedVersions = 0, brPushedToBuddies = 0\<rparr>"

definition App_Backup ::
  "'k libraries \<Rightarrow> draws \<Rightarrow> fs \<Rightarrow> App \<Rightarrow> path option \<Rightarrow> int \<Rightarrow> string \<Rightarrow> bool \<Rightarrow> path option list
     \<Rightarrow> (fs \<times> (BackupResult \<times> error list) result) option" where
  "App_Backup G c s a storeDir buddies exclude autoPrune srcPaths =
     (case getPassword a of
        Inl e \<Rightarrow> Some (s, Inl e)
      | Inr pw \<Rightarrow>
          (case backup_sources (gE G) (gcBackup c)
                  (\<lambda>src. \<lparr>bpSrc = src, bpStoreDir = storeDir, bpPassword = pw, bpBuddies = buddies, bpExclude = exclude,
                          bpAutoPrune = autoPrune\<rparr>) srcPaths s empty_result [] of
             None \<Rightarrow> None
           | Some (s', merged, events) \<Rightarrow> Some (s', Inr (merged, events))))"

text \<open>
  \<open>StartWatch\<close> up to the event loop, in which \<open>api.Watch\<close> stays; and the rest of it, once the loop has ended.
\<close>

definition StartWatch_begin ::
  "'k libraries \<Rightarrow> draws \<Rightarrow> fs \<Rightarrow> App \<Rightarrow> path option \<Rightarrow> path option \<Rightarrow> int \<Rightarrow> int \<Rightarrow> string \<Rightarrow> bool
     \<Rightarrow> fs \<times> (Filter \<times> watcher) result" where
  "StartWatch_begin G c s a srcDir storeDir buddies debounceSeconds exclude autoPrune =
     with_password a s (\<lambda>pw.
       if apWatch a \<noteq> None then (s, Inl (Errorf ''watch already running''))
       else Watch (gE G) (gcRnd1 c) (gcRnd2 c) (gcFsnotify c) (gcRefused c) (gcNow c) s
              \<lparr>wpSrcDir = srcDir, wpStoreDir = storeDir, wpPassword = pw, wpBuddies = buddies,
               wpDebounce = wrap64 (debounceSeconds * Second), wpExclude = exclude, wpAutoPrune = autoPrune\<rparr>)"

definition StartWatch_end :: "Filter \<times> watcher \<Rightarrow> App \<Rightarrow> App" where
  "StartWatch_end handle a = a\<lparr>apWatch := Some handle\<rparr>"

definition App_StopWatch :: "App \<Rightarrow> App \<times> (Filter \<times> watcher) result" where
  "App_StopWatch a =
     (case apWatch a of
        None \<Rightarrow> (a, Inl (Errorf ''watch is not running''))
      | Some (ef, w) \<Rightarrow> (a\<lparr>apWatch := None\<rparr>, Inr (ef, on_stop w)))"

definition IsWatching :: "App \<Rightarrow> bool" where
  "IsWatching a = (apWatch a \<noteq> None)"

definition App_ListFiles :: "'k libraries \<Rightarrow> draws \<Rightarrow> fs \<Rightarrow> App \<Rightarrow> bool \<Rightarrow> fs \<times> ManifestEntry list result" where
  "App_ListFiles G c s a showAll =
     with_password a s (\<lambda>pw. ListFiles_Api (gE G) (gcRnd1 c) (gcRnd2 c) (gcOrd c) (gcOrd2 c) s \<lparr>lpPassword = pw, lpAll = showAll\<rparr>)"

definition App_Versions :: "'k libraries \<Rightarrow> draws \<Rightarrow> fs \<Rightarrow> App \<Rightarrow> string \<Rightarrow> ManifestEntry list result" where
  "App_Versions G c s a file = rbind (getPassword a) (\<lambda>pw. Versions (gE G) (gcOrd c) s pw file)"

definition App_Restore ::
  "'k libraries \<Rightarrow> draws \<Rightarrow> fs \<Rightarrow> App \<Rightarrow> path option \<Rightarrow> path option \<Rightarrow> string \<Rightarrow> string \<Rightarrow> int \<Rightarrow> fs \<times> RestoreResult result" where
  "App_Restore G c s a storeDir out fileID filePath version =
     with_password a s (\<lambda>pw. Restore (gE G) (gcRestore c) s
       \<lparr>rpStoreDir = storeDir, rpPassword = pw, rpOut = out, rpFileID = fileID, rpFilePath = filePath, rpVersion = version\<rparr>)"

subsection \<open>Buddies, maintenance, archives, diagnostics\<close>

definition App_BuddyList :: "'k libraries \<Rightarrow> draws \<Rightarrow> fs \<Rightarrow> App \<Rightarrow> Entry list result" where
  "App_BuddyList G c s a = rbind (getPassword a) (\<lambda>pw. BuddyList (gE G) (gcOrd c) s pw)"

definition App_BuddyStatus :: "'k libraries \<Rightarrow> draws \<Rightarrow> fs \<Rightarrow> App \<Rightarrow> fs \<times> BuddyStatusEntry list result" where
  "App_BuddyStatus G c s a = with_password a s (\<lambda>pw. BuddyStatus (gE G) (gcInvite c) (gcLatency c) s pw)"

definition App_BuddyRemove :: "'k libraries \<Rightarrow> draws \<Rightarrow> fs \<Rightarrow> App \<Rightarrow> string \<Rightarrow> bool \<Rightarrow> fs \<times> error option" where
  "App_BuddyRemove G c s a peerID skipRebalance =
     with_password_err a s (\<lambda>pw. BuddyRemove (gE G) (gcExpired c) (gcMaint c) (gcInvite c) s pw peerID skipRebalance)"

definition App_Rebalance :: "'k libraries \<Rightarrow> draws \<Rightarrow> fs \<Rightarrow> App \<Rightarrow> path option \<Rightarrow> fs \<times> RebalanceResult result" where
  "App_Rebalance G c s a storeDir = with_password a s (\<lambda>pw. Rebalance (gE G) (gcExpired c) (gcMaint c) s pw storeDir)"

definition App_Audit :: "'k libraries \<Rightarrow> draws \<Rightarrow> fs \<Rightarrow> App \<Rightarrow> path option \<Rightarrow> fs \<times> AuditResult result" where
  "App_Audit G c s a storeDir = with_password a s (\<lambda>pw. Audit (gE G) (gcMaint c) s pw storeDir)"

definition App_Prune ::
  "'k libraries \<Rightarrow> draws \<Rightarrow> fs \<Rightarrow> App \<Rightarrow> int \<Rightarrow> int \<Rightarrow> int \<Rightarrow> bool \<Rightarrow> path option \<Rightarrow> fs \<times> PruneResult result" where
  "App_Prune G c s a keepAllDays keepWeeklyDays maxVersions dryRun storeDir =
     with_password a s (\<lambda>pw. Prune (gE G) (gcMaint c) s
       \<lparr>ppPassword = pw, ppKeepAllDays = keepAllDays, ppKeepWeeklyDays = keepWeeklyDays, ppMaxVersions = maxVersions,
        ppDryRun = dryRun, ppStoreDir = storeDir\<rparr>)"

definition App_Storage :: "'k libraries \<Rightarrow> draws \<Rightarrow> fs \<Rightarrow> App \<Rightarrow> path option \<Rightarrow> fs \<times> StorageStats result" where
  "App_Storage G c s a storeDir = with_password a s (\<lambda>pw. Storage (gE G) (gcMaint c) s pw storeDir)"

definition App_Scrub :: "'k libraries \<Rightarrow> draws \<Rightarrow> fs \<Rightarrow> App \<Rightarrow> fs \<times> Report result" where
  "App_Scrub G c s a = with_password a s (\<lambda>pw. Scrub (gE G) (gcMaint c) s pw)"

text \<open>\<open>time.Unix\<close>: the seconds since 1970 on the scale that starts in year 1.\<close>

definition time_Unix :: "int \<Rightarrow> time" where
  "time_Unix sec = wrap64 (sec + 62135596800) * Second"

definition App_Diff :: "'k libraries \<Rightarrow> draws \<Rightarrow> fs \<Rightarrow> App \<Rightarrow> int \<Rightarrow> fs \<times> DiffChange list result" where
  "App_Diff G c s a sinceUnixSeconds =
     with_password a s (\<lambda>pw. Diff (gE G) (gcMaint c) s pw (time_Unix sinceUnixSeconds))"

definition App_ManifestPull :: "'k libraries \<Rightarrow> draws \<Rightarrow> fs \<Rightarrow> App \<Rightarrow> string \<Rightarrow> path option \<Rightarrow> fs \<times> (path \<times> int) result" where
  "App_ManifestPull G c s a addr out = with_password a s (\<lambda>pw. ManifestPull (gE G) (gcMaint c) s pw addr out)"

definition App_Export ::
  "'k libraries \<Rightarrow> draws \<Rightarrow> fs \<Rightarrow> App \<Rightarrow> string \<Rightarrow> int \<Rightarrow> path option \<Rightarrow> path option \<Rightarrow> fs \<times> ExportResult result" where
  "App_Export G c s a filePath version outPath storeDir =
     with_password a s (\<lambda>pw. Export (gE G) (gArchive G) (gcMaint c) (gCwd G) s pw filePath version outPath storeDir)"

definition App_Import :: "'k libraries \<Rightarrow> draws \<Rightarrow> fs \<Rightarrow> App \<Rightarrow> path option \<Rightarrow> path option \<Rightarrow> fs \<times> ManifestEntry result" where
  "App_Import G c s a cbkPath storeDir =
     with_password a s (\<lambda>pw. Import (gE G) (gArchive G) (gcMaint c) s pw cbkPath storeDir)"

definition App_Doctor :: "'k libraries \<Rightarrow> draws \<Rightarrow> fs \<Rightarrow> App \<Rightarrow> path option \<Rightarrow> bool \<Rightarrow> fs \<times> DoctorResult result" where
  "App_Doctor G c s a storeDir checkBuddies =
     with_password a s (\<lambda>pw. Doctor (gE G) (gcDiag c) s
       \<lparr>dpPassword = pw, dpStoreDir = storeDir, dpCheckBuddies = checkBuddies, dpMaxAge = 0\<rparr>)"

definition App_Dashboard :: "'k libraries \<Rightarrow> draws \<Rightarrow> fs \<Rightarrow> App \<Rightarrow> path option \<Rightarrow> fs \<times> DashboardResult result" where
  "App_Dashboard G c s a storeDir = with_password a s (\<lambda>pw. Dashboard (gE G) (gcDiag c) s pw storeDir)"

subsection \<open>The daemon and the language\<close>

record ServeStatus =
  seRunning :: bool
  sePeerID :: string
  seAddrs :: "string list"

definition App_StartServe ::
  "'k libraries \<Rightarrow> draws \<Rightarrow> Limiter option \<Rightarrow> fs \<Rightarrow> App \<Rightarrow> int \<Rightarrow> int \<Rightarrow> string \<Rightarrow> fs \<times> App \<times> ServeStatus result" where
  "App_StartServe G c limiter s a port uploadKbps healthAddr =
     (case getPassword a of
        Inl e \<Rightarrow> (s, a, Inl e)
      | Inr pw \<Rightarrow>
          if apServe a \<noteq> None then (s, a, Inl (Errorf ''serve already running''))
          else (case StartServe (gE G) (gcInvite c) (gcNow c) limiter s
                       \<lparr>svPassword = pw, svPort = port, svUploadKbps = uploadKbps, svHealthAddr = healthAddr, svRedialInterval = 0\<rparr> of
                  (s', Inl e) \<Rightarrow> (s', a, Inl e)
                | (s', Inr d) \<Rightarrow>
                    (s', a\<lparr>apServe := Some d\<rparr>, Inr \<lparr>seRunning = True, sePeerID = sdPeerID d, seAddrs = sdAddrs d\<rparr>)))"

definition App_StopServe :: "App \<Rightarrow> App \<times> daemon result" where
  "App_StopServe a =
     (case apServe a of
        None \<Rightarrow> (a, Inl (Errorf ''serve is not running''))
      | Some d \<Rightarrow> (a\<lparr>apServe := None\<rparr>, Inr (Stop_Serve d)))"

definition GetServeStatus :: "App \<Rightarrow> ServeStatus" where
  "GetServeStatus a =
     (case apServe a of
        None \<Rightarrow> \<lparr>seRunning = False, sePeerID = [], seAddrs = []\<rparr>
      | Some d \<Rightarrow> \<lparr>seRunning = True, sePeerID = sdPeerID d, seAddrs = sdAddrs d\<rparr>)"

definition GetLanguage :: "osenv \<Rightarrow> fs \<Rightarrow> string" where
  "GetLanguage o' s =
     (case ConfigDir o' of
        Inl _ \<Rightarrow> ''en''
      | Inr cfgDir \<Rightarrow>
          (case ReadFile s (Join cfgDir [''gui-lang'']) of
             Inl _ \<Rightarrow> ''en''
           | Inr d \<Rightarrow> let lang = string_of_bytes d in if lang \<noteq> ''fr'' \<and> lang \<noteq> ''en'' then ''en'' else lang))"

definition SetLanguage :: "osenv \<Rightarrow> fs \<Rightarrow> string \<Rightarrow> fs \<times> error option" where
  "SetLanguage o' s lang =
     (if lang \<noteq> ''fr'' \<and> lang \<noteq> ''en'' then (s, Some (Errorf ''unsupported language''))
      else case ConfigDir o' of
        Inl e \<Rightarrow> (s, Some e)
      | Inr cfgDir \<Rightarrow>
          (case MkdirAll s cfgDir of
             (s1, Some e) \<Rightarrow> (s1, Some e)
           | (s1, None) \<Rightarrow> WriteFile s1 (Join cfgDir [''gui-lang'']) (bytes_of_string lang)))"

subsection \<open>Sessions\<close>

text \<open>
  The front end calls the bound methods by name; a request is a call with its arguments. What a call returns to the front end
  is not needed here beyond its error. \<open>StartWatch\<close> does not return while its event loop runs: the loop is then one of
  \<open>dkLoops\<close>, and its end is an event of its own.
\<close>

datatype request =
  RUnlock string | RLock | RInit InitParams | RShowPhrase | RRecover string string | RSetPassword string | RDeletePassword
| RPasswd string string | RConfigInit | RCircleList | RCircleAdd string string | RCircleRemove string | RInvite int
| RJoin string string string int | RInviteEmail string string | RJoinEmail bytes string
| RBackup "path option" int string bool "path option list" | RStartWatch "path option" "path option" int int string bool | RStopWatch
| RListFiles bool | RVersions string | RRestore "path option" "path option" string string int | RBuddyList | RBuddyStatus
| RBuddyRemove string bool | RRebalance "path option" | RAudit "path option" | RPrune int int int bool "path option"
| RStorage "path option" | RScrub | RDiff int | RManifestPull string "path option"
| RExport string int "path option" "path option" | RImport "path option" "path option" | RDoctor "path option" bool
| RDashboard "path option" | RStartServe int int string | RStopServe | RSetLanguage string

record 'k desktop =
  dkFS :: fs
  dkKeyring :: 'k
  dkApp :: App
  dkLoops :: "(Filter \<times> watcher) list"

definition failed :: "'a result \<Rightarrow> error option" where
  "failed r = (case r of Inl e \<Rightarrow> Some e | Inr _ \<Rightarrow> None)"

text \<open>A call that writes the disk, one that only reads it, one that may also change the session.\<close>

definition on_disk :: "'k desktop \<Rightarrow> fs \<times> 'a result \<Rightarrow> ('k desktop \<times> error option) option" where
  "on_disk D r = Some (D\<lparr>dkFS := fst r\<rparr>, failed (snd r))"

definition on_disk_err :: "'k desktop \<Rightarrow> fs \<times> error option \<Rightarrow> ('k desktop \<times> error option) option" where
  "on_disk_err D r = Some (D\<lparr>dkFS := fst r\<rparr>, snd r)"

definition reading :: "'k desktop \<Rightarrow> 'a result \<Rightarrow> ('k desktop \<times> error option) option" where
  "reading D r = Some (D, failed r)"

definition on_session :: "'k desktop \<Rightarrow> fs \<times> App \<times> 'a result \<Rightarrow> ('k desktop \<times> error option) option" where
  "on_session D r = Some (D\<lparr>dkFS := fst r, dkApp := fst (snd r)\<rparr>, failed (snd (snd r)))"

fun perform :: "'k libraries \<Rightarrow> draws \<Rightarrow> 'k desktop \<Rightarrow> request \<Rightarrow> ('k desktop \<times> error option) option" where
  "perform G c D (RUnlock pw) =
     (case App_Unlock G (dkFS D) (dkApp D) pw of (a, e) \<Rightarrow> Some (D\<lparr>dkApp := a\<rparr>, e))"
| "perform G c D RLock = Some (D\<lparr>dkApp := App_Lock (dkApp D)\<rparr>, None)"
| "perform G c D (RInit P) = on_session D (App_Init G c (dkFS D) (dkApp D) P)"
| "perform G c D RShowPhrase = reading D (App_ShowPhrase G (dkFS D) (dkApp D))"
| "perform G c D (RRecover phrase pw) = on_session D (App_Recover G c (dkFS D) (dkApp D) phrase pw)"
| "perform G c D (RSetPassword pw) = (case App_SetPassword G (dkKeyring D) pw of (k, e) \<Rightarrow> Some (D\<lparr>dkKeyring := k\<rparr>, e))"
| "perform G c D RDeletePassword = (case App_DeletePassword G (dkKeyring D) of (k, e) \<Rightarrow> Some (D\<lparr>dkKeyring := k\<rparr>, e))"
| "perform G c D (RPasswd old new) =
     (case App_Passwd G c (dkFS D) (dkApp D) old new of (s, a, e) \<Rightarrow> Some (D\<lparr>dkFS := s, dkApp := a\<rparr>, e))"
| "perform G c D RConfigInit = on_disk D (App_ConfigInit G (dkFS D))"
| "perform G c D RCircleList = reading D (App_CircleList G (dkFS D) (dkApp D))"
| "perform G c D (RCircleAdd n sch) = on_disk D (App_CircleAdd G c (dkFS D) (dkApp D) n sch)"
| "perform G c D (RCircleRemove n) = on_disk_err D (App_CircleRemove G c (dkFS D) (dkApp D) n)"
| "perform G c D (RInvite port) = on_disk D (App_Invite G c (dkFS D) (dkApp D) port)"
| "perform G c D (RJoin addr ws n port) = on_disk D (App_Join G c (dkFS D) (dkApp D) addr ws n port)"
| "perform G c D (RInviteEmail circle to') = on_disk D (App_InviteEmail G c (dkFS D) (dkApp D) circle to')"
| "perform G c D (RJoinEmail payload ws) = on_disk D (App_JoinEmail G c (dkFS D) (dkApp D) payload ws)"
| "perform G c D (RBackup st n ex prune srcs) =
     (case App_Backup G c (dkFS D) (dkApp D) st n ex prune srcs of None \<Rightarrow> None | Some r \<Rightarrow> on_disk D r)"
| "perform G c D (RStartWatch src st n debounce ex prune) =
     (case StartWatch_begin G c (dkFS D) (dkApp D) src st n debounce ex prune of
        (s, Inl e) \<Rightarrow> Some (D\<lparr>dkFS := s\<rparr>, Some e)
      | (s, Inr h) \<Rightarrow> Some (D\<lparr>dkFS := s, dkLoops := h # dkLoops D\<rparr>, None))"
| "perform G c D RStopWatch = (case App_StopWatch (dkApp D) of (a, r) \<Rightarrow> Some (D\<lparr>dkApp := a\<rparr>, failed r))"
| "perform G c D (RListFiles b) = on_disk D (App_ListFiles G c (dkFS D) (dkApp D) b)"
| "perform G c D (RVersions f) = reading D (App_Versions G c (dkFS D) (dkApp D) f)"
| "perform G c D (RRestore st out fid p v) = on_disk D (App_Restore G c (dkFS D) (dkApp D) st out fid p v)"
| "perform G c D RBuddyList = reading D (App_BuddyList G c (dkFS D) (dkApp D))"
| "perform G c D RBuddyStatus = on_disk D (App_BuddyStatus G c (dkFS D) (dkApp D))"
| "perform G c D (RBuddyRemove p skip) = on_disk_err D (App_BuddyRemove G c (dkFS D) (dkApp D) p skip)"
| "perform G c D (RRebalance st) = on_disk D (App_Rebalance G c (dkFS D) (dkApp D) st)"
| "perform G c D (RAudit st) = on_disk D (App_Audit G c (dkFS D) (dkApp D) st)"
| "perform G c D (RPrune x y z dry st) = on_disk D (App_Prune G c (dkFS D) (dkApp D) x y z dry st)"
| "perform G c D (RStorage st) = on_disk D (App_Storage G c (dkFS D) (dkApp D) st)"
| "perform G c D RScrub = on_disk D (App_Scrub G c (dkFS D) (dkApp D))"
| "perform G c D (RDiff t) = on_disk D (App_Diff G c (dkFS D) (dkApp D) t)"
| "perform G c D (RManifestPull addr out) = on_disk D (App_ManifestPull G c (dkFS D) (dkApp D) addr out)"
| "perform G c D (RExport f v out st) = on_disk D (App_Export G c (dkFS D) (dkApp D) f v out st)"
| "perform G c D (RImport p st) = on_disk D (App_Import G c (dkFS D) (dkApp D) p st)"
| "perform G c D (RDoctor st b) = on_disk D (App_Doctor G c (dkFS D) (dkApp D) st b)"
| "perform G c D (RDashboard st) = on_disk D (App_Dashboard G c (dkFS D) (dkApp D) st)"
| "perform G c D (RStartServe port kbps addr) =
     on_session D (App_StartServe G c (gcLimiter c) (dkFS D) (dkApp D) port kbps addr)"
| "perform G c D RStopServe = (case App_StopServe (dkApp D) of (a, r) \<Rightarrow> Some (D\<lparr>dkApp := a\<rparr>, failed r))"
| "perform G c D (RSetLanguage lang) = on_disk_err D (SetLanguage (eOS (gE G)) (dkFS D) lang)"

text \<open>
  A run of a session, with what happened, the latest first: a request was answered, the event loop of a watch ended and its
  \<open>StartWatch\<close> returned, or the disk was changed by others.
\<close>

datatype happened = Answered request "error option" | Loop_Ended

inductive gui_run :: "'k libraries \<Rightarrow> 'k desktop \<Rightarrow> happened list \<Rightarrow> 'k desktop \<Rightarrow> bool" for G D where
  start: "gui_run G D [] D"
| answer: "gui_run G D hist D1 \<Longrightarrow> perform G c D1 r = Some (D2, e) \<Longrightarrow> gui_run G D (Answered r e # hist) D2"
| ended: "gui_run G D hist D1 \<Longrightarrow> h \<in> set (dkLoops D1) \<Longrightarrow>
     gui_run G D (Loop_Ended # hist) (D1\<lparr>dkLoops := remove1 h (dkLoops D1), dkApp := StartWatch_end h (dkApp D1)\<rparr>)"
| outside: "gui_run G D hist D1 \<Longrightarrow> gui_run G D hist (D1\<lparr>dkFS := s\<rparr>)"

lemmas app_defs = App_Unlock_def App_Lock_def App_Init_def App_Recover_def App_Passwd_def App_StartServe_def App_StopServe_def
  App_StopWatch_def StartWatch_begin_def

lemmas answer_defs = on_disk_def on_disk_err_def reading_def on_session_def

end
