(* ===== verification/Cli_Agreement.thy ===== *)
theory Cli_Agreement
  imports Cli_Behaviour Gui
begin

text \<open>
  The two front ends agree: every request of the graphical interface that has a command has a command line that does the same to the disk
  and the keyring. The command line of a request is its settings in the form \<open>--name=value\<close>; the lemmas before it say that Go's flag
  package reads them back.
\<close>

subsection \<open>Command lines from settings\<close>

text \<open>The argument that sets a flag; a duration in whole seconds.\<close>

fun text_of :: "flag_value \<Rightarrow> string" where
  "text_of (FString x) = x"
| "text_of (FInt i) = Itoa i"
| "text_of (FBool b) = (if b then ''true'' else ''false'')"
| "text_of (FDuration d) = Itoa (d div Second) @ ''s''"

fun printable :: "flag_value \<Rightarrow> bool" where
  "printable (FInt i) = in_int64 i"
| "printable (FDuration d) \<longleftrightarrow> 0 \<le> d \<and> d < 2 ^ 63 \<and> d mod Second = 0"
| "printable _ \<longleftrightarrow> True"

definition setting_arg :: "string \<times> flag_value \<Rightarrow> string" where
  "setting_arg nv = ''--'' @ fst nv @ CHR ''='' # text_of (snd nv)"

definition args_of :: "flags \<Rightarrow> string list" where
  "args_of vs = map setting_arg vs"

definition set_all :: "flags \<Rightarrow> flags \<Rightarrow> flags" where
  "set_all vs fl = fold (\<lambda>nv. AList.update (fst nv) (snd nv)) vs fl"

fun fits :: "flags \<Rightarrow> flags \<Rightarrow> bool" where
  "fits fl [] \<longleftrightarrow> True"
| "fits fl (nv # vs) \<longleftrightarrow>
     flag_name (fst nv) \<and> printable (snd nv) \<and> (case map_of fl (fst nv) of None \<Rightarrow> False | Some cur \<Rightarrow> same_type cur (snd nv)) \<and> fits fl vs"

lemma duration_items_one: "duration_item x = Some (v, []) \<Longrightarrow> v \<le> 2 ^ 63 - 1 \<Longrightarrow> duration_items 0 x = Some v"
proof -
  assume a: "duration_item x = Some (v, [])" "v \<le> 2 ^ 63 - 1"
  have "v mod 2 ^ 64 = v" using a(2) by simp
  moreover have "x \<noteq> []" using a(1) duration_item_shorter by fastforce
  ultimately show ?thesis using a by (simp add: duration_items.simps [of 0 x] duration_items.simps [of v "[]"])
qed

lemma ParseDuration_seconds: "0 \<le> n \<Longrightarrow> n * Second < 2 ^ 63 \<Longrightarrow> ParseDuration (Itoa n @ ''s'') = Some (n * Second)"
proof -
  assume n: "0 \<le> n" "n * Second < 2 ^ 63"
  define ds where "ds = nat_str (nat n)"
  have it: "Itoa n = ds" using n(1) by (simp add: Itoa_def ds_def)
  have chars: "\<exists>d < 10. c = digit d" if "c \<in> set ds" for c using nat_str_chars that by (auto simp: ds_def)
  have dig: "is_digit c" if "c \<in> set ds" for c using chars [OF that] by (auto simp: is_digit_def)
  have nos: "\<not> is_digit (CHR ''s'')" by code_simp
  have tw: "takeWhile is_digit (ds @ ''s'') = ds" "dropWhile is_digit (ds @ ''s'') = ''s''"
    using dig nos by (simp_all add: takeWhile_append dropWhile_append)
  have val: "digits_val 0 ds = Some (nat n)" by (simp add: ds_def digits_val_nat_str)
  have ne: "ds \<noteq> []" using hd_nat_str_not_sign by (auto simp: ds_def nat_str.simps)
  have small: "nat n * 1000000000 < 2 ^ 63" using n by (simp add: Second_def nat_less_iff flip: nat_mult_distrib)
  then have le: "nat n \<le> 2 ^ 63" "\<not> 2 ^ 63 div 1000000000 < nat n" by simp_all
  have "leadingInt (ds @ ''s'') = Some (nat n, ''s'')" using le by (simp add: leadingInt_def tw val)
  then have "duration_item (ds @ ''s'') = Some (nat n * 1000000000, [])"
    using le small nos ne by (simp add: duration_item_def Let_def unitMap_def)
  then have "duration_items 0 (ds @ ''s'') = Some (nat n * 1000000000)" using small by (intro duration_items_one) simp_all
  then show ?thesis
    using n ne small hd_nat_str_not_sign [of "nat n"] by (auto simp: ParseDuration_def Let_def it ds_def Second_def)
qed

lemma set_flag_text: "same_type cur v \<Longrightarrow> printable v \<Longrightarrow> set_flag cur (text_of v) = Some v"
proof (cases v)
  case (FDuration d)
  assume "same_type cur v" "printable v"
  then show ?thesis using FDuration ParseDuration_seconds [of "d div Second"]
    by (cases cur) (auto simp: Second_def)
qed (auto simp: ParseInt_Itoa ParseBool_def elim: same_type.elims)

lemma same_type_update: "same_type cur v \<Longrightarrow> same_type cur w \<longleftrightarrow> same_type v w"
  by (cases cur; cases v; cases w) auto

lemma fits_update: "map_of fl n = Some cur \<Longrightarrow> same_type cur v \<Longrightarrow> fits (AList.update n v fl) vs = fits fl vs"
  by (induction vs) (auto simp: update_conv' same_type_update split: option.splits)

lemma parse_settings: "fits fl vs \<Longrightarrow> parse_flags fl (args_of vs) = Parsed (set_all vs fl) []"
proof (induction vs arbitrary: fl)
  case Nil
  then show ?case by (simp add: set_all_def args_of_def)
next
  case (Cons nv vs)
  obtain n v where nv: "nv = (n, v)" by (cases nv)
  from Cons.prems obtain cur where c: "flag_name n" "printable v" "map_of fl n = Some cur" "same_type cur v" "fits fl vs"
    by (auto simp: nv split: option.splits)
  have "parse_flags fl (args_of (nv # vs)) = parse_flags (AList.update n v fl) (args_of vs)"
    using parse_flags_joined [OF c(1,3) set_flag_text [OF c(4,2)]] by (simp add: args_of_def setting_arg_def nv)
  with Cons.IH [of "AList.update n v fl"] c show ?case by (simp add: fits_update set_all_def nv)
qed

lemma map_of_set_all: "map_of (set_all vs fl) n = (case map_of (rev vs) n of None \<Rightarrow> map_of fl n | Some v \<Rightarrow> Some v)"
  by (induction vs arbitrary: fl) (auto simp: set_all_def update_conv' map_add_def split: option.splits)

lemma with_flags_settings: "fits fl vs \<Longrightarrow> with_flags name fl (args_of vs) stop f = f (set_all vs fl)"
  by (simp add: with_flags_def parse_settings)

subsection \<open>The command of a request\<close>

definition path_arg :: "path option \<Rightarrow> string" where
  "path_arg p = (case p of None \<Rightarrow> [] | Some q \<Rightarrow> path_string q)"

definition plain_path :: "path option \<Rightarrow> bool" where
  "plain_path p \<longleftrightarrow> (case p of None \<Rightarrow> True | Some q \<Rightarrow> list_all plain_component q)"

lemma Join_components: "list_all plain_component q \<Longrightarrow> foldl path_step p q = p @ q"
  by (induction q arbitrary: p) (simp_all add: path_step_def plain_component_def)

lemma arg_path_arg: "plain_path p \<Longrightarrow> arg_path G (path_arg p) = p"
proof (cases p)
  case (Some q)
  assume "plain_path p"
  then have q: "list_all plain_component q" by (simp add: plain_path_def Some)
  show ?thesis
  proof (cases "q = []")
    case True
    then show ?thesis by (simp add: Some path_arg_def path_string_def arg_path_def Join_def path_step_def)
  next
    case False
    have "split_at (CHR ''/'') (path_string q) = [] # q"
      using q False by (intro split_path_string) (auto simp: list_all_iff plain_component_def)
    moreover have "hd (path_string q) = CHR ''/''" "path_string q \<noteq> []" using False by (cases q; simp add: path_string_def)+
    ultimately show ?thesis
      using Join_components [OF q, of "[]"] by (simp add: Some path_arg_def arg_path_def Join_def path_step_def)
  qed
qed (simp add: path_arg_def arg_path_def)

lemma path_arg_empty: "path_arg p = [] \<longleftrightarrow> p = None"
  by (cases p) (auto simp: path_arg_def path_string_def)

text \<open>The password is passed when it is not the one that the run starts with.\<close>

definition password_setting :: "Config \<Rightarrow> string \<Rightarrow> flags" where
  "password_setting cfg pw = (if cfPassword cfg = pw then [] else [(''password'', FString pw)])"

fun command_line :: "Config \<Rightarrow> string \<Rightarrow> request \<Rightarrow> (string list \<times> flags) option" where
  "command_line cfg pw (RInit P) =
     Some ([''init''], password_setting cfg (ipPassword P) @ [(''store'', FString (path_arg (ipStoreDir P))), (''force'', FBool (ipForce P))])"
| "command_line cfg pw RShowPhrase = Some ([''show-phrase''], password_setting cfg pw)"
| "command_line cfg pw (RRecover phrase pw') =
     Some ([''recover''], password_setting cfg pw' @ [(''phrase'', FString phrase)])"
| "command_line cfg pw RDeletePassword = Some ([''set-password''], [(''delete'', FBool True)])"
| "command_line cfg pw (RPasswd old new) = Some ([''passwd''], [(''old'', FString old), (''new'', FString new)])"
| "command_line cfg pw RConfigInit = Some ([''config'', ''init''], [])"
| "command_line cfg pw RCircleList = Some ([''circle'', ''list''], password_setting cfg pw)"
| "command_line cfg pw (RCircleAdd n sch) =
     Some ([''circle'', ''add''], password_setting cfg pw @ [(''name'', FString n), (''scheme'', FString sch)])"
| "command_line cfg pw (RCircleRemove n) =
     Some ([''circle'', ''rm''], password_setting cfg pw @ [(''name'', FString n), (''confirm-name'', FString n)])"
| "command_line cfg pw (RInvite port) = Some ([''invite''], password_setting cfg pw @ [(''port'', FInt port)])"
| "command_line cfg pw (RJoin addr ws n port) =
     Some ([''join''], password_setting cfg pw @
       [(''addr'', FString addr), (''words'', FString ws), (''name'', FString n), (''port'', FInt port)])"
| "command_line cfg pw (RInviteEmail circle to') =
     Some ([''invite-email''], password_setting cfg pw @ [(''circle'', FString circle), (''to'', FString to')])"
| "command_line cfg pw (RBackup st n ex prune srcs) =
     (case srcs of
        [src] \<Rightarrow> Some ([''backup''], password_setting cfg pw @
          [(''src'', FString (path_arg src)), (''store'', FString (path_arg st)), (''buddies'', FInt n), (''exclude'', FString ex),
           (''auto-prune'', FBool prune)])
      | _ \<Rightarrow> None)"
| "command_line cfg pw (RStartWatch src st n debounce ex prune) =
     Some ([''watch''], password_setting cfg pw @
       [(''src'', FString (path_arg src)), (''store'', FString (path_arg st)), (''buddies'', FInt n),
        (''debounce'', FDuration (debounce * Second)), (''exclude'', FString ex), (''auto-prune'', FBool prune)])"
| "command_line cfg pw (RListFiles b) = Some ([''list''], password_setting cfg pw @ [(''all'', FBool b)])"
| "command_line cfg pw (RVersions f) = Some ([''versions''], password_setting cfg pw @ [(''file'', FString f)])"
| "command_line cfg pw (RRestore st out fid p v) =
     Some ([''restore''], password_setting cfg pw @
       [(''store'', FString (path_arg st)), (''out'', FString (path_arg out)), (''file-id'', FString fid), (''file'', FString p),
        (''version'', FInt v)])"
| "command_line cfg pw RBuddyList = Some ([''buddy'', ''list''], password_setting cfg pw)"
| "command_line cfg pw RBuddyStatus = Some ([''buddy'', ''status''], password_setting cfg pw)"
| "command_line cfg pw (RBuddyRemove p skip) =
     Some ([''buddy'', ''rm''], password_setting cfg pw @ [(''peer-id'', FString p), (''no-rebalance'', FBool skip)])"
| "command_line cfg pw (RRebalance st) = Some ([''rebalance''], password_setting cfg pw @ [(''store'', FString (path_arg st))])"
| "command_line cfg pw (RAudit st) = Some ([''audit''], password_setting cfg pw @ [(''store'', FString (path_arg st))])"
| "command_line cfg pw (RPrune x y z dry st) =
     Some ([''prune''], password_setting cfg pw @
       [(''keep-all-days'', FInt x), (''keep-weekly-days'', FInt y), (''max-versions'', FInt z), (''dry-run'', FBool dry),
        (''store'', FString (path_arg st))])"
| "command_line cfg pw (RStorage st) = Some ([''storage''], password_setting cfg pw @ [(''store'', FString (path_arg st))])"
| "command_line cfg pw RScrub = Some ([''scrub''], password_setting cfg pw)"
| "command_line cfg pw (RManifestPull addr out) =
     Some ([''manifest-pull''], password_setting cfg pw @ [(''addr'', FString addr), (''out'', FString (path_arg out))])"
| "command_line cfg pw (RExport f v out st) =
     Some ([''export''], password_setting cfg pw @
       [(''file'', FString f), (''version'', FInt v), (''out'', FString (path_arg out)), (''store'', FString (path_arg st))])"
| "command_line cfg pw (RImport p st) =
     Some ([''import''], password_setting cfg pw @ [(''file'', FString (path_arg p)), (''store'', FString (path_arg st))])"
| "command_line cfg pw (RDoctor st b) =
     Some ([''doctor''], password_setting cfg pw @
       [(''store'', FString (path_arg st)), (''check-buddies'', FBool b), (''max-age'', FDuration 0)])"
| "command_line cfg pw (RStartServe port kbps addr) =
     Some ([''serve''], password_setting cfg pw @
       [(''port'', FInt port), (''upload-kbps'', FInt kbps), (''health-addr'', FString addr), (''redial-interval'', FDuration 0)])"
| "command_line cfg pw _ = None"

text \<open>
  What a request has to be to have a command: absolute plain paths, numbers of 64 bits, and a value where the
  command insists on one and the graphical interface does not.
\<close>

fun commandable :: "request \<Rightarrow> bool" where
  "commandable (RInit P) \<longleftrightarrow> ipPassword P \<noteq> [] \<and> plain_path (ipStoreDir P)"
| "commandable (RPasswd old new) \<longleftrightarrow> old \<noteq> [] \<and> new \<noteq> []"
| "commandable (RCircleAdd n sch) \<longleftrightarrow> n \<noteq> []"
| "commandable (RCircleRemove n) \<longleftrightarrow> n \<noteq> []"
| "commandable (RInvite port) \<longleftrightarrow> in_int64 port"
| "commandable (RJoin addr ws n port) \<longleftrightarrow> in_int64 port"
| "commandable (RInviteEmail circle to') \<longleftrightarrow> to' \<noteq> []"
| "commandable (RBackup st n ex prune srcs) \<longleftrightarrow> plain_path st \<and> in_int64 n \<and> list_all plain_path srcs"
| "commandable (RStartWatch src st n debounce ex prune) \<longleftrightarrow>
     plain_path src \<and> plain_path st \<and> in_int64 n \<and> 0 \<le> debounce \<and> debounce * Second < 2 ^ 63"
| "commandable (RRestore st out fid p v) \<longleftrightarrow> plain_path st \<and> plain_path out \<and> in_int64 v"
| "commandable (RBuddyRemove p skip) \<longleftrightarrow> p \<noteq> []"
| "commandable (RRebalance st) \<longleftrightarrow> plain_path st"
| "commandable (RAudit st) \<longleftrightarrow> plain_path st"
| "commandable (RPrune x y z dry st) \<longleftrightarrow> in_int64 x \<and> in_int64 y \<and> in_int64 z \<and> plain_path st"
| "commandable (RStorage st) \<longleftrightarrow> plain_path st"
| "commandable (RManifestPull addr out) \<longleftrightarrow> plain_path out"
| "commandable (RExport f v out st) \<longleftrightarrow> in_int64 v \<and> plain_path out \<and> plain_path st \<and> f \<noteq> []"
| "commandable (RImport p st) \<longleftrightarrow> plain_path p \<and> plain_path st"
| "commandable (RDoctor st b) \<longleftrightarrow> plain_path st"
| "commandable (RStartServe port kbps addr) \<longleftrightarrow> in_int64 port \<and> in_int64 kbps"
| "commandable _ \<longleftrightarrow> True"

definition fresh_desktop :: "'k host \<Rightarrow> string \<Rightarrow> 'k desktop" where
  "fresh_desktop h pw =
     \<lparr>dkFS = htFS h, dkKeyring = htKeyring h, dkApp = \<lparr>apPassword = pw, apWatch = None, apServe = None\<rparr>, dkLoops = []\<rparr>"

definition reported :: "cli_end \<Rightarrow> error option \<Rightarrow> bool" where
  "reported x e \<longleftrightarrow> (e \<noteq> None \<longrightarrow> x = Exit 1 \<or> (\<exists>msg. x = Crash msg))"

text \<open>The process did with the disk and the keyring what the request did, and reports its error.\<close>

definition same_effect :: "('k host \<times> cli_end \<times> say list) option \<Rightarrow> ('k desktop \<times> error option) option \<Rightarrow> bool" where
  "same_effect m p \<longleftrightarrow>
     (case (m, p) of
        (None, None) \<Rightarrow> True
      | (Some (h', x, out), Some (D', e)) \<Rightarrow> htFS h' = dkFS D' \<and> htKeyring h' = dkKeyring D' \<and> reported x e
      | _ \<Rightarrow> False)"

lemma reported_fails: "reported (fst (fails t pre e)) e'" "reported (fst (fails_plain t pre e says)) e'"
  by (auto simp: reported_def fails_def fails_plain_def split: option.splits)

lemma reported_fails_eq: "fails t pre e = (x, out) \<Longrightarrow> reported x e'" "fails_plain t pre e says = (x, out) \<Longrightarrow> reported x e'"
  using reported_fails by (metis fst_conv)+

lemma reported_simps [simp]: "reported x None" "reported (Exit 1) e" "reported (Crash m) e"
  by (simp_all add: reported_def)

text \<open>A command that changes the disk only.\<close>

definition agrees :: "fs \<times> cli_end \<times> say list \<Rightarrow> fs \<times> error option \<Rightarrow> bool" where
  "agrees m p \<longleftrightarrow> fst m = fst p \<and> reported (fst (snd m)) (snd p)"

lemma fits_append [simp]: "fits fl (vs @ ws) \<longleftrightarrow> fits fl vs \<and> fits fl ws"
  by (induction vs) auto

lemma fits_password [simp]:
  "fits fl (password_setting cfg pw) \<longleftrightarrow>
     (cfPassword cfg \<noteq> pw \<longrightarrow> (case map_of fl ''password'' of Some (FString _) \<Rightarrow> True | _ \<Rightarrow> False))"
  by (auto simp: password_setting_def flag_name_def split: option.splits flag_value.splits elim: same_type.elims)

lemma set_all_Nil [simp]: "set_all [] fl = fl"
  by (simp add: set_all_def)

lemma map_of_set_all_Cons:
  "map_of (set_all ((k, v) # vs) fl) n = (case map_of (rev vs) n of None \<Rightarrow> if n = k then Some v else map_of fl n | Some w \<Rightarrow> Some w)"
  by (simp add: map_of_set_all map_add_def split: option.splits)

lemma map_of_set_all_password:
  assumes "map_of fl ''password'' = Some (FString (cfPassword cfg))"
  shows "map_of (set_all (password_setting cfg pw @ vs) fl) n =
           (case map_of (rev vs) n of Some v \<Rightarrow> Some v | None \<Rightarrow> if n = ''password'' then Some (FString pw) else map_of fl n)"
  using assms by (simp add: map_of_set_all password_setting_def map_add_def split: option.splits)

lemmas map_of_set_all_password_only = map_of_set_all_password [where vs = "[]", simplified]

lemmas setting_simps = flag_name_def password_flag_def store_flag_def str_of_def int_of_flag_def bool_of_def dur_of_def
  map_of_set_all_password map_of_set_all_password_only map_of_set_all_Cons

lemma commands_simps:
  "map_of (commands G c cfg t) ''init'' = Some (runInit G c cfg t)"
  "map_of (commands G c cfg t) ''restore'' = Some (runRestore G c cfg t)"
  "map_of (commands G c cfg t) ''list'' = Some (runList G c cfg t)"
  "map_of (commands G c cfg t) ''serve'' = Some (runServe G c cfg t)"
  "map_of (commands G c cfg t) ''invite'' = Some (runInvite G c cfg t)"
  "map_of (commands G c cfg t) ''invite-email'' = Some (runInviteEmail G c cfg t)"
  "map_of (commands G c cfg t) ''join'' = Some (runJoin G c cfg t)"
  "map_of (commands G c cfg t) ''buddy'' = Some (runBuddy G c cfg t)"
  "map_of (commands G c cfg t) ''rebalance'' = Some (runRebalance G c cfg t)"
  "map_of (commands G c cfg t) ''manifest-pull'' = Some (runManifestPull G c cfg t)"
  "map_of (commands G c cfg t) ''show-phrase'' = Some (runShowPhrase G c cfg t)"
  "map_of (commands G c cfg t) ''recover'' = Some (runRecover G c cfg t)"
  "map_of (commands G c cfg t) ''watch'' = Some (runWatch G c cfg t)"
  "map_of (commands G c cfg t) ''prune'' = Some (runPrune G c cfg t)"
  "map_of (commands G c cfg t) ''storage'' = Some (runStorage G c cfg t)"
  "map_of (commands G c cfg t) ''scrub'' = Some (runScrub G c cfg t)"
  "map_of (commands G c cfg t) ''audit'' = Some (runAudit G c cfg t)"
  "map_of (commands G c cfg t) ''export'' = Some (runExport G c cfg t)"
  "map_of (commands G c cfg t) ''import'' = Some (runImport G c cfg t)"
  "map_of (commands G c cfg t) ''doctor'' = Some (runDoctor G c cfg t)"
  "map_of (commands G c cfg t) ''passwd'' = Some (runPasswd G c t)"
  "map_of (commands G c cfg t) ''config'' = Some (runConfig G t)"
  "map_of (commands G c cfg t) ''circle'' = Some (runCircle G c cfg t)"
  "map_of (commands G c cfg t) ''versions'' = Some (runVersions G c cfg t)"
  by (simp_all add: commands_def)

definition agreement :: "'k libraries \<Rightarrow> draws \<Rightarrow> terminal \<Rightarrow> 'k host \<Rightarrow> string \<Rightarrow> request \<Rightarrow> bool" where
  "agreement G c t h pw r \<longleftrightarrow>
     (\<forall>ws vs prog. command_line (startup_config G t (htFS h) (htKeyring h)) pw r = Some (ws, vs) \<longrightarrow>
        same_effect (main G c t h (prog # ws @ args_of vs)) (perform G c (fresh_desktop h pw) r))"

lemma main_command:
  assumes "map_of (commands G c (startup_config G t (htFS h) (htKeyring h)) t) name = Some run" and "name \<notin> {''backup'', ''set-password''}"
    and "dkKeyring D' = htKeyring h"
    and "agrees (run (htFS h) args) (dkFS D', e)"
  shows "same_effect (main G c t h (prog # name # args)) (Some (D', e))"
  using assms by (cases "run (htFS h) args") (auto simp: main_def Let_def same_effect_def agrees_def)

lemmas session_simps = fresh_desktop_def getPassword_def with_password_def with_password_err_def on_disk_def on_disk_err_def reading_def
  on_session_def failed_def

lemmas agree_simps = agrees_def reported_fails with_flags_settings setting_simps arg_path_arg path_arg_empty Let_def

lemmas app_calls = App_Init_def App_ShowPhrase_def App_Recover_def App_Passwd_def App_ConfigInit_def App_CircleList_def
  App_CircleAdd_def App_CircleRemove_def App_Invite_def App_Join_def App_InviteEmail_def StartWatch_begin_def App_ListFiles_def
  App_Versions_def App_Restore_def App_BuddyList_def App_BuddyStatus_def App_BuddyRemove_def App_Rebalance_def App_Audit_def
  App_Prune_def App_Storage_def App_Scrub_def App_ManifestPull_def App_Export_def App_Import_def App_Doctor_def App_StartServe_def


text \<open>An operation without one of its arguments does nothing.\<close>

lemma missing_arguments:
  "Recover E pid ch s [] pw = (s, Inl (Errorf ''phrase and password are required''))"
  "Recover E pid ch s phrase [] = (s, Inl (Errorf ''phrase and password are required''))"
  "Join_Api E lookup ic s pw [] ws n port = (s, Inl (Errorf ''password, addr and words are required''))"
  "Join_Api E lookup ic s pw addr [] n port = (s, Inl (Errorf ''password, addr and words are required''))"
  "ManifestPull E mc s pw [] out = (s, Inl (Errorf ''password and addr are required''))"
  "Import E A mc s pw None st = (s, Inl (Errorf ''password and file path are required''))"
  "rpOut P = None \<or> (rpFileID P = [] \<and> rpFilePath P = []) \<Longrightarrow> fst (Restore E rc s P) = s"
  "wpSrcDir W = None \<Longrightarrow> Watch E r1 r2 fsnotify refused now s W = (s, Inl (Errorf ''src dir and password are required''))"
  by (auto simp: Recover_def Join_Api_def Restore_def Watch_def ManifestPull_def Import_def split: option.splits)

lemma seconds_nonneg: "0 \<le> n * Second \<longleftrightarrow> 0 \<le> n"
  by (simp add: Second_def)

lemma wrap64_seconds: "0 \<le> n \<Longrightarrow> n * Second < 2 ^ 63 \<Longrightarrow> wrap64 (n * Second) = n * Second"
  by (intro wrap64_id) (simp add: in_int64_def Second_def)

lemmas agreement_simps = commands_simps missing_arguments seconds_nonneg wrap64_seconds session_simps app_calls run_defs init_password_def passwd_old_def passwd_new_def runConfig_def agree_simps

lemmas agreement_splits = sum.splits prod.splits if_splits option.splits

lemma agreement_RBackup:
  assumes "pw \<noteq> []" and "commandable (RBackup st n ex prune [src])"
  shows "agreement G c t h pw (RBackup st n ex prune [src])"
proof -
  define P where "P = \<lparr>bpSrc = src, bpStoreDir = st, bpPassword = pw, bpBuddies = n, bpExclude = ex, bpAutoPrune = prune\<rparr>"
  note flags = agree_simps main_def runBackup_def App_Backup_def session_simps same_effect_def
  show ?thesis
  proof (cases src)
    case None
    have "bpSrc Q = None \<Longrightarrow> Backup E bc s Q = Some (s, Inl (Errorf ''src and password are required''))" for E bc s Q
      by (simp add: Backup_def)
    with None assms show ?thesis unfolding agreement_def by (auto simp: flags)
  next
    case (Some p)
    with assms show ?thesis
      unfolding agreement_def
      by (cases "Backup (gE G) (gcBackup c 0) (htFS h) P") (auto simp: flags P_def split: sum.splits)
  qed
qed

lemma agreement_RDeletePassword: "agreement G c t h pw RDeletePassword"
  unfolding agreement_def
  by (auto simp: main_def runSetPassword_def App_DeletePassword_def same_effect_def session_simps agree_simps
      intro: reported_fails_eq split: agreement_splits)

lemma agreement_setup:
  "pw \<noteq> [] \<Longrightarrow> commandable (RInit \<lparr>ipPassword = pw', ipStoreDir = st, ipForce = b\<rparr>) \<Longrightarrow> agreement G c t h pw (RInit \<lparr>ipPassword = pw', ipStoreDir = st, ipForce = b\<rparr>)"
  "pw \<noteq> [] \<Longrightarrow> agreement G c t h pw RShowPhrase"
  "pw \<noteq> [] \<Longrightarrow> commandable (RRecover phrase pw') \<Longrightarrow> agreement G c t h pw (RRecover phrase pw')"
  "pw \<noteq> [] \<Longrightarrow> commandable (RPasswd old new) \<Longrightarrow> agreement G c t h pw (RPasswd old new)"
  "pw \<noteq> [] \<Longrightarrow> agreement G c t h pw RConfigInit"
  "pw \<noteq> [] \<Longrightarrow> agreement G c t h pw RCircleList"
  "pw \<noteq> [] \<Longrightarrow> commandable (RCircleAdd n sch) \<Longrightarrow> agreement G c t h pw (RCircleAdd n sch)"
  "pw \<noteq> [] \<Longrightarrow> commandable (RCircleRemove n) \<Longrightarrow> agreement G c t h pw (RCircleRemove n)"
  unfolding agreement_def by (auto intro!: main_command simp: agreement_simps split: agreement_splits)

lemma agreement_buddies:
  "pw \<noteq> [] \<Longrightarrow> commandable (RInvite port) \<Longrightarrow> agreement G c t h pw (RInvite port)"
  "pw \<noteq> [] \<Longrightarrow> commandable (RJoin addr ws n port) \<Longrightarrow> agreement G c t h pw (RJoin addr ws n port)"
  "pw \<noteq> [] \<Longrightarrow> commandable (RInviteEmail circle to') \<Longrightarrow> agreement G c t h pw (RInviteEmail circle to')"
  "pw \<noteq> [] \<Longrightarrow> agreement G c t h pw RBuddyList"
  "pw \<noteq> [] \<Longrightarrow> agreement G c t h pw RBuddyStatus"
  "pw \<noteq> [] \<Longrightarrow> commandable (RBuddyRemove n skip) \<Longrightarrow> agreement G c t h pw (RBuddyRemove n skip)"
  "pw \<noteq> [] \<Longrightarrow> commandable (RManifestPull addr out) \<Longrightarrow> agreement G c t h pw (RManifestPull addr out)"
  "pw \<noteq> [] \<Longrightarrow> commandable (RDoctor st b) \<Longrightarrow> agreement G c t h pw (RDoctor st b)"
  "pw \<noteq> [] \<Longrightarrow> commandable (RStartServe port kbps addr) \<Longrightarrow> agreement G c t h pw (RStartServe port kbps addr)"
  unfolding agreement_def by (auto intro!: main_command simp: agreement_simps split: agreement_splits)

lemma agreement_files:
  "pw \<noteq> [] \<Longrightarrow> commandable (RStartWatch src st n debounce ex prune) \<Longrightarrow> agreement G c t h pw (RStartWatch src st n debounce ex prune)"
  "pw \<noteq> [] \<Longrightarrow> commandable (RListFiles b) \<Longrightarrow> agreement G c t h pw (RListFiles b)"
  "pw \<noteq> [] \<Longrightarrow> commandable (RVersions f) \<Longrightarrow> agreement G c t h pw (RVersions f)"
  "pw \<noteq> [] \<Longrightarrow> commandable (RRestore st out fid f v) \<Longrightarrow> agreement G c t h pw (RRestore st out fid f v)"
  unfolding agreement_def by (auto intro!: main_command simp: agreement_simps split: agreement_splits)

lemma agreement_maintenance:
  "pw \<noteq> [] \<Longrightarrow> commandable (RRebalance st) \<Longrightarrow> agreement G c t h pw (RRebalance st)"
  "pw \<noteq> [] \<Longrightarrow> commandable (RAudit st) \<Longrightarrow> agreement G c t h pw (RAudit st)"
  "pw \<noteq> [] \<Longrightarrow> commandable (RPrune x y z dry st) \<Longrightarrow> agreement G c t h pw (RPrune x y z dry st)"
  "pw \<noteq> [] \<Longrightarrow> commandable (RStorage st) \<Longrightarrow> agreement G c t h pw (RStorage st)"
  "pw \<noteq> [] \<Longrightarrow> agreement G c t h pw RScrub"
  "pw \<noteq> [] \<Longrightarrow> commandable (RExport f v out st) \<Longrightarrow> agreement G c t h pw (RExport f v out st)"
  "pw \<noteq> [] \<Longrightarrow> commandable (RImport src st) \<Longrightarrow> agreement G c t h pw (RImport src st)"
  unfolding agreement_def by (auto intro!: main_command simp: agreement_simps split: agreement_splits)

lemma agreement_none: "command_line (startup_config G t (htFS h) (htKeyring h)) pw r = None \<Longrightarrow> agreement G c t h pw r"
  by (simp add: agreement_def)



end
