(* ===== verification/Gui_Session.thy ===== *)
theory Gui_Session
  imports Gui
begin

text \<open>
  Sessions of the graphical interface: a locked session does nothing, a running watch is out of its reach, and the password
  that an unlocked session holds opens the key store, whatever created, replaced or re-encrypted it.
\<close>

subsection \<open>A locked session\<close>

fun needs_password :: "request \<Rightarrow> bool" where
  "needs_password (RUnlock _) = False"
| "needs_password RLock = False"
| "needs_password (RInit _) = False"
| "needs_password (RRecover _ _) = False"
| "needs_password (RSetPassword _) = False"
| "needs_password RDeletePassword = False"
| "needs_password (RPasswd _ _) = False"
| "needs_password RConfigInit = False"
| "needs_password RStopWatch = False"
| "needs_password RStopServe = False"
| "needs_password (RSetLanguage _) = False"
| "needs_password _ = True"

fun unlocks :: "request \<Rightarrow> bool" where
  "unlocks (RUnlock _) = True"
| "unlocks (RInit _) = True"
| "unlocks (RRecover _ _) = True"
| "unlocks (RPasswd _ _) = True"
| "unlocks _ = False"

lemma perform_locked:
  assumes "apPassword (dkApp D) = []" and "needs_password r"
  shows "perform G c D r = Some (D, Some locked_error)"
proof -
  have p: "getPassword (dkApp D) = Inl locked_error" using assms(1) by (simp add: getPassword_def)
  show ?thesis
    using assms(2) by (cases r) (simp_all add: p answer_defs failed_def with_password_def with_password_err_def
      App_ShowPhrase_def App_CircleList_def App_CircleAdd_def App_CircleRemove_def App_Invite_def App_Join_def App_InviteEmail_def
      App_JoinEmail_def App_Backup_def StartWatch_begin_def App_ListFiles_def App_Versions_def App_Restore_def App_BuddyList_def
      App_BuddyStatus_def App_BuddyRemove_def App_Rebalance_def App_Audit_def App_Prune_def App_Storage_def App_Scrub_def
      App_Diff_def App_ManifestPull_def App_Export_def App_Import_def App_Doctor_def App_Dashboard_def App_StartServe_def)
qed

lemma perform_stays_locked:
  assumes "perform G c D r = Some (D', e)" and "apPassword (dkApp D) = []" and "unlocks r \<Longrightarrow> e \<noteq> None"
  shows "apPassword (dkApp D') = []"
proof (cases "needs_password r")
  case True
  then show ?thesis using assms(1) perform_locked [OF assms(2)] assms(2) by simp
next
  case False
  with assms show ?thesis
    by (cases r) (auto simp: app_defs answer_defs failed_def split: sum.splits prod.splits option.splits)
qed

lemma locked_run:
  assumes "gui_run G D hist D'" and "apPassword (dkApp D) = []" and "\<forall>r. unlocks r \<longrightarrow> Answered r None \<notin> set hist"
  shows "apPassword (dkApp D') = [] \<and> (\<forall>r e. Answered r e \<in> set hist \<longrightarrow> needs_password r \<longrightarrow> e = Some locked_error)"
  using assms
proof induction
  case (answer hist D1 c r D2 e)
  then have lk: "apPassword (dkApp D1) = []" by simp
  have "unlocks r \<Longrightarrow> e \<noteq> None" using answer.prems(2) by (cases e) auto
  with perform_stays_locked [OF answer.hyps(2) lk] perform_locked [OF lk] answer show ?case by fastforce
qed (auto simp: StartWatch_end_def)

text \<open>C27. A session that has not been unlocked, or has been locked again, can do nothing with the data: until an \<open>Unlock\<close>,
  \<open>Init\<close>, \<open>Recover\<close> or \<open>Passwd\<close> succeeds it stays locked, every request that needs the password is answered with the
  error of a locked session, and answering it changes neither the disk nor the session.\<close>

theorem locked_session_is_inert:
  assumes "gui_run G D hist D'" and "apPassword (dkApp D) = []" and "\<forall>r. unlocks r \<longrightarrow> Answered r None \<notin> set hist"
  shows "\<not> IsUnlocked (dkApp D') \<and> (\<forall>r e. Answered r e \<in> set hist \<longrightarrow> needs_password r \<longrightarrow> e = Some locked_error)
    \<and> (\<forall>c r. needs_password r \<longrightarrow> perform G c D' r = Some (D', Some locked_error))"
  using locked_run [OF assms] perform_locked by (auto simp: IsUnlocked_def)

subsection \<open>Watching\<close>

fun started :: "happened \<Rightarrow> bool" where
  "started (Answered (RStartWatch _ _ _ _ _ _) None) = True"
| "started _ = False"

lemma perform_watch:
  assumes "perform G c D r = Some (D', e)" and "apWatch (dkApp D) = None"
  shows "apWatch (dkApp D') = None \<and> length (dkLoops D') = length (dkLoops D) + (if started (Answered r e) then 1 else 0)
    \<and> (r = RStopWatch \<longrightarrow> e \<noteq> None)"
  using assms
  by (cases r) (auto simp: app_defs answer_defs failed_def App_SetPassword_def App_DeletePassword_def
      split: sum.splits prod.splits option.splits if_splits)

text \<open>The graphical interface cannot stop a watch. As long as no event loop ends by itself, the session holds no handle of a
  watch: it reports that it is not watching, every \<open>StopWatch\<close> fails, and every \<open>StartWatch\<close> that was answered without an error has
  left one more loop running, however many run already.\<close>

theorem running_watch_has_no_handle:
  assumes "gui_run G D hist D'" and "apWatch (dkApp D) = None" and "Loop_Ended \<notin> set hist"
  shows "\<not> IsWatching (dkApp D') \<and> Answered RStopWatch None \<notin> set hist
    \<and> length (dkLoops D') = length (dkLoops D) + length (filter started hist)"
proof -
  have "apWatch (dkApp D') = None \<and> Answered RStopWatch None \<notin> set hist
    \<and> length (dkLoops D') = length (dkLoops D) + length (filter started hist)"
    using assms
  proof induction
    case (answer hist D1 c r D2 e)
    with perform_watch [OF answer.hyps(2)] show ?case by auto
  qed auto
  then show ?thesis by (simp add: IsWatching_def)
qed

subsection \<open>A key store that opens again\<close>

text \<open>The file of the handle opens with the password to exactly this handle.\<close>

definition reopens :: "libs \<Rightarrow> keystoreJSON codec \<Rightarrow> fs \<Rightarrow> Keystore \<Rightarrow> string \<Rightarrow> bool" where
  "reopens L c s k pw \<longleftrightarrow> Unlock L c s (NewKeystore (ksPath k)) pw = (k, None) \<and> length (ksSalt k) = SaltSize \<and> fault_free s"

lemma reopens_unlocked: "reopens L c s k pw \<Longrightarrow> ksUnlocked k"
  by (auto simp: reopens_def dest: Unlock_ok_unlocked)

lemma ks_save_reopened:
  assumes "ks_save L c r s k pw = (s', None)" and "\<forall>v. inverts c v" and "fault_free s" and "length (ksSalt k) = SaltSize"
    and "ksUnlocked k"
  shows "reopens L c s' k pw"
proof -
  have "Unlock L c s' (NewKeystore (ksPath k)) pw = (k\<lparr>ksUnlocked := True\<rparr>, None)"
    using assms by (intro Unlock_ks_save [OF assms(1)]) (simp_all add: fault_free_def NewKeystore_def)
  then show ?thesis using assms(3-5) ks_save_faults [OF assms(1)] by (simp add: reopens_def same_faults_fault_free)
qed

lemma StoreExtra_reopened:
  assumes "StoreExtra L c r s k n d pw = (k', s', None)" and "\<forall>v. inverts c v" and "fault_free s" and "length (ksSalt k) = SaltSize"
  shows "reopens L c s' k' pw \<and> ksPath k' = ksPath k"
proof -
  note k' = StoreExtra_None [OF assms(1)]
  have "ks_save L c r s k' pw = (s', None)" using assms(1) k' by (simp add: StoreExtra_def Let_def)
  from ks_save_reopened [OF this assms(2,3)] k' assms(4) show ?thesis by simp
qed

lemma Create_reopened:
  assumes "Create L c r1 r2 s k pw = (k', s', None)" and "\<forall>v. inverts c v" and "fault_free s"
  shows "reopens L c s' k' pw \<and> ksPath k' = ksPath k"
proof -
  obtain salt where k': "NewSalt r1 = Inr salt" "k' = k\<lparr>ksSalt := salt, ksMasterKey := DeriveKey L pw salt, ksUnlocked := True\<rparr>"
    and save: "ks_save L c r2 s k' pw = (s', None)" using Create_None [OF assms(1)] by blast
  from ks_save_reopened [OF save assms(2,3)] k' length_NewSalt [OF k'(1)] show ?thesis by simp
qed

lemma EnsurePeerIdentity_reopened:
  assumes "EnsurePeerIdentity L I c r1 r2 s k pw = (k', s', Inr priv)" and "\<forall>v. inverts c v" and "reopens L c s k pw"
  shows "reopens L c s' k' pw \<and> ksPath k' = ksPath k"
proof (cases "LoadExtra k peerKeyName = []")
  case False
  then show ?thesis using assms by (auto simp: EnsurePeerIdentity_def)
next
  case True
  obtain seed k1 s1 raw where st1: "StoreExtra L c r1 s k KeyName seed pw = (k1, s1, None)"
    and st2: "StoreExtra L c r2 s1 k1 peerKeyName raw pw = (k', s', None)"
    using assms(1) True by (auto simp: EnsurePeerIdentity_def Let_def split: sum.splits prod.splits option.splits)
  have "fault_free s" "length (ksSalt k) = SaltSize" using assms(3) by (simp_all add: reopens_def)
  from StoreExtra_reopened [OF st1 assms(2) this] have 1: "reopens L c s1 k1 pw" "ksPath k1 = ksPath k" by simp_all
  then have "fault_free s1" "length (ksSalt k1) = SaltSize" by (simp_all add: reopens_def)
  from StoreExtra_reopened [OF st2 assms(2) this] 1 show ?thesis by simp
qed

lemma EnsurePeerIdentityFromSeed_reopened:
  assumes "EnsurePeerIdentityFromSeed L I c r1 r2 s k seed pw = (k', s', Inr priv)" and "\<forall>v. inverts c v" and "reopens L c s k pw"
  shows "reopens L c s' k' pw \<and> ksPath k' = ksPath k"
proof -
  obtain k1 s1 raw where st1: "StoreExtra L c r1 s k KeyName seed pw = (k1, s1, None)"
    and st2: "StoreExtra L c r2 s1 k1 peerKeyName raw pw = (k', s', None)"
    using assms(1) by (auto simp: EnsurePeerIdentityFromSeed_def split: sum.splits prod.splits option.splits)
  have "fault_free s" "length (ksSalt k) = SaltSize" using assms(3) by (simp_all add: reopens_def)
  from StoreExtra_reopened [OF st1 assms(2) this] have 1: "reopens L c s1 k1 pw" "ksPath k1 = ksPath k" by simp_all
  then have "fault_free s1" "length (ksSalt k1) = SaltSize" by (simp_all add: reopens_def)
  from StoreExtra_reopened [OF st2 assms(2) this] 1 show ?thesis by simp
qed

lemma Add_Circle_reopened:
  assumes "Add_Circle L kc c ch s m name scheme = (m', s', Inr ci)" and "\<forall>v. inverts kc v" and "reopens L kc s (cmKs m) (cmPassword m)"
  shows "reopens L kc s' (cmKs m') (cmPassword m) \<and> ksPath (cmKs m') = ksPath (cmKs m)"
proof -
  obtain m1 where ld: "load_Circle c m = (m1, None)"
    using assms(1) by (auto simp: Add_Circle_def split: prod.splits option.splits)
  have m1: "cmKs m1 = cmKs m" "cmPassword m1 = cmPassword m"
    using ld by (auto simp: load_Circle_def Let_def split: if_splits sum.splits)
  obtain b where "StoreExtra L kc (ccNonce ch) s (cmKs m) storeKey b (cmPassword m) = (cmKs m', s', None)"
    using assms(1) m1
    by (auto simp: Add_Circle_def ld save_Circle_def Let_def split: if_splits sum.splits prod.splits option.splits)
  moreover have "fault_free s" "length (ksSalt (cmKs m)) = SaltSize" using assms(3) by (simp_all add: reopens_def)
  ultimately show ?thesis using StoreExtra_reopened assms(2) by blast
qed

lemma GetOrDefault_reopened:
  assumes "GetOrDefault L kc c ch s (NewManager_Circle k pw) name = (m', s', Inr ci)" and "\<forall>v. inverts kc v" and "reopens L kc s k pw"
  shows "\<exists>k'. reopens L kc s' k' pw \<and> ksPath k' = ksPath k"
proof -
  define target where "target = (if name = [] then DefaultName else name)"
  obtain m1 r where g: "Get_Circle c (NewManager_Circle k pw) target = (m1, r)" by fastforce
  have m1: "cmKs m1 = k" "cmPassword m1 = pw"
    using g by (auto simp: Get_Circle_def load_Circle_def NewManager_Circle_def Let_def split: if_splits sum.splits prod.splits option.splits)
  show ?thesis
  proof (cases "s' = s")
    case True
    then show ?thesis using assms(3) by blast
  next
    case False
    then have "Add_Circle L kc c ch s m1 DefaultName ''3/2'' = (m', s', Inr ci)"
      using assms(1) g by (auto simp: GetOrDefault_def target_def [symmetric] split: sum.splits option.splits if_splits)
    from Add_Circle_reopened [OF this assms(2)] m1 assms(3) show ?thesis by auto
  qed
qed

lemma reopens_MkdirAll: "MkdirAll s p = (s', e) \<Longrightarrow> reopens L c s k pw \<Longrightarrow> reopens L c s' k pw"
  using Unlock_MkdirAll [of s p s' e L c] MkdirAll_faults [of s p s' e] by (auto simp: reopens_def same_faults_fault_free)

lemma reopens_OpenKeystore:
  assumes "reopens (eL E) (eKsJ E) s k pw" and "ConfigDir (eOS E) = Inr cfg" and "ksPath k = Join cfg [''keystore.enc'']"
  shows "OpenKeystore E s pw = Inr k \<and> length (ksSalt k) = SaltSize \<and> fault_free s"
  using assms by (simp add: reopens_def OpenKeystore_def)

lemma fault_free_Remove: "fault_free s \<Longrightarrow> fault_free (fst (Remove s p))"
  by (simp add: Remove_def fault_free_def)

lemma fault_free_RemoveAll: "fault_free s \<Longrightarrow> fault_free (fst (RemoveAll s p))"
  by (simp add: RemoveAll_def fault_free_def)

text \<open>A key store that opens with the password, in a state from which it can be changed.\<close>

definition key_ready :: "env \<Rightarrow> fs \<Rightarrow> string \<Rightarrow> bool" where
  "key_ready E s pw \<longleftrightarrow> (\<exists>ks. OpenKeystore E s pw = Inr ks \<and> length (ksSalt ks) = SaltSize)"

lemma Init_reopened:
  assumes "Init E cc pid ch s P = (s', Inr r)" and "\<forall>v. inverts (eKsJ E) v" and "fault_free s"
  shows "key_ready E s' (ipPassword P) \<and> fault_free s' \<and> ipPassword P \<noteq> []"
proof -
  obtain cfg where cfg: "ConfigDir (eOS E) = Inr cfg"
    using assms(1) by (auto simp: Init_def Let_def split: if_splits sum.splits)
  let ?p = "Join cfg [''keystore.enc'']" and ?pw = "ipPassword P"
  obtain s1 where s1: "MkdirAll s cfg = (s1, None)"
    using assms(1) cfg by (auto simp: Init_def Let_def split: if_splits prod.splits option.splits)
  define t where "t = (if is_ok (Stat s1 ?p) then wipe E s1 ?p else s1)"
  have "fault_free s1" using assms(3) MkdirAll_faults [OF s1] by (simp add: same_faults_fault_free)
  then have t: "fault_free t" by (simp add: t_def wipe_def fault_free_Remove fault_free_RemoveAll)
  obtain k s2 where c: "Create (eL E) (eKsJ E) (scKs1 ch) (scKs2 ch) t (NewKeystore ?p) ?pw = (k, s2, None)"
    using assms(1) cfg s1 by (auto simp: Init_def Let_def t_def split: if_splits prod.splits option.splits)
  have k: "reopens (eL E) (eKsJ E) s2 k ?pw" "ksPath k = ?p"
    using Create_reopened [OF c assms(2) t] by (simp_all add: NewKeystore_def)
  obtain k1 s3 priv where i: "EnsurePeerIdentity (eL E) (eI E) (eKsJ E) (scId1 ch) (scId2 ch) s2 k ?pw = (k1, s3, Inr priv)"
    using assms(1) cfg s1 c by (auto simp: Init_def Let_def t_def split: if_splits prod.splits sum.splits)
  have k1: "reopens (eL E) (eKsJ E) s3 k1 ?pw" "ksPath k1 = ?p"
    using EnsurePeerIdentity_reopened [OF i assms(2) k(1)] k(2) by simp_all
  obtain m s4 ci d e where g: "GetOrDefault (eL E) (eKsJ E) cc (scCircle ch) s3 (NewManager_Circle k1 ?pw) [] = (m, s4, Inr ci)"
    and f: "MkdirAll s4 d = (s', e)"
    using assms(1) cfg s1 c i
    by (auto simp: Init_def Let_def t_def split: if_splits sum.splits prod.splits option.splits)
  obtain k2 where "reopens (eL E) (eKsJ E) s4 k2 ?pw" "ksPath k2 = ?p"
    using GetOrDefault_reopened [OF g assms(2) k1(1)] k1(2) by auto
  with reopens_MkdirAll f reopens_OpenKeystore [OF _ cfg] have "key_ready E s' ?pw \<and> fault_free s'"
    unfolding key_ready_def by blast
  then show ?thesis using assms(1) by (auto simp: Init_def)
qed

lemma Recover_reopened:
  assumes "Recover E pid ch s phrase pw = (s', Inr peer)" and "\<forall>v. inverts (eKsJ E) v" and "fault_free s"
    and "ConfigDir (eOS E) = Inr cfg" and "DefaultKeystorePath (eOS E) = Join cfg [''keystore.enc'']"
  shows "key_ready E s' pw \<and> fault_free s'"
proof -
  obtain seed k s1 k1 priv where c: "Create (eL E) (eKsJ E) (scKs1 ch) (scKs2 ch) s (NewKeystore (DefaultKeystorePath (eOS E))) pw = (k, s1, None)"
    and i: "EnsurePeerIdentityFromSeed (eL E) (eI E) (eKsJ E) (scId1 ch) (scId2 ch) s1 k seed pw = (k1, s', Inr priv)"
    using assms(1) by (auto simp: Recover_def split: if_splits sum.splits prod.splits option.splits)
  have "reopens (eL E) (eKsJ E) s1 k pw" "ksPath k = Join cfg [''keystore.enc'']"
    using Create_reopened [OF c assms(2,3)] assms(5) by (simp_all add: NewKeystore_def)
  with EnsurePeerIdentityFromSeed_reopened [OF i assms(2)] have "reopens (eL E) (eKsJ E) s' k1 pw" "ksPath k1 = Join cfg [''keystore.enc'']"
    by simp_all
  from reopens_OpenKeystore [OF this(1) assms(4) this(2)] show ?thesis by (auto simp: key_ready_def)
qed

lemma OpenKeystore_reopens:
  assumes "OpenKeystore E s pw = Inr k" and "length (ksSalt k) = SaltSize" and "fault_free s"
  shows "\<exists>cfg. ConfigDir (eOS E) = Inr cfg \<and> ksPath k = Join cfg [''keystore.enc''] \<and> reopens (eL E) (eKsJ E) s k pw"
proof -
  obtain cfg where cfg: "ConfigDir (eOS E) = Inr cfg"
    and u: "Unlock (eL E) (eKsJ E) s (NewKeystore (Join cfg [''keystore.enc''])) pw = (k, None)"
    using assms(1) by (auto simp: OpenKeystore_def split: sum.splits prod.splits option.splits)
  have "ksPath k = Join cfg [''keystore.enc'']" using Unlock_ok_unlocked [OF u] by (simp add: NewKeystore_def)
  with cfg u assms(2,3) show ?thesis by (simp add: reopens_def)
qed

lemma Passwd_reopened:
  assumes "Passwd E r s old new = (s', None)" and "\<forall>v. inverts (eKsJ E) v" and "fault_free s"
    and "\<forall>ks. OpenKeystore E s old = Inr ks \<longrightarrow> length (ksSalt ks) = SaltSize"
  shows "key_ready E s' new \<and> fault_free s'"
proof -
  obtain k where k: "OpenKeystore E s old = Inr k" and save: "Save (eL E) (eKsJ E) r s k new = (s', None)"
    using assms(1) by (auto simp: Passwd_def split: if_splits sum.splits)
  obtain cfg where cfg: "ConfigDir (eOS E) = Inr cfg" "ksPath k = Join cfg [''keystore.enc'']"
    using OpenKeystore_reopens [OF k] k assms(3,4) by blast
  have "ks_save (eL E) (eKsJ E) r s k new = (s', None)" using save OpenKeystore_unlocked [OF k] by (simp add: Save_def)
  from ks_save_reopened [OF this assms(2,3)] k assms(4) OpenKeystore_unlocked [OF k] have "reopens (eL E) (eKsJ E) s' k new" by blast
  from reopens_OpenKeystore [OF this cfg] show ?thesis by (auto simp: key_ready_def)
qed

lemma circleManager_Inr:
  "circleManager E s pw = Inr m \<Longrightarrow> OpenKeystore E s pw = Inr (cmKs m) \<and> cmPassword m = pw"
  by (auto simp: circleManager_def rbind_eq_Inr NewManager_Circle_def split: if_splits)

lemma CircleAdd_reopened:
  assumes "CircleAdd E c ch s pw name scheme = (s', Inr ci)" and "\<forall>v. inverts (eKsJ E) v" and "fault_free s" and "key_ready E s pw"
  shows "key_ready E s' pw \<and> fault_free s'"
proof -
  obtain m m' where m: "circleManager E s pw = Inr m" and add: "Add_Circle (eL E) (eKsJ E) c ch s m name scheme = (m', s', Inr ci)"
    using assms(1) by (auto simp: CircleAdd_def snd_def split: if_splits sum.splits prod.splits)
  note ks = circleManager_Inr [OF m]
  obtain cfg where "ConfigDir (eOS E) = Inr cfg" "ksPath (cmKs m) = Join cfg [''keystore.enc'']" "reopens (eL E) (eKsJ E) s (cmKs m) pw"
    using OpenKeystore_reopens [of E s pw "cmKs m"] ks assms(3,4) by (auto simp: key_ready_def)
  with Add_Circle_reopened [OF add assms(2)] ks reopens_OpenKeystore show ?thesis unfolding key_ready_def by metis
qed

lemma CircleRemove_reopened:
  assumes "CircleRemove E c r s pw name = (s', None)" and "\<forall>v. inverts (eKsJ E) v" and "fault_free s" and "key_ready E s pw"
  shows "key_ready E s' pw \<and> fault_free s'"
proof -
  obtain m m' where m: "circleManager E s pw = Inr m" and rm: "Remove_Circle (eL E) (eKsJ E) c r s m name = (m', s', None)"
    using assms(1) by (auto simp: CircleRemove_def snd_def split: if_splits sum.splits prod.splits)
  note ks = circleManager_Inr [OF m]
  obtain cfg where k: "ConfigDir (eOS E) = Inr cfg" "ksPath (cmKs m) = Join cfg [''keystore.enc'']" "reopens (eL E) (eKsJ E) s (cmKs m) pw"
    using OpenKeystore_reopens [of E s pw "cmKs m"] ks assms(3,4) by (auto simp: key_ready_def)
  obtain m1 where ld: "load_Circle c m = (m1, None)"
    using rm by (auto simp: Remove_Circle_def split: prod.splits option.splits)
  have m1: "cmKs m1 = cmKs m" "cmPassword m1 = pw"
    using ld ks by (auto simp: load_Circle_def Let_def split: if_splits sum.splits)
  obtain b where st: "StoreExtra (eL E) (eKsJ E) r s (cmKs m) storeKey b pw = (cmKs m', s', None)"
    using rm m1 by (auto simp: Remove_Circle_def ld save_Circle_def Let_def split: if_splits sum.splits prod.splits)
  have "length (ksSalt (cmKs m)) = SaltSize" using k(3) by (simp add: reopens_def)
  from StoreExtra_reopened [OF st assms(2,3) this] k reopens_OpenKeystore show ?thesis unfolding key_ready_def by metis
qed

subsection \<open>The session's password\<close>

text \<open>The requests that manage the session, the key store and its circles, and those that only read.\<close>

fun session_request :: "request \<Rightarrow> bool" where
  "session_request (RUnlock _) = True"
| "session_request RLock = True"
| "session_request (RInit _) = True"
| "session_request RShowPhrase = True"
| "session_request (RRecover _ _) = True"
| "session_request (RSetPassword _) = True"
| "session_request RDeletePassword = True"
| "session_request (RPasswd _ _) = True"
| "session_request RCircleList = True"
| "session_request (RCircleAdd _ _) = True"
| "session_request (RCircleRemove _) = True"
| "session_request (RVersions _) = True"
| "session_request RBuddyList = True"
| "session_request RStopWatch = True"
| "session_request RStopServe = True"
| "session_request _ = False"

definition session_ok :: "'k libraries \<Rightarrow> 'k desktop \<Rightarrow> bool" where
  "session_ok G D \<longleftrightarrow> fault_free (dkFS D) \<and> (IsUnlocked (dkApp D) \<longrightarrow> key_ready (gE G) (dkFS D) (apPassword (dkApp D)))"

text \<open>A typed password opens no key store with a malformed salt; a recovery writes where the other operations read.\<close>

fun typed_ok :: "env \<Rightarrow> fs \<Rightarrow> request \<Rightarrow> bool" where
  "typed_ok E s (RUnlock pw) = (\<forall>ks. OpenKeystore E s pw = Inr ks \<longrightarrow> length (ksSalt ks) = SaltSize)"
| "typed_ok E s (RPasswd old new) = (\<forall>ks. OpenKeystore E s old = Inr ks \<longrightarrow> length (ksSalt ks) = SaltSize)"
| "typed_ok E s (RRecover _ _) = (\<exists>cfg. ConfigDir (eOS E) = Inr cfg \<and> DefaultKeystorePath (eOS E) = Join cfg [''keystore.enc''])"
| "typed_ok E s _ = True"

text \<open>The requests that neither write the key store nor give the session another password.\<close>

fun harmless :: "request \<Rightarrow> bool" where
  "harmless RLock = True"
| "harmless RShowPhrase = True"
| "harmless (RSetPassword _) = True"
| "harmless RDeletePassword = True"
| "harmless RCircleList = True"
| "harmless (RVersions _) = True"
| "harmless RBuddyList = True"
| "harmless RStopWatch = True"
| "harmless RStopServe = True"
| "harmless _ = False"

lemma perform_harmless:
  assumes "perform G c D r = Some (D', e)" and "harmless r"
  shows "dkFS D' = dkFS D \<and> (apPassword (dkApp D') = apPassword (dkApp D) \<or> apPassword (dkApp D') = [])"
  using assms(2,1)
  by (cases r; simp only: harmless.simps simp_thms)
     (auto simp: reading_def App_Lock_def App_StopWatch_def App_StopServe_def split: prod.splits option.splits)

text \<open>What the requests that do so did when they succeeded.\<close>

lemma perform_Init:
  assumes "perform G c D (RInit P) = Some (D', None)"
  obtains s' res where "Init (gE G) (gCircles G) (gPid G) (gcSetup c) (dkFS D) P = (s', Inr res)"
    and "D' = D\<lparr>dkFS := s', dkApp := (dkApp D)\<lparr>apPassword := ipPassword P\<rparr>\<rparr>"
  using assms
  by (cases "Init (gE G) (gCircles G) (gPid G) (gcSetup c) (dkFS D) P")
     (auto simp: on_session_def App_Init_def failed_def split: sum.splits)

lemma perform_Recover:
  assumes "perform G c D (RRecover phrase pw) = Some (D', None)"
  obtains s' res where "Recover (gE G) (gPid G) (gcSetup c) (dkFS D) phrase pw = (s', Inr res)"
    and "D' = D\<lparr>dkFS := s', dkApp := (dkApp D)\<lparr>apPassword := pw\<rparr>\<rparr>"
  using assms
  by (cases "Recover (gE G) (gPid G) (gcSetup c) (dkFS D) phrase pw")
     (auto simp: on_session_def App_Recover_def failed_def split: sum.splits)

lemma perform_Passwd:
  assumes "perform G c D (RPasswd old new) = Some (D', None)"
  obtains s' where "Passwd (gE G) (gcRnd1 c) (dkFS D) old new = (s', None)"
    and "D' = D\<lparr>dkFS := s', dkApp := (dkApp D)\<lparr>apPassword := new\<rparr>\<rparr>"
  using assms
  by (cases "Passwd (gE G) (gcRnd1 c) (dkFS D) old new") (auto simp: App_Passwd_def split: option.splits)

lemma perform_CircleAdd:
  assumes "perform G c D (RCircleAdd n sch) = Some (D', None)"
  obtains s' ci where "apPassword (dkApp D) \<noteq> []"
    and "CircleAdd (gE G) (gCircles G) (gcCircle c) (dkFS D) (apPassword (dkApp D)) n sch = (s', Inr ci)" and "D' = D\<lparr>dkFS := s'\<rparr>"
  using assms
  by (cases "CircleAdd (gE G) (gCircles G) (gcCircle c) (dkFS D) (apPassword (dkApp D)) n sch"; cases "apPassword (dkApp D) = []")
     (auto simp: on_disk_def App_CircleAdd_def failed_def with_password_def getPassword_def split: sum.splits)

lemma perform_CircleRemove:
  assumes "perform G c D (RCircleRemove n) = Some (D', None)"
  obtains s' where "apPassword (dkApp D) \<noteq> []"
    and "CircleRemove (gE G) (gCircles G) (gcRnd1 c) (dkFS D) (apPassword (dkApp D)) n = (s', None)" and "D' = D\<lparr>dkFS := s'\<rparr>"
  using assms
  by (cases "CircleRemove (gE G) (gCircles G) (gcRnd1 c) (dkFS D) (apPassword (dkApp D)) n"; cases "apPassword (dkApp D) = []")
     (auto simp: on_disk_err_def App_CircleRemove_def with_password_err_def getPassword_def)


subsection \<open>Witnesses\<close>

definition demo_desktop :: "fs \<Rightarrow> App \<Rightarrow> unit desktop" where
  "demo_desktop s a = \<lparr>dkFS = s, dkKeyring = (), dkApp = a, dkLoops = []\<rparr>"

theorem locked_session_is_inert_witness:
  "gui_run demo_gui (demo_desktop empty_fs NewApp) [Answered RScrub (Some locked_error)] (demo_desktop empty_fs NewApp)
    \<and> perform demo_gui demo_gc (demo_desktop empty_fs NewApp) (RPrune 0 0 1 False None)
      = Some (demo_desktop empty_fs NewApp, Some locked_error)"
proof -
  let ?D = "demo_desktop empty_fs NewApp"
  have lk: "apPassword (dkApp ?D) = []" by (simp add: demo_desktop_def NewApp_def)
  have run: "gui_run demo_gui ?D [Answered RScrub (Some locked_error)] ?D"
    by (rule gui_run.answer [OF gui_run.start perform_locked [OF lk]]) simp
  have "\<forall>r. unlocks r \<longrightarrow> Answered r None \<notin> set [Answered RScrub (Some locked_error)]" by simp
  from locked_session_is_inert [OF run lk this] run show ?thesis by (simp only: needs_password.simps simp_thms)
qed

lemma demo_Watch:
  "\<exists>s1 h. Watch demo_env (Some (\<lambda>_. 1)) (Some (\<lambda>_. 2)) None (\<lambda>_. False) 0 demo_opened demo_watch_params = (s1, Inr h)"
proof -
  obtain s1 ks1 where o': "OpenOrCreateKeystore demo_env (Some (\<lambda>_. 1)) (Some (\<lambda>_. 2)) demo_opened ''pw'' = (s1, Inr ks1)"
      "dirs s1 = [[''cfg''], [''cfg'', ''store''], [''src'']]" "rfault s1 = (\<lambda>_. False)"
    using demo_OpenKeystore [of demo_opened "[]"] by (auto simp: demo_opened_def demo_fs_def empty_fs_def fault_free_def)
  then show ?thesis
    by (simp add: Watch_def demo_watch_params_def watch_exclude_def demo_watch_exclude NewWithDebounce_def Start_Watcher_def
        addRecursive_def is_dir_def beneath_def)
qed

theorem running_watch_has_no_handle_witness:
  "\<exists>D'. gui_run demo_gui (demo_desktop demo_opened (NewApp\<lparr>apPassword := ''pw''\<rparr>))
      [Answered RStopWatch (Some (Errorf ''watch is not running'')),
       Answered (RStartWatch (Some [''src'']) (Some [''cfg'', ''store'']) 3 0 [] False) None] D'
    \<and> length (dkLoops D') = 1 \<and> \<not> IsWatching (dkApp D')"
proof -
  let ?D = "demo_desktop demo_opened (NewApp\<lparr>apPassword := ''pw''\<rparr>)"
  let ?r = "RStartWatch (Some [''src'']) (Some [''cfg'', ''store'']) 3 0 [] False"
  obtain s1 h where w: "Watch demo_env (Some (\<lambda>_. 1)) (Some (\<lambda>_. 2)) None (\<lambda>_. False) 0 demo_opened demo_watch_params = (s1, Inr h)"
    using demo_Watch by blast
  let ?D1 = "?D\<lparr>dkFS := s1, dkLoops := [h]\<rparr>"
  have "perform demo_gui demo_gc ?D ?r = Some (?D1, None)"
    using w by (simp add: StartWatch_begin_def with_password_def getPassword_def demo_desktop_def demo_gui_def demo_gc_def NewApp_def
        demo_watch_params_def wrap64_def)
  moreover have "perform demo_gui demo_gc ?D1 RStopWatch = Some (?D1, Some (Errorf ''watch is not running''))"
    by (simp add: App_StopWatch_def demo_desktop_def NewApp_def failed_def)
  ultimately have run: "gui_run demo_gui ?D [Answered RStopWatch (Some (Errorf ''watch is not running'')), Answered ?r None] ?D1"
    by (blast intro: gui_run.intros)
  have "apWatch (dkApp ?D) = None" by (simp add: demo_desktop_def NewApp_def)
  from running_watch_has_no_handle [OF run this] run show ?thesis by (auto simp: demo_desktop_def)
qed


subsection \<open>Smaller facts\<close>

text \<open>A backup whose sources all fail is answered without an error; the errors are events only.\<close>

lemma failed_backup_is_answered_without_error:
  assumes "apPassword a = pw" and "pw \<noteq> []" and "Backup (gE G) (gcBackup c 0) s
      \<lparr>bpSrc = src, bpStoreDir = st, bpPassword = pw, bpBuddies = n, bpExclude = ex, bpAutoPrune = prune\<rparr> = Some (s', Inl e)"
  shows "App_Backup G c s a st n ex prune [src] = Some (s', Inr (empty_result, [e]))"
  using assms by (simp add: App_Backup_def getPassword_def)

text \<open>The language preference is read back as it was set.\<close>

lemma language_round_trip:
  assumes "SetLanguage o' s lang = (s', None)" and "fault_free s"
  shows "GetLanguage o' s' = lang"
proof -
  obtain cfg s1 where l: "lang = ''fr'' \<or> lang = ''en''" and cfg: "ConfigDir o' = Inr cfg" and m: "MkdirAll s cfg = (s1, None)"
    and w: "WriteFile s1 (Join cfg [''gui-lang'']) (bytes_of_string lang) = (s', None)"
    using assms(1) by (auto simp: SetLanguage_def split: if_splits sum.splits prod.splits option.splits)
  have "\<not> rfault s1 (Join cfg [''gui-lang''])"
    using assms(2) MkdirAll_faults [OF m] by (simp add: fault_free_def same_faults_def)
  then have "ReadFile s' (Join cfg [''gui-lang'']) = Inr (bytes_of_string lang)" by (rule ReadFile_WriteFile_same [OF w])
  with cfg l show ?thesis by (auto simp: GetLanguage_def)
qed

end
