(* ===== verification/Icon.thy ===== *)
theory Icon
  imports Prelude
begin

text \<open>
  \<open>cmd/cerclbackup-gui/icon.go\<close>: the picture in the tray, a white arrow on a blue disc, and its ICO file for Windows. A picture of 32 by 32 pixels is the
  list of its pixels, row by row from the top. The PNG encoder, which other systems need, is the standard library's and is not modelled.
\<close>

subsection \<open>Pictures\<close>

record NRGBA =
  cR :: "8 word"
  cG :: "8 word"
  cB :: "8 word"
  cA :: "8 word"

type_synonym picture = "NRGBA list"

definition icon_size :: int where "icon_size = 32"

definition no_colour :: NRGBA where
  "no_colour = \<lparr>cR = 0, cG = 0, cB = 0, cA = 0\<rparr>"

definition in_picture :: "int \<Rightarrow> int \<Rightarrow> bool" where
  "in_picture x y \<longleftrightarrow> 0 \<le> x \<and> x < icon_size \<and> 0 \<le> y \<and> y < icon_size"

definition SetNRGBA :: "int \<Rightarrow> int \<Rightarrow> NRGBA \<Rightarrow> picture \<Rightarrow> picture" where
  "SetNRGBA x y c im = (if in_picture x y then im[nat (y * icon_size + x) := c] else im)"

definition NRGBAAt :: "picture \<Rightarrow> int \<Rightarrow> int \<Rightarrow> NRGBA" where
  "NRGBAAt im x y = (if in_picture x y then im ! nat (y * icon_size + x) else no_colour)"

text \<open>Two nested loops that colour the pixels which satisfy a condition.\<close>

definition paint :: "int list \<Rightarrow> (int \<Rightarrow> int list) \<Rightarrow> (int \<Rightarrow> int \<Rightarrow> bool) \<Rightarrow> NRGBA \<Rightarrow> picture \<Rightarrow> picture" where
  "paint ys xs P c im = fold (\<lambda>y. fold (\<lambda>x im. if P x y then SetNRGBA x y c im else im) (xs y)) ys im"

definition bg :: NRGBA where "bg = \<lparr>cR = 30, cG = 100, cB = 200, cA = 255\<rparr>"

definition fg :: NRGBA where "fg = \<lparr>cR = 255, cG = 255, cB = 255, cA = 255\<rparr>"

text \<open>The distance from the centre, with both sides of the comparison doubled and squared.\<close>

definition in_disc :: "int \<Rightarrow> int \<Rightarrow> bool" where
  "in_disc x y \<longleftrightarrow> (2 * x - 31) * (2 * x - 31) + (2 * y - 31) * (2 * y - 31) \<le> 29 * 29"

definition renderIcon :: picture where
  "renderIcon =
     (let img = replicate (nat (icon_size * icon_size)) no_colour;
          img = paint [0..icon_size - 1] (\<lambda>_. [0..icon_size - 1]) in_disc bg img;
          img = paint [13..20] (\<lambda>_. [14..17]) (\<lambda>_ _. True) fg img
      in fold (\<lambda>row im.
           let y = 12 - row; half = row + 1 in paint [y] (\<lambda>_. [15 - half + 1..16 + half - 1]) (\<lambda>_ _. True) fg im) [0..4] img)"

subsection \<open>The ICO file\<close>

definition PutUint16 :: "nat \<Rightarrow> nat \<Rightarrow> bytes \<Rightarrow> bytes" where
  "PutUint16 i v b = b[i := of_nat v, i + 1 := of_nat (v div 256)]"

definition PutUint32 :: "nat \<Rightarrow> nat \<Rightarrow> bytes \<Rightarrow> bytes" where
  "PutUint32 i v b =
     b[i := of_nat v, i + 1 := of_nat (v div 256), i + 2 := of_nat (v div 65536), i + 3 := of_nat (v div 16777216)]"

text \<open>The colours from the bottom row to the top row, blue first.\<close>

definition color_data :: "picture \<Rightarrow> bytes" where
  "color_data img =
     fold (\<lambda>y. fold (\<lambda>x b.
         let c = NRGBAAt img x (icon_size - 1 - y); i = nat ((y * icon_size + x) * 4)
         in b[i := cB c, i + 1 := cG c, i + 2 := cR c, i + 3 := cA c]) [0..icon_size - 1]) [0..icon_size - 1]
       (replicate (nat (icon_size * icon_size * 4)) 0)"

definition dib_header :: "nat \<Rightarrow> bytes" where
  "dib_header n =
     PutUint32 20 n (PutUint16 14 32 (PutUint16 12 1 (PutUint32 8 (nat icon_size * 2)
       (PutUint32 4 (nat icon_size) (PutUint32 0 40 (replicate 40 0))))))"

definition dir_entry :: "nat \<Rightarrow> bytes" where
  "dir_entry n =
     PutUint32 12 (6 + 16) (PutUint32 8 n (PutUint16 6 32 (PutUint16 4 1
       ((replicate 16 0)[0 := of_int icon_size, 1 := of_int icon_size, 2 := 0, 3 := 0]))))"

definition ico_file :: "picture \<Rightarrow> bytes" where
  "ico_file img =
     (let colorData = color_data img;
          maskRowBytes = (icon_size + 31) div 32 * 4;
          andMask = replicate (nat (maskRowBytes * icon_size)) 0;
          dib = dib_header (length colorData + length andMask) @ colorData @ andMask
      in [0, 0, 1, 0, 1, 0] @ dir_entry (length dib) @ dib)"

definition iconICO :: bytes where
  "iconICO = ico_file renderIcon"

subsection \<open>Reading the file back\<close>

text \<open>
  A reader of ICO files, as the format is documented: the directory with one entry, the entry's dimensions and the place of its image, in
  that place a bitmap of 32 bits per pixel with a mask of one bit, both stored from the bottom row up. The picture from
  the top row down, where the mask lets the colours through.
\<close>

definition le16 :: "bytes \<Rightarrow> nat \<Rightarrow> nat" where
  "le16 b i = unat (b ! i) + 256 * unat (b ! (i + 1))"

definition le32 :: "bytes \<Rightarrow> nat \<Rightarrow> nat" where
  "le32 b i = unat (b ! i) + 256 * unat (b ! (i + 1)) + 65536 * unat (b ! (i + 2)) + 16777216 * unat (b ! (i + 3))"

definition read_pixel :: "bytes \<Rightarrow> nat \<Rightarrow> NRGBA" where
  "read_pixel b i = \<lparr>cR = b ! (i + 2), cG = b ! (i + 1), cB = b ! i, cA = b ! (i + 3)\<rparr>"

definition read_DIB :: "nat \<Rightarrow> nat \<Rightarrow> bytes \<Rightarrow> NRGBA list option" where
  "read_DIB w h d =
     (let mask = (w + 31) div 32 * 4 * h in
      if length d < 40 \<or> le32 d 0 \<noteq> 40 \<or> le32 d 4 \<noteq> w \<or> le32 d 8 \<noteq> 2 * h \<or> le16 d 12 \<noteq> 1 \<or> le16 d 14 \<noteq> 32 \<or> le32 d 16 \<noteq> 0
         \<or> le32 d 20 \<noteq> w * h * 4 + mask \<or> length d \<noteq> 40 + w * h * 4 + mask \<or> drop (40 + w * h * 4) d \<noteq> replicate mask 0
      then None
      else Some (concat (map (\<lambda>y. map (\<lambda>x. read_pixel d (40 + ((h - 1 - y) * w + x) * 4)) [0..<w]) [0..<h])))"

definition read_ICO :: "bytes \<Rightarrow> (nat \<times> nat \<times> NRGBA list) option" where
  "read_ICO b =
     (if length b < 22 \<or> take 6 b \<noteq> [0, 0, 1, 0, 1, 0] \<or> le16 b 10 \<noteq> 1 \<or> le16 b 12 \<noteq> 32 then None
      else
        let w = unat (b ! 6); h = unat (b ! 7); n = le32 b 14; off = le32 b 18 in
        if length b \<noteq> off + n then None
        else (case read_DIB w h (drop off b) of None \<Rightarrow> None | Some p \<Rightarrow> Some (w, h, p)))"

subsection \<open>Loops over rows and columns\<close>

lemma upto_upt: "[0..int n - 1] = map int [0..<n]"
  by (induction n) (simp_all add: upto_rec2)

lemma fold_rows: "fold (\<lambda>y. fold (\<lambda>x. g (y * w + x)) [0..<w]) [0..<h] s = fold g [0..<h * w] s"
proof (induction h)
  case (Suc h)
  have "[0..<Suc h * w] = [0..<h * w] @ map (\<lambda>x. h * w + x) [0..<w]"
    using upt_add_eq_append [of 0 "h * w" w] by (simp add: map_add_upt add.commute)
  with Suc show ?case by (simp add: fold_map comp_def)
qed simp

lemma concat_rows: "concat (map (\<lambda>y. map (\<lambda>x. g (y * w + x)) [0..<w]) [0..<h]) = map g [0..<h * w]"
proof (induction h)
  case (Suc h)
  have "[0..<Suc h * w] = [0..<h * w] @ map (\<lambda>x. h * w + x) [0..<w]"
    using upt_add_eq_append [of 0 "h * w" w] by (simp add: map_add_upt add.commute)
  with Suc show ?case by (simp add: comp_def)
qed simp

definition put4 :: "nat \<Rightarrow> bytes \<Rightarrow> bytes \<Rightarrow> bytes" where
  "put4 p v b = b[4 * p := v ! 0, 4 * p + 1 := v ! 1, 4 * p + 2 := v ! 2, 4 * p + 3 := v ! 3]"

lemma length_blocks: "(\<And>p. length (f p) = 4) \<Longrightarrow> length (concat (map f [0..<n])) = 4 * n"
  by (induction n) simp_all

lemma put4_append:
  assumes "length xs = 4 * p" and "length v = 4"
  shows "put4 p v (xs @ replicate (Suc m * 4) 0) = (xs @ v) @ replicate (m * 4) 0"
proof -
  obtain a b c d where v: "v = [a, b, c, d]" using assms(2) by (auto simp: numeral_eq_Suc length_Suc_conv)
  have r: "replicate (Suc m * 4) (0 :: 8 word) = [0, 0, 0, 0] @ replicate (m * 4) 0" by (simp add: numeral_eq_Suc)
  show ?thesis unfolding r using assms(1) by (simp add: put4_def v list_update_append)
qed

lemma fold_put4: "(\<And>p. length (f p) = 4) \<Longrightarrow> n \<le> m \<Longrightarrow>
  fold (\<lambda>p. put4 p (f p)) [0..<n] (replicate (m * 4) 0) = concat (map f [0..<n]) @ replicate ((m - n) * 4) 0"
proof (induction n)
  case (Suc n)
  have "m - n = Suc (m - Suc n)" using Suc.prems(2) by simp
  with Suc put4_append [of "concat (map f [0..<n])" n "f n" "m - Suc n"] length_blocks [of f n] show ?case by simp
qed simp

lemma nth_block: "(\<And>p. length (f p) = 4) \<Longrightarrow> p < n \<Longrightarrow> k < 4 \<Longrightarrow> concat (map f [0..<n]) ! (4 * p + k) = f p ! k"
proof (induction n)
  case (Suc n)
  show ?case
  proof (cases "p = n")
    case True
    with Suc.prems length_blocks [of f n] show ?thesis by (simp add: nth_append)
  next
    case False
    with Suc.prems have "p < n" by simp
    then have "4 * p + k < length (concat (map f [0..<n]))" using Suc.prems(3) length_blocks [of f n, OF Suc.prems(1)] by simp
    with Suc \<open>p < n\<close> show ?thesis by (simp add: nth_append)
  qed
qed simp

definition pixel_bytes :: "picture \<Rightarrow> nat \<Rightarrow> bytes" where
  "pixel_bytes img p = (let c = NRGBAAt img (int (p mod 32)) (31 - int (p div 32)) in [cB c, cG c, cR c, cA c])"

lemma length_pixel_bytes [simp]: "length (pixel_bytes img p) = 4"
  by (simp add: pixel_bytes_def Let_def)

lemma color_data_rows: "color_data img = concat (map (pixel_bytes img) [0..<1024])"
proof -
  have i: "nat (128 * int y + int x * 4) = 4 * (y * 32 + x)" for x y by simp
  have inner: "fold (\<lambda>x b. let c = NRGBAAt img (int x) (31 - int y); i = nat ((int y * 32 + int x) * 4)
                        in b[i := cB c, i + 1 := cG c, i + 2 := cR c, i + 3 := cA c]) [0..<32]
             = fold (\<lambda>x. put4 (y * 32 + x) (pixel_bytes img (y * 32 + x))) [0..<32]" for y
    by (rule ext, rule fold_cong) (auto simp: put4_def pixel_bytes_def Let_def i simp del: of_nat_add of_nat_mult)
  have "color_data img = fold (\<lambda>y. fold (\<lambda>x. put4 (y * 32 + x) (pixel_bytes img (y * 32 + x))) [0..<32]) [0..<32]
      (replicate (1024 * 4) 0)"
    using inner upto_upt [of 32] by (simp add: color_data_def icon_size_def fold_map comp_def)
  also have "\<dots> = concat (map (pixel_bytes img) [0..<1024])"
    using fold_rows [of "\<lambda>p. put4 p (pixel_bytes img p)" 32 32] fold_put4 [of "pixel_bytes img" 1024 1024] by simp
  finally show ?thesis .
qed


subsection \<open>The file\<close>

lemma length_color_data: "length (color_data img) = 4096"
  using length_blocks [of "pixel_bytes img" 1024] by (simp add: color_data_rows)

lemma list_update_numeral: "(x # xs)[numeral k := v] = x # xs[pred_numeral k := v]"
  by (simp add: numeral_eq_Suc)

lemma replicate_numeral: "replicate (numeral k) x = x # replicate (pred_numeral k) x"
  by (simp add: numeral_eq_Suc)

lemma dib_header_value:
  "dib_header 4224 = [40, 0, 0, 0, 32, 0, 0, 0, 64, 0, 0, 0, 1, 0, 32, 0, 0, 0, 0, 0, 128, 16, 0, 0] @ replicate 16 0"
  by (simp add: dib_header_def PutUint32_def PutUint16_def icon_size_def replicate_numeral list_update_numeral)

lemma dir_entry_value: "dir_entry 4264 = [32, 32, 0, 0, 1, 0, 32, 0, 168, 16, 0, 0, 22, 0, 0, 0]"
  by (simp add: dir_entry_def PutUint32_def PutUint16_def icon_size_def replicate_numeral list_update_numeral)

lemma ico_file_parts:
  "ico_file img = [0, 0, 1, 0, 1, 0] @ dir_entry 4264 @ dib_header 4224 @ color_data img @ replicate 128 0"
  by (simp add: ico_file_def Let_def length_color_data icon_size_def dib_header_value)

lemma read_pixel_color_data:
  assumes "length h = 40" and "x < 32" and "y < 32" and "length img = 1024"
  shows "read_pixel (h @ color_data img @ m) (40 + ((31 - y) * 32 + x) * 4) = img ! (y * 32 + x)"
proof -
  define p where "p = (31 - y) * 32 + x"
  have p: "p < 1024" "p mod 32 = x" "p div 32 = 31 - y" using assms(2,3) by (auto simp: p_def)
  have at: "(h @ color_data img @ m) ! (40 + p * 4 + k) = pixel_bytes img p ! k" if "k < 4" for k
  proof -
    have "4 * p + k < length (color_data img)" using p(1) that by (simp add: length_color_data)
    then have "(h @ color_data img @ m) ! (40 + p * 4 + k) = color_data img ! (4 * p + k)"
      using assms(1) by (simp add: nth_append mult.commute)
    then show ?thesis using nth_block [of "pixel_bytes img" p 1024 k] p(1) that by (simp add: color_data_rows)
  qed
  have "NRGBAAt img (int x) (31 - int (31 - y)) = img ! (y * 32 + x)"
    using assms(2,3) by (simp add: NRGBAAt_def in_picture_def icon_size_def of_nat_diff nat_add_distrib nat_mult_distrib)
  then show ?thesis
    using at [of 0] at [of 1] at [of 2] at [of 3] by (simp add: read_pixel_def p_def [symmetric] pixel_bytes_def p Let_def)
qed

text \<open>Every picture comes back from its file.\<close>

lemma read_ico_file:
  assumes "length img = 1024"
  shows "read_ICO (ico_file img) = Some (32, 32, img)"
proof -
  define d where "d = dib_header 4224 @ color_data img @ replicate 128 0"
  have h: "length (dib_header 4224) = 40" by (simp add: dib_header_value)
  have rows: "concat (map (\<lambda>y. map (\<lambda>x. read_pixel d (40 + ((32 - 1 - y) * 32 + x) * 4)) [0..<32]) [0..<32])
      = concat (map (\<lambda>y. map (\<lambda>x. img ! (y * 32 + x)) [0..<32]) [0..<32])"
    using read_pixel_color_data [OF h _ _ assms] by (intro arg_cong [of _ _ concat] map_cong refl) (simp add: d_def)
  have head: "le32 d 0 = 40" "le32 d 4 = 32" "le32 d 8 = 64" "le16 d 12 = 1" "le16 d 14 = 32" "le32 d 16 = 0" "le32 d 20 = 4224"
    by (simp_all add: d_def dib_header_value le32_def le16_def)
  have len: "length d = 4264" by (simp add: d_def h length_color_data)
  have mask: "drop 4136 d = replicate 128 0" by (simp add: d_def h length_color_data)
  have "read_DIB 32 32 d = Some (concat (map (\<lambda>y. map (\<lambda>x. img ! (y * 32 + x)) [0..<32]) [0..<32]))"
    unfolding rows [symmetric] using head len mask by (simp add: read_DIB_def Let_def)
  moreover have "concat (map (\<lambda>y. map (\<lambda>x. img ! (y * 32 + x)) [0..<32]) [0..<32]) = img"
    using concat_rows [of "\<lambda>p. img ! p" 32 32] map_nth [of img] assms by simp
  ultimately show ?thesis
    using len
    by (simp add: read_ICO_def ico_file_parts dir_entry_value le16_def le32_def Let_def d_def [symmetric])
qed

subsection \<open>The picture\<close>

lemma length_SetNRGBA [simp]: "length (SetNRGBA x y c im) = length im"
  by (simp add: SetNRGBA_def)

lemma length_row [simp]: "length (fold (\<lambda>x im. if P x y then SetNRGBA x y c im else im) xs im) = length im"
  by (induction xs arbitrary: im) simp_all

lemma length_paint [simp]: "length (paint ys xs P c im) = length im"
  unfolding paint_def by (induction ys arbitrary: im) simp_all

lemma in_picture_index: "in_picture x y \<Longrightarrow> nat (y * icon_size + x) < 1024"
  unfolding in_picture_def icon_size_def by linarith

lemma in_picture_unique:
  "in_picture x y \<Longrightarrow> in_picture u v \<Longrightarrow> nat (y * icon_size + x) = nat (v * icon_size + u) \<longleftrightarrow> x = u \<and> y = v"
proof -
  assume p: "in_picture x y" "in_picture u v"
  then have b: "0 \<le> x" "x < 32" "0 \<le> u" "u < 32" "0 \<le> y" "0 \<le> v" by (simp_all add: in_picture_def icon_size_def)
  have "y = v" if "y * 32 + x = v * 32 + u"
  proof (rule ccontr)
    assume "y \<noteq> v"
    then have "y + 1 \<le> v \<or> v + 1 \<le> y" by linarith
    with that b show False by linarith
  qed
  then have "y * 32 + x = v * 32 + u \<longleftrightarrow> x = u \<and> y = v" by auto
  moreover have "nat (y * 32 + x) = nat (v * 32 + u) \<longleftrightarrow> y * 32 + x = v * 32 + u" using b by (intro eq_nat_nat_iff) simp_all
  ultimately show ?thesis by (simp add: icon_size_def)
qed

lemma NRGBAAt_SetNRGBA:
  "length im = 1024 \<Longrightarrow> NRGBAAt (SetNRGBA x y c im) u v = (if in_picture u v \<and> u = x \<and> v = y then c else NRGBAAt im u v)"
  using in_picture_index [of x y] in_picture_unique [of x y u v]
  by (auto simp: NRGBAAt_def SetNRGBA_def nth_list_update)

lemma NRGBAAt_row:
  "length im = 1024 \<Longrightarrow> NRGBAAt (fold (\<lambda>x im. if P x y then SetNRGBA x y c im else im) xs im) u v
     = (if in_picture u v \<and> v = y \<and> u \<in> set xs \<and> P u v then c else NRGBAAt im u v)"
  by (induction xs arbitrary: im) (auto simp: NRGBAAt_SetNRGBA)

lemma NRGBAAt_paint:
  "length im = 1024 \<Longrightarrow> NRGBAAt (paint ys xs P c im) u v
     = (if in_picture u v \<and> v \<in> set ys \<and> u \<in> set (xs v) \<and> P u v then c else NRGBAAt im u v)"
  unfolding paint_def by (induction ys arbitrary: im) (auto simp: NRGBAAt_row)

lemma NRGBAAt_head:
  "length im = 1024 \<Longrightarrow>
     NRGBAAt (fold (\<lambda>row im. let y = 12 - row; half = row + 1 in paint [y] (\<lambda>_. [15 - half + 1..16 + half - 1]) (\<lambda>_ _. True) c im) rows im) u v
       = (if in_picture u v \<and> 12 - v \<in> set rows \<and> v + 3 \<le> u \<and> u \<le> 28 - v then c else NRGBAAt im u v)"
  by (induction rows arbitrary: im) (auto simp: NRGBAAt_paint Let_def)

text \<open>The arrow: a shaft of four by eight pixels, and a head of five rows that narrows by one pixel on each side per row.\<close>

definition in_arrow :: "int \<Rightarrow> int \<Rightarrow> bool" where
  "in_arrow x y \<longleftrightarrow> (13 \<le> y \<and> y \<le> 20 \<and> 14 \<le> x \<and> x \<le> 17) \<or> (8 \<le> y \<and> y \<le> 12 \<and> y + 3 \<le> x \<and> x \<le> 28 - y)"

lemma length_renderIcon: "length renderIcon = 1024"
  by (simp add: renderIcon_def Let_def icon_size_def upto_rec1)

lemma NRGBAAt_renderIcon:
  "NRGBAAt renderIcon x y =
     (if \<not> in_picture x y then no_colour else if in_arrow x y then fg else if in_disc x y then bg else no_colour)"
proof -
  have area: "in_picture x y \<Longrightarrow> y \<le> 31 \<and> 0 \<le> y \<and> x \<le> 31 \<and> 0 \<le> x"
    by (auto simp: in_picture_def icon_size_def)
  have start: "NRGBAAt (replicate 1024 no_colour) x y = no_colour"
    using in_picture_index [of x y] by (simp add: NRGBAAt_def)
  show ?thesis
    unfolding renderIcon_def Let_def
    by (subst NRGBAAt_head [unfolded Let_def]) (use area in \<open>auto simp: NRGBAAt_paint start icon_size_def in_arrow_def simp del: upto_rec_numeral\<close>)
qed

text \<open>The arrow lies in the disc.\<close>

lemma arrow_in_disc: "in_arrow x y \<Longrightarrow> in_disc x y"
proof -
  assume "in_arrow x y"
  then have "11 \<le> x \<and> x \<le> 20 \<and> 8 \<le> y \<and> y \<le> 20" unfolding in_arrow_def by presburger
  then have "\<bar>2 * x - 31\<bar> \<le> 9" "\<bar>2 * y - 31\<bar> \<le> 15" by auto
  then have "(2 * x - 31) * (2 * x - 31) \<le> 9 * 9" "(2 * y - 31) * (2 * y - 31) \<le> 15 * 15"
    using abs_le_square_iff [of "2 * x - 31" 9] abs_le_square_iff [of "2 * y - 31" 15] by (simp_all add: power2_eq_square)
  then show ?thesis by (simp add: in_disc_def)
qed

text \<open>The tray icon for Windows is the picture. A reader of the documented ICO format finds in \<open>iconICO\<close> one bitmap of 32 by 32 pixels with
consistent sizes and offsets, and in it, the right way up and with the colours in their places, the white arrow on the blue
disc on a transparent ground.\<close>

theorem icon_file_shows_the_arrow:
  "\<exists>p. read_ICO iconICO = Some (32, 32, p)
     \<and> (\<forall>x y. NRGBAAt p x y =
          (if \<not> in_picture x y then no_colour else if in_arrow x y then fg else if in_disc x y then bg else no_colour))"
  using read_ico_file [OF length_renderIcon] NRGBAAt_renderIcon by (simp add: iconICO_def)

end
