(* ===== verification/Spec2Isabelle.thy ===== *)
theory Spec2Isabelle
  imports Cli_Agreement Gui_Session Icon
begin

text \<open>
  CerclBackup, a peer-to-peer backup program: files are cut into chunks, compressed, split into Reed-Solomon shards,
  encrypted shard by shard, stored locally and pushed to the machines of trusted buddies; an encrypted manifest
  records which version of which file lies in which shards. This development models the Go code under \<open>src/internal\<close>,
  \<open>src/pkg\<close> and \<open>src/cmd\<close>, function by function, and proves what makes it correct, or where it is not, what it does.

  \<^bold>\<open>How the code is read.\<close> A struct is a record with its fields (a prefix tells the fields of different structs apart),
  a function that returns \<open>(T, error)\<close> returns \<open>error + T\<close> (\<open>'a result\<close> of theory \<open>Prelude\<close>), a method that changes its
  receiver or the disk returns both. A panic is an error value \<open>Panic\<close>. Go's \<open>int\<close> is \<open>int\<close> with \<open>wrap64\<close> wherever the
  code's sums can leave 64 bits; byte strings are lists of \<open>8 word\<close>. A loop whose end is not evident (the read loop
  of \<open>ChunkReader\<close>) is a \<open>partial_function (option)\<close>, and that it ends is a theorem; no definition uses fuel. Goroutines
  that interleave are step relations (the watcher, the retry queue, the rate limiter, the handlers of a node). The
  order in which Go iterates over a map is an argument, random bytes and the clock are arguments, and so is
  everything that the network answers.

  \<^bold>\<open>The parts.\<close>

  \<^item> Foundations. \<open>Prelude\<close>: bytes, errors, results, 64-bit integers, lists. \<open>Go_Strings\<close>, \<open>Go_Time\<close>, \<open>Go_Base64\<close>,
  \<open>Go_Crypto\<close> (SHA-256 and AES-GCM, executable), \<open>Go_FS\<close> (cleaned paths, a file system with injected faults and the
  functions of \<open>os\<close> and \<open>path/filepath\<close>), \<open>Go_Flag\<close> (flag sets and the parsers of their values), \<open>Go_Fmt\<close> (columns, dates, decimals) and \<open>Json\<close> (a codec with its round-trip law, and lawful formats for the
  witnesses) model what the source uses of the standard library. \<open>External\<close>: Reed-Solomon, zstd, Argon2 and
  HKDF as a record of functions with their documented laws. \<open>Persist\<close>: the contract of a file that keeps a state, as a
  locale, with the read-modify-write operation that most components perform on one.

  \<^item> Data and pipeline. \<open>Protocol\<close> (\<open>pkg/protocol\<close>), \<open>Wire\<close> (\<open>pkg/wire\<close>: length-prefixed messages), \<open>Chunker\<close>, \<open>Compress\<close>,
  \<open>Codec\<close>, \<open>Crypto\<close> (\<open>crypto/encryptor.go\<close>).

  \<^item> State on disk. \<open>Keystore\<close>, \<open>Storage\<close> (the local shards), \<open>Buddy_Store\<close> (the shards of others), \<open>Manifest\<close>, \<open>Registry\<close>
  (the buddies), \<open>Invite\<close> (tokens and commitments), \<open>Queue\<close> (pushes to retry), \<open>Circles\<close>, \<open>Tray\<close> (status file), \<open>Config\<close>,
  \<open>Identity\<close> (seed, phrase, peer key). Each has its record, one definition per operation, its invariant and
  the laws of its locale, discharged by an interpretation: \<open>persistent\<close> by the key store, the manifest, the registry, the
  invites and the queue; \<open>shard_store\<close> and \<open>total_shard_store\<close> by the two shard stores; \<open>cipher\<close> by AES-GCM and the
  shard encryption; \<open>framed\<close> by the messages; \<open>atomic_file\<close> by the tray files; \<open>extraStore\<close> by the key store.

  \<^item> Peers. \<open>Handlers\<close> (\<open>p2p/handler.go\<close>, \<open>p2p/sender.go\<close>: the four stream handlers as functions of a node's state and
  the bytes of a stream, and the sending side), \<open>Manifdist\<close>, \<open>Dialer\<close> (\<open>p2p/dialer.go\<close>, \<open>p2p/discovery.go\<close>), \<open>Rate_Limit\<close>,
  \<open>Scrubber\<close>, \<open>Rebalancer\<close>, \<open>Serve\<close> (\<open>api/serve.go\<close>, \<open>p2p/relay.go\<close>).

  \<^item> Operations. \<open>Api_Shared\<close> (\<open>api/shared.go\<close>, and \<open>env\<close>, the surroundings of an operation), \<open>Backup\<close>, \<open>Restore\<close>, \<open>Exclude\<close>,
  \<open>Listing\<close>, \<open>Maintenance\<close>, \<open>Archive\<close> (\<open>api/data.go\<close>, \<open>archive\<close>), \<open>Setup\<close>, \<open>Inviting\<close>, \<open>Email_Invite\<close>, \<open>Diagnostics\<close>,
  \<open>Watcher\<close> and \<open>Watch\<close>. Each opens the state from disk, works on it and saves it, as the code does.

  \<^item> Front ends. \<open>Front_End\<close>: the libraries and random draws that both use. \<open>Gui\<close> (\<open>cmd/cerclbackup-gui/app.go\<close>): the back end of the
  graphical interface, a session with its password and handles, its methods as requests, and the runs of a
  session. \<open>Cli\<close> (\<open>cmd/cerclbackup\<close>): each command as a function from the arguments and the disk to the disk, the way the process ends and
  what it prints; \<open>main\<close> puts the configuration and the commands together. \<open>Icon\<close> (\<open>cmd/cerclbackup-gui/icon.go\<close>): the picture in the tray and
  its ICO file.

  \<^bold>\<open>What is shown.\<close>

  \<^item> The purpose of the program (\<open>Pipeline\<close>, \<open>Backup_Run\<close>): \<open>Backup\<close> ends; every file that it reports without an error can be restored
  from any later state that still has enough of its shards, locally or with buddies; a restore never passes
  damaged data off as restored. \<open>Watch\<close> carries this to a watch session, where \<open>Watcher\<close> shows that no change is lost
  and that the handler waits for the debounce time.

  \<^item> Setting up, recovering and pairing (\<open>Setup\<close>, \<open>Handshake\<close>, \<open>Email_Invite\<close>): \<open>Init\<close> leaves a working machine, its phrase
  gives back the peer, and an invitation, by code or by e-mail, makes two peers that authenticate each other.

  \<^item> The peer's side (\<open>Handlers\<close>, \<open>Buddy_Store\<close>): only authenticated buddies store or read, only an owner changes its shards, and
  nothing is written outside the owner's directory. \<open>Serve\<close>: relaying serves buddies only.

  \<^item> Each store: round trips, no lost update, single use of tokens, order and retention of versions, the types
  that every operation keeps, the refinement of circles to a list.

  \<^item> Maintenance: what audit, prune, rebalance, scrub, doctor and dashboard report is what there is, under the file ids
  that they use; that these are not the ids under which a backup stores its shards is shown as well.

  \<^item> The front ends (\<open>Gui_Session\<close>, \<open>Cli_Agreement\<close>, \<open>Cli_Behaviour\<close>): the password of a session opens the key store, a locked session
  changes nothing, every request with a command does on the command line what it does in the window, and what flags,
  settings, piped passwords and sizes on the command line come to. A reader of the ICO format finds the picture in its file (\<open>Icon\<close>).

  Third-party code appears in hypotheses: \<open>lawful\<close> (a shard set reconstructs from any data-count shards, zstd decompresses
  what it compressed), \<open>inverts\<close> (a JSON round trip of the value at hand), and the laws of Ed25519 and BIP39 where an
  invitation needs them. Cryptographic strength is not claimed: where a property needs that two digests differ, the
  hypothesis says which. Every property with a hypothesis has a witness on a concrete disk (\<open>Demo_World\<close>).

  \<^bold>\<open>Bounds.\<close> \<open>Rate_Limit\<close> computes over the rationals where the code uses floats. The debounce generations of the watcher
  are unbounded, where the code's wrap after \<open>2 ^ 64\<close> events of one path. Files larger than memory are not an issue of
  the model; sizes are those of the lists. The sizes and ratios that the command line prints, and the fractions of a duration flag, are
  rounded from exact quotients, the code's from floats. A path is absolute: a relative argument of the command line is resolved against the
  working directory, where the code keeps its text, also in the manifest.

  \<^bold>\<open>Not modelled.\<close> The behaviour of libp2p (hosts, transport, hole punching, the DHT of \<open>p2p/dht.go\<close>), of the operating system's
  credential store and of the YAML, tar and gzip libraries, all of which are parameters. The window and the tray of the
  graphical interface, which are calls of Wails and systray, the PNG encoder of its icon and the variants for Windows. Log and progress
  lines of \<open>internal/api\<close>, the usage texts of flag sets, and the text of most errors (\<open>tmText\<close> of \<open>Cli\<close> stands for it). The helpers of the tests
  (\<open>internal/testutil\<close>).
\<close>

end
